(* ===== verification/Prelude.thy ===== *)
theory Prelude
  imports Main "HOL-Library.Word" "HOL-Library.Sublist"
begin

text \<open>
  What the components share: the result type of fallible code, the string operations of the
  Rust standard library that the sources call (a Rust string is the list of its UTF-8 bytes,
  a HOL \<open>string\<close>), durations with their overflow behaviour, association-list tables, and
  the collections of facts the component proofs use.
\<close>

named_theorems imauth_defs \<open>definitions of the model that proofs unfold together\<close>
named_theorems str_simps \<open>evaluation and normalisation of the string operations\<close>

section \<open>Results\<close>

text \<open>
  \<open>Result<T, E>\<close> is the sum \<open>'e + 'a\<close> with the error on the left. \<open>res_bind\<close> is the
  \<open>?\<close> operator (stop at the first error), \<open>map_err\<close> and \<open>or_else\<close> are the methods of the
  same name.
\<close>

fun res_bind :: "'e + 'a \<Rightarrow> ('a \<Rightarrow> 'e + 'b) \<Rightarrow> 'e + 'b" where
  "res_bind (Inl e) f = Inl e"
| "res_bind (Inr x) f = f x"

fun map_err :: "('e \<Rightarrow> 'f) \<Rightarrow> 'e + 'a \<Rightarrow> 'f + 'a" where
  "map_err f (Inl e) = Inl (f e)"
| "map_err f (Inr x) = Inr x"

fun or_else :: "'e + 'a \<Rightarrow> ('e \<Rightarrow> 'f + 'a) \<Rightarrow> 'f + 'a" where
  "or_else (Inl e) f = f e"
| "or_else (Inr x) f = Inr x"

fun res_ok :: "'e + 'a \<Rightarrow> 'a option" where
  "res_ok (Inl e) = None"
| "res_ok (Inr x) = Some x"

fun is_ok :: "'e + 'a \<Rightarrow> bool" where
  "is_ok (Inl e) = False"
| "is_ok (Inr x) = True"

lemma res_bind_Inr_iff: "res_bind r f = Inr y \<longleftrightarrow> (\<exists>x. r = Inr x \<and> f x = Inr y)"
  by (cases r) auto

lemma res_bind_Inl_iff: "res_bind r f = Inl e \<longleftrightarrow> r = Inl e \<or> (\<exists>x. r = Inr x \<and> f x = Inl e)"
  by (cases r) auto

lemma map_err_Inr_iff [simp]: "map_err f r = Inr x \<longleftrightarrow> r = Inr x"
  by (cases r) auto

lemma map_err_Inl_iff: "map_err f r = Inl e \<longleftrightarrow> (\<exists>e'. r = Inl e' \<and> e = f e')"
  by (cases r) auto

lemma or_else_Inr_iff: "or_else r f = Inr x \<longleftrightarrow> r = Inr x \<or> (\<exists>e. r = Inl e \<and> f e = Inr x)"
  by (cases r) auto

lemma is_ok_iff: "is_ok r \<longleftrightarrow> (\<exists>x. r = Inr x)"
  by (cases r) auto

lemmas res_iffs = res_bind_Inr_iff res_bind_Inl_iff map_err_Inl_iff or_else_Inr_iff

section \<open>Strings\<close>

text \<open>\<open>str::starts_with\<close>, \<open>ends_with\<close>, \<open>strip_prefix\<close> with a string pattern.\<close>

definition starts_with :: "string \<Rightarrow> string \<Rightarrow> bool" where
  "starts_with s p = (take (length p) s = p)"

definition ends_with :: "string \<Rightarrow> string \<Rightarrow> bool" where
  "ends_with s p = (length p \<le> length s \<and> drop (length s - length p) s = p)"

definition strip_prefix :: "string \<Rightarrow> string \<Rightarrow> string option" where
  "strip_prefix s p = (if starts_with s p then Some (drop (length p) s) else None)"

lemma starts_with_iff: "starts_with s p \<longleftrightarrow> (\<exists>r. s = p @ r)"
  by (metis append_eq_conv_conj append_take_drop_id starts_with_def)

lemma ends_with_iff: "ends_with s p \<longleftrightarrow> (\<exists>r. s = r @ p)"
proof
  assume "ends_with s p"
  then have "s = take (length s - length p) s @ p"
    by (metis append_take_drop_id ends_with_def)
  then show "\<exists>r. s = r @ p" by blast
qed (auto simp: ends_with_def)

lemma strip_prefix_Some_iff: "strip_prefix s p = Some r \<longleftrightarrow> s = p @ r"
  by (auto simp: strip_prefix_def starts_with_iff)

lemma strip_prefix_append [simp]: "strip_prefix (p @ r) p = Some r"
  by (simp add: strip_prefix_Some_iff)

lemma strip_prefix_None_iff: "strip_prefix s p = None \<longleftrightarrow> \<not> starts_with s p"
  by (simp add: strip_prefix_def)

text \<open>
  \<open>to_ascii_lowercase\<close>: the bytes A to Z move to a to z, every other byte stays.
\<close>

definition lower_char :: "char \<Rightarrow> char" where
  "lower_char c = (let n = of_char c :: nat in if 65 \<le> n \<and> n \<le> 90 then char_of (n + 32) else c)"

definition to_ascii_lowercase :: "string \<Rightarrow> string" where
  "to_ascii_lowercase s = map lower_char s"

lemma of_char_lower: "of_char (lower_char c) =
    (let n = of_char c :: nat in if 65 \<le> n \<and> n \<le> 90 then n + 32 else n)"
  by (auto simp: lower_char_def Let_def of_char_of take_bit_eq_mod)

lemma lower_char_idem [simp]: "lower_char (lower_char c) = lower_char c"
proof -
  have "of_char (lower_char (lower_char c)) = (of_char (lower_char c) :: nat)"
    by (simp only: of_char_lower) (simp add: Let_def)
  then show ?thesis by (simp only: of_char_eq_iff)
qed

lemma to_ascii_lowercase_idem [simp]:
  "to_ascii_lowercase (to_ascii_lowercase s) = to_ascii_lowercase s"
  by (simp add: to_ascii_lowercase_def)

lemma to_ascii_lowercase_append [simp]:
  "to_ascii_lowercase (s @ t) = to_ascii_lowercase s @ to_ascii_lowercase t"
  by (simp add: to_ascii_lowercase_def)

text \<open>\<open>trim_start_matches(c)\<close> and \<open>trim_end_matches([..])\<close> with characters as the pattern.\<close>

definition trim_start_matches :: "string \<Rightarrow> char \<Rightarrow> string" where
  "trim_start_matches s c = dropWhile (\<lambda>x. x = c) s"

definition trim_end_matches :: "string \<Rightarrow> char list \<Rightarrow> string" where
  "trim_end_matches s cs = rev (dropWhile (\<lambda>x. x \<in> set cs) (rev s))"

text \<open>
  \<open>str::split(c)\<close> yields one piece more than there are separators (\<open>[""]\<close> for the empty
  string); \<open>[..].join(sep)\<close> is its inverse on pieces without the separator.
\<close>

fun split_on :: "char \<Rightarrow> string \<Rightarrow> string list" where
  "split_on c [] = [[]]"
| "split_on c (x # xs) =
     (if x = c then [] # split_on c xs
      else (case split_on c xs of [] \<Rightarrow> [[x]] | p # ps \<Rightarrow> (x # p) # ps))"

fun join :: "string \<Rightarrow> string list \<Rightarrow> string" where
  "join sep [] = []"
| "join sep [x] = x"
| "join sep (x # y # ys) = x @ sep @ join sep (y # ys)"

lemma split_on_neq_Nil [simp]: "split_on c s \<noteq> []"
  by (induction c s rule: split_on.induct) (auto split: list.splits)

lemma split_on_no_sep: "c \<notin> set s \<Longrightarrow> split_on c s = [s]"
  by (induction s) auto

lemma split_on_append_sep:
  "c \<notin> set s \<Longrightarrow> split_on c (s @ c # t) = s # split_on c t"
  by (induction s) auto

lemma split_on_pieces: "p \<in> set (split_on c s) \<Longrightarrow> c \<notin> set p"
  by (induction c s arbitrary: p rule: split_on.induct) (auto split: if_splits list.splits)

lemma join_split_on: "join [c] (split_on c s) = s"
proof (induction s)
  case Nil
  then show ?case by simp
next
  case (Cons x s)
  then show ?case by (cases "split_on c s" rule: list.exhaust; cases "tl (split_on c s)") auto
qed

lemma split_on_join:
  "ps \<noteq> [] \<Longrightarrow> \<forall>p\<in>set ps. c \<notin> set p \<Longrightarrow> split_on c (join [c] ps) = ps"
proof (induction "[c]" ps rule: join.induct)
  case (3 x y ys)
  then show ?case by (simp add: split_on_append_sep)
qed (auto simp: split_on_no_sep)

lemma split_on_append:
  "split_on c (s @ c # t) = split_on c s @ split_on c t"
proof (induction s)
  case (Cons x s)
  then show ?case by (cases "split_on c s") auto
qed simp

lemma join_append:
  "ps \<noteq> [] \<Longrightarrow> qs \<noteq> [] \<Longrightarrow> join sep (ps @ qs) = join sep ps @ sep @ join sep qs"
proof (induction sep ps rule: join.induct)
  case (2 sep x)
  then show ?case by (cases qs) auto
qed auto

text \<open>
  The pieces of a string are a final segment of the pieces of another exactly when the string
  is all of the other or follows a separator in it.
\<close>

lemma suffix_split_on_iff:
  "suffix (split_on c a) (split_on c x) \<longleftrightarrow> x = a \<or> ends_with x (c # a)"
proof
  assume "suffix (split_on c a) (split_on c x)"
  then obtain ps where ps: "split_on c x = ps @ split_on c a" by (auto simp: suffix_def)
  show "x = a \<or> ends_with x (c # a)"
  proof (cases "ps = []")
    case True
    with ps show ?thesis by (metis append_Nil join_split_on)
  next
    case False
    then have "x = join [c] ps @ [c] @ a"
      using ps join_append [OF False split_on_neq_Nil, of "[c]" c a]
      by (metis join_split_on)
    then show ?thesis by (auto simp: ends_with_iff)
  qed
next
  assume "x = a \<or> ends_with x (c # a)"
  then show "suffix (split_on c a) (split_on c x)"
    by (auto simp: ends_with_iff split_on_append suffix_def)
qed

text \<open>
  \<open>str::to_lowercase\<close>. Every byte outside A to Z is kept: the Unicode mapping of characters
  outside ASCII is not modelled. The sources use it to compare with names without a \<open>k\<close>;
  apart from the Kelvin sign, which maps to \<open>k\<close>, the lower case of a character outside
  ASCII holds a byte outside ASCII, so the comparisons decide the same.
\<close>

definition to_lowercase :: "string \<Rightarrow> string" where
  "to_lowercase s = to_ascii_lowercase s"

text \<open>
  \<open>str::trim\<close> removes every leading and trailing character with the Unicode property
  White_Space; the list holds their UTF-8 encodings. An encoding that is a prefix (suffix) of
  a valid string is its first (last) character.
\<close>

definition unicode_ws :: "string list" where
  "unicode_ws =
     [[CHR 0x09], [CHR 0x0A], [CHR 0x0B], [CHR 0x0C], [CHR 0x0D], [CHR 0x20],
      [CHR 0xC2, CHR 0x85], [CHR 0xC2, CHR 0xA0], [CHR 0xE1, CHR 0x9A, CHR 0x80],
      [CHR 0xE2, CHR 0x80, CHR 0x80], [CHR 0xE2, CHR 0x80, CHR 0x81],
      [CHR 0xE2, CHR 0x80, CHR 0x82], [CHR 0xE2, CHR 0x80, CHR 0x83],
      [CHR 0xE2, CHR 0x80, CHR 0x84], [CHR 0xE2, CHR 0x80, CHR 0x85],
      [CHR 0xE2, CHR 0x80, CHR 0x86], [CHR 0xE2, CHR 0x80, CHR 0x87],
      [CHR 0xE2, CHR 0x80, CHR 0x88], [CHR 0xE2, CHR 0x80, CHR 0x89],
      [CHR 0xE2, CHR 0x80, CHR 0x8A], [CHR 0xE2, CHR 0x80, CHR 0xA8],
      [CHR 0xE2, CHR 0x80, CHR 0xA9], [CHR 0xE2, CHR 0x80, CHR 0xAF],
      [CHR 0xE2, CHR 0x81, CHR 0x9F], [CHR 0xE3, CHR 0x80, CHR 0x80]]"

definition starts_with_any :: "string list \<Rightarrow> string \<Rightarrow> string option" where
  "starts_with_any ws s = find (\<lambda>w. w \<noteq> [] \<and> starts_with s w) ws"

lemma starts_with_any_SomeD:
  "starts_with_any ws s = Some w \<Longrightarrow> w \<in> set ws \<and> w \<noteq> [] \<and> (\<exists>r. s = w @ r)"
  by (auto simp: starts_with_any_def find_Some_iff starts_with_iff)

lemma starts_with_any_None_iff:
  "starts_with_any ws s = None \<longleftrightarrow> (\<forall>w\<in>set ws. w = [] \<or> \<not> starts_with s w)"
  by (auto simp: starts_with_any_def find_None_iff)

function strip_front :: "string list \<Rightarrow> string \<Rightarrow> string" where
  "strip_front ws s = (case starts_with_any ws s of
     None \<Rightarrow> s
   | Some w \<Rightarrow> strip_front ws (drop (length w) s))"
  by pat_completeness auto
termination
  by (relation "measure (\<lambda>(ws, s). length s)") (auto dest: starts_with_any_SomeD)

declare strip_front.simps [simp del]

definition trim_start :: "string \<Rightarrow> string" where
  "trim_start s = strip_front unicode_ws s"

definition trim_end :: "string \<Rightarrow> string" where
  "trim_end s = rev (strip_front (map rev unicode_ws) (rev s))"

definition trim :: "string \<Rightarrow> string" where
  "trim s = trim_end (trim_start s)"

lemma strip_front_None: "starts_with_any ws (strip_front ws s) = None"
proof (induction ws s rule: strip_front.induct)
  case (1 ws s)
  then show ?case
    by (cases "starts_with_any ws s") (auto simp: strip_front.simps [of ws s])
qed

lemma strip_front_id: "starts_with_any ws s = None \<Longrightarrow> strip_front ws s = s"
  by (simp add: strip_front.simps [of ws s])

lemma strip_front_suffix: "\<exists>p. s = p @ strip_front ws s"
proof (induction ws s rule: strip_front.induct)
  case (1 ws s)
  show ?case
  proof (cases "starts_with_any ws s")
    case None
    then show ?thesis by (simp add: strip_front_id)
  next
    case (Some w)
    with 1 obtain p where "drop (length w) s = p @ strip_front ws (drop (length w) s)"
      by blast
    with Some show ?thesis
      by (metis append.assoc append_take_drop_id option.simps(5) strip_front.simps)
  qed
qed

lemma starts_with_any_prefix:
  "starts_with_any ws (t @ u) = None \<Longrightarrow> starts_with_any ws t = None"
  by (auto simp: starts_with_any_None_iff starts_with_iff)

lemma trim_end_prefix: "\<exists>u. t = trim_end t @ u"
  using strip_front_suffix [of "rev t" "map rev unicode_ws"]
  by (metis rev_append rev_rev_ident trim_end_def)

lemma trim_idem [simp]: "trim (trim s) = trim s"
proof -
  let ?t = "trim_start s"
  obtain u where u: "?t = trim_end ?t @ u" using trim_end_prefix by blast
  have "starts_with_any unicode_ws ?t = None"
    by (simp add: trim_start_def strip_front_None)
  then have "starts_with_any unicode_ws (trim_end ?t) = None"
    using u starts_with_any_prefix by metis
  then have "trim_start (trim_end ?t) = trim_end ?t"
    by (simp add: trim_start_def strip_front_id)
  moreover have "trim_end (trim_end ?t) = trim_end ?t"
    by (simp add: trim_end_def strip_front_id strip_front_None)
  ultimately show ?thesis by (simp add: trim_def)
qed

section \<open>Bytes\<close>

text \<open>
  A byte string and a Rust string share the representation, a list of 8-bit characters;
  \<open>as_bytes\<close> is then the identity and \<open>String::from_utf8\<close> the test that the bytes are
  well-formed UTF-8 (no overlong forms, no surrogates, nothing above U+10FFFF).
\<close>

type_synonym bytes = string

definition cont_byte :: "nat \<Rightarrow> nat \<Rightarrow> char \<Rightarrow> bool" where
  "cont_byte lo hi c = (let n = of_char c :: nat in lo \<le> n \<and> n \<le> hi)"

fun utf8_valid :: "bytes \<Rightarrow> bool" where
  "utf8_valid [] = True"
| "utf8_valid (a # bs) =
     (let n = of_char a :: nat in
      if n < 0x80 then utf8_valid bs
      else if 0xC2 \<le> n \<and> n \<le> 0xDF then
        (case bs of b1 # r \<Rightarrow> cont_byte 0x80 0xBF b1 \<and> utf8_valid r | _ \<Rightarrow> False)
      else if 0xE0 \<le> n \<and> n \<le> 0xEF then
        (case bs of b1 # b2 # r \<Rightarrow>
           cont_byte (if n = 0xE0 then 0xA0 else 0x80) (if n = 0xED then 0x9F else 0xBF) b1 \<and>
           cont_byte 0x80 0xBF b2 \<and> utf8_valid r
         | _ \<Rightarrow> False)
      else if 0xF0 \<le> n \<and> n \<le> 0xF4 then
        (case bs of b1 # b2 # b3 # r \<Rightarrow>
           cont_byte (if n = 0xF0 then 0x90 else 0x80) (if n = 0xF4 then 0x8F else 0xBF) b1 \<and>
           cont_byte 0x80 0xBF b2 \<and> cont_byte 0x80 0xBF b3 \<and> utf8_valid r
         | _ \<Rightarrow> False)
      else False)"

definition from_utf8 :: "bytes \<Rightarrow> string option" where
  "from_utf8 b = (if utf8_valid b then Some b else None)"

lemma utf8_valid_ascii: "\<forall>c\<in>set s. (of_char c :: nat) < 0x80 \<Longrightarrow> utf8_valid s"
  by (induction s) (auto simp: Let_def)

section \<open>Decimal numbers\<close>

text \<open>
  \<open>Display\<close> of integers and \<open>str::parse::<u64>\<close>: an optional \<open>+\<close>, at least one digit,
  nothing else, and a value below \<open>2 ^ 64\<close>.
\<close>

fun show_nat :: "nat \<Rightarrow> string" where
  "show_nat n = (if n < 10 then [char_of (48 + n)]
                 else show_nat (n div 10) @ [char_of (48 + n mod 10)])"

declare show_nat.simps [simp del]

definition show_int :: "int \<Rightarrow> string" where
  "show_int i = (if i < 0 then CHR ''-'' # show_nat (nat (- i)) else show_nat (nat i))"

definition digit_of :: "char \<Rightarrow> nat option" where
  "digit_of c = (let n = of_char c :: nat in if 48 \<le> n \<and> n \<le> 57 then Some (n - 48) else None)"

fun digits_val :: "nat \<Rightarrow> string \<Rightarrow> nat option" where
  "digits_val acc [] = Some acc"
| "digits_val acc (c # cs) =
     (case digit_of c of None \<Rightarrow> None | Some d \<Rightarrow> digits_val (10 * acc + d) cs)"

definition parse_u64 :: "string \<Rightarrow> 64 word option" where
  "parse_u64 s =
     (let ds = (case s of [] \<Rightarrow> s | c # r \<Rightarrow> if c = CHR ''+'' then r else s)
      in if ds = [] then None
         else (case digits_val 0 ds of
                 None \<Rightarrow> None
               | Some n \<Rightarrow> if n < 2 ^ 64 then Some (of_nat n) else None))"

lemma digit_of_digit: "n < 10 \<Longrightarrow> digit_of (char_of (48 + n)) = Some n"
  by (simp add: digit_of_def Let_def)

lemma digits_val_append:
  "digits_val a (s @ t) = (case digits_val a s of None \<Rightarrow> None | Some b \<Rightarrow> digits_val b t)"
  by (induction s arbitrary: a) (auto split: option.splits)

lemma digits_val_show_nat: "digits_val 0 (show_nat n) = Some n"
proof (induction n rule: show_nat.induct)
  case (1 n)
  then show ?case
    by (cases "n < 10")
      (simp_all add: show_nat.simps [of n] digits_val_append digit_of_digit)
qed

lemma show_nat_digits: "c \<in> set (show_nat n) \<Longrightarrow> \<exists>d<(10::nat). c = char_of (48 + d)"
proof (induction n rule: show_nat.induct)
  case (1 n)
  show ?case
  proof (cases "n < 10")
    case True
    with 1 show ?thesis by (auto simp: show_nat.simps [of n])
  next
    case False
    with 1 have "c \<in> set (show_nat (n div 10)) \<or> c = char_of (48 + n mod 10)"
      by (auto simp: show_nat.simps [of n])
    moreover have "n mod 10 < 10" by simp
    ultimately show ?thesis using 1 False by blast
  qed
qed

lemma show_nat_neq_Nil [simp]: "show_nat n \<noteq> []"
  by (simp add: show_nat.simps [of n])

lemma show_nat_no_plus: "CHR ''+'' \<notin> set (show_nat n)"
proof
  assume "CHR ''+'' \<in> set (show_nat n)"
  then obtain d :: nat where "d < 10" "CHR ''+'' = char_of (48 + d)"
    using show_nat_digits by blast
  then have "(of_char (CHR ''+'') :: nat) = of_char (char_of (48 + d) :: char)" by simp
  with \<open>d < 10\<close> show False by (simp add: of_char_of take_bit_eq_mod)
qed

lemma parse_u64_show_nat: "n < 2 ^ 64 \<Longrightarrow> parse_u64 (show_nat n) = Some (of_nat n)"
  using show_nat_no_plus [of n] digits_val_show_nat [of n]
  by (cases "show_nat n") (auto simp: parse_u64_def Let_def)

section \<open>Durations\<close>

text \<open>
  \<open>std::time::Duration\<close>, in nanoseconds: whole seconds fit a \<open>u64\<close>. \<open>+\<close> panics on
  overflow (\<open>None\<close>), \<open>saturating_mul\<close> stops at the maximum.
\<close>

type_synonym duration = nat

definition dur_max :: duration where
  "dur_max = (2 ^ 64 - 1) * 1000000000 + 999999999"

definition from_secs :: "64 word \<Rightarrow> duration" where
  "from_secs s = unat s * 1000000000"

definition from_millis :: "nat \<Rightarrow> duration" where
  "from_millis ms = ms * 1000000"

definition as_secs :: "duration \<Rightarrow> nat" where
  "as_secs d = d div 1000000000"

definition dur_add :: "duration \<Rightarrow> duration \<Rightarrow> duration option" where
  "dur_add a b = (if a + b \<le> dur_max then Some (a + b) else None)"

definition saturating_mul :: "duration \<Rightarrow> nat \<Rightarrow> duration" where
  "saturating_mul d k = min (d * k) dur_max"

lemma from_secs_le: "from_secs s \<le> dur_max"
proof -
  have "unat s < 2 ^ 64" using unsigned_less [of s, where 'a = nat] by simp
  then show ?thesis by (simp add: from_secs_def dur_max_def)
qed

lemma as_secs_from_secs [simp]: "as_secs (from_secs s) = unat s"
  by (simp add: as_secs_def from_secs_def)

end
