(* ===== verification/Domain.thy ===== *)
theory Domain
  imports Prelude
begin

text \<open>
  The pure domain of \<open>crates/imauth-core/src/domain\<close>: platforms and their cookie rules
  (\<open>platform.rs\<close>), sessions, cookies and the session states (\<open>session.rs\<close>), the login
  decision (\<open>auth.rs\<close>), stored credentials (\<open>credential.rs\<close>), and the error type
  (\<open>error.rs\<close>).
\<close>

section \<open>Errors\<close>

datatype imauth_error =
    EIo string
  | EConfig string
  | EDatabase string
  | EEncryption string
  | EBrowser string
  | EPlatform string
  | ENotFound string

fun error_to_string :: "imauth_error \<Rightarrow> string" where
  "error_to_string (EIo m) = ''IO error: '' @ m"
| "error_to_string (EConfig m) = ''Config error: '' @ m"
| "error_to_string (EDatabase m) = ''Database error: '' @ m"
| "error_to_string (EEncryption m) = ''Encryption error: '' @ m"
| "error_to_string (EBrowser m) = ''Browser error: '' @ m"
| "error_to_string (EPlatform m) = ''Platform error: '' @ m"
| "error_to_string (ENotFound m) = ''Not found: '' @ m"

text \<open>The conversions of foreign errors; the argument is the foreign error's text.\<close>

definition error_of_sqlx :: "string \<Rightarrow> imauth_error" where
  "error_of_sqlx e = EDatabase e"

definition error_of_aead :: "string \<Rightarrow> imauth_error" where
  "error_of_aead e = EEncryption e"

definition error_of_base64 :: "string \<Rightarrow> imauth_error" where
  "error_of_base64 e = EEncryption (''Invalid base64: '' @ e)"

type_synonym 'a result = "imauth_error + 'a"

section \<open>Time stamps\<close>

text \<open>
  \<open>DateTime<Utc>\<close> counts nanoseconds since the epoch; \<open>timestamp\<close> is the whole seconds,
  rounded down. \<open>DateTime::from_timestamp\<close> of the \<open>chrono\<close> crate is a parameter of the
  definitions that call it; \<open>chrono_ok\<close> is its documented behaviour: it fails out of range
  and otherwise returns the instant of the given second.
\<close>

type_synonym datetime = int

definition timestamp :: "datetime \<Rightarrow> int" where
  "timestamp t = t div 1000000000"

definition chrono_ok :: "(int \<Rightarrow> datetime option) \<Rightarrow> bool" where
  "chrono_ok fts \<longleftrightarrow> (\<forall>s d. fts s = Some d \<longrightarrow> d = s * 1000000000)"

lemma chrono_ok_timestamp: "chrono_ok fts \<Longrightarrow> fts s = Some d \<Longrightarrow> timestamp d = s"
  unfolding chrono_ok_def timestamp_def by fastforce

section \<open>Sessions and cookies\<close>

datatype session_state = Idle | Loading | Authenticating | WaitingForUser | Connected | Failed

fun state_as_str :: "session_state \<Rightarrow> string" where
  "state_as_str Idle = ''idle''"
| "state_as_str Loading = ''loading''"
| "state_as_str Authenticating = ''authenticating''"
| "state_as_str WaitingForUser = ''waiting_for_user''"
| "state_as_str Connected = ''connected''"
| "state_as_str Failed = ''failed''"

definition state_from_str :: "string \<Rightarrow> string + session_state" where
  "state_from_str s =
     (if s = ''idle'' then Inr Idle
      else if s = ''loading'' then Inr Loading
      else if s = ''authenticating'' then Inr Authenticating
      else if s = ''waiting_for_user'' then Inr WaitingForUser
      else if s = ''connected'' then Inr Connected
      else if s = ''failed'' then Inr Failed
      else Inl (''unknown session state: '' @ s))"

record session =
  ss_id :: string
  ss_platform :: string
  ss_state :: session_state
  ss_message :: "string option"
  ss_requires_input :: bool
  ss_input_type :: "string option"
  ss_created_at :: datetime
  ss_updated_at :: datetime

record cookie =
  ck_name :: string
  ck_value :: string
  ck_domain :: string
  ck_path :: string
  ck_expires :: "datetime option"
  ck_http_only :: bool
  ck_secure :: bool

record credential =
  cr_platform :: string
  cr_username :: string
  cr_password_encrypted :: string
  cr_twofa_method :: "string option"

definition session_new :: "datetime \<Rightarrow> string \<Rightarrow> string \<Rightarrow> session" where
  "session_new now i p =
     \<lparr>ss_id = i, ss_platform = p, ss_state = Idle, ss_message = None, ss_requires_input = False,
      ss_input_type = None, ss_created_at = now, ss_updated_at = now\<rparr>"

definition transition :: "datetime \<Rightarrow> session_state \<Rightarrow> string option \<Rightarrow> session \<Rightarrow> session" where
  "transition now st msg s =
     s\<lparr>ss_state := st, ss_message := msg, ss_updated_at := now,
       ss_requires_input := (case st of WaitingForUser \<Rightarrow> True | _ \<Rightarrow> False),
       ss_input_type := (case st of WaitingForUser \<Rightarrow> Some ''viewer_url'' | _ \<Rightarrow> None)\<rparr>"

text \<open>
  The invariant of the session fields: input is asked for exactly while the login waits for
  the user, and its type is then the viewer address.
\<close>

definition session_wf :: "session \<Rightarrow> bool" where
  "session_wf s \<longleftrightarrow>
     ss_requires_input s = (ss_state s = WaitingForUser) \<and>
     ss_input_type s = (if ss_state s = WaitingForUser then Some ''viewer_url'' else None)"

lemma state_from_str_Inr_iff [simp]: "state_from_str s = Inr st \<longleftrightarrow> s = state_as_str st"
  by (cases st) (auto simp: state_from_str_def)

lemma state_from_as_str [simp]: "state_from_str (state_as_str st) = Inr st"
  by simp

lemma state_as_str_inject [simp]: "state_as_str a = state_as_str b \<longleftrightarrow> a = b"
  by (cases a; cases b) auto

lemma state_from_str_Inl:
  assumes "state_from_str s = Inl e"
  shows "e = ''unknown session state: '' @ s \<and> (\<forall>st. s \<noteq> state_as_str st)"
proof
  show "e = ''unknown session state: '' @ s"
    using assms by (simp add: state_from_str_def split: if_splits)
  show "\<forall>st. s \<noteq> state_as_str st" using assms by auto
qed

lemma session_wf_new [simp, intro]: "session_wf (session_new now i p)"
  by (simp add: session_wf_def session_new_def)

lemma session_wf_transition [simp, intro]: "session_wf (transition now st msg s)"
  by (cases st) (simp_all add: session_wf_def transition_def)

lemma transition_simps [simp]:
  "ss_id (transition now st msg s) = ss_id s"
  "ss_platform (transition now st msg s) = ss_platform s"
  "ss_state (transition now st msg s) = st"
  "ss_message (transition now st msg s) = msg"
  "ss_created_at (transition now st msg s) = ss_created_at s"
  "ss_updated_at (transition now st msg s) = now"
  "ss_requires_input (transition now st msg s) = (st = WaitingForUser)"
  "ss_input_type (transition now st msg s) = (if st = WaitingForUser then Some ''viewer_url'' else None)"
  by (cases st; simp add: transition_def)+

lemma session_new_simps [simp]:
  "ss_id (session_new now i p) = i"
  "ss_platform (session_new now i p) = p"
  "ss_state (session_new now i p) = Idle"
  by (simp_all add: session_new_def)

end
