(* ===== verification/Platform.thy ===== *)
theory Platform
  imports Domain
begin

text \<open>
  The platform rules of \<open>domain/platform.rs\<close> and the login decision of \<open>domain/auth.rs\<close>:
  the names and addresses of the five platforms, which cookie domains belong to a platform,
  which cookie proves a session, and when a set of browser cookies counts as logged in.
  The lemmas show that names round-trip, that the domain test is a match on whole domain
  labels, and that dropping foreign cookies never changes the login decision.
\<close>

datatype platform = Instagram | Threads | Naver | Novelpia | Munpia

definition platform_ALL :: "platform list" where
  "platform_ALL = [Instagram, Threads, Naver, Novelpia, Munpia]"

fun platform_as_str :: "platform \<Rightarrow> string" where
  "platform_as_str Instagram = ''instagram''"
| "platform_as_str Threads = ''threads''"
| "platform_as_str Naver = ''naver''"
| "platform_as_str Novelpia = ''novelpia''"
| "platform_as_str Munpia = ''munpia''"

definition platform_from_str :: "string \<Rightarrow> platform option" where
  "platform_from_str s =
     (let l = to_lowercase s in
      if l = ''instagram'' then Some Instagram
      else if l = ''threads'' then Some Threads
      else if l = ''naver'' then Some Naver
      else if l = ''novelpia'' then Some Novelpia
      else if l = ''munpia'' then Some Munpia
      else None)"

fun login_url :: "platform \<Rightarrow> string" where
  "login_url Instagram = ''https://www.instagram.com/accounts/login/''"
| "login_url Threads = ''https://www.instagram.com/accounts/login/''"
| "login_url Naver = ''https://nid.naver.com/nidlogin.login''"
| "login_url Novelpia = ''https://novelpia.com/login/''"
| "login_url Munpia = ''https://nssl.munpia.com/login''"

fun cookie_domains :: "platform \<Rightarrow> string list" where
  "cookie_domains Instagram = [''.instagram.com'', ''.threads.net'', ''.threads.com'']"
| "cookie_domains Threads = [''.instagram.com'', ''.threads.net'', ''.threads.com'']"
| "cookie_domains Naver = [''.naver.com'', ''.nid.naver.com'']"
| "cookie_domains Novelpia = [''.novelpia.com'']"
| "cookie_domains Munpia = [''.munpia.com'']"

fun session_cookie_name :: "platform \<Rightarrow> string" where
  "session_cookie_name Instagram = ''sessionid''"
| "session_cookie_name Threads = ''sessionid''"
| "session_cookie_name Naver = ''NID_AUT''"
| "session_cookie_name Novelpia = ''AUTOLOGIN''"
| "session_cookie_name Munpia = ''TOKEN''"

definition normal_domain :: "string \<Rightarrow> string" where
  "normal_domain d = to_ascii_lowercase (trim_start_matches d CHR ''.'')"

definition cookie_matches_domain :: "platform \<Rightarrow> cookie \<Rightarrow> bool" where
  "cookie_matches_domain p c =
     (let cookie_domain = normal_domain (ck_domain c) in
      list_ex (\<lambda>allow. let allow = normal_domain allow in
                 cookie_domain = allow \<or> ends_with cookie_domain (CHR ''.'' # allow))
        (cookie_domains p))"

definition filter_cookies :: "platform \<Rightarrow> cookie list \<Rightarrow> cookie list" where
  "filter_cookies p cs = filter (cookie_matches_domain p) cs"

text \<open>
  The readings of the clock within one decision are taken as one reading \<open>now\<close>.
\<close>

definition unexpired :: "datetime \<Rightarrow> cookie \<Rightarrow> bool" where
  "unexpired now c = (case ck_expires c of None \<Rightarrow> True | Some e \<Rightarrow> now < e)"

definition active_cookie :: "platform \<Rightarrow> datetime \<Rightarrow> cookie list \<Rightarrow> string \<Rightarrow> cookie option" where
  "active_cookie p now cs n =
     find (\<lambda>c. ck_name c = n \<and> cookie_matches_domain p c \<and> unexpired now c) cs"

definition option_filter :: "('a \<Rightarrow> bool) \<Rightarrow> 'a option \<Rightarrow> 'a option" where
  "option_filter P x = (case x of None \<Rightarrow> None | Some y \<Rightarrow> if P y then Some y else None)"

definition session_cookie :: "platform \<Rightarrow> datetime \<Rightarrow> cookie list \<Rightarrow> cookie option" where
  "session_cookie p now cs =
     (if p = Novelpia then
        (case active_cookie p now cs ''LOGINKEY'' of
           None \<Rightarrow> None
         | Some login_key \<Rightarrow>
             if ck_value login_key = [] \<or>
                (case active_cookie p now cs ''USERKEY'' of
                   None \<Rightarrow> True | Some c \<Rightarrow> ck_value c = [])
             then None
             else (case option_filter (\<lambda>c. ck_value c \<noteq> []) (active_cookie p now cs ''AUTOLOGIN'') of
                     Some c \<Rightarrow> Some c
                   | None \<Rightarrow> option_filter (\<lambda>c. ck_value c = ''1'')
                               (active_cookie p now cs ''ISLOGIN'')))
      else active_cookie p now cs (session_cookie_name p))"

definition has_session_cookie :: "platform \<Rightarrow> datetime \<Rightarrow> cookie list \<Rightarrow> bool" where
  "has_session_cookie p now cs = (session_cookie p now cs \<noteq> None)"

section \<open>The login decision\<close>

datatype auth_checkpoint = CpConnected "cookie list" | CpPending

definition classify_auth_state :: "datetime \<Rightarrow> cookie list \<Rightarrow> platform \<Rightarrow> auth_checkpoint" where
  "classify_auth_state now cs p =
     (if has_session_cookie p now cs then CpConnected (filter_cookies p cs) else CpPending)"

section \<open>Names\<close>

lemma platform_ALL_complete: "p \<in> set platform_ALL"
  by (cases p) (simp_all add: platform_ALL_def)

lemma platform_as_str_inject [simp]: "platform_as_str p = platform_as_str q \<longleftrightarrow> p = q"
  by (cases p; cases q) auto

lemma to_lowercase_as_str: "to_lowercase (platform_as_str p) = platform_as_str p"
  by (cases p; simp add: to_lowercase_def to_ascii_lowercase_def lower_char_def)

text \<open>The name decides the platform, whatever its case.\<close>

lemma platform_from_str_Some: "platform_from_str s = Some p \<longleftrightarrow> to_lowercase s = platform_as_str p"
  by (cases p) (auto simp: platform_from_str_def Let_def)

section \<open>Cookie domains\<close>

definition domain_labels :: "string \<Rightarrow> string list" where
  "domain_labels d = split_on CHR ''.'' (normal_domain d)"

lemma cookie_matches_domain_labels:
  "cookie_matches_domain p c \<longleftrightarrow>
     (\<exists>a\<in>set (cookie_domains p). suffix (domain_labels a) (domain_labels (ck_domain c)))"
  by (simp add: cookie_matches_domain_def domain_labels_def suffix_split_on_iff Let_def list_ex_iff)

section \<open>Filtering\<close>

lemma filter_cookies_idem [simp]: "filter_cookies p (filter_cookies p cs) = filter_cookies p cs"
  by (simp add: filter_cookies_def)

lemma filter_cookies_matches: "c \<in> set (filter_cookies p cs) \<Longrightarrow> cookie_matches_domain p c"
  by (simp add: filter_cookies_def)

lemma find_filter: "(\<And>x. P x \<Longrightarrow> Q x) \<Longrightarrow> find P (filter Q xs) = find P xs"
  by (induction xs) auto

lemma active_cookie_filter [simp]:
  "active_cookie p now (filter_cookies p cs) n = active_cookie p now cs n"
  unfolding active_cookie_def filter_cookies_def by (rule find_filter) simp

lemma session_cookie_filter [simp]:
  "session_cookie p now (filter_cookies p cs) = session_cookie p now cs"
  by (cases "p = Novelpia") (simp_all add: session_cookie_def cong: option.case_cong if_cong)

lemma has_session_cookie_filter [simp]:
  "has_session_cookie p now (filter_cookies p cs) = has_session_cookie p now cs"
  by (simp add: has_session_cookie_def)

lemma active_cookie_SomeD:
  assumes "active_cookie p now cs n = Some c"
  shows "c \<in> set cs \<and> ck_name c = n \<and> cookie_matches_domain p c \<and> unexpired now c"
  using assms by (auto simp: active_cookie_def find_Some_iff)

lemma active_cookie_None_iff:
  "active_cookie p now cs n = None \<longleftrightarrow>
     (\<forall>c\<in>set cs. ck_name c = n \<longrightarrow> cookie_matches_domain p c \<longrightarrow> \<not> unexpired now c)"
  by (auto simp: active_cookie_def find_None_iff)

lemma session_cookie_SomeD:
  assumes "session_cookie p now cs = Some c"
  shows "c \<in> set cs \<and> cookie_matches_domain p c \<and> unexpired now c"
  using assms
  by (auto simp: session_cookie_def option_filter_def dest: active_cookie_SomeD
      split: if_splits option.splits)

lemma classify_Connected_iff:
  "classify_auth_state now raw p = CpConnected cs \<longleftrightarrow>
     has_session_cookie p now raw \<and> cs = filter_cookies p raw"
  by (auto simp: classify_auth_state_def)

lemma classify_ConnectedD:
  assumes "classify_auth_state now raw p = CpConnected cs"
  shows "has_session_cookie p now cs \<and> (\<forall>c\<in>set cs. c \<in> set raw \<and> cookie_matches_domain p c)"
proof -
  from assms have "has_session_cookie p now raw" and cs: "cs = filter_cookies p raw"
    by (simp_all add: classify_Connected_iff)
  then have "has_session_cookie p now cs" by simp
  with cs show ?thesis by (simp add: filter_cookies_def)
qed

section \<open>Properties\<close>

text \<open>C32: The domain test is a match on whole domain labels. A cookie belongs to a platform exactly
  when the labels of one of the platform's domains are a final segment of the labels of the
  cookie's domain, leading dots and the case of ASCII letters aside; so \<open>evilnaver.com\<close> never
  matches \<open>.naver.com\<close>.\<close>

theorem cookie_domain_is_label_suffix:
  "cookie_matches_domain p c \<longleftrightarrow>
     (\<exists>a\<in>set (cookie_domains p).
        suffix (split_on CHR ''.'' (normal_domain a)) (split_on CHR ''.'' (normal_domain (ck_domain c))))"
  by (simp add: cookie_matches_domain_labels domain_labels_def)

text \<open>
  What proves a login, said of the cookies of the platform that have not expired: the value of the
  first of them with a name, and the rule of each platform.
\<close>

definition live_cookies :: "platform \<Rightarrow> datetime \<Rightarrow> cookie list \<Rightarrow> cookie list" where
  "live_cookies p now cs = filter (\<lambda>c. cookie_matches_domain p c \<and> unexpired now c) cs"

definition live_value :: "platform \<Rightarrow> datetime \<Rightarrow> cookie list \<Rightarrow> string \<Rightarrow> string option" where
  "live_value p now cs n =
     (case filter (\<lambda>c. ck_name c = n) (live_cookies p now cs) of [] \<Rightarrow> None | c # rest \<Rightarrow> Some (ck_value c))"

definition live_filled :: "platform \<Rightarrow> datetime \<Rightarrow> cookie list \<Rightarrow> string \<Rightarrow> bool" where
  "live_filled p now cs n \<longleftrightarrow> live_value p now cs n \<notin> {None, Some []}"

definition proves_login :: "platform \<Rightarrow> datetime \<Rightarrow> cookie list \<Rightarrow> bool" where
  "proves_login p now cs \<longleftrightarrow>
     (case p of
        Novelpia \<Rightarrow>
          live_filled p now cs ''LOGINKEY'' \<and> live_filled p now cs ''USERKEY'' \<and>
          (live_filled p now cs ''AUTOLOGIN'' \<or> live_value p now cs ''ISLOGIN'' = Some ''1'')
      | Naver \<Rightarrow> ''NID_AUT'' \<in> ck_name ` set (live_cookies p now cs)
      | Munpia \<Rightarrow> ''TOKEN'' \<in> ck_name ` set (live_cookies p now cs)
      | _ \<Rightarrow> ''sessionid'' \<in> ck_name ` set (live_cookies p now cs))"

lemma live_value_active: "live_value p now cs n = map_option ck_value (active_cookie p now cs n)"
  by (induction cs) (auto simp: live_value_def live_cookies_def active_cookie_def)

lemma has_session_cookie_proves: "has_session_cookie p now cs \<longleftrightarrow> proves_login p now cs"
proof (cases "p = Novelpia")
  case True
  then show ?thesis
    by (auto simp: has_session_cookie_def session_cookie_def proves_login_def live_filled_def live_value_active
        option_filter_def split: option.splits)
next
  case False
  then have "has_session_cookie p now cs \<longleftrightarrow> session_cookie_name p \<in> ck_name ` set (live_cookies p now cs)"
    by (auto simp: has_session_cookie_def session_cookie_def live_cookies_def active_cookie_None_iff image_iff)
  with False show ?thesis by (cases p) (simp_all add: proves_login_def)
qed

text \<open>C31: The login decision. It is Connected exactly when the unexpired cookies of the platform prove a
  login by the platform's rule, and then hands on exactly the platform's cookies, in their order, which
  prove it again. It is the same without the cookies of other sites, wherever these stand in the list.\<close>

theorem classify_auth_state_spec:
  "classify_auth_state now raw p =
     (if proves_login p now raw then CpConnected (filter (cookie_matches_domain p) raw) else CpPending) \<and>
   classify_auth_state now (filter (cookie_matches_domain p) raw) p = classify_auth_state now raw p \<and>
   session_cookie p now (filter (cookie_matches_domain p) raw) = session_cookie p now raw \<and>
   proves_login p now (filter (cookie_matches_domain p) raw) = proves_login p now raw"
  by (simp add: classify_auth_state_def flip: filter_cookies_def has_session_cookie_proves)

text \<open>The rule for Novelpia. A login counts exactly when the first active \<open>LOGINKEY\<close> and
  \<open>USERKEY\<close> cookies are present and not empty, and the first active \<open>AUTOLOGIN\<close> is present and not
  empty or the first active \<open>ISLOGIN\<close> is \<open>1\<close>. For every other platform the named session cookie
  alone decides, whatever its value.\<close>

theorem has_session_cookie_rule:
  "has_session_cookie p now cs =
     (let val = (\<lambda>n. map_option ck_value (active_cookie p now cs n));
          filled = (\<lambda>n. \<exists>x xs. val n = Some (x # xs)) in
      if p = Novelpia
      then filled ''LOGINKEY'' \<and> filled ''USERKEY'' \<and> (filled ''AUTOLOGIN'' \<or> val ''ISLOGIN'' = Some ''1'')
      else val (session_cookie_name p) \<noteq> None)"
  by (auto simp: has_session_cookie_def session_cookie_def option_filter_def Let_def neq_Nil_conv
      split: option.splits)

text \<open>A name selects a platform exactly when it is the platform's name up to case; no name selects
  two, and the five names are all there are.\<close>

theorem platform_name_decides:
  "(platform_from_str s = Some p) = (to_lowercase s = platform_as_str p) \<and>
   (platform_from_str s = None) = (to_lowercase s \<notin> set (map platform_as_str platform_ALL))"
proof
  show "(platform_from_str s = Some p) = (to_lowercase s = platform_as_str p)"
    by (rule platform_from_str_Some)
  show "(platform_from_str s = None) = (to_lowercase s \<notin> set (map platform_as_str platform_ALL))"
    by (auto simp: platform_from_str_def platform_ALL_def Let_def)
qed

end
