(* ===== verification/Ports.thy ===== *)
theory Ports
  imports Platform
begin

text \<open>
  The port traits of \<open>crates/imauth-core/src/ports\<close> as locales: what the application layer
  may rely on when it holds a trait object. Each operation takes the environment of the call
  (\<open>'e\<close>: randomness, clock and injected failures) and the state behind the port (\<open>'db\<close>), and
  returns its result with the new state. The adapters provide interpretations.
\<close>

section \<open>Encryption\<close>

text \<open>\<open>ports/encryption.rs\<close>: the nonce that the service draws is an argument of \<open>encrypt\<close>.\<close>

locale encryption_service =
  fixes svc_ok :: "'s \<Rightarrow> bool"
    and encrypt :: "'s \<Rightarrow> bytes \<Rightarrow> string \<Rightarrow> string result"
    and decrypt :: "'s \<Rightarrow> string \<Rightarrow> string result"
  assumes decrypt_encrypt:
    "svc_ok s \<Longrightarrow> utf8_valid p \<Longrightarrow> length n = 12 \<Longrightarrow> encrypt s n p = Inr ct \<Longrightarrow>
     decrypt s ct = Inr p"
begin

lemma encrypt_inj:
  assumes "svc_ok s" "utf8_valid p" "utf8_valid q" "length n = 12" "length m = 12"
    and "encrypt s n p = Inr ct" "encrypt s m q = Inr ct"
  shows "p = q"
  using decrypt_encrypt [OF assms(1,2,4,6)] decrypt_encrypt [OF assms(1,3,5,7)] by simp

end

section \<open>Sessions\<close>

text \<open>
  \<open>SessionRepository\<close> of \<open>ports/repository.rs\<close>. \<open>look db i\<close> is the session the store holds
  under \<open>i\<close> (\<open>None\<close> when there is none), \<open>norm\<close> is what storing keeps of a session.
  A failed call leaves the store as it was.
\<close>

locale session_repository =
  fixes create :: "'e \<Rightarrow> session \<Rightarrow> 'db \<Rightarrow> session result \<times> 'db"
    and get :: "'e \<Rightarrow> string \<Rightarrow> 'db \<Rightarrow> session option result"
    and update :: "'e \<Rightarrow> session \<Rightarrow> 'db \<Rightarrow> unit result \<times> 'db"
    and delete :: "'e \<Rightarrow> string \<Rightarrow> 'db \<Rightarrow> unit result \<times> 'db"
    and look :: "'db \<Rightarrow> string \<Rightarrow> session option result"
    and norm :: "session \<Rightarrow> session"
  assumes get_look: "get e i db = Inr so \<Longrightarrow> look db i = Inr so"
    and create_ok: "create e s db = (Inr s', db') \<Longrightarrow>
          s' = s \<and> look db (ss_id s) = Inr None \<and> look db' (ss_id s) = Inr (Some (norm s)) \<and>
          (\<forall>j. j \<noteq> ss_id s \<longrightarrow> look db' j = look db j)"
    and create_err: "create e s db = (Inl x, db') \<Longrightarrow> db' = db"
    and update_ok: "update e s db = (Inr u, db') \<Longrightarrow>
          (\<forall>j. j \<noteq> ss_id s \<longrightarrow> look db' j = look db j) \<and>
          (look db (ss_id s) = Inr None \<longrightarrow> look db' (ss_id s) = Inr None) \<and>
          (\<forall>t. look db (ss_id s) = Inr (Some t) \<longrightarrow>
            (\<exists>t'. look db' (ss_id s) = Inr (Some t') \<and> ss_state t' = ss_state s))"
    and update_err: "update e s db = (Inl x, db') \<Longrightarrow> db' = db"
    and delete_ok: "delete e i db = (Inr u, db') \<Longrightarrow>
          look db' i = Inr None \<and> (\<forall>j. j \<noteq> i \<longrightarrow> look db' j = look db j)"
    and delete_err: "delete e i db = (Inl x, db') \<Longrightarrow> db' = db"
begin

lemma get_after_create:
  "create e s db = (Inr s', db') \<Longrightarrow> get e' (ss_id s) db' = Inr so \<Longrightarrow> so = Some (norm s)"
  using create_ok get_look by fastforce

lemma get_after_delete:
  "delete e i db = (Inr u, db') \<Longrightarrow> get e' i db' = Inr so \<Longrightarrow> so = None"
  using delete_ok get_look by fastforce

lemma no_revival:
  assumes "look db i = Inr None" "ss_id s = i" "update e s db = (r, db')"
  shows "look db' i = Inr None"
  using assms update_ok [of e s db _ db'] update_err [of e s db _ db'] by (cases r) auto

end

section \<open>Cookies\<close>

text \<open>
  \<open>CookieRepository\<close>: \<open>jar db p\<close> is the abstract content of the store for a platform, a map
  from a cookie's name and domain to the cookie (or to the error of reading it), \<open>keep\<close> what
  storing keeps of a cookie, \<open>listing db p\<close> the cookies of the platform in the order a read returns
  them. A write that fails changes nothing; a read never changes the jars.
\<close>

definition cookie_key :: "cookie \<Rightarrow> string \<times> string" where
  "cookie_key c = (ck_name c, ck_domain c)"

definition jar_put :: "(cookie \<Rightarrow> cookie) \<Rightarrow> (string \<times> string \<rightharpoonup> cookie result) \<Rightarrow> cookie \<Rightarrow>
    (string \<times> string \<rightharpoonup> cookie result)" where
  "jar_put keep m c = m(cookie_key c \<mapsto> Inr (keep c))"

definition jar_of_list :: "cookie list \<Rightarrow> (string \<times> string \<rightharpoonup> cookie result)" where
  "jar_of_list cs k = map_option Inr (map_of (map (\<lambda>c. (cookie_key c, c)) cs) k)"

lemma foldl_jar_put:
  "foldl (jar_put keep) m cs k =
     (case find (\<lambda>c. cookie_key c = k) (rev cs) of None \<Rightarrow> m k | Some c \<Rightarrow> Some (Inr (keep c)))"
proof (induction cs arbitrary: m rule: rev_induct)
  case (snoc c cs)
  then show ?case by (cases "cookie_key c = k") (simp_all add: jar_put_def)
qed simp

lemma find_rev_distinct:
  "c \<in> set cs \<Longrightarrow> distinct (map cookie_key cs) \<Longrightarrow> find (\<lambda>d. cookie_key d = cookie_key c) (rev cs) = Some c"
  by (induction cs rule: rev_induct) auto

lemma jar_of_list_SomeD:
  assumes "jar_of_list cs k = Some (Inr c)"
  shows "c \<in> set cs \<and> cookie_key c = k"
proof -
  have "map_of (map (\<lambda>c. (cookie_key c, c)) cs) k = Some c"
    using assms by (auto simp: jar_of_list_def)
  then show ?thesis by (auto dest: map_of_SomeD)
qed

lemma jar_of_list_distinct:
  assumes "distinct (map cookie_key cs)"
  shows "jar_of_list cs k = Some (Inr c) \<longleftrightarrow> c \<in> set cs \<and> cookie_key c = k"
proof
  assume "c \<in> set cs \<and> cookie_key c = k"
  moreover have "distinct (map fst (map (\<lambda>c. (cookie_key c, c)) cs))"
    using assms by (simp add: comp_def)
  ultimately show "jar_of_list cs k = Some (Inr c)"
    by (force simp: jar_of_list_def intro: map_of_is_SomeI)
qed (rule jar_of_list_SomeD)

lemma jar_of_list_read:
  assumes "distinct (map cookie_key cs)"
  shows "{d \<in> set cs. cookie_key d = k} = {d. jar_of_list cs k = Some (Inr d)}"
  by (simp only: jar_of_list_distinct [OF assms])

locale cookie_repository =
  fixes env_ok :: "'e \<Rightarrow> bool"
    and inv :: "'db \<Rightarrow> bool"
    and save :: "'e \<Rightarrow> string \<Rightarrow> cookie list \<Rightarrow> 'db \<Rightarrow> unit result \<times> 'db"
    and get :: "'e \<Rightarrow> string \<Rightarrow> string list option \<Rightarrow> 'db \<Rightarrow> cookie list result \<times> 'db"
    and jar :: "'db \<Rightarrow> string \<Rightarrow> (string \<times> string \<rightharpoonup> cookie result)"
    and keep :: "cookie \<Rightarrow> cookie"
    and listing :: "'db \<Rightarrow> string \<Rightarrow> cookie result list"
  assumes save_ok: "env_ok e \<Longrightarrow> \<forall>c\<in>set cs. utf8_valid (ck_value c) \<Longrightarrow>
          save e p cs db = (Inr u, db') \<Longrightarrow>
          jar db' = (jar db)(p := foldl (jar_put keep) (jar db p) cs)"
    and save_inv: "inv db \<Longrightarrow> save e p cs db = (r, db') \<Longrightarrow> inv db'"
    and save_err: "save e p cs db = (Inl x, db') \<Longrightarrow> db' = db"
    and get_frame: "env_ok e \<Longrightarrow> inv db \<Longrightarrow> get e p ds db = (g, db') \<Longrightarrow>
          jar db' = jar db \<and> listing db' = listing db \<and> inv db'"
    and get_jar: "env_ok e \<Longrightarrow> inv db \<Longrightarrow> get e p None db = (Inr cs, db') \<Longrightarrow>
          jar db p = jar_of_list cs \<and> distinct (map cookie_key cs)"
    and get_list: "get e p None db = (Inr cs, db') \<Longrightarrow> map Inr cs = listing db p"
    and keep_key: "cookie_key (keep c) = cookie_key c"
begin

text \<open>After a successful write the last cookie given for a key is what a read returns for it.\<close>

lemma get_after_save:
  assumes "env_ok e" "env_ok e'" "inv db" "\<forall>c\<in>set cs. utf8_valid (ck_value c)"
    and save: "save e p cs db = (Inr u, db')" and get: "get e' p None db' = (Inr ds, db'')"
    and last: "find (\<lambda>c. cookie_key c = k) (rev cs) = Some c"
  shows "{d \<in> set ds. cookie_key d = k} = {keep c}"
proof -
  have "inv db'" using assms save_inv by blast
  then have jar: "jar db' p = jar_of_list ds" and dist: "distinct (map cookie_key ds)"
    using get_jar assms by blast+
  have "jar_of_list ds k = Some (Inr (keep c))"
    using save_ok [OF assms(1,4) save] last by (simp add: foldl_jar_put jar [symmetric])
  then show ?thesis by (simp add: jar_of_list_read [OF dist])
qed

text \<open>What was stored for other keys is still read back.\<close>

lemma get_after_save_other:
  assumes "env_ok e" "env_ok e'" "inv db" "\<forall>c\<in>set cs. utf8_valid (ck_value c)"
    and save: "save e p cs db = (Inr u, db')" and get: "get e' p None db' = (Inr ds, db'')"
    and other: "k \<notin> cookie_key ` set cs"
  shows "{d \<in> set ds. cookie_key d = k} = {d. jar db p k = Some (Inr d)}"
proof -
  have "inv db'" using assms save_inv by blast
  then have jar: "jar db' p = jar_of_list ds" and dist: "distinct (map cookie_key ds)"
    using get_jar assms by blast+
  have "find (\<lambda>c. cookie_key c = k) (rev cs) = None"
    using other by (auto simp: find_None_iff)
  then have "jar_of_list ds k = jar db p k"
    using save_ok [OF assms(1,4) save] by (simp add: foldl_jar_put jar [symmetric])
  then show ?thesis by (simp add: jar_of_list_read [OF dist])
qed

lemma get_set:
  assumes "env_ok e" "inv db" "get e p None db = (Inr cs, db')"
  shows "set cs = {c. \<exists>k. jar db p k = Some (Inr c)}"
  using get_jar [OF assms] jar_of_list_distinct by auto

end

section \<open>Credentials\<close>

text \<open>
  \<open>CredentialRepository\<close>: one credential per platform. \<open>opens e ct p\<close> says that the stored text
  \<open>ct\<close> is an encryption of the password \<open>p\<close>.
\<close>

locale credential_repository =
  fixes env_ok :: "'e \<Rightarrow> bool"
    and save :: "'e \<Rightarrow> string \<Rightarrow> string \<Rightarrow> string \<Rightarrow> string option \<Rightarrow> 'db \<Rightarrow> unit result \<times> 'db"
    and get :: "'e \<Rightarrow> string \<Rightarrow> 'db \<Rightarrow> credential option result"
    and delete :: "'e \<Rightarrow> string \<Rightarrow> 'db \<Rightarrow> unit result \<times> 'db"
    and look :: "'db \<Rightarrow> string \<Rightarrow> credential option"
    and opens :: "string \<Rightarrow> string \<Rightarrow> bool"
  assumes get_look: "get e p db = Inr c \<Longrightarrow> c = look db p"
    and save_ok: "env_ok e \<Longrightarrow> utf8_valid pw \<Longrightarrow> save e p u pw m db = (Inr r, db') \<Longrightarrow>
          (\<exists>ct. opens ct pw \<and>
             look db' = (look db)(p \<mapsto> \<lparr>cr_platform = p, cr_username = u,
                                        cr_password_encrypted = ct, cr_twofa_method = m\<rparr>))"
    and save_err: "save e p u pw m db = (Inl x, db') \<Longrightarrow> db' = db"
    and delete_ok: "delete e p db = (Inr r, db') \<Longrightarrow> look db' = (look db)(p := None)"
    and delete_err: "delete e p db = (Inl x, db') \<Longrightarrow> db' = db"
begin

lemma get_after_save:
  assumes "env_ok e" "utf8_valid pw" "save e p u pw m db = (Inr r, db')" "get e' p db' = Inr c"
  shows "\<exists>ct. opens ct pw \<and> c = Some \<lparr>cr_platform = p, cr_username = u,
            cr_password_encrypted = ct, cr_twofa_method = m\<rparr>"
  using save_ok [OF assms(1-3)] get_look [OF assms(4)] by auto

lemma get_after_delete:
  assumes "delete e p db = (Inr r, db')" "get e' q db' = Inr c"
  shows "c = (if q = p then None else look db q)"
  using delete_ok [OF assms(1)] get_look [OF assms(2)] by auto

end

end
