(* ===== verification/Session_Repo.thy ===== *)
theory Session_Repo
  imports Ports
begin

text \<open>
  The SQLite database of \<open>adapters/sqlite\<close>: its tables with the columns of \<open>mod.rs\<close>, the
  schema migrations, and the session repository of \<open>session_repo.rs\<close>. A table keyed by its
  PRIMARY KEY is a map; the \<open>cookies\<close> table is the list of its rows in \<open>rowid\<close> order, which
  is the order the queries return them in here. A statement may fail with an error text of
  the database driver (\<open>Some e\<close> in the environment of the call); a failed statement changes
  nothing. The session repository implements the port \<open>session_repository\<close>.
\<close>

section \<open>Tables\<close>

record session_row =
  sr_platform :: string
  sr_status :: string
  sr_message :: "string option"
  sr_requires_input :: int
  sr_input_type :: "string option"
  sr_created_at :: int
  sr_updated_at :: int

record cookie_row =
  kr_platform :: string
  kr_name :: string
  kr_value :: string
  kr_domain :: string
  kr_path :: string
  kr_expires :: "int option"
  kr_http_only :: int
  kr_secure :: int
  kr_created_at :: int
  kr_updated_at :: int

record credential_row =
  dr_username :: string
  dr_password_encrypted :: string
  dr_twofa_method :: "string option"
  dr_created_at :: int
  dr_updated_at :: int

record db =
  db_sessions :: "string \<rightharpoonup> session_row"
  db_cookies :: "cookie_row list"
  db_credentials :: "string \<rightharpoonup> credential_row"

text \<open>
  \<open>run_migrations\<close> on a database file, whose tables may be missing: five
  \<open>CREATE ... IF NOT EXISTS\<close> statements, outside a transaction, stopping at the first that
  fails. The two index statements change no row.
\<close>

record db_file =
  f_sessions :: "(string \<rightharpoonup> session_row) option"
  f_cookies :: "cookie_row list option"
  f_credentials :: "(string \<rightharpoonup> credential_row) option"

definition create_if_missing :: "'a \<Rightarrow> 'a option \<Rightarrow> 'a option" where
  "create_if_missing new t = (case t of None \<Rightarrow> Some new | Some x \<Rightarrow> Some x)"

definition migration_statements :: "(db_file \<Rightarrow> db_file) list" where
  "migration_statements =
     [(\<lambda>f. f\<lparr>f_sessions := create_if_missing Map.empty (f_sessions f)\<rparr>),
      (\<lambda>f. f\<lparr>f_cookies := create_if_missing [] (f_cookies f)\<rparr>),
      (\<lambda>f. f),
      (\<lambda>f. f),
      (\<lambda>f. f\<lparr>f_credentials := create_if_missing Map.empty (f_credentials f)\<rparr>)]"

fun run_statements :: "(db_file \<Rightarrow> db_file) list \<Rightarrow> string option list \<Rightarrow> db_file \<Rightarrow> unit result \<times> db_file" where
  "run_statements [] flts f = (Inr (), f)"
| "run_statements (st # sts) [] f = run_statements sts [] (st f)"
| "run_statements (st # sts) (None # flts) f = run_statements sts flts (st f)"
| "run_statements (st # sts) (Some e # flts) f = (Inl (error_of_sqlx e), f)"

definition run_migrations :: "string option list \<Rightarrow> db_file \<Rightarrow> unit result \<times> db_file" where
  "run_migrations flts f = run_statements migration_statements flts f"

definition db_of_file :: "db_file \<Rightarrow> db option" where
  "db_of_file f =
     (case (f_sessions f, f_cookies f, f_credentials f) of
        (Some s, Some c, Some d) \<Rightarrow> Some \<lparr>db_sessions = s, db_cookies = c, db_credentials = d\<rparr>
      | _ \<Rightarrow> None)"

section \<open>The session repository\<close>

definition to_i32 :: "bool \<Rightarrow> int" where
  "to_i32 b = (if b then 1 else 0)"

definition session_row_of :: "session \<Rightarrow> session_row" where
  "session_row_of s =
     \<lparr>sr_platform = ss_platform s, sr_status = state_as_str (ss_state s), sr_message = ss_message s,
      sr_requires_input = to_i32 (ss_requires_input s), sr_input_type = ss_input_type s,
      sr_created_at = timestamp (ss_created_at s), sr_updated_at = timestamp (ss_updated_at s)\<rparr>"

text \<open>The text SQLite reports for a violated PRIMARY KEY.\<close>

definition unique_violation :: string where
  "unique_violation = ''UNIQUE constraint failed: sessions.id''"

definition session_create :: "string option \<Rightarrow> session \<Rightarrow> db \<Rightarrow> session result \<times> db" where
  "session_create flt s db =
     (case flt of
        Some e \<Rightarrow> (Inl (error_of_sqlx e), db)
      | None \<Rightarrow>
          if db_sessions db (ss_id s) \<noteq> None then (Inl (error_of_sqlx unique_violation), db)
          else (Inr s, db\<lparr>db_sessions := (db_sessions db)(ss_id s \<mapsto> session_row_of s)\<rparr>))"

text \<open>\<open>DateTime::from_timestamp(..).unwrap_or_default()\<close>; the default is the epoch.\<close>

definition read_time :: "(int \<Rightarrow> datetime option) \<Rightarrow> int \<Rightarrow> datetime" where
  "read_time fts t = (case fts t of None \<Rightarrow> 0 | Some d \<Rightarrow> d)"

definition session_of_row :: "(int \<Rightarrow> datetime option) \<Rightarrow> string \<Rightarrow> session_row \<Rightarrow> session result" where
  "session_of_row fts i r =
     res_bind (map_err EDatabase (state_from_str (sr_status r))) (\<lambda>st.
       Inr \<lparr>ss_id = i, ss_platform = sr_platform r, ss_state = st, ss_message = sr_message r,
            ss_requires_input = (sr_requires_input r \<noteq> 0), ss_input_type = sr_input_type r,
            ss_created_at = read_time fts (sr_created_at r),
            ss_updated_at = read_time fts (sr_updated_at r)\<rparr>)"

definition session_look :: "(int \<Rightarrow> datetime option) \<Rightarrow> db \<Rightarrow> string \<Rightarrow> session option result" where
  "session_look fts db i =
     (case db_sessions db i of
        None \<Rightarrow> Inr None
      | Some r \<Rightarrow> res_bind (session_of_row fts i r) (\<lambda>s. Inr (Some s)))"

definition session_get :: "(int \<Rightarrow> datetime option) \<Rightarrow> string option \<Rightarrow> string \<Rightarrow> db \<Rightarrow> session option result" where
  "session_get fts flt i db =
     (case flt of
        Some e \<Rightarrow> Inl (error_of_sqlx e)
      | None \<Rightarrow>
          (case db_sessions db i of
             None \<Rightarrow> Inr None
           | Some r \<Rightarrow> res_bind (session_of_row fts i r) (\<lambda>s. Inr (Some s))))"

definition set_session_columns :: "session \<Rightarrow> session_row \<Rightarrow> session_row" where
  "set_session_columns s r =
     r\<lparr>sr_status := state_as_str (ss_state s), sr_message := ss_message s,
       sr_requires_input := to_i32 (ss_requires_input s), sr_input_type := ss_input_type s,
       sr_updated_at := timestamp (ss_updated_at s)\<rparr>"

definition session_update :: "string option \<Rightarrow> session \<Rightarrow> db \<Rightarrow> unit result \<times> db" where
  "session_update flt s db =
     (case flt of
        Some e \<Rightarrow> (Inl (error_of_sqlx e), db)
      | None \<Rightarrow>
          (Inr (), db\<lparr>db_sessions :=
             (case db_sessions db (ss_id s) of
                None \<Rightarrow> db_sessions db
              | Some r \<Rightarrow> (db_sessions db)(ss_id s \<mapsto> set_session_columns s r))\<rparr>))"

definition session_delete :: "string option \<Rightarrow> string \<Rightarrow> db \<Rightarrow> unit result \<times> db" where
  "session_delete flt i db =
     (case flt of
        Some e \<Rightarrow> (Inl (error_of_sqlx e), db)
      | None \<Rightarrow> (Inr (), db\<lparr>db_sessions := (db_sessions db)(i := None)\<rparr>))"

text \<open>What a stored session comes back as: its times cut to whole seconds.\<close>

definition stored_session :: "(int \<Rightarrow> datetime option) \<Rightarrow> session \<Rightarrow> session" where
  "stored_session fts s =
     s\<lparr>ss_created_at := read_time fts (timestamp (ss_created_at s)),
       ss_updated_at := read_time fts (timestamp (ss_updated_at s))\<rparr>"

lemma session_get_look: "session_get fts None i db = session_look fts db i"
  by (simp add: session_get_def session_look_def)

lemma to_i32_neq [simp]: "(to_i32 b \<noteq> 0) = b" "(to_i32 b = 0) = (\<not> b)"
  by (simp_all add: to_i32_def)

lemma session_of_row_of [simp]:
  "session_of_row fts (ss_id s) (session_row_of s) = Inr (stored_session fts s)"
  by (simp add: session_of_row_def session_row_of_def stored_session_def)

lemma session_of_row_update:
  "\<exists>t. session_of_row fts i (set_session_columns s r) = Inr t \<and> ss_state t = ss_state s"
  by (simp add: session_of_row_def set_session_columns_def)

interpretation sqlite_sessions: session_repository
    session_create "session_get fts" session_update session_delete "session_look fts" "stored_session fts"
  for fts
proof unfold_locales
  fix e i db so assume "session_get fts e i db = Inr so"
  then show "session_look fts db i = Inr so"
    by (cases e) (simp_all add: session_get_def session_look_def)
next
  fix e s db s' db' assume "session_create e s db = (Inr s', db')"
  then show "s' = s \<and> session_look fts db (ss_id s) = Inr None \<and>
      session_look fts db' (ss_id s) = Inr (Some (stored_session fts s)) \<and>
      (\<forall>j. j \<noteq> ss_id s \<longrightarrow> session_look fts db' j = session_look fts db j)"
    by (auto simp: session_create_def session_look_def split: option.splits if_splits)
next
  fix e s db x and db' assume "session_create e s db = (Inl x, db')"
  then show "db' = db" by (auto simp: session_create_def split: option.splits if_splits)
next
  fix e s db u db' assume "session_update e s db = (Inr u, db')"
  then show "(\<forall>j. j \<noteq> ss_id s \<longrightarrow> session_look fts db' j = session_look fts db j) \<and>
      (session_look fts db (ss_id s) = Inr None \<longrightarrow> session_look fts db' (ss_id s) = Inr None) \<and>
      (\<forall>t. session_look fts db (ss_id s) = Inr (Some t) \<longrightarrow>
        (\<exists>t'. session_look fts db' (ss_id s) = Inr (Some t') \<and> ss_state t' = ss_state s))"
    using session_of_row_update [of fts "ss_id s" s]
    by (fastforce simp: session_update_def session_look_def res_iffs split: option.splits)
next
  fix e s db x and db' assume "session_update e s db = (Inl x, db')"
  then show "db' = db" by (auto simp: session_update_def split: option.splits)
next
  fix e i db u db' assume "session_delete e i db = (Inr u, db')"
  then show "session_look fts db' i = Inr None \<and>
      (\<forall>j. j \<noteq> i \<longrightarrow> session_look fts db' j = session_look fts db j)"
    by (auto simp: session_delete_def session_look_def split: option.splits)
next
  fix e i db x and db' assume "session_delete e i db = (Inl x, db')"
  then show "db' = db" by (auto simp: session_delete_def split: option.splits)
qed

section \<open>Migrations\<close>

lemma run_statements_ok:
  "run_statements sts flts f = (Inr u, f') \<Longrightarrow> f' = fold (\<lambda>st. st) sts f"
  by (induction sts flts f rule: run_statements.induct) auto

lemma run_migrations_ok: "run_migrations flts f = (Inr u, f') \<Longrightarrow> db_of_file f' \<noteq> None"
  by (auto simp: run_migrations_def migration_statements_def db_of_file_def create_if_missing_def
      dest!: run_statements_ok split: option.splits)

section \<open>Properties\<close>

text \<open>What a session row gives back. A session that was created is read back with every field as
  it was, its two times cut to whole seconds; creating a second session under the same id fails and
  changes nothing.\<close>

theorem created_session_is_read_back:
  assumes "chrono_ok fts" and "session_create e s db = (Inr s', db')"
    and "session_get fts e' (ss_id s) db' = Inr so"
    and "fts (timestamp (ss_created_at s)) \<noteq> None" and "fts (timestamp (ss_updated_at s)) \<noteq> None"
  shows "so = Some (s\<lparr>ss_created_at := timestamp (ss_created_at s) * 1000000000,
                      ss_updated_at := timestamp (ss_updated_at s) * 1000000000\<rparr>) \<and>
         s' = s \<and> (\<forall>e2 s2. ss_id s2 = ss_id s \<longrightarrow>
                    snd (session_create e2 s2 db') = db' \<and> \<not> is_ok (fst (session_create e2 s2 db')))"
proof -
  have so: "so = Some (stored_session fts s)"
    by (rule sqlite_sessions.get_after_create [OF assms(2,3)])
  have "stored_session fts s = s\<lparr>ss_created_at := timestamp (ss_created_at s) * 1000000000,
      ss_updated_at := timestamp (ss_updated_at s) * 1000000000\<rparr>"
    using assms(1,4,5) by (auto simp: stored_session_def read_time_def chrono_ok_def)
  moreover have "db_sessions db' (ss_id s) \<noteq> None"
    using assms(2) by (auto simp: session_create_def split: option.splits if_splits)
  ultimately show ?thesis
    using so sqlite_sessions.create_ok [OF assms(2)]
    by (auto simp: session_create_def split: option.splits)
qed

lemma created_session_is_read_back_witness:
  "session_get (\<lambda>t. Some (t * 1000000000)) None ''s1''
     \<lparr>db_sessions = [''s1'' \<mapsto> session_row_of (session_new 5000000007 ''s1'' ''naver'')],
      db_cookies = [], db_credentials = Map.empty\<rparr> =
   Inr (Some (session_new 5000000000 ''s1'' ''naver''))"
proof -
  let ?s = "session_new 5000000007 ''s1'' ''naver''"
  let ?db = "\<lparr>db_sessions = Map.empty, db_cookies = [], db_credentials = Map.empty\<rparr>"
  let ?db' = "?db\<lparr>db_sessions := [''s1'' \<mapsto> session_row_of ?s]\<rparr>"
  have "chrono_ok (\<lambda>t. Some (t * 1000000000))" by (simp add: chrono_ok_def)
  moreover have "session_create None ?s ?db = (Inr ?s, ?db')" by (simp add: session_create_def)
  moreover have "is_ok (session_get (\<lambda>t. Some (t * 1000000000)) None (ss_id ?s) ?db')"
    by (simp add: session_get_def session_of_row_def session_row_of_def state_from_str_def)
  ultimately show ?thesis
    using created_session_is_read_back [of "\<lambda>t. Some (t * 1000000000)" None ?s ?db ?s ?db' None]
    by (auto simp: is_ok_iff session_new_def timestamp_def)
qed

lemma updates_keep_absent:
  "session_look fts d i = Inr None \<Longrightarrow>
   session_look fts (fold (\<lambda>(e, s) d. snd (session_update e s d)) us d) i = Inr None"
proof (induction us arbitrary: d)
  case (Cons x us)
  obtain e s where x: "x = (e, s)" by fastforce
  obtain r d' where r: "session_update e s d = (r, d')" by fastforce
  have "session_look fts d' i = Inr None"
  proof (cases r)
    case (Inl m)
    with r sqlite_sessions.update_err Cons.prems show ?thesis by blast
  next
    case (Inr u)
    with r sqlite_sessions.update_ok [of e s d u d' fts] Cons.prems show ?thesis by (metis (full_types))
  qed
  then show ?case using Cons.IH [of d'] by (simp add: x r)
qed simp

text \<open>A deleted session stays deleted. No sequence of updates, of that session or of others, by
  tasks that are still running brings its row back; the deletion itself touches no other row.\<close>

theorem deleted_session_is_not_revived:
  assumes "session_delete e i db = (Inr u, db')"
  shows "session_look fts (fold (\<lambda>(e, s) d. snd (session_update e s d)) us db') i = Inr None \<and>
         (\<forall>j. j \<noteq> i \<longrightarrow> session_look fts db' j = session_look fts db j)"
  using sqlite_sessions.delete_ok [OF assms, of fts] updates_keep_absent by blast

lemma deleted_session_is_not_revived_witness:
  "session_look Some (snd (session_update None (session_new 0 ''s1'' ''naver'')
     \<lparr>db_sessions = Map.empty, db_cookies = [], db_credentials = Map.empty\<rparr>)) ''s1'' = Inr None"
proof -
  let ?db = "\<lparr>db_sessions = [''s1'' \<mapsto> session_row_of (session_new 0 ''s1'' ''naver'')],
              db_cookies = [], db_credentials = Map.empty\<rparr>"
  have "session_delete None ''s1'' ?db = (Inr (), ?db\<lparr>db_sessions := Map.empty\<rparr>)"
    by (simp add: session_delete_def fun_eq_iff)
  from deleted_session_is_not_revived [OF this, of Some "[(None, session_new 0 ''s1'' ''naver'')]"]
  show ?thesis by simp
qed

text \<open>Running the migrations is safe at every start. On any file, whichever statement fails, the
  tables and rows that were there are kept; when none fails the file holds every table, and a
  second run changes nothing.\<close>

theorem migrations_keep_data:
  "(let f' = snd (run_migrations flts f) in
      (f_sessions f' = f_sessions f \<or> f_sessions f = None \<and> f_sessions f' = Some Map.empty) \<and>
      (f_cookies f' = f_cookies f \<or> f_cookies f = None \<and> f_cookies f' = Some []) \<and>
      (f_credentials f' = f_credentials f \<or> f_credentials f = None \<and> f_credentials f' = Some Map.empty)) \<and>
   (let f' = snd (run_migrations [] f) in
      run_migrations [] f' = (Inr (), f') \<and> db_of_file f' \<noteq> None)"
proof
  have keep: "(let f' = snd (run_statements (take n migration_statements) [] f) in
      (f_sessions f' = f_sessions f \<or> f_sessions f = None \<and> f_sessions f' = Some Map.empty) \<and>
      (f_cookies f' = f_cookies f \<or> f_cookies f = None \<and> f_cookies f' = Some []) \<and>
      (f_credentials f' = f_credentials f \<or> f_credentials f = None \<and> f_credentials f' = Some Map.empty))" for n
    by (cases n rule: nat.exhaust; cases "n - 1"; cases "n - 2"; cases "n - 3"; cases "n - 4")
      (auto simp: migration_statements_def create_if_missing_def Let_def split: option.splits)
  have prefix: "\<exists>n. snd (run_statements sts flts f) = snd (run_statements (take n sts) [] f)" for sts flts f
  proof (induction sts flts f rule: run_statements.induct)
    case (4 st sts e flts f)
    show ?case by (intro exI [of _ 0]) simp
  next
    case (2 st sts f)
    show ?case by (intro exI [of _ "length (st # sts)"]) simp
  next
    case (3 st sts flts f)
    then obtain n where "snd (run_statements sts flts (st f)) = snd (run_statements (take n sts) [] (st f))"
      by blast
    then show ?case by (intro exI [of _ "Suc n"]) simp
  qed (auto intro: exI [of _ 0])
  from prefix [of migration_statements flts f] keep
  show "let f' = snd (run_migrations flts f) in
      (f_sessions f' = f_sessions f \<or> f_sessions f = None \<and> f_sessions f' = Some Map.empty) \<and>
      (f_cookies f' = f_cookies f \<or> f_cookies f = None \<and> f_cookies f' = Some []) \<and>
      (f_credentials f' = f_credentials f \<or> f_credentials f = None \<and> f_credentials f' = Some Map.empty)"
    unfolding run_migrations_def by metis
  show "let f' = snd (run_migrations [] f) in run_migrations [] f' = (Inr (), f') \<and> db_of_file f' \<noteq> None"
    by (auto simp: run_migrations_def migration_statements_def create_if_missing_def db_of_file_def Let_def
        split: option.splits)
qed

end
