(* ===== verification/Encryption.thy ===== *)
theory Encryption
  imports Ports
begin

text \<open>
  \<open>adapters/aes_gcm/encryption.rs\<close>: key parsing, encryption and decryption of stored
  secrets. The \<open>base64\<close> and \<open>aes_gcm\<close> crates are the record \<open>crypto\<close>, an argument of every
  definition; the predicates \<open>aead_ok\<close>, \<open>base64_ok\<close> and \<open>base64_alphabets\<close> state what their
  documentation promises. The lemmas show that decryption inverts encryption, for the URL-safe
  spellings of a ciphertext too, and which inputs are refused.
\<close>

text \<open>
  A decoder or the cipher reports a failure with the text of its error; \<open>utf8_error\<close> is the
  text of the standard library's error for bytes that are not UTF-8.
\<close>

record 'c crypto =
  b64_encode :: "bytes \<Rightarrow> string"
  b64_standard :: "string \<Rightarrow> string + bytes"
  b64_url_safe :: "string \<Rightarrow> string + bytes"
  b64_url_safe_no_pad :: "string \<Rightarrow> string + bytes"
  aead_new :: "bytes \<Rightarrow> string + 'c"
  aead_encrypt :: "'c \<Rightarrow> bytes \<Rightarrow> bytes \<Rightarrow> string + bytes"
  aead_decrypt :: "'c \<Rightarrow> bytes \<Rightarrow> bytes \<Rightarrow> string + bytes"
  utf8_error :: "bytes \<Rightarrow> string"

definition base64_any :: "'c crypto \<Rightarrow> string \<Rightarrow> bytes result" where
  "base64_any cr s =
     map_err error_of_base64
       (or_else (or_else (b64_standard cr s) (\<lambda>_. b64_url_safe cr s))
         (\<lambda>_. b64_url_safe_no_pad cr s))"

definition from_key :: "'c crypto \<Rightarrow> string \<Rightarrow> 'c result" where
  "from_key cr key =
     res_bind (base64_any cr key) (\<lambda>key_bytes.
       if length key_bytes \<noteq> 32 then Inl (EEncryption ''Key must be 32 bytes (256 bits)'')
       else map_err EEncryption (aead_new cr key_bytes))"

definition key_required_message :: string where
  "key_required_message =
     ''Encryption key is required. Set IMAUTH_ENCRYPTION_KEY environment variable '' @
     ''or add encryption_key to [security] in config.toml. '' @
     ''Generate a key with: openssl rand -base64 32''"

text \<open>\<open>from_config\<close> reads only the configured key, which is the argument here.\<close>

definition encryption_from_config :: "'c crypto \<Rightarrow> string option \<Rightarrow> 'c result" where
  "encryption_from_config cr encryption_key =
     (case encryption_key of
        None \<Rightarrow> Inl (EConfig key_required_message)
      | Some key \<Rightarrow> from_key cr key)"

definition aes_encrypt :: "'c crypto \<Rightarrow> 'c \<Rightarrow> bytes \<Rightarrow> string \<Rightarrow> string result" where
  "aes_encrypt cr c nonce plaintext =
     res_bind (map_err error_of_aead (aead_encrypt cr c nonce plaintext))
       (\<lambda>ciphertext. Inr (b64_encode cr (nonce @ ciphertext)))"

definition aes_decrypt :: "'c crypto \<Rightarrow> 'c \<Rightarrow> string \<Rightarrow> string result" where
  "aes_decrypt cr c ciphertext =
     res_bind (base64_any cr ciphertext) (\<lambda>data.
       if length data < 12 then Inl (EEncryption ''Ciphertext too short'')
       else res_bind (map_err error_of_aead (aead_decrypt cr c (take 12 data) (drop 12 data)))
         (\<lambda>plaintext. case from_utf8 plaintext of
            None \<Rightarrow> Inl (EEncryption (''Invalid UTF-8: '' @ utf8_error cr plaintext))
          | Some s \<Rightarrow> Inr s))"

section \<open>What the crates document\<close>

definition aead_ok :: "'c crypto \<Rightarrow> bool" where
  "aead_ok cr \<longleftrightarrow>
     (\<forall>c n p ct. length n = 12 \<longrightarrow> aead_encrypt cr c n p = Inr ct \<longrightarrow> aead_decrypt cr c n ct = Inr p)"

text \<open>The standard engine decodes exactly what it encodes, and is injective (canonical).\<close>

definition base64_ok :: "'c crypto \<Rightarrow> bool" where
  "base64_ok cr \<longleftrightarrow>
     (\<forall>b. b64_standard cr (b64_encode cr b) = Inr b) \<and>
     (\<forall>s b. b64_standard cr s = Inr b \<longrightarrow> s = b64_encode cr b)"

definition url_safe_of :: "string \<Rightarrow> string" where
  "url_safe_of s = map (\<lambda>c. if c = CHR ''+'' then CHR ''-'' else if c = CHR ''/'' then CHR ''_'' else c) s"

definition no_pad_of :: "string \<Rightarrow> string" where
  "no_pad_of s = trim_end_matches s ''=''"

text \<open>
  The URL-safe engines use \<open>-\<close> and \<open>_\<close> for \<open>+\<close> and \<open>/\<close>, which the standard alphabet lacks;
  the standard encoding has a multiple of four characters with at most two of padding; the
  engine with padding refuses text that lacks it, the other one refuses text that has it.
\<close>

definition base64_alphabets :: "'c crypto \<Rightarrow> bool" where
  "base64_alphabets cr \<longleftrightarrow>
     (\<forall>b. CHR ''-'' \<notin> set (b64_encode cr b) \<and> CHR ''_'' \<notin> set (b64_encode cr b)) \<and>
     (\<forall>b. length (b64_encode cr b) mod 4 = 0 \<and>
          length (b64_encode cr b) \<le> length (no_pad_of (b64_encode cr b)) + 2) \<and>
     (\<forall>b. b64_url_safe cr (url_safe_of (b64_encode cr b)) = Inr b) \<and>
     (\<forall>s b. b64_url_safe cr s = Inr b \<longrightarrow> s = url_safe_of (b64_encode cr b)) \<and>
     (\<forall>b. b64_url_safe_no_pad cr (no_pad_of (url_safe_of (b64_encode cr b))) = Inr b)"

section \<open>Decoding\<close>

lemma base64_any_encode: "base64_ok cr \<Longrightarrow> base64_any cr (b64_encode cr b) = Inr b"
  by (simp add: base64_any_def base64_ok_def)

lemma aes_decrypt_of_decoding:
  assumes "aead_ok cr" "length n = 12" "utf8_valid p"
    and "aead_encrypt cr c n p = Inr ct" and "base64_any cr s = Inr (n @ ct)"
  shows "aes_decrypt cr c s = Inr p"
proof -
  have "aead_decrypt cr c n ct = Inr p" using assms by (simp add: aead_ok_def)
  with assms show ?thesis by (simp add: aes_decrypt_def from_utf8_def)
qed

lemma aes_encrypt_Inr:
  "aes_encrypt cr c n p = Inr s \<longleftrightarrow>
     (\<exists>ct. aead_encrypt cr c n p = Inr ct \<and> s = b64_encode cr (n @ ct))"
  by (auto simp: aes_encrypt_def res_iffs)

lemma aes_decrypt_encrypt:
  assumes "aead_ok cr" "base64_ok cr" "length n = 12" "utf8_valid p"
    and "aes_encrypt cr c n p = Inr s"
  shows "aes_decrypt cr c s = Inr p"
  using assms by (auto simp: aes_encrypt_Inr base64_any_encode intro: aes_decrypt_of_decoding)

text \<open>The AES-GCM service provides the encryption port.\<close>

definition aes_ok :: "'c crypto \<times> 'c \<Rightarrow> bool" where
  "aes_ok s \<longleftrightarrow> aead_ok (fst s) \<and> base64_ok (fst s)"

definition aes_svc_encrypt :: "'c crypto \<times> 'c \<Rightarrow> bytes \<Rightarrow> string \<Rightarrow> string result" where
  "aes_svc_encrypt s = aes_encrypt (fst s) (snd s)"

definition aes_svc_decrypt :: "'c crypto \<times> 'c \<Rightarrow> string \<Rightarrow> string result" where
  "aes_svc_decrypt s = aes_decrypt (fst s) (snd s)"

interpretation aes: encryption_service aes_ok aes_svc_encrypt aes_svc_decrypt
  by unfold_locales
    (auto simp: aes_ok_def aes_svc_encrypt_def aes_svc_decrypt_def intro: aes_decrypt_encrypt)

section \<open>The URL-safe spellings\<close>

lemma url_safe_of_id: "CHR ''-'' \<notin> set (url_safe_of s) \<Longrightarrow> CHR ''_'' \<notin> set (url_safe_of s) \<Longrightarrow> url_safe_of s = s"
  by (induction s) (auto simp: url_safe_of_def split: if_splits)

lemma length_url_safe_of [simp]: "length (url_safe_of s) = length s"
  by (simp add: url_safe_of_def)

lemma no_pad_prefix: "\<exists>k. s = no_pad_of s @ replicate k CHR ''=''"
proof (induction s rule: rev_induct)
  case (snoc x xs)
  then obtain k where "xs = no_pad_of xs @ replicate k CHR ''=''" by blast
  then show ?case
    by (cases "x = CHR ''=''")
      (auto simp: no_pad_of_def trim_end_matches_def replicate_append_same [symmetric]
        intro: exI [of _ 0] exI [of _ "Suc k"])
qed (simp add: no_pad_of_def trim_end_matches_def)

lemma no_pad_of_url_safe_of: "no_pad_of (url_safe_of s) = url_safe_of (no_pad_of s)"
proof -
  have "dropWhile (\<lambda>x. x = CHR ''='') (map f xs) = map f (dropWhile (\<lambda>x. x = CHR ''='') xs)"
    if "f = (\<lambda>c. if c = CHR ''+'' then CHR ''-'' else if c = CHR ''/'' then CHR ''_'' else c)"
    for f :: "char \<Rightarrow> char" and xs
    using that by (induction xs) auto
  then show ?thesis
    by (simp add: no_pad_of_def url_safe_of_def trim_end_matches_def rev_map)
qed

lemma standard_on_url_safe:
  assumes "base64_ok cr" "base64_alphabets cr" "b64_standard cr (url_safe_of (b64_encode cr b)) = Inr b'"
  shows "b' = b"
proof -
  have s: "url_safe_of (b64_encode cr b) = b64_encode cr b'"
    using assms by (auto simp: base64_ok_def)
  moreover have "url_safe_of (b64_encode cr b) = b64_encode cr b"
    using assms(2) s by (intro url_safe_of_id) (auto simp: base64_alphabets_def)
  ultimately show ?thesis
    using assms(1) by (metis base64_ok_def sum.inject(2))
qed

lemma base64_any_url_safe:
  assumes "base64_ok cr" "base64_alphabets cr"
  shows "base64_any cr (url_safe_of (b64_encode cr b)) = Inr b"
proof (cases "b64_standard cr (url_safe_of (b64_encode cr b))")
  case (Inl e)
  then show ?thesis using assms by (simp add: base64_any_def base64_alphabets_def)
next
  case (Inr b')
  then show ?thesis using standard_on_url_safe [OF assms] by (simp add: base64_any_def)
qed

lemma no_pad_same_length:
  assumes "base64_alphabets cr" "length (no_pad_of (b64_encode cr b)) = length (b64_encode cr b')"
  shows "no_pad_of (b64_encode cr b) = b64_encode cr b"
proof -
  obtain k where k: "b64_encode cr b = no_pad_of (b64_encode cr b) @ replicate k CHR ''=''"
    using no_pad_prefix by blast
  have "length (b64_encode cr b) = length (b64_encode cr b') + k"
    using assms(2) arg_cong [OF k, of length] by simp
  moreover have "length (b64_encode cr b) mod 4 = 0" "length (b64_encode cr b') mod 4 = 0"
    "length (b64_encode cr b) \<le> length (no_pad_of (b64_encode cr b)) + 2"
    using assms(1) by (simp_all add: base64_alphabets_def)
  ultimately have "k = 0" using assms(2) by presburger
  with k show ?thesis by simp
qed

lemma base64_any_no_pad:
  assumes ok: "base64_ok cr" and al: "base64_alphabets cr"
  shows "base64_any cr (no_pad_of (url_safe_of (b64_encode cr b))) = Inr b"
proof -
  let ?e = "b64_encode cr b"
  let ?s = "no_pad_of (url_safe_of ?e)"
  have full: "?s = url_safe_of ?e" if "length ?s = length (b64_encode cr b')" for b'
    using no_pad_same_length [OF al, of b b'] that by (simp add: no_pad_of_url_safe_of)
  have "b' = b" if "b64_standard cr ?s = Inr b'" for b'
  proof -
    have "?s = b64_encode cr b'" using ok that by (simp add: base64_ok_def)
    then have "?s = url_safe_of ?e" using full by metis
    with that show ?thesis using standard_on_url_safe [OF ok al] by simp
  qed
  moreover have "b' = b" if "b64_url_safe cr ?s = Inr b'" for b'
  proof -
    have "?s = url_safe_of (b64_encode cr b')" using al that by (simp add: base64_alphabets_def)
    then have "?s = url_safe_of ?e" using full by (metis length_url_safe_of)
    with that al show ?thesis by (simp add: base64_alphabets_def)
  qed
  moreover have "b64_url_safe_no_pad cr ?s = Inr b" using al by (simp add: base64_alphabets_def)
  ultimately show ?thesis
    by (cases "b64_standard cr ?s"; cases "b64_url_safe cr ?s") (auto simp: base64_any_def)
qed

section \<open>A concrete instance of the crates\<close>

text \<open>
  A small instance of \<open>crypto\<close> for the witnesses. Each byte becomes four characters, two letters
  for its halves, the character that tells the alphabets apart and the padding; the cipher
  reverses its input.
\<close>

definition toy_nib :: "nat \<Rightarrow> char" where
  "toy_nib n = char_of (65 + n)"

definition toy_byte :: "char \<Rightarrow> char \<Rightarrow> string" where
  "toy_byte m c = (let n = of_char c :: nat in [toy_nib (n div 16), toy_nib (n mod 16), m, CHR ''=''])"

definition toy_text :: "char \<Rightarrow> bytes \<Rightarrow> string" where
  "toy_text m b = concat (map (toy_byte m) b)"

fun toy_parse :: "char \<Rightarrow> string \<Rightarrow> string + bytes" where
  "toy_parse m (a # b # x # y # r) =
     (let h = of_char a :: nat; l = of_char b :: nat in
      if 65 \<le> h \<and> h < 81 \<and> 65 \<le> l \<and> l < 81 \<and> x = m \<and> y = CHR ''=''
      then res_bind (toy_parse m r) (\<lambda>t. Inr (char_of ((h - 65) * 16 + (l - 65)) # t))
      else Inl ''Invalid symbol'')"
| "toy_parse m [] = Inr []"
| "toy_parse m s = Inl ''Invalid length''"

definition toy_crypto :: "unit crypto" where
  "toy_crypto =
     \<lparr>b64_encode = toy_text CHR ''+'', b64_standard = toy_parse CHR ''+'',
      b64_url_safe = toy_parse CHR ''-'',
      b64_url_safe_no_pad =
        (\<lambda>s. if s = [] then Inr []
             else if ends_with s ''='' then Inl ''Invalid padding'' else toy_parse CHR ''-'' (s @ ''='')),
      aead_new = (\<lambda>_. Inr ()), aead_encrypt = (\<lambda>_ n p. Inr (rev p)),
      aead_decrypt = (\<lambda>_ n p. Inr (rev p)), utf8_error = (\<lambda>_. ''invalid utf-8 sequence'')\<rparr>"

lemma of_toy_nib: "n < 16 \<Longrightarrow> (of_char (toy_nib n) :: nat) = 65 + n"
  by (simp add: toy_nib_def of_char_of take_bit_eq_mod)

lemma toy_nibbles: "(of_char (c :: char) :: nat) div 16 < 16 \<and> (of_char c :: nat) mod 16 < 16"
  by (simp add: less_mult_imp_div_less)

lemma toy_parse_text: "toy_parse m (toy_text m b) = Inr b"
proof (induction b)
  case (Cons c b)
  note toy_nibbles [of c]
  moreover have "char_of ((of_char c :: nat) div 16 * 16 + of_char c mod 16) = c" by simp
  ultimately show ?case
    using Cons by (simp add: toy_text_def toy_byte_def Let_def of_toy_nib)
qed (simp add: toy_text_def)

lemma toy_nib_of: "65 \<le> (of_char a :: nat) \<Longrightarrow> (of_char a :: nat) < 81 \<Longrightarrow> toy_nib (of_char a - 65) = a"
  by (simp add: toy_nib_def)

lemma toy_text_parse: "toy_parse m s = Inr b \<Longrightarrow> s = toy_text m b"
proof (induction m s arbitrary: b rule: toy_parse.induct)
  case (1 m a c x y r)
  then obtain t where t: "toy_parse m r = Inr t"
    and b: "b = char_of ((of_char a - 65) * 16 + (of_char c - 65 :: nat)) # t"
    and h: "65 \<le> (of_char a :: nat)" "(of_char a :: nat) < 81"
    and l: "65 \<le> (of_char c :: nat)" "(of_char c :: nat) < 81" and xy: "x = m" "y = CHR ''=''"
    by (auto simp: Let_def res_iffs split: if_splits)
  have r: "r = toy_text m t" by (rule 1(1) [OF refl refl _ t]) (use h l xy in simp)
  let ?n = "(of_char a - 65) * 16 + (of_char c - 65) :: nat"
  have "(of_char (char_of ?n :: char) :: nat) = ?n"
    using h l by (simp add: of_char_of take_bit_eq_mod)
  moreover have "?n div 16 = of_char a - 65 \<and> ?n mod 16 = of_char c - 65"
    using l div_mult_self3 [of 16 "of_char a - 65 :: nat" "of_char c - 65"]
      mod_mult_self3 [of "of_char a - 65 :: nat" 16 "of_char c - 65"] by simp
  ultimately show ?case
    using b r xy h l by (simp add: toy_text_def toy_byte_def Let_def toy_nib_of)
qed (simp_all add: toy_text_def)

lemma toy_crypto_aead [simp]: "aead_ok toy_crypto"
  by (simp add: aead_ok_def toy_crypto_def)

lemma toy_crypto_base64 [simp]: "base64_ok toy_crypto"
  using toy_parse_text toy_text_parse by (auto simp: base64_ok_def toy_crypto_def)

lemma toy_nib_plain: "n < 16 \<Longrightarrow> toy_nib n \<notin> {CHR ''+'', CHR ''/'', CHR ''-'', CHR ''_''}"
proof
  assume "n < 16" and "toy_nib n \<in> {CHR ''+'', CHR ''/'', CHR ''-'', CHR ''_''}"
  then have "65 + n \<in> {43, 47, 45, 95 :: nat}"
    using of_toy_nib [of n] by auto
  with \<open>n < 16\<close> show False by auto
qed

lemma toy_byte_plain:
  "CHR ''-'' \<notin> set (toy_byte CHR ''+'' c) \<and> CHR ''_'' \<notin> set (toy_byte CHR ''+'' c) \<and>
   url_safe_of (toy_byte CHR ''+'' c) = toy_byte CHR ''-'' c"
proof -
  from toy_nibbles [of c, THEN conjunct1, THEN toy_nib_plain]
    toy_nibbles [of c, THEN conjunct2, THEN toy_nib_plain] show ?thesis
    by (auto simp: toy_byte_def Let_def url_safe_of_def)
qed

lemma url_safe_of_concat: "url_safe_of (concat xs) = concat (map url_safe_of xs)"
  by (simp add: url_safe_of_def map_concat) (simp add: url_safe_of_def [abs_def])

lemma toy_text_plain:
  "CHR ''-'' \<notin> set (toy_text CHR ''+'' b)" "CHR ''_'' \<notin> set (toy_text CHR ''+'' b)"
  "url_safe_of (toy_text CHR ''+'' b) = toy_text CHR ''-'' b"
  using toy_byte_plain by (simp_all add: toy_text_def url_safe_of_concat comp_def)

lemma length_toy_text: "length (toy_text m b) = 4 * length b"
  by (induction b) (simp_all add: toy_text_def toy_byte_def Let_def)

lemma no_pad_of_toy:
  "no_pad_of (toy_text m b) = (if b = [] then [] else butlast (toy_text m b))" if "m \<noteq> CHR ''=''"
proof (cases b rule: rev_cases)
  case (snoc ys y)
  with that show ?thesis
    by (simp add: no_pad_of_def trim_end_matches_def toy_text_def toy_byte_def Let_def butlast_append)
qed (simp add: no_pad_of_def trim_end_matches_def toy_text_def)

lemma toy_text_last: "b \<noteq> [] \<Longrightarrow> \<exists>t. toy_text m b = t @ [m, CHR ''='']"
  by (cases b rule: rev_cases) (simp_all add: toy_text_def toy_byte_def Let_def)

lemma toy_crypto_alphabets [simp]: "base64_alphabets toy_crypto"
proof -
  have pad: "no_pad_of (toy_text m b) @ ''='' = toy_text m b \<and> \<not> ends_with (no_pad_of (toy_text m b)) ''=''"
    if "b \<noteq> []" "m \<noteq> CHR ''=''" for m b
    using toy_text_last [OF that(1), of m] that by (auto simp: no_pad_of_toy butlast_append ends_with_iff)
  have no_pad: "b64_url_safe_no_pad toy_crypto (no_pad_of (toy_text CHR ''-'' b)) = Inr b" for b
  proof (cases "b = []")
    case True
    then show ?thesis by (simp add: toy_crypto_def no_pad_of_toy)
  next
    case False
    have "no_pad_of (toy_text CHR ''-'' b) \<noteq> []"
      using False toy_text_last [OF False, of "CHR ''-''"] by (auto simp: no_pad_of_toy butlast_append)
    with pad [OF False, of "CHR ''-''"] show ?thesis by (simp add: toy_crypto_def toy_parse_text)
  qed
  have len: "length (toy_text CHR ''+'' b) \<le> length (no_pad_of (toy_text CHR ''+'' b)) + 2" for b
    by (cases "b = []") (simp_all add: no_pad_of_toy length_toy_text)
  have safe: "b64_url_safe toy_crypto (toy_text CHR ''-'' b) = Inr b"
    "b64_url_safe toy_crypto s = Inr b \<Longrightarrow> s = toy_text CHR ''-'' b" for s b
    by (simp_all add: toy_crypto_def toy_parse_text toy_text_parse)
  have enc: "b64_encode toy_crypto = toy_text CHR ''+''" by (simp add: toy_crypto_def)
  show ?thesis
    unfolding base64_alphabets_def enc toy_text_plain(3)
    using toy_text_plain(1,2) len safe no_pad by (auto simp: length_toy_text)
qed

section \<open>Properties\<close>

text \<open>C33: A stored secret is read back, however its base64 text was respelled: the ciphertext that
  \<open>encrypt\<close> returns decrypts to the plaintext, and so do its URL-safe spelling and its URL-safe
  spelling without padding.\<close>

theorem decrypt_accepts_every_spelling:
  assumes "aead_ok cr" "base64_ok cr" "base64_alphabets cr"
    and "length nonce = 12" "utf8_valid plaintext"
    and "aes_encrypt cr c nonce plaintext = Inr s"
  shows "aes_decrypt cr c s = Inr plaintext \<and> aes_decrypt cr c (url_safe_of s) = Inr plaintext \<and>
         aes_decrypt cr c (no_pad_of (url_safe_of s)) = Inr plaintext"
proof -
  from assms obtain ct where ct: "aead_encrypt cr c nonce plaintext = Inr ct"
    and s: "s = b64_encode cr (nonce @ ct)" by (auto simp: aes_encrypt_Inr)
  note dec = aes_decrypt_of_decoding [OF assms(1,4,5) ct]
  from assms s show ?thesis
    by (simp add: dec base64_any_encode base64_any_url_safe base64_any_no_pad)
qed

lemma decrypt_accepts_every_spelling_witness:
  "aes_decrypt toy_crypto () (no_pad_of (url_safe_of
     (toy_text CHR ''+'' (''nonce-nonce-'' @ ''terces'')))) = Inr ''secret''"
proof -
  have "aes_encrypt toy_crypto () ''nonce-nonce-'' ''secret'' =
      Inr (toy_text CHR ''+'' (''nonce-nonce-'' @ ''terces''))"
    by (simp add: aes_encrypt_Inr) (simp add: toy_crypto_def)
  then show ?thesis
    using decrypt_accepts_every_spelling [of toy_crypto "''nonce-nonce-''" "''secret''" "()"]
    by (simp add: Let_def)
qed

text \<open>A service is built exactly from a configured key that decodes to 32 bytes which the cipher
  takes; a missing key is the one configuration error, with the message that tells how to make one,
  and a key that is present but unusable is never reported as missing.\<close>

theorem encryption_from_config_spec:
  "(encryption_from_config cr None = Inl (EConfig key_required_message)) \<and>
   (is_ok (encryption_from_config cr (Some key)) =
      (\<exists>b. base64_any cr key = Inr b \<and> length b = 32 \<and> is_ok (aead_new cr b))) \<and>
   (\<nexists>m. encryption_from_config cr (Some key) = Inl (EConfig m))"
  by (cases "base64_any cr key")
    (auto simp: encryption_from_config_def from_key_def is_ok_iff error_of_base64_def base64_any_def map_err_Inl_iff)

end
