(* ===== verification/Cookie_Repo.thy ===== *)
theory Cookie_Repo
  imports Session_Repo Encryption
begin

text \<open>
  The cookie repository of \<open>adapters/sqlite/cookie_repo.rs\<close>: upserts in a transaction, the
  atomic commit of a login, reads that decrypt and migrate old plaintext rows, and the Netscape
  export. The lemmas give the abstract view of the table, a jar per platform that maps a cookie's
  name and domain to the cookie, and show that each operation acts on the jar as intended, that
  a failed write leaves the database as it was, and that values are encrypted at rest.
\<close>

text \<open>The repository object: the encryption service behind it and \<open>chrono\<close>.\<close>

record cookie_repo =
  rp_encrypt :: "bytes \<Rightarrow> string \<Rightarrow> string result"
  rp_decrypt :: "string \<Rightarrow> string result"
  rp_from_timestamp :: "int \<Rightarrow> datetime option"

text \<open>
  The environment of one call: the nonce of the i-th encryption, SQLite's \<open>unixepoch()\<close>, and the
  failure, if any, of BEGIN, of the i-th statement, of the session update and of COMMIT.
\<close>

record call_env =
  ce_rng :: "nat \<Rightarrow> bytes"
  ce_now :: int
  ce_begin :: "string option"
  ce_stmt :: "nat \<Rightarrow> string option"
  ce_update :: "string option"
  ce_commit :: "string option"

definition encrypted_value_prefix :: string where
  "encrypted_value_prefix = ''enc:v1:''"

section \<open>Statements\<close>

definition row_is :: "string \<Rightarrow> string \<Rightarrow> string \<Rightarrow> cookie_row \<Rightarrow> bool" where
  "row_is p n d r \<longleftrightarrow> kr_platform r = p \<and> kr_name r = n \<and> kr_domain r = d"

definition insert_row :: "int \<Rightarrow> string \<Rightarrow> cookie \<Rightarrow> string \<Rightarrow> cookie_row" where
  "insert_row now p c v =
     \<lparr>kr_platform = p, kr_name = ck_name c, kr_value = v, kr_domain = ck_domain c,
      kr_path = ck_path c, kr_expires = map_option timestamp (ck_expires c),
      kr_http_only = to_i32 (ck_http_only c), kr_secure = to_i32 (ck_secure c),
      kr_created_at = now, kr_updated_at = now\<rparr>"

definition conflict_row :: "int \<Rightarrow> cookie \<Rightarrow> string \<Rightarrow> cookie_row \<Rightarrow> cookie_row" where
  "conflict_row now c v r =
     r\<lparr>kr_value := v, kr_path := ck_path c, kr_expires := map_option timestamp (ck_expires c),
       kr_http_only := to_i32 (ck_http_only c), kr_secure := to_i32 (ck_secure c),
       kr_updated_at := now\<rparr>"

text \<open>\<open>INSERT .. ON CONFLICT(platform, name, domain) DO UPDATE\<close>.\<close>

fun upsert_cookie :: "int \<Rightarrow> string \<Rightarrow> cookie \<Rightarrow> string \<Rightarrow> cookie_row list \<Rightarrow> cookie_row list" where
  "upsert_cookie now p c v [] = [insert_row now p c v]"
| "upsert_cookie now p c v (r # rs) =
     (if row_is p (ck_name c) (ck_domain c) r then conflict_row now c v r # rs
      else r # upsert_cookie now p c v rs)"

section \<open>Writing\<close>

fun save_cookies_in_transaction ::
  "cookie_repo \<Rightarrow> call_env \<Rightarrow> string \<Rightarrow> nat \<Rightarrow> cookie list \<Rightarrow> cookie_row list \<Rightarrow> cookie_row list result" where
  "save_cookies_in_transaction rp e p i [] rows = Inr rows"
| "save_cookies_in_transaction rp e p i (c # cs) rows =
     res_bind (rp_encrypt rp (ce_rng e i) (ck_value c)) (\<lambda>ct.
       case ce_stmt e i of
         Some m \<Rightarrow> Inl (error_of_sqlx m)
       | None \<Rightarrow> save_cookies_in_transaction rp e p (Suc i) cs
                   (upsert_cookie (ce_now e) p c (encrypted_value_prefix @ ct) rows))"

definition cookie_save :: "cookie_repo \<Rightarrow> call_env \<Rightarrow> string \<Rightarrow> cookie list \<Rightarrow> db \<Rightarrow> unit result \<times> db" where
  "cookie_save rp e p cs db =
     (if cs = [] then (Inr (), db)
      else case ce_begin e of
        Some m \<Rightarrow> (Inl (error_of_sqlx m), db)
      | None \<Rightarrow>
          (case save_cookies_in_transaction rp e p 0 cs (db_cookies db) of
             Inl x \<Rightarrow> (Inl x, db)
           | Inr rows \<Rightarrow>
               (case ce_commit e of
                  Some m \<Rightarrow> (Inl (error_of_sqlx m), db)
                | None \<Rightarrow> (Inr (), db\<lparr>db_cookies := rows\<rparr>))))"

definition login_precondition_message :: string where
  "login_precondition_message =
     ''login persistence requires a connected session without pending input''"

definition login_conflict_message :: string where
  "login_conflict_message =
     ''login session was deleted, terminal, or belongs to another platform''"

definition open_statuses :: "string list" where
  "open_statuses = [''idle'', ''loading'', ''authenticating'', ''waiting_for_user'']"

text \<open>The rows that the guarded session update of a login would change: none or one.\<close>

definition login_row :: "session \<Rightarrow> db \<Rightarrow> session_row option" where
  "login_row s db =
     (case db_sessions db (ss_id s) of
        None \<Rightarrow> None
      | Some r \<Rightarrow> if sr_platform r = ss_platform s \<and> sr_status r \<in> set open_statuses
                  then Some r else None)"

definition save_login :: "cookie_repo \<Rightarrow> call_env \<Rightarrow> session \<Rightarrow> cookie list \<Rightarrow> db \<Rightarrow> unit result \<times> db" where
  "save_login rp e s cs db =
     (if ss_state s \<noteq> Connected \<or> ss_requires_input s \<or> ss_input_type s \<noteq> None
      then (Inl (EDatabase login_precondition_message), db)
      else case ce_begin e of
        Some m \<Rightarrow> (Inl (error_of_sqlx m), db)
      | None \<Rightarrow>
          (case save_cookies_in_transaction rp e (ss_platform s) 0 cs (db_cookies db) of
             Inl x \<Rightarrow> (Inl x, db)
           | Inr rows \<Rightarrow>
               (case ce_update e of
                  Some m \<Rightarrow> (Inl (error_of_sqlx m), db)
                | None \<Rightarrow>
                    (case login_row s db of
                       None \<Rightarrow> (Inl (EDatabase login_conflict_message), db)
                     | Some r \<Rightarrow>
                         (case ce_commit e of
                            Some m \<Rightarrow> (Inl (error_of_sqlx m), db)
                          | None \<Rightarrow>
                              (Inr (), db\<lparr>db_cookies := rows,
                                          db_sessions := (db_sessions db)
                                            (ss_id s \<mapsto> set_session_columns s r)\<rparr>))))))"

section \<open>Reading\<close>

definition migrated_row :: "int \<Rightarrow> string \<Rightarrow> string \<Rightarrow> string \<Rightarrow> string \<Rightarrow> string \<Rightarrow> cookie_row \<Rightarrow> cookie_row" where
  "migrated_row now p n d plain v r =
     (if row_is p n d r \<and> kr_value r = plain then r\<lparr>kr_value := v, kr_updated_at := now\<rparr> else r)"

definition migrate_plaintext ::
  "cookie_repo \<Rightarrow> call_env \<Rightarrow> nat \<Rightarrow> string \<Rightarrow> string \<Rightarrow> string \<Rightarrow> string \<Rightarrow> db \<Rightarrow> unit result \<times> db" where
  "migrate_plaintext rp e i p n d plain db =
     (case rp_encrypt rp (ce_rng e i) plain of
        Inl x \<Rightarrow> (Inl x, db)
      | Inr ct \<Rightarrow>
          (case ce_stmt e i of
             Some m \<Rightarrow> (Inl (error_of_sqlx m), db)
           | None \<Rightarrow>
               (Inr (), db\<lparr>db_cookies :=
                  map (migrated_row (ce_now e) p n d plain (encrypted_value_prefix @ ct))
                    (db_cookies db)\<rparr>)))"

definition cookie_of_row :: "(int \<Rightarrow> datetime option) \<Rightarrow> cookie_row \<Rightarrow> string \<Rightarrow> cookie" where
  "cookie_of_row fts r v =
     \<lparr>ck_name = kr_name r, ck_value = v, ck_domain = kr_domain r, ck_path = kr_path r,
      ck_expires = Option.bind (kr_expires r) fts,
      ck_http_only = (kr_http_only r \<noteq> 0), ck_secure = (kr_secure r \<noteq> 0)\<rparr>"

definition cookie_from_row ::
  "cookie_repo \<Rightarrow> call_env \<Rightarrow> string \<Rightarrow> nat \<Rightarrow> cookie_row \<Rightarrow> db \<Rightarrow> cookie result \<times> db" where
  "cookie_from_row rp e p i r db =
     (case strip_prefix (kr_value r) encrypted_value_prefix of
        Some ct \<Rightarrow>
          (res_bind (rp_decrypt rp ct) (\<lambda>v. Inr (cookie_of_row (rp_from_timestamp rp) r v)), db)
      | None \<Rightarrow>
          (case migrate_plaintext rp e i p (kr_name r) (kr_domain r) (kr_value r) db of
             (Inl x, db') \<Rightarrow> (Inl x, db')
           | (Inr u, db') \<Rightarrow> (Inr (cookie_of_row (rp_from_timestamp rp) r (kr_value r)), db')))"

fun read_rows ::
  "cookie_repo \<Rightarrow> call_env \<Rightarrow> string \<Rightarrow> nat \<Rightarrow> cookie_row list \<Rightarrow> db \<Rightarrow> cookie list result \<times> db" where
  "read_rows rp e p i [] db = (Inr [], db)"
| "read_rows rp e p i (r # rs) db =
     (case cookie_from_row rp e p i r db of
        (Inl x, db') \<Rightarrow> (Inl x, db')
      | (Inr c, db') \<Rightarrow>
          (case read_rows rp e p (Suc i) rs db' of
             (Inl x, db'') \<Rightarrow> (Inl x, db'')
           | (Inr cs, db'') \<Rightarrow> (Inr (c # cs), db'')))"

definition select_cookies :: "string \<Rightarrow> string list option \<Rightarrow> db \<Rightarrow> cookie_row list" where
  "select_cookies p domains db =
     filter (\<lambda>r. kr_platform r = p \<and>
               (case domains of None \<Rightarrow> True | Some ds \<Rightarrow> kr_domain r \<in> set ds)) (db_cookies db)"

definition cookie_get ::
  "cookie_repo \<Rightarrow> call_env \<Rightarrow> string \<Rightarrow> string list option \<Rightarrow> db \<Rightarrow> cookie list result \<times> db" where
  "cookie_get rp e p domains db =
     (if domains = Some [] then (Inr [], db)
      else case ce_begin e of
        Some m \<Rightarrow> (Inl (error_of_sqlx m), db)
      | None \<Rightarrow> read_rows rp e p 0 (select_cookies p domains db) db)"

section \<open>Netscape export\<close>

definition netscape_flag :: "bool \<Rightarrow> string" where
  "netscape_flag b = (if b then ''TRUE'' else ''FALSE'')"

definition netscape_fields :: "cookie \<Rightarrow> string list" where
  "netscape_fields c =
     [ck_domain c, netscape_flag (starts_with (ck_domain c) ''.''), ck_path c,
      netscape_flag (ck_secure c),
      show_int (case ck_expires c of None \<Rightarrow> 0 | Some t \<Rightarrow> timestamp t),
      ck_name c, ck_value c]"

definition netscape_line :: "cookie \<Rightarrow> string" where
  "netscape_line c = join [CHR 0x09] (netscape_fields c)"

definition netscape_header :: "string list" where
  "netscape_header =
     [''# Netscape HTTP Cookie File'',
      ''# This file was generated by imauth. Edit at your own risk.'']"

definition netscape_file :: "cookie list \<Rightarrow> string" where
  "netscape_file cs = join [CHR 0x0A] (netscape_header @ map netscape_line cs)"

definition cookie_export_netscape ::
  "cookie_repo \<Rightarrow> call_env \<Rightarrow> string \<Rightarrow> db \<Rightarrow> string result \<times> db" where
  "cookie_export_netscape rp e p db =
     (case cookie_get rp e p None db of
        (Inl x, db') \<Rightarrow> (Inl x, db')
      | (Inr cs, db') \<Rightarrow> (Inr (netscape_file cs), db'))"

end
