(* ===== verification/Cookie_Jar.thy ===== *)
theory Cookie_Jar
  imports Cookie_Repo
begin

text \<open>
  The correctness of the cookie repository. \<open>jar\<close> is the abstract content of the cookies table
  for a platform; a write acts on it as an update of the map, a read leaves it as it is although
  it rewrites plaintext rows. The SQLite repository over the AES-GCM service implements the port
  \<open>cookie_repository\<close>.
\<close>

section \<open>The abstract view\<close>

definition row_value :: "cookie_repo \<Rightarrow> cookie_row \<Rightarrow> string result" where
  "row_value rp r =
     (case strip_prefix (kr_value r) encrypted_value_prefix of
        Some ct \<Rightarrow> rp_decrypt rp ct | None \<Rightarrow> Inr (kr_value r))"

definition row_cookie :: "cookie_repo \<Rightarrow> cookie_row \<Rightarrow> cookie result" where
  "row_cookie rp r =
     res_bind (row_value rp r) (\<lambda>v. Inr (cookie_of_row (rp_from_timestamp rp) r v))"

definition jar :: "cookie_repo \<Rightarrow> db \<Rightarrow> string \<Rightarrow> (string \<times> string \<rightharpoonup> cookie result)" where
  "jar rp db p k = map_option (row_cookie rp) (find (row_is p (fst k) (snd k)) (db_cookies db))"

text \<open>
  The rows as a reader sees them: each key with the cookie it stands for. The jar and the list a
  read returns for a platform depend on nothing else.
\<close>

definition table_view :: "cookie_repo \<Rightarrow> db \<Rightarrow> ((string \<times> string \<times> string) \<times> cookie result) list" where
  "table_view rp db = map (\<lambda>r. ((kr_platform r, kr_name r, kr_domain r), row_cookie rp r)) (db_cookies db)"

definition listing :: "cookie_repo \<Rightarrow> db \<Rightarrow> string \<Rightarrow> cookie result list" where
  "listing rp db p = map (row_cookie rp) (filter (\<lambda>r. kr_platform r = p) (db_cookies db))"

lemma jar_table_view:
  "jar rp db p k = map_option snd (find (\<lambda>x. fst x = (p, k)) (table_view rp db))"
proof -
  have "map_option (row_cookie rp) (find (row_is p (fst k) (snd k)) rs) =
      map_option snd (find (\<lambda>x. fst x = (p, k))
        (map (\<lambda>r. ((kr_platform r, kr_name r, kr_domain r), row_cookie rp r)) rs))" for rs
    by (induction rs) (auto simp: row_is_def)
  then show ?thesis by (simp add: jar_def table_view_def)
qed

lemma listing_table_view:
  "listing rp db p = map snd (filter (\<lambda>x. fst (fst x) = p) (table_view rp db))"
  by (simp add: listing_def table_view_def filter_map comp_def)

lemma same_view:
  assumes "table_view rp db' = table_view rp db"
  shows "jar rp db' = jar rp db" and "listing rp db' = listing rp db"
  using assms by (auto simp: jar_table_view listing_table_view fun_eq_iff)

text \<open>What the table keeps of a cookie: the expiry in whole seconds.\<close>

definition stored_cookie :: "(int \<Rightarrow> datetime option) \<Rightarrow> cookie \<Rightarrow> cookie" where
  "stored_cookie fts c = c\<lparr>ck_expires := Option.bind (map_option timestamp (ck_expires c)) fts\<rparr>"

lemma cookie_key_stored [simp]: "cookie_key (stored_cookie fts c) = cookie_key c"
  by (simp add: stored_cookie_def cookie_key_def)

text \<open>The environment of a call in which stored text decrypts to what was encrypted.\<close>

definition repo_ok :: "cookie_repo \<Rightarrow> call_env \<Rightarrow> bool" where
  "repo_ok rp e \<longleftrightarrow>
     (\<forall>i p ct. utf8_valid p \<longrightarrow> rp_encrypt rp (ce_rng e i) p = Inr ct \<longrightarrow> rp_decrypt rp ct = Inr p)"

text \<open>
  The table invariant: the UNIQUE constraint, and that what is stored without the prefix is the
  text of a Rust string.
\<close>

definition row_key :: "cookie_row \<Rightarrow> string \<times> string \<times> string" where
  "row_key r = (kr_platform r, kr_name r, kr_domain r)"

definition is_encrypted :: "cookie_row \<Rightarrow> bool" where
  "is_encrypted r = starts_with (kr_value r) encrypted_value_prefix"

definition cookies_wf :: "db \<Rightarrow> bool" where
  "cookies_wf db \<longleftrightarrow>
     distinct (map row_key (db_cookies db)) \<and>
     (\<forall>r\<in>set (db_cookies db). \<not> is_encrypted r \<longrightarrow> utf8_valid (kr_value r))"

lemma row_is_key: "row_is p n d r \<longleftrightarrow> row_key r = (p, n, d)"
  by (auto simp: row_is_def row_key_def)

lemma is_encrypted_prefix [simp]: "is_encrypted (r\<lparr>kr_value := encrypted_value_prefix @ ct\<rparr>)"
  by (simp add: is_encrypted_def starts_with_iff)

section \<open>Upserts\<close>

lemma row_cookie_insert:
  "rp_decrypt rp ct = Inr (ck_value c) \<Longrightarrow>
   row_cookie rp (insert_row now p c (encrypted_value_prefix @ ct)) =
     Inr (stored_cookie (rp_from_timestamp rp) c)"
  by (simp add: row_cookie_def row_value_def insert_row_def cookie_of_row_def stored_cookie_def)

lemma row_cookie_conflict:
  "rp_decrypt rp ct = Inr (ck_value c) \<Longrightarrow> row_is p (ck_name c) (ck_domain c) r \<Longrightarrow>
   row_cookie rp (conflict_row now c (encrypted_value_prefix @ ct) r) =
     Inr (stored_cookie (rp_from_timestamp rp) c)"
  by (simp add: row_cookie_def row_value_def conflict_row_def cookie_of_row_def stored_cookie_def
      row_is_def)

lemma row_is_conflict [simp]: "row_is p n d (conflict_row now c v r) = row_is p n d r"
  by (simp add: row_is_def conflict_row_def)

lemma row_is_insert [simp]:
  "row_is q n d (insert_row now p c v) \<longleftrightarrow> q = p \<and> n = ck_name c \<and> d = ck_domain c"
  by (auto simp: row_is_def insert_row_def)

lemma find_upsert_other:
  "(q, n, d) \<noteq> (p, ck_name c, ck_domain c) \<Longrightarrow>
   find (row_is q n d) (upsert_cookie now p c v rows) = find (row_is q n d) rows"
  by (induction rows) (auto simp: row_is_key row_key_def insert_row_def conflict_row_def)

lemma find_upsert_same:
  assumes "rp_decrypt rp ct = Inr (ck_value c)"
  shows "map_option (row_cookie rp) (find (row_is p (ck_name c) (ck_domain c))
           (upsert_cookie now p c (encrypted_value_prefix @ ct) rows)) =
         Some (Inr (stored_cookie (rp_from_timestamp rp) c))"
  using assms by (induction rows) (auto simp: row_cookie_insert row_cookie_conflict)

lemma jar_upsert:
  assumes "rp_decrypt rp ct = Inr (ck_value c)"
  shows "jar rp (db\<lparr>db_cookies := upsert_cookie now p c (encrypted_value_prefix @ ct) (db_cookies db)\<rparr>) =
         (jar rp db)(p := jar_put (stored_cookie (rp_from_timestamp rp)) (jar rp db p) c)"
proof (intro ext)
  fix q k
  show "jar rp (db\<lparr>db_cookies := upsert_cookie now p c (encrypted_value_prefix @ ct) (db_cookies db)\<rparr>) q k =
        ((jar rp db)(p := jar_put (stored_cookie (rp_from_timestamp rp)) (jar rp db p) c)) q k"
  proof (cases "(q, k) = (p, cookie_key c)")
    case True
    then show ?thesis
      using find_upsert_same [OF assms] by (simp add: jar_def jar_put_def cookie_key_def)
  next
    case False
    then have "(q, fst k, snd k) \<noteq> (p, ck_name c, ck_domain c)"
      by (auto simp: cookie_key_def prod_eq_iff)
    with False show ?thesis
      by (auto simp: jar_def jar_put_def find_upsert_other)
  qed
qed

lemma row_keys_upsert:
  "map row_key (upsert_cookie now p c v rows) =
     (if (p, ck_name c, ck_domain c) \<in> row_key ` set rows then map row_key rows
      else map row_key rows @ [(p, ck_name c, ck_domain c)])"
  by (induction rows) (auto simp: row_is_key row_key_def insert_row_def conflict_row_def)

lemma upsert_rows:
  "r \<in> set (upsert_cookie now p c v rows) \<Longrightarrow>
     r \<in> set rows \<or> (kr_value r = v \<and> row_key r = (p, ck_name c, ck_domain c))"
  by (induction rows) (auto simp: row_is_key row_key_def insert_row_def conflict_row_def split: if_splits)

lemma cookies_wf_upsert:
  "cookies_wf db \<Longrightarrow>
   cookies_wf (db\<lparr>db_cookies := upsert_cookie now p c (encrypted_value_prefix @ ct) (db_cookies db)\<rparr>)"
  by (auto simp: cookies_wf_def row_keys_upsert is_encrypted_def starts_with_iff dest!: upsert_rows)

section \<open>Transactions\<close>

text \<open>One induction for all that the upsert loop does.\<close>

lemma save_loop:
  assumes "save_cookies_in_transaction rp e p i cs (db_cookies db) = Inr rows"
  shows "cookies_wf db \<Longrightarrow> cookies_wf (db\<lparr>db_cookies := rows\<rparr>)"
    and "repo_ok rp e \<Longrightarrow> \<forall>c\<in>set cs. utf8_valid (ck_value c) \<Longrightarrow>
      jar rp (db\<lparr>db_cookies := rows\<rparr>) =
        (jar rp db)(p := foldl (jar_put (stored_cookie (rp_from_timestamp rp))) (jar rp db p) cs)"
  using assms
proof (induction cs arbitrary: i db)
  case Nil
  {
    case 1
    then show ?case by auto
  next
    case 2
    then show ?case by auto
  }
next
  case (Cons c cs)
  {
    case 1
    then obtain ct where "save_cookies_in_transaction rp e p (Suc i) cs
        (upsert_cookie (ce_now e) p c (encrypted_value_prefix @ ct) (db_cookies db)) = Inr rows"
      by (auto simp: res_iffs split: option.splits)
    then show ?case
      using Cons.IH(1) [where db = "db\<lparr>db_cookies := upsert_cookie (ce_now e) p c (encrypted_value_prefix @ ct) (db_cookies db)\<rparr>"]
        cookies_wf_upsert [OF 1(1)] by simp
  next
    case 2
    then obtain ct where ct: "rp_encrypt rp (ce_rng e i) (ck_value c) = Inr ct"
      and loop: "save_cookies_in_transaction rp e p (Suc i) cs
        (upsert_cookie (ce_now e) p c (encrypted_value_prefix @ ct) (db_cookies db)) = Inr rows"
      by (auto simp: res_iffs split: option.splits)
    let ?db = "db\<lparr>db_cookies := upsert_cookie (ce_now e) p c (encrypted_value_prefix @ ct) (db_cookies db)\<rparr>"
    from ct 2 have dec: "rp_decrypt rp ct = Inr (ck_value c)" by (auto simp: repo_ok_def)
    have "jar rp (?db\<lparr>db_cookies := rows\<rparr>) = (jar rp ?db)
        (p := foldl (jar_put (stored_cookie (rp_from_timestamp rp))) (jar rp ?db p) cs)"
      using loop 2 by (intro Cons.IH(2)) auto
    then show ?case by (simp only: jar_upsert [OF dec]) (simp add: fun_eq_iff)
  }
qed

text \<open>Every row the loop leaves is an old one or an encrypted one of the platform.\<close>

lemma save_loop_rows:
  assumes "save_cookies_in_transaction rp e p i cs rows = Inr rows'" "r \<in> set rows'"
  shows "r \<in> set rows \<or> (is_encrypted r \<and> kr_platform r = p \<and>
           (\<exists>c\<in>set cs. kr_name r = ck_name c \<and> kr_domain r = ck_domain c))"
  using assms
proof (induction cs arbitrary: i rows)
  case (Cons c cs)
  then obtain ct where "save_cookies_in_transaction rp e p (Suc i) cs
      (upsert_cookie (ce_now e) p c (encrypted_value_prefix @ ct) rows) = Inr rows'"
    by (auto simp: res_iffs split: option.splits)
  from Cons.IH [OF this Cons.prems(2)] show ?case
    by (auto simp: is_encrypted_def starts_with_iff row_key_def dest!: upsert_rows)
qed simp

lemma cookie_save_ErrD: "cookie_save rp e p cs db = (Inl x, db') \<Longrightarrow> db' = db"
  by (auto simp: cookie_save_def split: if_splits option.splits sum.splits)

lemma cookie_save_OkD:
  assumes "cookie_save rp e p cs db = (Inr u, db')"
  shows "\<exists>rows. save_cookies_in_transaction rp e p 0 cs (db_cookies db) = Inr rows \<and>
                db' = db\<lparr>db_cookies := rows\<rparr>"
  using assms by (auto simp: cookie_save_def split: if_splits option.splits sum.splits)

lemma save_login_ErrD: "save_login rp e s cs db = (Inl x, db') \<Longrightarrow> db' = db"
  by (auto simp: save_login_def split: if_splits option.splits sum.splits)

lemma save_login_OkD:
  assumes "save_login rp e s cs db = (Inr u, db')"
  shows "\<exists>rows r. ss_state s = Connected \<and> login_row s db = Some r \<and>
           save_cookies_in_transaction rp e (ss_platform s) 0 cs (db_cookies db) = Inr rows \<and>
           db' = db\<lparr>db_cookies := rows, db_sessions := (db_sessions db)
                      (ss_id s \<mapsto> set_session_columns s r)\<rparr>"
  using assms by (auto simp: save_login_def split: if_splits option.splits sum.splits)

lemma login_row_SomeD:
  "login_row s db = Some r \<Longrightarrow>
     db_sessions db (ss_id s) = Some r \<and> sr_platform r = ss_platform s \<and> sr_status r \<in> set open_statuses"
  by (auto simp: login_row_def split: option.splits if_splits)

lemma jar_db_sessions [simp]: "jar rp (db\<lparr>db_sessions := m\<rparr>) = jar rp db"
  by (intro ext) (simp add: jar_def)

lemma cookies_wf_db_sessions [simp]: "cookies_wf (db\<lparr>db_sessions := m\<rparr>) = cookies_wf db"
  by (simp add: cookies_wf_def)


section \<open>Reads\<close>

lemma row_is_migrated [simp]: "row_is q m f (migrated_row now p n d plain v r) = row_is q m f r"
  by (simp add: row_is_def migrated_row_def)

lemma row_key_migrated [simp]: "row_key (migrated_row now p n d plain v r) = row_key r"
  by (simp add: row_key_def migrated_row_def)

lemma row_cookie_migrated:
  assumes "rp_decrypt rp ct = Inr plain" "\<not> starts_with plain encrypted_value_prefix"
  shows "row_cookie rp (migrated_row now p n d plain (encrypted_value_prefix @ ct) r) = row_cookie rp r"
proof -
  have "strip_prefix plain encrypted_value_prefix = None"
    using assms(2) by (simp add: strip_prefix_None_iff)
  with assms(1) show ?thesis
    by (auto simp: row_cookie_def row_value_def migrated_row_def cookie_of_row_def)
qed

lemma find_map_same: "(\<And>r. P (f r) = P r) \<Longrightarrow> find P (map f rs) = map_option f (find P rs)"
  by (induction rs) auto

lemma migrate_frame:
  assumes "migrate_plaintext rp e i p n d plain db = (r, db')" "repo_ok rp e"
    and "utf8_valid plain" "\<not> starts_with plain encrypted_value_prefix"
  shows "table_view rp db' = table_view rp db \<and> (cookies_wf db \<longrightarrow> cookies_wf db') \<and> db_sessions db' = db_sessions db \<and> db_credentials db' = db_credentials db"
proof (cases r)
  case (Inl x)
  with assms show ?thesis by (auto simp: migrate_plaintext_def split: sum.splits option.splits)
next
  case (Inr u)
  with assms(1) obtain ct where ct: "rp_encrypt rp (ce_rng e i) plain = Inr ct"
    and db': "db' = db\<lparr>db_cookies := map (migrated_row (ce_now e) p n d plain (encrypted_value_prefix @ ct))
                (db_cookies db)\<rparr>"
    by (auto simp: migrate_plaintext_def split: sum.splits option.splits)
  have "rp_decrypt rp ct = Inr plain" using ct assms(2,3) by (simp add: repo_ok_def)
  then have view: "table_view rp db' = table_view rp db"
    using assms(4) by (auto simp: table_view_def db' row_cookie_migrated) (simp_all add: migrated_row_def)
  have "map row_key (db_cookies db') = map row_key (db_cookies db)"
    by (simp add: db' comp_def)
  moreover have "\<forall>r\<in>set (db_cookies db'). \<not> is_encrypted r \<longrightarrow> r \<in> set (db_cookies db)"
    by (auto simp: db' is_encrypted_def migrated_row_def starts_with_iff)
  ultimately have "cookies_wf db \<longrightarrow> cookies_wf db'"
    by (simp add: cookies_wf_def)
  with view show ?thesis by (simp add: db')
qed

lemma cookie_from_row_frame:
  assumes "cookie_from_row rp e p i r db = (res, db')" "repo_ok rp e"
    and "\<not> is_encrypted r \<longrightarrow> utf8_valid (kr_value r)"
  shows "table_view rp db' = table_view rp db \<and> (cookies_wf db \<longrightarrow> cookies_wf db') \<and> db_sessions db' = db_sessions db \<and> db_credentials db' = db_credentials db"
proof (cases "strip_prefix (kr_value r) encrypted_value_prefix")
  case None
  then obtain res' where m: "migrate_plaintext rp e i p (kr_name r) (kr_domain r) (kr_value r) db = (res', db')"
    using assms(1) by (auto simp: cookie_from_row_def split: prod.splits sum.splits)
  from None have "\<not> starts_with (kr_value r) encrypted_value_prefix"
    by (simp add: strip_prefix_None_iff)
  then show ?thesis using migrate_frame [OF m assms(2)] assms(3) by (simp add: is_encrypted_def)
next
  case (Some ct)
  with assms(1) show ?thesis by (simp add: cookie_from_row_def)
qed

lemma cookie_from_row_Inr:
  "cookie_from_row rp e p i r db = (Inr c, db') \<Longrightarrow> row_cookie rp r = Inr c"
  by (auto simp: cookie_from_row_def row_cookie_def row_value_def res_iffs
      split: option.splits prod.splits sum.splits)

lemma read_rows_frame:
  assumes "read_rows rp e p i rs db = (res, db')" "repo_ok rp e"
    and "\<forall>r\<in>set rs. \<not> is_encrypted r \<longrightarrow> utf8_valid (kr_value r)"
  shows "table_view rp db' = table_view rp db \<and> (cookies_wf db \<longrightarrow> cookies_wf db') \<and> db_sessions db' = db_sessions db \<and> db_credentials db' = db_credentials db"
  using assms
proof (induction rs arbitrary: i db res)
  case (Cons r rs)
  obtain res1 db1 where c: "cookie_from_row rp e p i r db = (res1, db1)" by fastforce
  have f: "table_view rp db1 = table_view rp db \<and> (cookies_wf db \<longrightarrow> cookies_wf db1) \<and> db_sessions db1 = db_sessions db \<and> db_credentials db1 = db_credentials db"
    using cookie_from_row_frame [OF c Cons.prems(2)] Cons.prems(3) by simp
  show ?case
  proof (cases res1)
    case (Inl x)
    with Cons.prems(1) c f show ?thesis by auto
  next
    case (Inr d)
    with Cons.prems(1) c obtain res2 where "read_rows rp e p (Suc i) rs db1 = (res2, db')"
      by (auto split: prod.splits sum.splits)
    from Cons.IH [OF this Cons.prems(2)] Cons.prems(3) f show ?thesis by simp
  qed
qed simp

lemma read_rows_Inr:
  "read_rows rp e p i rs db = (Inr cs, db') \<Longrightarrow> map (row_cookie rp) rs = map Inr cs"
  by (induction rs arbitrary: i db cs)
    (auto dest: cookie_from_row_Inr split: prod.splits sum.splits)

lemma cookie_get_frame:
  assumes "cookie_get rp e p ds db = (res, db')" "repo_ok rp e" "cookies_wf db"
  shows "table_view rp db' = table_view rp db \<and> cookies_wf db' \<and> db_sessions db' = db_sessions db \<and> db_credentials db' = db_credentials db"
proof (cases "ds = Some [] \<or> ce_begin e \<noteq> None")
  case True
  with assms show ?thesis by (auto simp: cookie_get_def split: if_splits option.splits)
next
  case False
  with assms(1) have "read_rows rp e p 0 (select_cookies p ds db) db = (res, db')"
    by (auto simp: cookie_get_def)
  moreover have "\<forall>r\<in>set (select_cookies p ds db). \<not> is_encrypted r \<longrightarrow> utf8_valid (kr_value r)"
    using assms(3) by (auto simp: cookies_wf_def select_cookies_def)
  ultimately show ?thesis using read_rows_frame assms(2,3) by blast
qed

text \<open>The domains that a read asks for: all of them, or those of a list.\<close>

definition asked_domain :: "string list option \<Rightarrow> string \<Rightarrow> bool" where
  "asked_domain ds d \<longleftrightarrow> (case ds of None \<Rightarrow> True | Some xs \<Rightarrow> d \<in> set xs)"

lemma asked_domain_simps [simp]: "asked_domain None d" "asked_domain (Some xs) d \<longleftrightarrow> d \<in> set xs"
  by (simp_all add: asked_domain_def)

lemma select_cookies_asked:
  "select_cookies p ds db = filter (\<lambda>r. kr_platform r = p \<and> asked_domain ds (kr_domain r)) (db_cookies db)"
  by (simp add: select_cookies_def asked_domain_def)

text \<open>A successful read returns the selected rows, decrypted, in their order.\<close>

lemma cookie_get_Inr:
  assumes "cookie_get rp e p ds db = (Inr cs, db')"
  shows "map (row_cookie rp) (select_cookies p ds db) = map Inr cs"
proof (cases "ds = Some []")
  case True
  with assms show ?thesis by (simp add: cookie_get_def select_cookies_def)
next
  case False
  with assms have "read_rows rp e p 0 (select_cookies p ds db) db = (Inr cs, db')"
    by (simp add: cookie_get_def split: option.splits)
  then show ?thesis by (rule read_rows_Inr)
qed

lemma row_cookie_key:
  "row_cookie rp r = Inr c \<Longrightarrow> cookie_key c = (kr_name r, kr_domain r)"
  by (auto simp: row_cookie_def res_iffs cookie_of_row_def cookie_key_def)

lemma jar_of_rows:
  assumes "map (row_cookie rp) rs = map Inr cs" "\<forall>r\<in>set rs. kr_platform r = p"
  shows "map_option (row_cookie rp) (find (row_is p (fst k) (snd k)) rs) = jar_of_list cs k"
  using assms
proof (induction rs arbitrary: cs)
  case (Cons r rs)
  then obtain c cs' where "cs = c # cs'" "row_cookie rp r = Inr c" "map (row_cookie rp) rs = map Inr cs'"
    by (cases cs) auto
  with Cons show ?case
    using row_cookie_key [of rp r c]
    by (cases k) (auto simp: jar_of_list_def row_is_def)
qed (simp add: jar_of_list_def)

lemma find_select:
  "find (row_is p n d) (select_cookies p ds db) = (if asked_domain ds d then find (row_is p n d) (db_cookies db) else None)"
proof (cases "asked_domain ds d")
  case True
  then show ?thesis by (simp add: select_cookies_asked) (rule find_filter, simp add: row_is_def)
next
  case False
  then show ?thesis by (auto simp: find_None_iff select_cookies_asked row_is_def)
qed

lemma cookie_get_jar:
  assumes "cookie_get rp e p ds db = (Inr cs, db')"
  shows "jar_of_list cs = (\<lambda>k. if asked_domain ds (snd k) then jar rp db p k else None)"
proof
  fix k
  show "jar_of_list cs k = (if asked_domain ds (snd k) then jar rp db p k else None)"
    using jar_of_rows [OF cookie_get_Inr [OF assms], of p k, symmetric]
    by (simp add: jar_def find_select) (simp add: select_cookies_asked)
qed

lemma keys_of_read:
  "map (row_cookie rp) rs = map Inr cs \<Longrightarrow>
   map cookie_key cs = map (\<lambda>r. (kr_name r, kr_domain r)) rs"
proof (induction rs arbitrary: cs)
  case (Cons r rs)
  then show ?case by (cases cs) (auto dest: row_cookie_key)
qed simp

lemma cookie_get_distinct:
  assumes "cookie_get rp e p ds db = (Inr cs, db')" "cookies_wf db"
  shows "distinct (map cookie_key cs)"
proof -
  let ?rs = "select_cookies p ds db"
  have rows: "map (row_cookie rp) ?rs = map Inr cs" by (rule cookie_get_Inr [OF assms(1)])
  have "distinct (map row_key ?rs)"
    using assms(2) by (simp add: cookies_wf_def select_cookies_def distinct_map_filter)
  moreover have "map row_key ?rs = map (\<lambda>r. (p, kr_name r, kr_domain r)) ?rs"
    by (simp add: select_cookies_def row_key_def)
  ultimately have "distinct (map (\<lambda>r. (kr_name r, kr_domain r)) ?rs)"
    by (auto simp: distinct_map inj_on_def)
  then show ?thesis by (simp add: keys_of_read [OF rows])
qed

section \<open>The port\<close>

text \<open>The repository over the AES-GCM service, and the environments its laws hold in.\<close>

definition sqlite_repo :: "'c crypto \<times> 'c \<Rightarrow> (int \<Rightarrow> datetime option) \<Rightarrow> cookie_repo" where
  "sqlite_repo s fts =
     \<lparr>rp_encrypt = aes_svc_encrypt s, rp_decrypt = aes_svc_decrypt s, rp_from_timestamp = fts\<rparr>"

definition sqlite_env_ok :: "'c crypto \<times> 'c \<Rightarrow> call_env \<Rightarrow> bool" where
  "sqlite_env_ok s e \<longleftrightarrow> aes_ok s \<and> (\<forall>i. length (ce_rng e i) = 12)"

lemma sqlite_repo_ok: "sqlite_env_ok s e \<Longrightarrow> repo_ok (sqlite_repo s fts) e"
  by (auto simp: repo_ok_def sqlite_repo_def sqlite_env_ok_def intro: aes.decrypt_encrypt)

interpretation sqlite_cookies: cookie_repository
    "sqlite_env_ok s" cookies_wf "cookie_save (sqlite_repo s fts)" "cookie_get (sqlite_repo s fts)"
    "jar (sqlite_repo s fts)" "stored_cookie fts" "listing (sqlite_repo s fts)"
  for s fts
proof unfold_locales
  fix e p cs db u db'
  assume ok: "sqlite_env_ok s e" and utf8: "\<forall>c\<in>set cs. utf8_valid (ck_value c)"
    and save: "cookie_save (sqlite_repo s fts) e p cs db = (Inr u, db')"
  from cookie_save_OkD [OF save] obtain rows
    where loop: "save_cookies_in_transaction (sqlite_repo s fts) e p 0 cs (db_cookies db) = Inr rows"
      and db': "db' = db\<lparr>db_cookies := rows\<rparr>" by blast
  have "rp_from_timestamp (sqlite_repo s fts) = fts" by (simp add: sqlite_repo_def)
  then show "jar (sqlite_repo s fts) db' = (jar (sqlite_repo s fts) db)
      (p := foldl (jar_put (stored_cookie fts)) (jar (sqlite_repo s fts) db p) cs)"
    using save_loop(2) [OF loop sqlite_repo_ok [OF ok] utf8] by (simp add: db')
next
  fix db e p cs r db'
  assume "cookies_wf db" "cookie_save (sqlite_repo s fts) e p cs db = (r, db')"
  then show "cookies_wf db'"
    by (cases r) (auto dest!: cookie_save_OkD dest: cookie_save_ErrD save_loop(1))
next
  fix e p cs db x db'
  assume "cookie_save (sqlite_repo s fts) e p cs db = (Inl x, db')"
  then show "db' = db" by (rule cookie_save_ErrD)
next
  fix e db p ds g db'
  assume "sqlite_env_ok s e" "cookies_wf db" "cookie_get (sqlite_repo s fts) e p ds db = (g, db')"
  then have "table_view (sqlite_repo s fts) db' = table_view (sqlite_repo s fts) db \<and> cookies_wf db'"
    using cookie_get_frame sqlite_repo_ok by blast
  then show "jar (sqlite_repo s fts) db' = jar (sqlite_repo s fts) db \<and>
      listing (sqlite_repo s fts) db' = listing (sqlite_repo s fts) db \<and> cookies_wf db'"
    using same_view by blast
next
  fix e db p cs db'
  assume "sqlite_env_ok s e" "cookies_wf db"
    and get: "cookie_get (sqlite_repo s fts) e p None db = (Inr cs, db')"
  then show "jar (sqlite_repo s fts) db p = jar_of_list cs \<and> distinct (map cookie_key cs)"
    using cookie_get_jar [OF get] cookie_get_distinct [OF get] by simp
next
  fix e p db cs db' assume "cookie_get (sqlite_repo s fts) e p None db = (Inr cs, db')"
  from cookie_get_Inr [OF this] show "map Inr cs = listing (sqlite_repo s fts) db p"
    by (simp add: listing_def select_cookies_def)
next
  fix c show "cookie_key (stored_cookie fts c) = cookie_key c" by simp
qed

section \<open>Encryption at rest\<close>

text \<open>
  Every plaintext row of the platform and the domains asked for that is still to be visited is in the rest of the snapshot,
  so none is left when the read has succeeded.
\<close>

definition plain_rows :: "string \<Rightarrow> string list option \<Rightarrow> db \<Rightarrow> cookie_row set" where
  "plain_rows p ds db = {r \<in> set (db_cookies db). kr_platform r = p \<and> asked_domain ds (kr_domain r) \<and> \<not> is_encrypted r}"

lemma migrated_row_platform [simp]: "kr_platform (migrated_row now p n d plain v r) = kr_platform r"
  "kr_domain (migrated_row now p n d plain v r) = kr_domain r"
  by (simp_all add: migrated_row_def)

lemma cookie_from_row_plain:
  assumes "cookie_from_row rp e p i r db = (Inr c, db')" "kr_platform r = p"
  shows "plain_rows p ds db' \<subseteq> plain_rows p ds db - {r}"
proof (cases "strip_prefix (kr_value r) encrypted_value_prefix")
  case (Some ct)
  then have "is_encrypted r" by (simp add: is_encrypted_def strip_prefix_Some_iff starts_with_iff)
  with assms(1) Some show ?thesis by (auto simp: cookie_from_row_def plain_rows_def)
next
  case None
  let ?f = "\<lambda>ct. migrated_row (ce_now e) p (kr_name r) (kr_domain r) (kr_value r) (encrypted_value_prefix @ ct)"
  from None assms(1) obtain ct where db': "db' = db\<lparr>db_cookies := map (?f ct) (db_cookies db)\<rparr>"
    by (auto simp: cookie_from_row_def migrate_plaintext_def split: prod.splits sum.splits option.splits)
  have moved: "?f ct y \<in> plain_rows p ds db - {r}"
    if "y \<in> set (db_cookies db)" "kr_platform y = p" "asked_domain ds (kr_domain y)" "\<not> is_encrypted (?f ct y)" for y
    using that assms(2)
    by (cases "row_is p (kr_name r) (kr_domain r) y \<and> kr_value y = kr_value r")
      (auto simp: migrated_row_def plain_rows_def row_is_def is_encrypted_def starts_with_iff)
  show ?thesis
  proof
    fix x assume "x \<in> plain_rows p ds db'"
    then obtain y where "y \<in> set (db_cookies db)" "x = ?f ct y" "kr_platform y = p" "asked_domain ds (kr_domain y)" "\<not> is_encrypted x"
      by (auto simp: plain_rows_def db')
    then show "x \<in> plain_rows p ds db - {r}" using moved by metis
  qed
qed

lemma read_rows_plain:
  assumes "read_rows rp e p i rs db = (Inr cs, db')" "\<forall>r\<in>set rs. kr_platform r = p"
    and "plain_rows p ds db \<subseteq> set rs"
  shows "plain_rows p ds db' = {}"
  using assms
proof (induction rs arbitrary: i db cs)
  case (Cons r rs)
  from Cons.prems(1) obtain c cs' db1 where r: "cookie_from_row rp e p i r db = (Inr c, db1)"
    and rs: "read_rows rp e p (Suc i) rs db1 = (Inr cs', db')"
    by (auto split: prod.splits sum.splits)
  have "plain_rows p ds db1 \<subseteq> set rs"
    using cookie_from_row_plain [OF r] Cons.prems by auto
  then show ?case using Cons.IH [OF rs] Cons.prems(2) by simp
qed simp

lemma cookie_get_plain:
  assumes "cookie_get rp e p ds db = (Inr cs, db')"
  shows "plain_rows p ds db' = {}"
proof (cases "ds = Some []")
  case True
  then show ?thesis by (simp add: plain_rows_def)
next
  case False
  show ?thesis
  proof (rule read_rows_plain)
    show "read_rows rp e p 0 (select_cookies p ds db) db = (Inr cs, db')"
      using assms False by (simp add: cookie_get_def split: option.splits)
  qed (auto simp: select_cookies_asked plain_rows_def)
qed

end
