(* ===== verification/Cookie_Props.thy ===== *)
theory Cookie_Props
  imports Cookie_Jar
begin

text \<open>
  The properties of the cookie repository: writes are atomic and act on the jar as an update,
  a write is read back, reads change nothing a reader can see and leave every value encrypted, a
  login is committed at most once and only for an open session, and the Netscape export.
\<close>

section \<open>A concrete repository\<close>

text \<open>For the witnesses: the small instance of the crates, one nonce, one cookie.\<close>

definition toy_time :: "int \<Rightarrow> datetime option" where
  "toy_time t = Some (t * 1000000000)"

abbreviation toy_service :: "unit crypto \<times> unit" where
  "toy_service \<equiv> (toy_crypto, ())"

abbreviation toy_repo :: cookie_repo where
  "toy_repo \<equiv> sqlite_repo toy_service toy_time"

definition toy_env :: call_env where
  "toy_env = \<lparr>ce_rng = (\<lambda>_. ''nonce-nonce-''), ce_now = 0, ce_begin = None, ce_stmt = (\<lambda>_. None),
              ce_update = None, ce_commit = None\<rparr>"

definition toy_db :: db where
  "toy_db = \<lparr>db_sessions = [''s1'' \<mapsto> session_row_of (session_new 0 ''s1'' ''naver'')],
             db_cookies = [], db_credentials = Map.empty\<rparr>"

definition toy_cookie :: "string \<Rightarrow> string \<Rightarrow> cookie" where
  "toy_cookie n v = \<lparr>ck_name = n, ck_value = v, ck_domain = ''.naver.com'', ck_path = ''/'',
                     ck_expires = Some 5000000000, ck_http_only = True, ck_secure = True\<rparr>"

lemma toy_env_ok [simp]: "sqlite_env_ok toy_service toy_env"
  by (simp add: sqlite_env_ok_def toy_env_def aes_ok_def)

lemma toy_time_ok [simp]: "chrono_ok toy_time"
  by (simp add: chrono_ok_def toy_time_def)

lemma toy_db_wf [simp]: "cookies_wf toy_db"
  by (simp add: cookies_wf_def toy_db_def)

lemma toy_encrypt [simp]:
  "aes_encrypt toy_crypto u n p = Inr (toy_text CHR ''+'' (n @ rev p))"
  by (simp add: aes_encrypt_def toy_crypto_def)

lemma toy_loop_ok:
  "is_ok (save_cookies_in_transaction toy_repo toy_env p i cs rows)"
  by (induction cs arbitrary: i rows)
    (simp_all add: toy_env_def sqlite_repo_def aes_svc_encrypt_def)

lemma toy_save_ok: "\<exists>db'. cookie_save toy_repo toy_env p cs db = (Inr (), db')"
  using toy_loop_ok [of p 0 cs "db_cookies db"]
  by (auto simp: cookie_save_def toy_env_def is_ok_iff)

lemma toy_stored [simp]: "stored_cookie toy_time (toy_cookie n v) = toy_cookie n v"
  by (simp add: stored_cookie_def toy_cookie_def timestamp_def toy_time_def)

lemma toy_cookie_simps [simp]:
  "ck_value (toy_cookie n v) = v" "cookie_key (toy_cookie n v) = (n, ''.naver.com'')"
  by (simp_all add: toy_cookie_def cookie_key_def)

section \<open>Properties\<close>

text \<open>C28: A write is atomic and refines an update of the jar. Whatever fails (the key service, the
  n-th statement, BEGIN or COMMIT), the database is as it was; when the write succeeds, the jar of
  the platform has each given cookie under its name and domain, the last one given winning, every
  other cookie, platform, session and credential stays, and the table invariant is kept.\<close>

theorem cookie_save_refines_jar:
  assumes "sqlite_env_ok s e" and "\<forall>c\<in>set cs. utf8_valid (ck_value c)" and "cookies_wf db"
  shows "case cookie_save (sqlite_repo s fts) e p cs db of
           (Inl x, db') \<Rightarrow> db' = db
         | (Inr u, db') \<Rightarrow>
             jar (sqlite_repo s fts) db' = (jar (sqlite_repo s fts) db)
               (p := foldl (jar_put (stored_cookie fts)) (jar (sqlite_repo s fts) db p) cs) \<and>
             db_sessions db' = db_sessions db \<and> db_credentials db' = db_credentials db \<and> cookies_wf db'"
proof -
  obtain r db' where r: "cookie_save (sqlite_repo s fts) e p cs db = (r, db')" by fastforce
  show ?thesis
  proof (cases r)
    case (Inl x)
    with r show ?thesis by (simp add: sqlite_cookies.save_err)
  next
    case (Inr u)
    from cookie_save_OkD r Inr have "db_sessions db' = db_sessions db \<and> db_credentials db' = db_credentials db"
      by fastforce
    with r Inr show ?thesis
      using sqlite_cookies.save_ok [OF assms(1,2)] sqlite_cookies.save_inv [OF assms(3)] by simp
  qed
qed

lemma cookie_save_refines_jar_witness:
  "jar toy_repo
     (snd (cookie_save toy_repo toy_env ''naver'' [toy_cookie ''NID_AUT'' ''x''] toy_db))
     ''naver'' (''NID_AUT'', ''.naver.com'') =
   Some (Inr (toy_cookie ''NID_AUT'' ''x''))"
proof -
  obtain db' where "cookie_save toy_repo toy_env ''naver''
      [toy_cookie ''NID_AUT'' ''x''] toy_db = (Inr (), db')" using toy_save_ok by blast
  with cookie_save_refines_jar [of toy_service toy_env "[toy_cookie ''NID_AUT'' ''x'']" toy_db
      toy_time "''naver''"]
  show ?thesis by (simp add: jar_put_def)
qed

text \<open>C29: What was saved is what is read. After a successful save, a read of the platform returns for
  each name and domain that was given exactly one cookie, the last one given for it, with its value
  decrypted and its expiry in whole seconds.\<close>

theorem saved_cookie_is_read_back:
  assumes "sqlite_env_ok s e" "sqlite_env_ok s e'" "cookies_wf db"
    and "\<forall>c\<in>set cs. utf8_valid (ck_value c)"
    and "cookie_save (sqlite_repo s fts) e p cs db = (Inr u, db')"
    and "cookie_get (sqlite_repo s fts) e' p None db' = (Inr ds, db'')"
    and "find (\<lambda>c. cookie_key c = k) (rev cs) = Some c"
  shows "{d \<in> set ds. cookie_key d = k} = {stored_cookie fts c}"
  by (rule sqlite_cookies.get_after_save [OF assms])

lemma toy_read:
  "aes_decrypt toy_crypto () (toy_text CHR ''+'' (''nonce-nonce-'' @ rev p)) = Inr p" if "utf8_valid p"
  using aes_decrypt_encrypt [of toy_crypto "''nonce-nonce-''" p "()"] that by simp

lemma saved_cookie_is_read_back_witness:
  "\<exists>db' ds db''. cookie_save toy_repo toy_env ''naver''
       [toy_cookie ''A'' ''1'', toy_cookie ''A'' ''2''] toy_db = (Inr (), db') \<and>
     cookie_get toy_repo toy_env ''naver'' None db' = (Inr ds, db'') \<and>
     {d \<in> set ds. cookie_key d = (''A'', ''.naver.com'')} = {toy_cookie ''A'' ''2''}"
proof -
  let ?cs = "[toy_cookie ''A'' ''1'', toy_cookie ''A'' ''2'']"
  obtain db' where db': "cookie_save toy_repo toy_env ''naver'' ?cs toy_db = (Inr (), db')"
    using toy_save_ok by blast
  have "db_cookies db' = [insert_row 0 ''naver'' (toy_cookie ''A'' ''2'')
      (encrypted_value_prefix @ toy_text CHR ''+'' (''nonce-nonce-'' @ rev ''2''))]"
    using db' by (auto simp: cookie_save_def toy_env_def toy_db_def sqlite_repo_def aes_svc_encrypt_def
        toy_cookie_def row_is_def insert_row_def conflict_row_def)
  then have get: "cookie_get toy_repo toy_env ''naver'' None db' = (Inr [toy_cookie ''A'' ''2''], db')"
    using toy_read [of "''2''"]
    by (simp add: cookie_get_def toy_env_def select_cookies_def insert_row_def cookie_from_row_def
        cookie_of_row_def toy_cookie_def sqlite_repo_def aes_svc_decrypt_def timestamp_def toy_time_def)
  have "{d \<in> set [toy_cookie ''A'' ''2'']. cookie_key d = (''A'', ''.naver.com'')} =
      {stored_cookie toy_time (toy_cookie ''A'' ''2'')}"
    by (rule saved_cookie_is_read_back [OF _ _ _ _ db' get]) simp_all
  with db' get show ?thesis by auto
qed

text \<open>C30: Reading is transparent and encrypts what is old. Whether or not it succeeds, and whether it
  asks for all cookies of a platform or for those of some domains, a read (which rewrites rows an earlier
  release stored in the clear) changes no jar, session or credential. After one that succeeds no row
  that was asked for is in the clear, and what it returns, each cookie once, is the part of the jar
  that was asked for.\<close>

theorem cookie_get_transparent:
  assumes "sqlite_env_ok s e" "cookies_wf db" "cookie_get (sqlite_repo s fts) e p ds db = (res, db')"
  shows "jar (sqlite_repo s fts) db' = jar (sqlite_repo s fts) db \<and>
         db_sessions db' = db_sessions db \<and> db_credentials db' = db_credentials db \<and> cookies_wf db' \<and>
         (case res of
            Inl x \<Rightarrow> True
          | Inr cs \<Rightarrow>
              (\<forall>r\<in>set (db_cookies db'). kr_platform r = p \<and> asked_domain ds (kr_domain r) \<longrightarrow>
                 starts_with (kr_value r) ''enc:v1:'') \<and>
              jar_of_list cs = (\<lambda>k. if asked_domain ds (snd k) then jar (sqlite_repo s fts) db p k else None) \<and>
              distinct (map cookie_key cs))"
proof (cases res)
  case (Inl x)
  then show ?thesis
    using cookie_get_frame [OF assms(3) sqlite_repo_ok [OF assms(1)] assms(2)]
      same_view(1) [of "sqlite_repo s fts" db' db] by simp
next
  case (Inr cs)
  then have get: "cookie_get (sqlite_repo s fts) e p ds db = (Inr cs, db')" using assms(3) by simp
  have "\<forall>r\<in>set (db_cookies db'). kr_platform r = p \<and> asked_domain ds (kr_domain r) \<longrightarrow> is_encrypted r"
    using cookie_get_plain [OF get] by (auto simp: plain_rows_def)
  with cookie_get_jar [OF get] cookie_get_distinct [OF get assms(2)]
    cookie_get_frame [OF get sqlite_repo_ok [OF assms(1)] assms(2)] Inr
  show ?thesis
    using same_view(1) [of "sqlite_repo s fts" db' db]
    by (simp add: is_encrypted_def encrypted_value_prefix_def)
qed

lemma cookie_get_transparent_witness:
  "\<exists>db'. cookie_get toy_repo toy_env ''naver'' (Some [''.naver.com''])
       (toy_db\<lparr>db_cookies := [insert_row 0 ''naver'' (toy_cookie ''A'' []) ''plain'',
          insert_row 0 ''naver'' ((toy_cookie ''B'' [])\<lparr>ck_domain := ''nid.naver.com''\<rparr>) ''other'']\<rparr>) =
       (Inr [toy_cookie ''A'' ''plain''], db') \<and>
     (\<forall>r\<in>set (db_cookies db'). kr_platform r = ''naver'' \<and> kr_domain r = ''.naver.com'' \<longrightarrow>
        starts_with (kr_value r) ''enc:v1:'')"
proof -
  let ?db = "toy_db\<lparr>db_cookies := [insert_row 0 ''naver'' (toy_cookie ''A'' []) ''plain'',
          insert_row 0 ''naver'' ((toy_cookie ''B'' [])\<lparr>ck_domain := ''nid.naver.com''\<rparr>) ''other'']\<rparr>"
  have wf: "cookies_wf ?db" by (simp add: cookies_wf_def insert_row_def row_key_def toy_cookie_def)
  obtain db' where get: "cookie_get toy_repo toy_env ''naver'' (Some [''.naver.com'']) ?db = (Inr [toy_cookie ''A'' ''plain''], db')"
    by (simp add: cookie_get_def toy_env_def select_cookies_def insert_row_def cookie_from_row_def
        strip_prefix_def starts_with_def encrypted_value_prefix_def migrate_plaintext_def sqlite_repo_def
        aes_svc_encrypt_def cookie_of_row_def toy_cookie_def timestamp_def toy_time_def)
  show ?thesis
    using cookie_get_transparent [OF toy_env_ok wf get] get by auto
qed

section \<open>Committing a login\<close>

lemma set_session_columns_status [simp]:
  "sr_status (set_session_columns s r) = state_as_str (ss_state s)"
  "sr_platform (set_session_columns s r) = sr_platform r"
  by (simp_all add: set_session_columns_def)

lemma connected_not_open [simp]: "state_as_str Connected \<notin> set open_statuses"
  by (simp add: open_statuses_def)

lemma login_row_closed:
  "db_sessions db i = Some r \<Longrightarrow> sr_status r \<notin> set open_statuses \<Longrightarrow> ss_id s = i \<Longrightarrow> login_row s db = None"
  by (simp add: login_row_def)

lemma save_login_no_row:
  assumes "login_row s db = None"
  shows "snd (save_login rp e s cs db) = db \<and> \<not> is_ok (fst (save_login rp e s cs db))"
  using assms by (auto simp: save_login_def split: option.splits sum.splits)

text \<open>C26: The commit of a login is all or nothing, and only for an open session. Any failure leaves
  the database as it was. A success found the session's row open and of the same platform, made it
  connected, and put the cookies into that platform's jar; nothing else changed.\<close>

theorem save_login_atomic:
  assumes "sqlite_env_ok sv e" and "\<forall>c\<in>set cs. utf8_valid (ck_value c)"
  shows "case save_login (sqlite_repo sv fts) e s cs db of
           (Inl x, db') \<Rightarrow> db' = db
         | (Inr u, db') \<Rightarrow>
             \<exists>r. db_sessions db (ss_id s) = Some r \<and> sr_platform r = ss_platform s \<and>
                 sr_status r \<in> {''idle'', ''loading'', ''authenticating'', ''waiting_for_user''} \<and>
                 ss_state s = Connected \<and>
                 db_sessions db' = (db_sessions db)(ss_id s \<mapsto> set_session_columns s r) \<and>
                 jar (sqlite_repo sv fts) db' = (jar (sqlite_repo sv fts) db)(ss_platform s :=
                   foldl (jar_put (stored_cookie fts)) (jar (sqlite_repo sv fts) db (ss_platform s)) cs) \<and>
                 db_credentials db' = db_credentials db"
proof -
  obtain r db' where r: "save_login (sqlite_repo sv fts) e s cs db = (r, db')" by fastforce
  show ?thesis
  proof (cases r)
    case (Inl x)
    with r show ?thesis by (simp add: save_login_ErrD)
  next
    case (Inr u)
    with r save_login_OkD obtain rows row where row: "login_row s db = Some row" "ss_state s = Connected"
      and loop: "save_cookies_in_transaction (sqlite_repo sv fts) e (ss_platform s) 0 cs (db_cookies db) = Inr rows"
      and db': "db' = db\<lparr>db_cookies := rows, db_sessions := (db_sessions db)
                  (ss_id s \<mapsto> set_session_columns s row)\<rparr>" by blast
    have "rp_from_timestamp (sqlite_repo sv fts) = fts" by (simp add: sqlite_repo_def)
    then have "jar (sqlite_repo sv fts) db' = (jar (sqlite_repo sv fts) db)(ss_platform s :=
        foldl (jar_put (stored_cookie fts)) (jar (sqlite_repo sv fts) db (ss_platform s)) cs)"
      using save_loop(2) [OF loop sqlite_repo_ok [OF assms(1)] assms(2)]
      by (simp only: db' jar_db_sessions)
    with r Inr login_row_SomeD [OF row(1)] row(2) show ?thesis
      by (auto simp: db' open_statuses_def)
  qed
qed

lemma save_login_atomic_witness:
  "is_ok (fst (save_login toy_repo toy_env
     (transition 0 Connected None (session_new 0 ''s1'' ''naver'')) [toy_cookie ''NID_AUT'' ''x''] toy_db)) \<and>
   (\<exists>r. db_sessions toy_db ''s1'' = Some r \<and> sr_status r = ''idle'')"
proof -
  let ?s = "transition 0 Connected None (session_new 0 ''s1'' ''naver'')"
  have ok: "is_ok (fst (save_login toy_repo toy_env ?s [toy_cookie ''NID_AUT'' ''x''] toy_db))"
    by (simp add: save_login_def toy_env_def sqlite_repo_def aes_svc_encrypt_def login_row_def
        toy_db_def session_row_of_def open_statuses_def)
  moreover have "\<forall>c\<in>set [toy_cookie ''NID_AUT'' ''x'']. utf8_valid (ck_value c)" by simp
  ultimately show ?thesis
    using save_login_atomic [where sv = toy_service and e = toy_env and s = ?s and db = toy_db
        and cs = "[toy_cookie ''NID_AUT'' ''x'']" and fts = toy_time]
    by (auto simp: is_ok_iff session_row_of_def toy_db_def split: prod.splits sum.splits)
qed

text \<open>C27: A login is committed at most once. After a commit has succeeded, every further commit for the
  session fails and changes nothing, whichever cookies it carries; the same holds after the session
  was deleted.\<close>

theorem login_commits_once:
  assumes "is_ok (fst (save_login rp e s cs db)) \<and> db' = snd (save_login rp e s cs db) \<or>
           is_ok (fst (session_delete flt (ss_id s) db)) \<and> db' = snd (session_delete flt (ss_id s) db)"
    and "ss_id s2 = ss_id s"
  shows "snd (save_login rp2 e2 s2 cs2 db') = db' \<and> \<not> is_ok (fst (save_login rp2 e2 s2 cs2 db'))"
proof -
  from assms(1) have "login_row s2 db' = None"
  proof
    assume a: "is_ok (fst (save_login rp e s cs db)) \<and> db' = snd (save_login rp e s cs db)"
    then obtain u where "save_login rp e s cs db = (Inr u, db')"
      by (auto simp: is_ok_iff) (metis prod.collapse)
    from save_login_OkD [OF this] show ?thesis
      using assms(2) by (auto simp: login_row_def open_statuses_def)
  next
    assume "is_ok (fst (session_delete flt (ss_id s) db)) \<and> db' = snd (session_delete flt (ss_id s) db)"
    then show ?thesis using assms(2)
      by (auto simp: session_delete_def login_row_def split: option.splits)
  qed
  then show ?thesis by (rule save_login_no_row)
qed

lemma login_commits_once_witness:
  "\<not> is_ok (fst (save_login toy_repo toy_env (session_new 0 ''s1'' ''naver'') []
     (snd (save_login toy_repo toy_env (transition 0 Connected None (session_new 0 ''s1'' ''naver''))
        [toy_cookie ''NID_AUT'' ''x''] toy_db))))"
proof -
  let ?s = "transition 0 Connected None (session_new 0 ''s1'' ''naver'')"
  have "is_ok (fst (save_login toy_repo toy_env ?s [toy_cookie ''NID_AUT'' ''x''] toy_db))"
    by (simp add: save_login_def toy_env_def sqlite_repo_def aes_svc_encrypt_def login_row_def
        toy_db_def session_row_of_def open_statuses_def)
  then show ?thesis
    using login_commits_once [of toy_repo toy_env ?s "[toy_cookie ''NID_AUT'' ''x'']" toy_db _ _
        "session_new 0 ''s1'' ''naver''"] by simp
qed

section \<open>The Netscape file\<close>

definition netscape_plain :: "string \<Rightarrow> bool" where
  "netscape_plain s \<longleftrightarrow> CHR 0x09 \<notin> set s \<and> CHR 0x0A \<notin> set s"

definition cookie_plain :: "cookie \<Rightarrow> bool" where
  "cookie_plain c \<longleftrightarrow> netscape_plain (ck_domain c) \<and> netscape_plain (ck_path c) \<and>
     netscape_plain (ck_name c) \<and> netscape_plain (ck_value c)"

lemma show_nat_plain: "netscape_plain (show_nat n)"
  unfolding netscape_plain_def
proof
  have no: "char_of k \<notin> set (show_nat n)" if "k < 48" for k :: nat
  proof
    assume "char_of k \<in> set (show_nat n)"
    then obtain d :: nat where "d < 10" "(char_of k :: char) = char_of (48 + d)"
      using show_nat_digits by blast
    then have "(of_char (char_of k :: char) :: nat) = of_char (char_of (48 + d) :: char)" by simp
    with \<open>d < 10\<close> that show False by (simp add: of_char_of take_bit_eq_mod)
  qed
  have "char_of (9 :: nat) = CHR 0x09" "char_of (10 :: nat) = CHR 0x0A" by code_simp+
  with no [of 9] no [of 10] show "CHR 0x09 \<notin> set (show_nat n)" "CHR 0x0A \<notin> set (show_nat n)"
    by simp_all
qed

lemma show_int_plain: "netscape_plain (show_int i)"
  using show_nat_plain by (simp add: show_int_def netscape_plain_def)

lemma netscape_fields_plain: "cookie_plain c \<Longrightarrow> f \<in> set (netscape_fields c) \<Longrightarrow> netscape_plain f"
  by (auto simp: netscape_fields_def cookie_plain_def netscape_flag_def show_int_plain)
    (simp_all add: netscape_plain_def)

lemma set_join: "set (join sep ps) \<subseteq> set sep \<union> \<Union> (set ` set ps)"
  by (induction sep ps rule: join.induct) auto

lemma netscape_line_no_newline: "cookie_plain c \<Longrightarrow> CHR 0x0A \<notin> set (netscape_line c)"
  using set_join [of "[CHR 0x09]" "netscape_fields c"] netscape_fields_plain [of c]
  by (auto simp: netscape_line_def netscape_plain_def)

text \<open>The exported file has one line per cookie after its two header lines and seven fields on each,
  and reading it back (split at newlines, then at tabs) gives the fields of every cookie in order,
  when no field holds a tab or a newline.\<close>

theorem netscape_round_trip:
  assumes "\<forall>c\<in>set cs. cookie_plain c"
  shows "map (split_on CHR 0x09) (drop 2 (split_on CHR 0x0A (netscape_file cs))) = map netscape_fields cs \<and>
         (\<forall>c\<in>set cs. length (netscape_fields c) = 7)"
proof -
  have "split_on CHR 0x0A (netscape_file cs) = netscape_header @ map netscape_line cs"
    unfolding netscape_file_def using assms netscape_line_no_newline
    by (intro split_on_join) (auto simp: netscape_header_def)
  then have "drop 2 (split_on CHR 0x0A (netscape_file cs)) = map netscape_line cs"
    by (simp add: netscape_header_def)
  moreover have "split_on CHR 0x09 (netscape_line c) = netscape_fields c" if "c \<in> set cs" for c
    unfolding netscape_line_def using assms that netscape_fields_plain [of c]
    by (intro split_on_join) (auto simp: netscape_plain_def netscape_fields_def)
  ultimately show ?thesis by (simp add: netscape_fields_def)
qed

lemma netscape_round_trip_witness:
  "map (split_on CHR 0x09) (drop 2 (split_on CHR 0x0A (netscape_file [toy_cookie ''A'' ''v'']))) =
   [[''.naver.com'', ''TRUE'', ''/'', ''TRUE'', ''5'', ''A'', ''v'']]"
proof -
  have "show_int 5 = ''5''" by code_simp
  then have "netscape_fields (toy_cookie ''A'' ''v'') =
      [''.naver.com'', ''TRUE'', ''/'', ''TRUE'', ''5'', ''A'', ''v'']"
    by (simp add: netscape_fields_def toy_cookie_def netscape_flag_def starts_with_def timestamp_def)
  then show ?thesis
    using netscape_round_trip [of "[toy_cookie ''A'' ''v'']"]
    by (simp add: cookie_plain_def netscape_plain_def toy_cookie_def)
qed

text \<open>The export does not guard its own format. A cookie whose value holds a newline, stored and
  exported, produces a further line that reads as a cookie of another site with any name and value.\<close>

theorem netscape_export_forges_line:
  "map (split_on CHR 0x09) (drop 3 (split_on CHR 0x0A (netscape_file
     [toy_cookie ''A'' (''v'' @ [CHR 0x0A] @ netscape_line (c\<lparr>ck_domain := ''bank.example''\<rparr>))]))) =
   map (split_on CHR 0x09) (drop 2 (split_on CHR 0x0A (netscape_file [c\<lparr>ck_domain := ''bank.example''\<rparr>])))"
proof -
  have two: "split_on CHR 0x0A (netscape_file [d]) = netscape_header @ split_on CHR 0x0A (netscape_line d)" for d
    by (simp add: netscape_file_def netscape_header_def split_on_append_sep flip: append.assoc)
  have "netscape_line (toy_cookie ''A'' (''v'' @ [CHR 0x0A] @ t)) =
      netscape_line (toy_cookie ''A'' ''v'') @ CHR 0x0A # t" for t
    by (simp add: netscape_line_def netscape_fields_def toy_cookie_def)
  then show ?thesis
    by (simp add: two netscape_header_def split_on_append) 
      (simp add: split_on_no_sep netscape_line_no_newline cookie_plain_def netscape_plain_def toy_cookie_def)
qed

end
