(* ===== verification/Credential_Repo.thy ===== *)
theory Credential_Repo
  imports Cookie_Props
begin

text \<open>
  The credential repository of \<open>adapters/sqlite/credential_repo.rs\<close>: one row per platform, the
  password encrypted by the AES-GCM service. It implements the port \<open>credential_repository\<close>.
\<close>

text \<open>\<open>INSERT .. ON CONFLICT(platform) DO UPDATE\<close>: the creation time of an old row stays.\<close>

definition credential_save ::
  "cookie_repo \<Rightarrow> call_env \<Rightarrow> string \<Rightarrow> string \<Rightarrow> string \<Rightarrow> string option \<Rightarrow> db \<Rightarrow> unit result \<times> db" where
  "credential_save rp e p username password twofa db =
     (case rp_encrypt rp (ce_rng e 0) password of
        Inl x \<Rightarrow> (Inl x, db)
      | Inr encrypted \<Rightarrow>
          (case ce_stmt e 0 of
             Some m \<Rightarrow> (Inl (error_of_sqlx m), db)
           | None \<Rightarrow>
               (Inr (), db\<lparr>db_credentials := (db_credentials db)(p \<mapsto>
                  (case db_credentials db p of
                     None \<Rightarrow> \<lparr>dr_username = username, dr_password_encrypted = encrypted,
                              dr_twofa_method = twofa, dr_created_at = ce_now e,
                              dr_updated_at = ce_now e\<rparr>
                   | Some r \<Rightarrow> r\<lparr>dr_username := username, dr_password_encrypted := encrypted,
                                 dr_twofa_method := twofa, dr_updated_at := ce_now e\<rparr>))\<rparr>)))"

definition credential_of_row :: "string \<Rightarrow> credential_row \<Rightarrow> credential" where
  "credential_of_row p r =
     \<lparr>cr_platform = p, cr_username = dr_username r,
      cr_password_encrypted = dr_password_encrypted r, cr_twofa_method = dr_twofa_method r\<rparr>"

definition credential_get :: "call_env \<Rightarrow> string \<Rightarrow> db \<Rightarrow> credential option result" where
  "credential_get e p db =
     (case ce_stmt e 0 of
        Some m \<Rightarrow> Inl (error_of_sqlx m)
      | None \<Rightarrow> Inr (map_option (credential_of_row p) (db_credentials db p)))"

definition credential_delete :: "call_env \<Rightarrow> string \<Rightarrow> db \<Rightarrow> unit result \<times> db" where
  "credential_delete e p db =
     (case ce_stmt e 0 of
        Some m \<Rightarrow> (Inl (error_of_sqlx m), db)
      | None \<Rightarrow> (Inr (), db\<lparr>db_credentials := (db_credentials db)(p := None)\<rparr>))"

definition credential_look :: "db \<Rightarrow> string \<Rightarrow> credential option" where
  "credential_look db p = map_option (credential_of_row p) (db_credentials db p)"

interpretation sqlite_credentials: credential_repository
    "sqlite_env_ok s" "credential_save (sqlite_repo s fts)" credential_get credential_delete
    credential_look "\<lambda>ct pw. aes_svc_decrypt s ct = Inr pw"
  for s fts
proof unfold_locales
  fix e p db c assume "credential_get e p db = Inr c"
  then show "c = credential_look db p"
    by (auto simp: credential_get_def credential_look_def split: option.splits)
next
  fix e pw p u m db r db'
  assume ok: "sqlite_env_ok s e" "utf8_valid pw"
    and save: "credential_save (sqlite_repo s fts) e p u pw m db = (Inr r, db')"
  then obtain ct where ct: "aes_svc_encrypt s (ce_rng e 0) pw = Inr ct"
    by (auto simp: credential_save_def sqlite_repo_def split: sum.splits)
  have dec: "aes_svc_decrypt s ct = Inr pw"
    using ct ok by (auto simp: sqlite_env_ok_def intro: aes.decrypt_encrypt)
  from save ct have "credential_look db' = (credential_look db)(p \<mapsto>
      \<lparr>cr_platform = p, cr_username = u, cr_password_encrypted = ct, cr_twofa_method = m\<rparr>)"
    by (auto simp: credential_save_def sqlite_repo_def credential_look_def credential_of_row_def
        fun_eq_iff split: option.splits)
  with dec show "\<exists>ct. aes_svc_decrypt s ct = Inr pw \<and> credential_look db' = (credential_look db)(p \<mapsto>
      \<lparr>cr_platform = p, cr_username = u, cr_password_encrypted = ct, cr_twofa_method = m\<rparr>)"
    by blast
next
  fix e p u pw m db x db'
  assume "credential_save (sqlite_repo s fts) e p u pw m db = (Inl x, db')"
  then show "db' = db" by (auto simp: credential_save_def split: sum.splits option.splits)
next
  fix e p db r db' assume "credential_delete e p db = (Inr r, db')"
  then show "credential_look db' = (credential_look db)(p := None)"
    by (auto simp: credential_delete_def credential_look_def fun_eq_iff split: option.splits)
next
  fix e p db x db' assume "credential_delete e p db = (Inl x, db')"
  then show "db' = db" by (auto simp: credential_delete_def split: option.splits)
qed

section \<open>Properties\<close>

text \<open>Stored credentials. After a successful save the credential read for the platform has the user
  name and method that were saved and a stored password that decrypts to the one given, and the
  credentials of every other platform are as before; after a deletion none is read for the
  platform. A failed save or deletion changes nothing.\<close>

theorem saved_credential_is_read_back:
  assumes "sqlite_env_ok s e" "utf8_valid pw" "ce_stmt e3 0 = None"
  shows "case credential_save (sqlite_repo s fts) e p u pw m db of
           (Inl x, db') \<Rightarrow> db' = db
         | (Inr r, db') \<Rightarrow>
             (\<exists>ct. aes_svc_decrypt s ct = Inr pw \<and>
                credential_get e3 p db' = Inr (Some \<lparr>cr_platform = p, cr_username = u,
                   cr_password_encrypted = ct, cr_twofa_method = m\<rparr>)) \<and>
             (\<forall>q. q \<noteq> p \<longrightarrow> credential_get e3 q db' = credential_get e3 q db) \<and>
             (case credential_delete e2 p db' of
                (Inl x, db'') \<Rightarrow> db'' = db'
              | (Inr r, db'') \<Rightarrow> credential_get e3 p db'' = Inr None)"
proof -
  have look: "credential_get e3 q d = Inr (credential_look d q)" for q d
    by (simp add: credential_get_def credential_look_def assms(3))
  obtain r db' where r: "credential_save (sqlite_repo s fts) e p u pw m db = (r, db')" by fastforce
  obtain r2 db2 where r2: "credential_delete e2 p db' = (r2, db2)" by fastforce
  have del: "case r2 of Inl x \<Rightarrow> db2 = db' | Inr y \<Rightarrow> credential_look db2 p = None"
    using r2 sqlite_credentials.delete_err sqlite_credentials.delete_ok by (cases r2) fastforce+
  show ?thesis
  proof (cases r)
    case (Inl x)
    with r show ?thesis by (simp add: sqlite_credentials.save_err)
  next
    case (Inr y)
    with r sqlite_credentials.save_ok [OF assms(1,2)] obtain ct where "aes_svc_decrypt s ct = Inr pw"
      "credential_look db' = (credential_look db)(p \<mapsto> \<lparr>cr_platform = p, cr_username = u,
         cr_password_encrypted = ct, cr_twofa_method = m\<rparr>)" by blast
    with r Inr r2 del show ?thesis by (cases r2) (auto simp: look)
  qed
qed

lemma saved_credential_is_read_back_witness:
  "\<exists>ct db'. credential_save toy_repo toy_env ''naver'' ''me'' ''pw'' None toy_db = (Inr (), db') \<and>
     credential_get toy_env ''naver'' db' = Inr (Some \<lparr>cr_platform = ''naver'', cr_username = ''me'',
        cr_password_encrypted = ct, cr_twofa_method = None\<rparr>) \<and> aes_svc_decrypt toy_service ct = Inr ''pw''"
proof -
  obtain db' where db': "credential_save toy_repo toy_env ''naver'' ''me'' ''pw'' None toy_db = (Inr (), db')"
    by (simp add: credential_save_def toy_env_def sqlite_repo_def aes_svc_encrypt_def)
  then show ?thesis
    using saved_credential_is_read_back [where s = toy_service and e = toy_env and pw = "''pw''"
        and fts = toy_time and p = "''naver''" and u = "''me''" and m = None and db = toy_db and ?e3.0 = toy_env]
    by (auto simp: toy_env_def [THEN arg_cong, of ce_stmt])
qed

end
