(* ===== verification/Use_Cases.thy ===== *)
theory Use_Cases
  imports Credential_Repo
begin

text \<open>
  The use cases of \<open>application/cookies.rs\<close>, \<open>credentials.rs\<close> and \<open>status.rs\<close>. Each is written
  over the operations of the port it holds, which are its first arguments; what it guarantees is
  proved once from the port's laws and then read off for the SQLite adapters.
\<close>

section \<open>Cookies\<close>

record validation_outcome =
  vo_valid :: bool
  vo_expires_at :: int

definition get_cookies ::
  "('e \<Rightarrow> string \<Rightarrow> string list option \<Rightarrow> 'db \<Rightarrow> cookie list result \<times> 'db) \<Rightarrow>
   'e \<Rightarrow> platform \<Rightarrow> string list option \<Rightarrow> 'db \<Rightarrow> cookie list result \<times> 'db" where
  "get_cookies get e p domains db = get e (platform_as_str p) domains db"

definition update_cookies ::
  "('e \<Rightarrow> string \<Rightarrow> cookie list \<Rightarrow> 'db \<Rightarrow> unit result \<times> 'db) \<Rightarrow>
   'e \<Rightarrow> platform \<Rightarrow> cookie list \<Rightarrow> 'db \<Rightarrow> unit result \<times> 'db" where
  "update_cookies save e p cs db = save e (platform_as_str p) (filter_cookies p cs) db"

definition export_netscape ::
  "('e \<Rightarrow> string \<Rightarrow> 'db \<Rightarrow> string result \<times> 'db) \<Rightarrow> 'e \<Rightarrow> platform \<Rightarrow> 'db \<Rightarrow> string result \<times> 'db" where
  "export_netscape export e p db = export e (platform_as_str p) db"

definition outcome_of :: "platform \<Rightarrow> datetime \<Rightarrow> cookie list \<Rightarrow> validation_outcome" where
  "outcome_of p now cs =
     (let c = session_cookie p now cs in
      \<lparr>vo_valid = (c \<noteq> None),
       vo_expires_at = (case Option.bind c ck_expires of None \<Rightarrow> 0 | Some t \<Rightarrow> timestamp t)\<rparr>)"

definition validate_session ::
  "('e \<Rightarrow> string \<Rightarrow> string list option \<Rightarrow> 'db \<Rightarrow> cookie list result \<times> 'db) \<Rightarrow>
   datetime \<Rightarrow> 'e \<Rightarrow> platform \<Rightarrow> 'db \<Rightarrow> validation_outcome result \<times> 'db" where
  "validate_session get now e p db =
     (case get e (platform_as_str p) None db of
        (Inl x, db') \<Rightarrow> (Inl x, db')
      | (Inr cs, db') \<Rightarrow> (Inr (outcome_of p now cs), db'))"

text \<open>
  \<open>try_join_all\<close> runs the five reads concurrently and stops at the first failure. The reads are
  taken one after the other in an order \<open>ps\<close>, which is arbitrary.
\<close>

fun fetch_all ::
  "('e \<Rightarrow> string \<Rightarrow> string list option \<Rightarrow> 'db \<Rightarrow> cookie list result \<times> 'db) \<Rightarrow>
   (platform \<Rightarrow> 'e) \<Rightarrow> platform list \<Rightarrow> 'db \<Rightarrow> (platform \<times> cookie list) list result \<times> 'db" where
  "fetch_all get env [] db = (Inr [], db)"
| "fetch_all get env (p # ps) db =
     (case get (env p) (platform_as_str p) None db of
        (Inl x, db') \<Rightarrow> (Inl x, db')
      | (Inr c, db') \<Rightarrow>
          (case fetch_all get env ps db' of
             (Inl x, db'') \<Rightarrow> (Inl x, db'')
           | (Inr rs, db'') \<Rightarrow> (Inr ((p, c) # rs), db'')))"

definition get_connection_status ::
  "('e \<Rightarrow> string \<Rightarrow> string list option \<Rightarrow> 'db \<Rightarrow> cookie list result \<times> 'db) \<Rightarrow>
   datetime \<Rightarrow> (platform \<Rightarrow> 'e) \<Rightarrow> platform list \<Rightarrow> 'db \<Rightarrow> (string \<rightharpoonup> bool) result \<times> 'db" where
  "get_connection_status get now env ps db =
     (case fetch_all get env ps db of
        (Inl x, db') \<Rightarrow> (Inl x, db')
      | (Inr rs, db') \<Rightarrow>
          (Inr (map_of (map (\<lambda>(p, c). (platform_as_str p, has_session_cookie p now c)) rs)), db'))"

section \<open>Credentials\<close>

definition save_credential ::
  "('e \<Rightarrow> string \<Rightarrow> string \<Rightarrow> string \<Rightarrow> string option \<Rightarrow> 'db \<Rightarrow> unit result \<times> 'db) \<Rightarrow>
   'e \<Rightarrow> platform \<Rightarrow> string \<Rightarrow> string \<Rightarrow> string option \<Rightarrow> 'db \<Rightarrow> unit result \<times> 'db" where
  "save_credential save e p username password twofa db =
     save e (platform_as_str p) username password twofa db"

definition get_credential ::
  "('e \<Rightarrow> string \<Rightarrow> 'db \<Rightarrow> credential option result) \<Rightarrow> 'e \<Rightarrow> platform \<Rightarrow> 'db \<Rightarrow> credential option result" where
  "get_credential get e p db = get e (platform_as_str p) db"

definition delete_credential ::
  "('e \<Rightarrow> string \<Rightarrow> 'db \<Rightarrow> unit result \<times> 'db) \<Rightarrow> 'e \<Rightarrow> platform \<Rightarrow> 'db \<Rightarrow> unit result \<times> 'db" where
  "delete_credential delete e p db = delete e (platform_as_str p) db"

section \<open>Session status\<close>

definition get_status ::
  "('e \<Rightarrow> string \<Rightarrow> 'db \<Rightarrow> session option result) \<Rightarrow> 'e \<Rightarrow> string \<Rightarrow> 'db \<Rightarrow> session result" where
  "get_status get e i db =
     res_bind (get e i db)
       (\<lambda>so. case so of None \<Rightarrow> Inl (ENotFound ''Session not found'') | Some s \<Rightarrow> Inr s)"

definition cancel_session ::
  "('e \<Rightarrow> string \<Rightarrow> 'db \<Rightarrow> unit result \<times> 'db) \<Rightarrow> 'e \<Rightarrow> string \<Rightarrow> 'db \<Rightarrow> unit result \<times> 'db" where
  "cancel_session delete e i db = delete e i db"

section \<open>What the port laws give\<close>

context session_repository begin

lemma status_after_cancel:
  assumes "cancel_session delete e i db = (Inr u, db')" "get_status get e' i db' = r"
  shows "r = Inl (ENotFound ''Session not found'') \<or> (\<exists>x. get e' i db' = Inl x \<and> r = Inl x)"
proof (cases "get e' i db'")
  case (Inr so)
  then have "so = None" using assms(1) get_after_delete unfolding cancel_session_def by blast
  with Inr assms(2) show ?thesis by (simp add: get_status_def)
qed (use assms(2) in \<open>simp add: get_status_def\<close>)

end

definition on_platform :: "platform \<Rightarrow> string \<times> string \<Rightarrow> bool" where
  "on_platform p k \<longleftrightarrow>
     (\<exists>a\<in>set (cookie_domains p). suffix (domain_labels a) (domain_labels (snd k)))"

lemma on_platform_key: "on_platform p (cookie_key c) = cookie_matches_domain p c"
  by (simp add: on_platform_def cookie_key_def cookie_matches_domain_labels)

lemma dom_foldl_jar_put: "dom (foldl (jar_put keep) m cs) = dom m \<union> cookie_key ` set cs"
  by (induction cs arbitrary: m) (auto simp: jar_put_def)

context cookie_repository begin

text \<open>An update only adds cookies of the platform's own domains.\<close>

lemma update_on_platform:
  assumes "env_ok e" "\<forall>c\<in>set cs. utf8_valid (ck_value c)" "update_cookies save e p cs db = (r, db')"
    and "k \<in> dom (jar db' (platform_as_str p))" "k \<notin> dom (jar db (platform_as_str p))"
  shows "on_platform p k"
proof (cases r)
  case (Inl x)
  then have "db' = db" using assms(3) save_err unfolding update_cookies_def by blast
  with assms(4,5) show ?thesis by simp
next
  case (Inr u)
  have "\<forall>c\<in>set (filter_cookies p cs). utf8_valid (ck_value c)"
    using assms(2) by (simp add: filter_cookies_def)
  from save_ok [OF assms(1) this] assms(3,4,5) Inr have "k \<in> cookie_key ` set (filter_cookies p cs)"
    by (auto simp: update_cookies_def dom_foldl_jar_put)
  then show ?thesis using filter_cookies_matches by (auto simp: on_platform_key)
qed

lemma fetch_all_listing:
  assumes "fetch_all get env ps db = (Inr rs, db')" "inv db" "\<forall>p. env_ok (env p)"
  shows "map fst rs = ps \<and> (\<forall>(p, cs)\<in>set rs. map Inr cs = listing db (platform_as_str p)) \<and>
         jar db' = jar db \<and> listing db' = listing db \<and> inv db'"
  using assms
proof (induction ps arbitrary: db rs)
  case (Cons p ps)
  then obtain c db1 rs' where p: "get (env p) (platform_as_str p) None db = (Inr c, db1)"
    and ps: "fetch_all get env ps db1 = (Inr rs', db')" and rs: "rs = (p, c) # rs'"
    by (auto split: prod.splits sum.splits)
  have f: "jar db1 = jar db \<and> listing db1 = listing db \<and> inv db1"
    using get_frame [OF _ _ p] Cons.prems by blast
  then show ?case using Cons.IH [OF ps] Cons.prems(3) get_list [OF p] rs by simp
qed simp

text \<open>The connection status says of each platform what validating its session says.\<close>

lemma status_agrees:
  assumes "get_connection_status get now env ps db = (Inr st, db')" "inv db" "\<forall>p. env_ok (env p)"
    and "validate_session get now e p db = (Inr v, db2)" "p \<in> set ps"
  shows "st (platform_as_str p) = Some (vo_valid v)"
proof -
  from assms(1) obtain rs where rs: "fetch_all get env ps db = (Inr rs, db')"
    and st: "st = map_of (map (\<lambda>(p, c). (platform_as_str p, has_session_cookie p now c)) rs)"
    by (auto simp: get_connection_status_def split: prod.splits sum.splits)
  note all = fetch_all_listing [OF rs assms(2,3)]
  from assms(4) obtain cs where cs: "get e (platform_as_str p) None db = (Inr cs, db2)"
    and v: "v = outcome_of p now cs"
    by (auto simp: validate_session_def split: prod.splits sum.splits)
  have same: "c = cs" if "(p, c) \<in> set rs" for c
  proof -
    have "map Inr c = (map Inr cs :: cookie result list)"
      using all that get_list [OF cs] by fastforce
    then show ?thesis by (simp add: inj_map_eq_map)
  qed
  from all assms(5) obtain c where "(p, c) \<in> set rs" by fastforce
  let ?l = "map (\<lambda>(p, c). (platform_as_str p, has_session_cookie p now c)) rs"
  have "(platform_as_str p, has_session_cookie p now c) \<in> set ?l"
    using \<open>(p, c) \<in> set rs\<close> by (auto intro!: image_eqI [of _ _ "(p, c)"])
  from weak_map_of_SomeI [OF this] obtain b where b: "st (platform_as_str p) = Some b"
    unfolding st by blast
  then have "(platform_as_str p, b) \<in> set ?l" unfolding st by (rule map_of_SomeD)
  then obtain c where "(p, c) \<in> set rs" "b = has_session_cookie p now c"
    by auto
  with same b show ?thesis by (simp add: v outcome_of_def Let_def has_session_cookie_def)
qed

end

section \<open>Properties\<close>

lemma toy_login_ok:
  "is_ok (fst (save_login toy_repo toy_env
     (transition 0 Connected None (session_new 0 ''s1'' ''naver'')) [toy_cookie ''NID_AUT'' ''x''] toy_db))"
  by (simp add: save_login_def toy_env_def sqlite_repo_def aes_svc_encrypt_def login_row_def
      toy_db_def session_row_of_def open_statuses_def)

text \<open>The connection status agrees with session validation. In whatever order the five concurrent
  reads complete, when both calls succeed on the same store the status reported for a platform is
  the validity that validating its session reports.\<close>

theorem connection_status_agrees_with_validation:
  assumes "get_connection_status (cookie_get (sqlite_repo s fts)) now env ps db = (Inr st, db')"
    and "validate_session (cookie_get (sqlite_repo s fts)) now e p db = (Inr v, db2)"
    and "cookies_wf db" "\<forall>q. sqlite_env_ok s (env q)" "p \<in> set ps"
  shows "st (platform_as_str p) = Some (vo_valid v)"
  by (rule sqlite_cookies.status_agrees [OF assms(1,3,4,2,5)])

lemma connection_status_agrees_with_validation_witness:
  "\<exists>st. get_connection_status (cookie_get toy_repo) 0 (\<lambda>_. toy_env) platform_ALL toy_db = (Inr st, toy_db) \<and>
        st ''munpia'' = Some False"
proof -
  obtain st where st: "get_connection_status (cookie_get toy_repo) 0 (\<lambda>_. toy_env) platform_ALL toy_db = (Inr st, toy_db)"
    by (simp add: get_connection_status_def platform_ALL_def cookie_get_def toy_env_def toy_db_def
        select_cookies_def)
  have v: "validate_session (cookie_get toy_repo) 0 toy_env Munpia toy_db =
      (Inr \<lparr>vo_valid = False, vo_expires_at = 0\<rparr>, toy_db)"
    by (simp add: validate_session_def cookie_get_def toy_env_def toy_db_def select_cookies_def
        outcome_of_def session_cookie_def active_cookie_def)
  show ?thesis
    using connection_status_agrees_with_validation [OF st v] st
    by (simp add: platform_ALL_def)
qed

text \<open>Updating a platform's cookies only ever adds cookies of that platform's own domains. Cookies of
  other sites in the request are dropped, whether the write succeeds or fails.\<close>

theorem update_cookies_stays_on_platform:
  assumes "sqlite_env_ok s e" "\<forall>c\<in>set cs. utf8_valid (ck_value c)"
    and "update_cookies (cookie_save (sqlite_repo s fts)) e p cs db = (r, db')"
  shows "\<forall>k. k \<in> dom (jar (sqlite_repo s fts) db' (platform_as_str p)) \<longrightarrow>
             k \<in> dom (jar (sqlite_repo s fts) db (platform_as_str p)) \<or>
             (\<exists>a\<in>set (cookie_domains p). suffix (domain_labels a) (domain_labels (snd k)))"
  using sqlite_cookies.update_on_platform [OF assms] unfolding on_platform_def by blast

lemma update_cookies_stays_on_platform_witness:
  "jar toy_repo (snd (update_cookies (cookie_save toy_repo) toy_env Munpia [toy_cookie ''A'' ''v''] toy_db))
     ''munpia'' (''A'', ''.naver.com'') = None"
proof -
  obtain r db' where u: "update_cookies (cookie_save toy_repo) toy_env Munpia [toy_cookie ''A'' ''v''] toy_db = (r, db')"
    by fastforce
  have "\<not> (\<exists>a\<in>set (cookie_domains Munpia). suffix (domain_labels a) (domain_labels ''.naver.com''))"
    by code_simp
  moreover have "jar toy_repo toy_db ''munpia'' (''A'', ''.naver.com'') = None"
    by (simp add: jar_def toy_db_def)
  ultimately show ?thesis
    using update_cookies_stays_on_platform [OF toy_env_ok _ u] u
    by (fastforce simp: domIff)
qed

text \<open>A cancelled session is gone for good. After a successful cancellation, and whatever updates tasks
  that still hold the session write afterwards, asking for its status reports that it is not found.\<close>

theorem cancelled_session_is_not_found:
  assumes "cancel_session session_delete e i db = (Inr u, db')"
  shows "get_status (session_get fts) None i (fold (\<lambda>(e, s) d. snd (session_update e s d)) us db') =
         Inl (ENotFound ''Session not found'')"
proof -
  have "session_look fts db' i = Inr None"
    using sqlite_sessions.delete_ok assms unfolding cancel_session_def by blast
  from updates_keep_absent [OF this] show ?thesis
    by (simp add: get_status_def session_get_look)
qed

lemma cancelled_session_is_not_found_witness:
  "get_status (session_get toy_time) None ''s1'' (snd (cancel_session session_delete None ''s1'' toy_db)) =
   Inl (ENotFound ''Session not found'')"
proof -
  have "cancel_session session_delete None ''s1'' toy_db =
      (Inr (), toy_db\<lparr>db_sessions := (db_sessions toy_db)(''s1'' := None)\<rparr>)"
    by (simp add: cancel_session_def session_delete_def)
  from cancelled_session_is_not_found [OF this, of toy_time "[]"] this show ?thesis by simp
qed

text \<open>A login that was detected and committed is a valid session. When the browser's cookies classify
  as connected and their commit succeeds, validating the session from the store reports it valid at
  the same instant, for every platform but Novelpia (whose rule ranges over several cookies), when
  the cookies have distinct names and domains and whole-second expiries.\<close>

theorem committed_login_is_valid:
  assumes "classify_auth_state now raw p = CpConnected cs" "p \<noteq> Novelpia"
    and "sqlite_env_ok sv e" "sqlite_env_ok sv e'" "cookies_wf db"
    and "\<forall>c\<in>set raw. utf8_valid (ck_value c) \<and> stored_cookie fts c = c" "distinct (map cookie_key cs)"
    and "save_login (sqlite_repo sv fts) e s cs db = (Inr u, db')" "ss_platform s = platform_as_str p"
    and "validate_session (cookie_get (sqlite_repo sv fts)) now e' p db' = (Inr v, db'')"
  shows "vo_valid v"
proof -
  let ?R = "sqlite_repo sv fts"
  note cs = classify_ConnectedD [OF assms(1)]
  then obtain c where c: "active_cookie p now cs (session_cookie_name p) = Some c"
    using assms(2) by (auto simp: has_session_cookie_def session_cookie_def)
  note cD = active_cookie_SomeD [OF c]
  from save_login_OkD [OF assms(8)] obtain rows r where
    loop: "save_cookies_in_transaction ?R e (ss_platform s) 0 cs (db_cookies db) = Inr rows"
    and db': "db' = db\<lparr>db_cookies := rows, db_sessions := (db_sessions db)(ss_id s \<mapsto> set_session_columns s r)\<rparr>"
    by blast
  have utf8: "\<forall>c\<in>set cs. utf8_valid (ck_value c)" using cs assms(6) by blast
  have "find (\<lambda>d. cookie_key d = cookie_key c) (rev cs) = Some c"
    using cD assms(7) by (intro find_rev_distinct) auto
  then have "jar ?R db' (platform_as_str p) (cookie_key c) = Some (Inr (stored_cookie fts c))"
    using save_loop(2) [OF loop sqlite_repo_ok [OF assms(3)] utf8] assms(9)
    by (simp add: db' foldl_jar_put) (simp add: sqlite_repo_def)
  moreover have "cookies_wf db'" using save_loop(1) [OF loop assms(5)] by (simp add: db')
  moreover from assms(10) obtain ds where ds: "cookie_get ?R e' (platform_as_str p) None db' = (Inr ds, db'')"
    and v: "v = outcome_of p now ds"
    by (auto simp: validate_session_def split: prod.splits sum.splits)
  ultimately have "stored_cookie fts c \<in> set ds"
    using sqlite_cookies.get_set [OF assms(4) _ ds] by blast
  then have "c \<in> set ds" using cD cs assms(6) by force
  then have "active_cookie p now ds (session_cookie_name p) \<noteq> None"
    using cD by (auto simp: active_cookie_None_iff)
  then show ?thesis using assms(2) by (auto simp: v outcome_of_def session_cookie_def Let_def)
qed

lemma committed_login_is_valid_witness:
  "\<exists>v db''. validate_session (cookie_get toy_repo) 0 toy_env Naver (snd (save_login toy_repo toy_env
     (transition 0 Connected None (session_new 0 ''s1'' ''naver'')) [toy_cookie ''NID_AUT'' ''x''] toy_db)) =
     (Inr v, db'') \<and> vo_valid v"
proof -
  let ?s = "transition 0 Connected None (session_new 0 ''s1'' ''naver'')"
  let ?cs = "[toy_cookie ''NID_AUT'' ''x'']"
  have m: "cookie_matches_domain Naver (toy_cookie ''NID_AUT'' ''x'')" by code_simp
  have cl: "classify_auth_state 0 ?cs Naver = CpConnected ?cs"
    using m by (simp add: classify_auth_state_def has_session_cookie_def session_cookie_def
        active_cookie_def filter_cookies_def unexpired_def) (simp add: toy_cookie_def)
  obtain db' where sv: "save_login toy_repo toy_env ?s ?cs toy_db = (Inr (), db')"
    using toy_login_ok by (auto simp: is_ok_iff) (metis prod.collapse)
  then have "db_cookies db' = [insert_row 0 ''naver'' (toy_cookie ''NID_AUT'' ''x'')
      (encrypted_value_prefix @ toy_text CHR ''+'' (''nonce-nonce-'' @ rev ''x''))]"
    by (auto simp: save_login_def toy_env_def toy_db_def sqlite_repo_def aes_svc_encrypt_def
        toy_cookie_def login_row_def session_row_of_def open_statuses_def)
  then have "\<exists>v db''. validate_session (cookie_get toy_repo) 0 toy_env Naver db' = (Inr v, db'')"
    using toy_read [of "''x''"]
    by (simp add: validate_session_def cookie_get_def toy_env_def select_cookies_def insert_row_def
        cookie_from_row_def sqlite_repo_def aes_svc_decrypt_def)
  then obtain v db'' where v: "validate_session (cookie_get toy_repo) 0 toy_env Naver db' = (Inr v, db'')"
    by blast
  have "vo_valid v"
    by (rule committed_login_is_valid [OF cl _ toy_env_ok toy_env_ok toy_db_wf _ _ sv _ v]) simp_all
  with v sv show ?thesis by simp
qed

end
