(* ===== verification/Config.thy ===== *)
theory Config
  imports Use_Cases
begin

text \<open>
  \<open>config.rs\<close> and the composition root \<open>application/container.rs\<close>: the defaults of a config
  file's missing sections and fields, the environment overrides, the derived settings, and the
  time budgets the container computes. The TOML parser, the home directory and the opening of the
  database are parameters. Counts and seconds are 64-bit words (\<open>usize\<close> on a 64-bit host).
\<close>

section \<open>Settings\<close>

record server_config =
  sc_grpc_addr :: string
  sc_tls_cert_path :: "string option"
  sc_tls_key_path :: "string option"

record browser_config =
  bc_cdp_url :: string
  bc_cdp_urls :: "string option"
  bc_max_pool_size :: "64 word"
  bc_page_timeout_secs :: "64 word"
  bc_viewer_urls :: "string option"
  bc_login_timeout_secs :: "64 word"
  bc_acquire_timeout_secs :: "64 word"
  bc_connect_timeout_secs :: "64 word"
  bc_max_pending_logins :: "64 word"

record config =
  cf_server :: server_config
  cf_browser :: browser_config
  cf_data_dir :: string
  cf_encryption_key :: "string option"

definition default_grpc_addr :: string where
  "default_grpc_addr = ''0.0.0.0:50051''"

definition default_cdp_url :: string where
  "default_cdp_url = ''http://127.0.0.1:9222''"

definition default_max_pool_size :: "64 word" where
  "default_max_pool_size = 3"

definition default_page_timeout_secs :: "64 word" where
  "default_page_timeout_secs = 30"

definition default_login_timeout_secs :: "64 word" where
  "default_login_timeout_secs = 300"

definition default_max_pending_logins :: "64 word" where
  "default_max_pending_logins = 8"

text \<open>\<open>Path::join\<close>: an absolute path replaces the base, otherwise one separator stands between.\<close>

definition path_join :: "string \<Rightarrow> string \<Rightarrow> string" where
  "path_join a b =
     (if starts_with b ''/'' then b
      else if a = [] \<or> ends_with a ''/'' then a @ b
      else a @ ''/'' @ b)"

definition default_data_dir :: "string option \<Rightarrow> string" where
  "default_data_dir home =
     path_join (path_join (case home of None \<Rightarrow> ''/tmp'' | Some h \<Rightarrow> h) ''.imauth'') ''data''"

definition expand_tilde :: "string option \<Rightarrow> string \<Rightarrow> string" where
  "expand_tilde home path =
     (case strip_prefix path ''~/'' of
        None \<Rightarrow> path
      | Some rest \<Rightarrow> (case home of Some h \<Rightarrow> path_join h rest | None \<Rightarrow> path))"

definition browser_default :: browser_config where
  "browser_default =
     \<lparr>bc_cdp_url = default_cdp_url, bc_cdp_urls = None, bc_max_pool_size = default_max_pool_size,
      bc_page_timeout_secs = default_page_timeout_secs, bc_viewer_urls = None,
      bc_login_timeout_secs = default_login_timeout_secs,
      bc_acquire_timeout_secs = default_page_timeout_secs,
      bc_connect_timeout_secs = default_page_timeout_secs,
      bc_max_pending_logins = default_max_pending_logins\<rparr>"

definition config_default :: "string option \<Rightarrow> config" where
  "config_default home =
     \<lparr>cf_server = \<lparr>sc_grpc_addr = default_grpc_addr, sc_tls_cert_path = None, sc_tls_key_path = None\<rparr>,
      cf_browser = browser_default, cf_data_dir = default_data_dir home, cf_encryption_key = None\<rparr>"

section \<open>Reading a file\<close>

text \<open>
  A parsed document: a section may be missing, and so may a key of a section. A missing key takes
  the default named in its \<open>serde\<close> attribute; a missing section takes the \<open>Default\<close> of its type,
  which is derived for \<open>ServerConfig\<close>, \<open>StorageConfig\<close> and \<open>SecurityConfig\<close> (empty strings, no
  key) and written out for \<open>BrowserConfig\<close>.
\<close>

record server_doc =
  sd_grpc_addr :: "string option"
  sd_tls_cert_path :: "string option"
  sd_tls_key_path :: "string option"

record browser_doc =
  bd_cdp_url :: "string option"
  bd_cdp_urls :: "string option"
  bd_max_pool_size :: "64 word option"
  bd_page_timeout_secs :: "64 word option"
  bd_viewer_urls :: "string option"
  bd_login_timeout_secs :: "64 word option"
  bd_acquire_timeout_secs :: "64 word option"
  bd_connect_timeout_secs :: "64 word option"
  bd_max_pending_logins :: "64 word option"

record config_doc =
  cd_server :: "server_doc option"
  cd_browser :: "browser_doc option"
  cd_storage :: "string option option"
  cd_security :: "string option option"

definition or_default :: "'a \<Rightarrow> 'a option \<Rightarrow> 'a" where
  "or_default d x = (case x of None \<Rightarrow> d | Some y \<Rightarrow> y)"

definition server_of_doc :: "server_doc option \<Rightarrow> server_config" where
  "server_of_doc d =
     (case d of
        None \<Rightarrow> \<lparr>sc_grpc_addr = [], sc_tls_cert_path = None, sc_tls_key_path = None\<rparr>
      | Some s \<Rightarrow> \<lparr>sc_grpc_addr = or_default default_grpc_addr (sd_grpc_addr s),
                   sc_tls_cert_path = sd_tls_cert_path s, sc_tls_key_path = sd_tls_key_path s\<rparr>)"

definition browser_of_doc :: "browser_doc option \<Rightarrow> browser_config" where
  "browser_of_doc d =
     (case d of
        None \<Rightarrow> browser_default
      | Some b \<Rightarrow>
          \<lparr>bc_cdp_url = or_default default_cdp_url (bd_cdp_url b), bc_cdp_urls = bd_cdp_urls b,
           bc_max_pool_size = or_default default_max_pool_size (bd_max_pool_size b),
           bc_page_timeout_secs = or_default default_page_timeout_secs (bd_page_timeout_secs b),
           bc_viewer_urls = bd_viewer_urls b,
           bc_login_timeout_secs = or_default default_login_timeout_secs (bd_login_timeout_secs b),
           bc_acquire_timeout_secs = or_default default_page_timeout_secs (bd_acquire_timeout_secs b),
           bc_connect_timeout_secs = or_default default_page_timeout_secs (bd_connect_timeout_secs b),
           bc_max_pending_logins = or_default default_max_pending_logins (bd_max_pending_logins b)\<rparr>)"

definition config_of_doc :: "string option \<Rightarrow> config_doc \<Rightarrow> config" where
  "config_of_doc home d =
     \<lparr>cf_server = server_of_doc (cd_server d), cf_browser = browser_of_doc (cd_browser d),
      cf_data_dir = (case cd_storage d of None \<Rightarrow> [] | Some s \<Rightarrow> or_default (default_data_dir home) s),
      cf_encryption_key = (case cd_security d of None \<Rightarrow> None | Some k \<Rightarrow> k)\<rparr>"

section \<open>Environment overrides\<close>

definition normalize_path :: "string \<Rightarrow> string option" where
  "normalize_path v = (let trimmed = trim v in if trimmed = [] then None else Some trimmed)"

text \<open>A variable that is set replaces the setting; a number that does not parse is ignored.\<close>

definition text_override :: "string option \<Rightarrow> string \<Rightarrow> string" where
  "text_override var x = (case var of None \<Rightarrow> x | Some v \<Rightarrow> v)"

definition some_override :: "string option \<Rightarrow> string option \<Rightarrow> string option" where
  "some_override var x = (case var of None \<Rightarrow> x | Some v \<Rightarrow> Some v)"

definition path_override :: "string option \<Rightarrow> string option \<Rightarrow> string option" where
  "path_override var x = (case var of None \<Rightarrow> x | Some v \<Rightarrow> normalize_path v)"

definition number_override :: "string option \<Rightarrow> 64 word \<Rightarrow> 64 word" where
  "number_override var x =
     (case var of None \<Rightarrow> x | Some v \<Rightarrow> (case parse_u64 v of None \<Rightarrow> x | Some n \<Rightarrow> n))"

definition apply_env_overrides :: "string option \<Rightarrow> (string \<rightharpoonup> string) \<Rightarrow> config \<Rightarrow> config" where
  "apply_env_overrides home env cfg =
     (let s = cf_server cfg; b = cf_browser cfg;
          key = some_override (env ''IMAUTH_ENCRYPTION_KEY'') (cf_encryption_key cfg) in
      \<lparr>cf_server = s
         \<lparr>sc_grpc_addr := text_override (env ''IMAUTH_GRPC_ADDR'') (sc_grpc_addr s),
          sc_tls_cert_path := path_override (env ''IMAUTH_TLS_CERT_PATH'') (sc_tls_cert_path s),
          sc_tls_key_path := path_override (env ''IMAUTH_TLS_KEY_PATH'') (sc_tls_key_path s)\<rparr>,
       cf_browser = b
         \<lparr>bc_cdp_url := text_override (env ''IMAUTH_CDP_URL'') (bc_cdp_url b),
          bc_cdp_urls := some_override (env ''IMAUTH_CDP_URLS'') (bc_cdp_urls b),
          bc_viewer_urls := some_override (env ''IMAUTH_BROWSER_VIEWER_URLS'') (bc_viewer_urls b),
          bc_login_timeout_secs :=
            number_override (env ''IMAUTH_LOGIN_TIMEOUT_SECS'') (bc_login_timeout_secs b),
          bc_acquire_timeout_secs :=
            number_override (env ''IMAUTH_BROWSER_ACQUIRE_TIMEOUT_SECS'') (bc_acquire_timeout_secs b),
          bc_connect_timeout_secs :=
            number_override (env ''IMAUTH_CDP_CONNECT_TIMEOUT_SECS'') (bc_connect_timeout_secs b),
          bc_page_timeout_secs :=
            number_override (env ''IMAUTH_PAGE_TIMEOUT_SECS'') (bc_page_timeout_secs b),
          bc_max_pending_logins :=
            number_override (env ''IMAUTH_MAX_PENDING_LOGINS'') (bc_max_pending_logins b)\<rparr>,
       cf_data_dir = expand_tilde home (text_override (env ''IMAUTH_DATA_DIR'') (cf_data_dir cfg)),
       cf_encryption_key = (if key = Some [] then None else key)\<rparr>)"

text \<open>
  \<open>from_file\<close>: \<open>None\<close> when there is no file, otherwise the text read or the error of reading it.
\<close>

definition config_from_file ::
  "(string \<Rightarrow> string + config_doc) \<Rightarrow> string option \<Rightarrow> (string \<rightharpoonup> string) \<Rightarrow> (string + string) option \<Rightarrow>
   config result" where
  "config_from_file toml home env file =
     res_bind
       (case file of
          None \<Rightarrow> Inr (config_default home)
        | Some read \<Rightarrow>
            res_bind (map_err (\<lambda>e. EConfig (''Failed to read config file: '' @ e)) read) (\<lambda>content.
              map_err (\<lambda>e. EConfig (''Failed to parse config: '' @ e))
                (res_bind (toml content) (\<lambda>d. Inr (config_of_doc home d)))))
       (\<lambda>cfg. Inr (apply_env_overrides home env cfg))"

definition config_from_env :: "string option \<Rightarrow> (string \<rightharpoonup> string) \<Rightarrow> config" where
  "config_from_env home env = apply_env_overrides home env (config_default home)"

section \<open>Derived settings\<close>

definition tls_identity_paths :: "config \<Rightarrow> (string \<times> string) option result" where
  "tls_identity_paths cfg =
     (case (sc_tls_cert_path (cf_server cfg), sc_tls_key_path (cf_server cfg)) of
        (None, None) \<Rightarrow> Inr None
      | (Some cert, Some key) \<Rightarrow> Inr (Some (cert, key))
      | _ \<Rightarrow> Inl (EConfig ''TLS certificate and key paths must be configured together''))"

definition comma_list :: "string \<Rightarrow> string list" where
  "comma_list urls = filter (\<lambda>s. s \<noteq> []) (map trim (split_on CHR '','' urls))"

definition cdp_urls :: "config \<Rightarrow> string list" where
  "cdp_urls cfg =
     (case bc_cdp_urls (cf_browser cfg) of
        Some urls \<Rightarrow> comma_list urls
      | None \<Rightarrow> [bc_cdp_url (cf_browser cfg)])"

definition browser_viewer_urls :: "config \<Rightarrow> string list" where
  "browser_viewer_urls cfg =
     (case bc_viewer_urls (cf_browser cfg) of Some urls \<Rightarrow> comma_list urls | None \<Rightarrow> [])"

definition db_path :: "config \<Rightarrow> string" where
  "db_path cfg = path_join (cf_data_dir cfg) ''imauth.db''"

section \<open>The composition root\<close>

record 'c app_container =
  ac_config :: config
  ac_cipher :: 'c
  ac_cdp_urls :: "string list"
  ac_viewer_urls :: "string list"
  ac_login_timeout :: duration
  ac_acquire_timeout :: duration
  ac_connect_timeout :: duration
  ac_page_timeout :: duration
  ac_preparation_timeout :: duration

text \<open>The two additions panic on overflow; the multiplications saturate.\<close>

definition preparation_timeout :: "duration \<Rightarrow> duration \<Rightarrow> duration \<Rightarrow> nat \<Rightarrow> duration option" where
  "preparation_timeout acquire connect page slots =
     Option.bind (dur_add acquire (saturating_mul connect (min slots (2 ^ 32 - 1))))
       (\<lambda>d. dur_add d (saturating_mul page 2))"

text \<open>
  \<open>from_config\<close>. \<open>open_pool\<close> is the result of opening the database at a path, \<open>flts\<close> the failures
  of the migration statements. A panic is \<open>None\<close>; the migrated file is returned in every case.
\<close>

definition app_from_config ::
  "'c crypto \<Rightarrow> (string \<Rightarrow> unit result) \<Rightarrow> string option list \<Rightarrow> config \<Rightarrow> db_file \<Rightarrow>
   'c app_container result option \<times> db_file" where
  "app_from_config cr open_pool flts cfg file =
     (case encryption_from_config cr (cf_encryption_key cfg) of
        Inl x \<Rightarrow> (Some (Inl x), file)
      | Inr cipher \<Rightarrow>
          (case open_pool (db_path cfg) of
             Inl x \<Rightarrow> (Some (Inl x), file)
           | Inr u \<Rightarrow>
               (case run_migrations flts file of
                  (Inl x, file') \<Rightarrow> (Some (Inl x), file')
                | (Inr u', file') \<Rightarrow>
                    (let urls = cdp_urls cfg; b = cf_browser cfg;
                         acquire = from_secs (bc_acquire_timeout_secs b);
                         connect = from_secs (bc_connect_timeout_secs b);
                         page = from_secs (bc_page_timeout_secs b) in
                     (case preparation_timeout acquire connect page (length urls) of
                        None \<Rightarrow> (None, file')
                      | Some prep \<Rightarrow>
                          (Some (Inr
                             \<lparr>ac_config = cfg, ac_cipher = cipher, ac_cdp_urls = urls,
                              ac_viewer_urls = browser_viewer_urls cfg,
                              ac_login_timeout = from_secs (bc_login_timeout_secs b),
                              ac_acquire_timeout = acquire, ac_connect_timeout = connect,
                              ac_page_timeout = page, ac_preparation_timeout = prep\<rparr>), file'))))))"

section \<open>Properties\<close>

lemma strip_front_subset: "set (strip_front ws s) \<subseteq> set s"
  using strip_front_suffix [of s ws] by (metis Un_upper2 set_append)

lemma trim_subset: "set (trim s) \<subseteq> set s"
  using strip_front_subset [of unicode_ws s]
    strip_front_subset [of "map rev unicode_ws" "rev (trim_start s)"]
  by (auto simp: trim_def trim_end_def trim_start_def)

lemma comma_list_entries:
  "u \<in> set (comma_list s) \<Longrightarrow> u \<noteq> [] \<and> trim u = u \<and> CHR '','' \<notin> set u"
  using trim_subset split_on_pieces by (fastforce simp: comma_list_def)

text \<open>The browser addresses. Whatever the configured list looks like (blanks, empty entries, a
  trailing comma), every address used is trimmed, not empty and free of commas; and a list written
  with single commas is read as exactly its entries.\<close>

theorem cdp_urls_clean:
  assumes "bc_cdp_urls (cf_browser cfg) = Some s"
  shows "(\<forall>u\<in>set (cdp_urls cfg). u \<noteq> [] \<and> trim u = u \<and> CHR '','' \<notin> set u) \<and>
         (\<forall>us. us \<noteq> [] \<and> (\<forall>u\<in>set us. u \<noteq> [] \<and> trim u = u \<and> CHR '','' \<notin> set u) \<and> s = join '','' us \<longrightarrow>
               cdp_urls cfg = us)"
proof (intro conjI allI impI)
  show "\<forall>u\<in>set (cdp_urls cfg). u \<noteq> [] \<and> trim u = u \<and> CHR '','' \<notin> set u"
    using assms comma_list_entries by (auto simp: cdp_urls_def)
  fix us assume us: "us \<noteq> [] \<and> (\<forall>u\<in>set us. u \<noteq> [] \<and> trim u = u \<and> CHR '','' \<notin> set u) \<and> s = join '','' us"
  then have "split_on CHR '','' s = us" by (auto intro: split_on_join)
  moreover have "filter (\<lambda>s. s \<noteq> []) (map trim us) = us"
    using us by (simp add: map_idI)
  ultimately show "cdp_urls cfg = us" using assms by (simp add: cdp_urls_def comma_list_def)
qed

lemma cdp_urls_clean_witness:
  "cdp_urls (config_default None
     \<lparr>cf_browser := browser_default\<lparr>bc_cdp_urls := Some ''http://a,http://b''\<rparr>\<rparr>) = [''http://a'', ''http://b'']"
proof -
  let ?c = "config_default None\<lparr>cf_browser := browser_default\<lparr>bc_cdp_urls := Some ''http://a,http://b''\<rparr>\<rparr>"
  have a: "trim ''http://a'' = ''http://a''" and b: "trim ''http://b'' = ''http://b''" by code_simp+
  show ?thesis
    using cdp_urls_clean [of ?c "''http://a,http://b''", THEN conjunct2, THEN spec,
        of "[''http://a'', ''http://b'']"] a b
    by simp
qed

text \<open>The encryption key. The variable wins over the file when it is set, and an empty key counts
  as none wherever it comes from; so an empty variable switches a key of the file off, and no
  configuration ever holds an empty key. The data directory keeps a leading \<open>~/\<close> only when no home
  directory is known or the home itself starts so.\<close>

theorem config_key_precedence:
  assumes "config_from_file toml home env file = Inr cfg"
  shows "cf_encryption_key cfg \<noteq> Some [] \<and>
         (\<forall>k. env ''IMAUTH_ENCRYPTION_KEY'' = Some k \<longrightarrow>
            cf_encryption_key cfg = (if k = [] then None else Some k)) \<and>
         (env ''IMAUTH_ENCRYPTION_KEY'' = None \<and> file = Some (Inr text) \<and> toml text = Inr d \<longrightarrow>
            cf_encryption_key cfg = (case cd_security d of Some (Some (c # cs)) \<Rightarrow> Some (c # cs) | _ \<Rightarrow> None)) \<and>
         (\<forall>h. home = Some h \<and> starts_with h ''/'' \<longrightarrow> \<not> starts_with (cf_data_dir cfg) ''~/'')"
proof -
  have "\<exists>cfg0. cfg = apply_env_overrides home env cfg0 \<and>
      (file = Some (Inr text) \<and> toml text = Inr d \<longrightarrow> cfg0 = config_of_doc home d)"
    using assms by (cases "file") (fastforce simp: config_from_file_def res_iffs)+
  then obtain cfg0 where c0: "cfg = apply_env_overrides home env cfg0"
    and d: "file = Some (Inr text) \<and> toml text = Inr d \<longrightarrow> cfg0 = config_of_doc home d" by blast
  have key: "cf_encryption_key cfg = (case some_override (env ''IMAUTH_ENCRYPTION_KEY'') (cf_encryption_key cfg0) of
      Some (c # cs) \<Rightarrow> Some (c # cs) | _ \<Rightarrow> None)"
    by (auto simp: c0 apply_env_overrides_def Let_def split: option.splits list.splits)
  have dir: "\<not> starts_with (expand_tilde (Some h) x) ''~/''" if "starts_with h ''/''" for h x
    using that
    by (auto simp: expand_tilde_def path_join_def strip_prefix_None_iff starts_with_iff split: option.splits)
  show ?thesis
    using key d dir
    by (auto simp: some_override_def config_of_doc_def c0 apply_env_overrides_def Let_def
        split: option.splits list.splits)
qed

lemma config_key_precedence_witness:
  "cf_encryption_key (apply_env_overrides (Some ''/root'') [''IMAUTH_ENCRYPTION_KEY'' \<mapsto> []]
     (config_of_doc (Some ''/root'') \<lparr>cd_server = None, cd_browser = None, cd_storage = None,
        cd_security = Some (Some ''key'')\<rparr>)) = None"
proof -
  let ?d = "\<lparr>cd_server = None, cd_browser = None, cd_storage = None, cd_security = Some (Some ''key'')\<rparr>"
  let ?e = "[''IMAUTH_ENCRYPTION_KEY'' \<mapsto> []]"
  have "config_from_file (\<lambda>_. Inr ?d) (Some ''/root'') ?e (Some (Inr [])) =
      Inr (apply_env_overrides (Some ''/root'') ?e (config_of_doc (Some ''/root'') ?d))"
    by (simp add: config_from_file_def)
  from config_key_precedence [OF this, of "[]" ?d] show ?thesis by simp
qed

text \<open>A file without a \<open>[server]\<close> section gets the empty listen address and one without a
  \<open>[storage]\<close> section the empty data directory, while a file that has the sections without the keys,
  and a missing file, get the documented defaults.\<close>

theorem missing_section_loses_default:
  "sc_grpc_addr (cf_server (config_of_doc home (d\<lparr>cd_server := None, cd_storage := None\<rparr>))) = [] \<and>
   cf_data_dir (config_of_doc home (d\<lparr>cd_server := None, cd_storage := None\<rparr>)) = [] \<and>
   sc_grpc_addr (cf_server (config_of_doc home (d\<lparr>cd_server := Some \<lparr>sd_grpc_addr = None,
     sd_tls_cert_path = c, sd_tls_key_path = k\<rparr>\<rparr>))) = ''0.0.0.0:50051'' \<and>
   sc_grpc_addr (cf_server (config_default home)) = ''0.0.0.0:50051'' \<and>
   cf_data_dir (config_of_doc home (d\<lparr>cd_storage := Some None\<rparr>)) = cf_data_dir (config_default home)"
  by (simp add: config_of_doc_def server_of_doc_def or_default_def default_grpc_addr_def config_default_def)

text \<open>Starting the application panics exactly when the key, the database and the migrations were
  fine and the sum of the time budgets exceeds the largest duration; otherwise a container that is
  built has the preparation budget acquire + connect per browser + twice the page timeout, each
  product cut at the largest duration.\<close>

theorem container_panics_iff_overflow:
  "case app_from_config cr open_pool flts cfg file of (res, file') \<Rightarrow>
     (let b = cf_browser cfg;
          budget = from_secs (bc_acquire_timeout_secs b) +
            min (from_secs (bc_connect_timeout_secs b) * min (length (cdp_urls cfg)) (2 ^ 32 - 1)) dur_max +
            min (from_secs (bc_page_timeout_secs b) * 2) dur_max in
      (res = None) = (is_ok (encryption_from_config cr (cf_encryption_key cfg)) \<and>
         is_ok (open_pool (db_path cfg)) \<and> is_ok (fst (run_migrations flts file)) \<and> dur_max < budget) \<and>
      (case res of Some (Inr c) \<Rightarrow> ac_preparation_timeout c = budget \<and> ac_config c = cfg \<and>
                                  db_of_file file' \<noteq> None
       | _ \<Rightarrow> True))"
proof -
  note mig = run_migrations_ok
  show ?thesis
    using mig
    by (auto simp: app_from_config_def preparation_timeout_def saturating_mul_def dur_add_def Let_def
        is_ok_iff split: sum.splits prod.splits bind_splits option.splits if_splits)
qed

end
