(* ===== verification/Async.thy ===== *)
theory Async
  imports Complex_Main Config
begin

text \<open>
  Asynchronous operations as the sources combine them with tokio: \<open>timeout\<close>, biased \<open>select!\<close> and
  sequencing; then \<open>application/login/control.rs\<close>, which guards every step of a login, and the
  page driver of \<open>adapters/chromiumoxide/page_driver.rs\<close>. The browser and the clock are parameters.
\<close>

section \<open>Futures\<close>

text \<open>
  A future is the time it takes from its first poll and the value it gives, or \<open>None\<close> when it never
  completes. \<open>select2\<close> is a biased choice: the first to complete, the first listed when both are
  ready at the same instant; \<open>timeout d f\<close> polls \<open>f\<close> before its timer.
\<close>

type_synonym 'a future = "(duration \<times> 'a) option"

definition fut_map :: "('a \<Rightarrow> 'b) \<Rightarrow> 'a future \<Rightarrow> 'b future" where
  "fut_map f a = map_option (\<lambda>(t, x). (t, f x)) a"

definition fut_bind :: "('e + 'a) future \<Rightarrow> ('a \<Rightarrow> ('e + 'b) future) \<Rightarrow> ('e + 'b) future" where
  "fut_bind a f =
     (case a of
        None \<Rightarrow> None
      | Some (t, Inl e) \<Rightarrow> Some (t, Inl e)
      | Some (t, Inr x) \<Rightarrow> map_option (\<lambda>(u, y). (t + u, y)) (f x))"

definition select2 :: "'a future \<Rightarrow> 'a future \<Rightarrow> 'a future" where
  "select2 a b =
     (case a of
        None \<Rightarrow> b
      | Some (t, x) \<Rightarrow>
          (case b of None \<Rightarrow> a | Some (u, y) \<Rightarrow> if t \<le> u then a else b))"

definition fut_select :: "'a future list \<Rightarrow> 'a future" where
  "fut_select fs = foldr select2 fs None"

definition fut_timeout :: "duration \<Rightarrow> 'a future \<Rightarrow> (unit + 'a) future" where
  "fut_timeout d a = select2 (fut_map Inr a) (Some (d, Inl ()))"

lemma fut_timeout_bound: "\<exists>t x. fut_timeout d a = Some (t, x) \<and> t \<le> d"
  by (cases a) (auto simp: fut_timeout_def fut_map_def select2_def split: if_splits)

lemma fut_timeout_Inr:
  "fut_timeout d a = Some (t, Inr x) \<longleftrightarrow> a = Some (t, x) \<and> t \<le> d"
  by (cases a) (auto simp: fut_timeout_def fut_map_def select2_def split: if_splits)

lemma fut_timeout_Inl:
  "fut_timeout d a = Some (t, Inl ()) \<longleftrightarrow> t = d \<and> (\<forall>u x. a = Some (u, x) \<longrightarrow> d < u)"
  by (cases a) (auto simp: fut_timeout_def fut_map_def select2_def split: if_splits)

lemma select2_None [simp]: "select2 None b = b" "select2 a None = a"
  by (auto simp: select2_def split: option.splits)

lemma fut_map_None [simp]: "fut_map f None = None"
  by (simp add: fut_map_def)

lemma fut_map_Some [simp]: "fut_map f (Some (t, x)) = Some (t, f x)"
  by (simp add: fut_map_def)

lemma fut_map_map: "fut_map f (fut_map g a) = fut_map (f \<circ> g) a"
  by (cases a) auto

lemma fut_map_timeout_bound: "\<exists>t x. fut_map f (fut_timeout d a) = Some (t, x) \<and> t \<le> d"
proof -
  obtain t x where "fut_timeout d a = Some (t, x)" "t \<le> d" using fut_timeout_bound by blast
  then show ?thesis by simp
qed

section \<open>The login control\<close>

datatype login_failure = LfCancelled | LfTimedOut string | LfOperation imauth_error

fun login_failure_text :: "login_failure \<Rightarrow> string" where
  "login_failure_text LfCancelled = ''Login cancelled''"
| "login_failure_text (LfTimedOut stage) = ''Login timed out during '' @ stage"
| "login_failure_text (LfOperation e) = error_to_string e"

definition cancellation_poll_interval :: duration where
  "cancellation_poll_interval = from_millis 250"

definition cleanup_timeout :: duration where
  "cleanup_timeout = from_secs 5"

text \<open>
  \<open>wait_cancelled\<close>: the k-th reading of the session is the future \<open>gets k\<close>; a reading that fails is
  logged and ignored. It never completes when no reading finds the session gone.
\<close>

partial_function (option) wait_cancelled ::
  "(nat \<Rightarrow> session option result future) \<Rightarrow> nat \<Rightarrow> duration \<Rightarrow> unit future" where
  "wait_cancelled gets k t =
     (case gets k of
        None \<Rightarrow> None
      | Some (d, r) \<Rightarrow>
          (let t' = t + cancellation_poll_interval + d in
           case r of
             Inr None \<Rightarrow> Some (t', ())
           | Inr (Some s) \<Rightarrow> wait_cancelled gets (Suc k) t'
           | Inl e \<Rightarrow> wait_cancelled gets (Suc k) t'))"

text \<open>
  \<open>run\<close>: \<open>rx_closed\<close> completes when the receiver of the events is dropped, \<open>remaining\<close> is the time left
  to the deadline (zero when it has passed).
\<close>

definition control_run ::
  "unit future \<Rightarrow> duration \<Rightarrow> string \<Rightarrow> (nat \<Rightarrow> session option result future) \<Rightarrow> 'a result future \<Rightarrow>
   (login_failure + 'a) future" where
  "control_run rx_closed remaining stage gets operation =
     fut_select
       [fut_map (\<lambda>_. Inl LfCancelled) rx_closed,
        Some (remaining, Inl (LfTimedOut stage)),
        fut_map (map_err LfOperation) operation,
        fut_map (\<lambda>_. Inl LfCancelled) (wait_cancelled gets 0 0)]"

section \<open>The page driver\<close>

definition cookie_read_timeout :: duration where
  "cookie_read_timeout = from_secs 10"

definition page_close_timeout :: duration where
  "page_close_timeout = from_secs 5"

text \<open>
  \<open>run_while_connected\<close>: the flag's value when the operation starts and the future of its next
  change (which also completes when the handler is gone).
\<close>

definition run_while_connected :: "bool \<Rightarrow> unit future \<Rightarrow> 'a result future \<Rightarrow> 'a result future" where
  "run_while_connected down changed operation =
     (if down then Some (0, Inl (EBrowser ''CDP handler disconnected''))
      else fut_select
        [fut_map (\<lambda>_. Inl (EBrowser ''CDP handler disconnected'')) changed, operation])"

definition flatten_timeout :: "imauth_error \<Rightarrow> (unit + 'a result) \<Rightarrow> 'a result" where
  "flatten_timeout e r = (case r of Inl u \<Rightarrow> Inl e | Inr x \<Rightarrow> x)"

text \<open>An operation on the page; \<open>None\<close> when it was closed before.\<close>

definition with_page :: "string \<Rightarrow> 'p option \<Rightarrow> ('p \<Rightarrow> 'a result future) \<Rightarrow> 'a result future" where
  "with_page what page f =
     (case page of
        None \<Rightarrow> Some (0, Inl (EBrowser (what @ '': page already closed'')))
      | Some p \<Rightarrow> f p)"

definition browser_err :: "string \<Rightarrow> (string + 'a) future \<Rightarrow> 'a result future" where
  "browser_err msg a = fut_map (map_err (\<lambda>e. EBrowser (msg @ e))) a"

definition navigate ::
  "bool \<Rightarrow> unit future \<Rightarrow> ('p \<Rightarrow> string \<Rightarrow> (string + unit) future) \<Rightarrow> ('p \<Rightarrow> (string + unit) future) \<Rightarrow>
   'p option \<Rightarrow> string \<Rightarrow> 64 word \<Rightarrow> unit result future" where
  "navigate down changed goto wait_for_navigation page url timeout_secs =
     fut_map (flatten_timeout (EBrowser (''Navigation to '' @ url @ '' timed out after '' @
                show_nat (unat timeout_secs) @ ''s'')))
       (fut_timeout (from_secs timeout_secs)
         (run_while_connected down changed
           (with_page ''navigate'' page (\<lambda>p.
              fut_bind (browser_err ''Navigation failed: '' (goto p url)) (\<lambda>_.
                browser_err ''Wait for navigation failed: '' (wait_for_navigation p))))))"

text \<open>
  The expiry of a browser cookie is an \<open>f64\<close>; \<open>as i64\<close> cuts the fraction and saturates.
\<close>

datatype f64 = F64_NaN | F64_Inf bool | F64 rat

definition f64_positive :: "f64 \<Rightarrow> bool" where
  "f64_positive x = (case x of F64_NaN \<Rightarrow> False | F64_Inf neg \<Rightarrow> \<not> neg | F64 r \<Rightarrow> 0 < r)"

definition f64_as_i64 :: "f64 \<Rightarrow> int" where
  "f64_as_i64 x =
     (case x of
        F64_NaN \<Rightarrow> 0
      | F64_Inf neg \<Rightarrow> (if neg then - (2 ^ 63) else 2 ^ 63 - 1)
      | F64 r \<Rightarrow> max (- (2 ^ 63)) (min (2 ^ 63 - 1) (if 0 \<le> r then floor r else - floor (- r))))"

record browser_cookie =
  bk_name :: string
  bk_value :: string
  bk_domain :: string
  bk_path :: string
  bk_expires :: f64
  bk_http_only :: bool
  bk_secure :: bool

definition cookie_of_browser :: "(int \<Rightarrow> datetime option) \<Rightarrow> browser_cookie \<Rightarrow> cookie" where
  "cookie_of_browser fts c =
     \<lparr>ck_name = bk_name c, ck_value = bk_value c, ck_domain = bk_domain c, ck_path = bk_path c,
      ck_expires = (if f64_positive (bk_expires c) then fts (f64_as_i64 (bk_expires c)) else None),
      ck_http_only = bk_http_only c, ck_secure = bk_secure c\<rparr>"

definition driver_get_cookies ::
  "(int \<Rightarrow> datetime option) \<Rightarrow> bool \<Rightarrow> unit future \<Rightarrow> ('p \<Rightarrow> (string + browser_cookie list) future) \<Rightarrow>
   'p option \<Rightarrow> cookie list result future" where
  "driver_get_cookies fts down changed page_cookies page =
     fut_map (map_sum id (map (cookie_of_browser fts)))
       (fut_map (flatten_timeout (EBrowser (''Cookie read timed out after '' @
                  show_nat (as_secs cookie_read_timeout) @ ''s'')))
         (fut_timeout cookie_read_timeout
           (run_while_connected down changed
             (with_page ''get_cookies'' page (\<lambda>p.
                browser_err ''Failed to get cookies: '' (page_cookies p))))))"

definition driver_screenshot ::
  "bool \<Rightarrow> unit future \<Rightarrow> ('p \<Rightarrow> (string + bytes) future) \<Rightarrow> 'p option \<Rightarrow> bytes result future" where
  "driver_screenshot down changed shoot page =
     run_while_connected down changed
       (with_page ''screenshot'' page (\<lambda>p. browser_err ''Screenshot failed: '' (shoot p)))"

text \<open>\<open>eval\<close> is the evaluation of \<open>() => document.documentElement.outerHTML\<close>, \<open>into\<close> its conversion.\<close>

definition driver_content_html ::
  "bool \<Rightarrow> unit future \<Rightarrow> ('p \<Rightarrow> (string + 'v) future) \<Rightarrow> ('v \<Rightarrow> string + string) \<Rightarrow> 'p option \<Rightarrow>
   string result future" where
  "driver_content_html down changed eval into page =
     run_while_connected down changed
       (with_page ''content_html'' page (\<lambda>p.
          fut_bind (browser_err ''content_html eval failed: '' (eval p)) (\<lambda>v.
            Some (0, map_err (\<lambda>e. EBrowser (''content_html result parse failed: '' @ e)) (into v)))))"

text \<open>
  \<open>close\<close> takes the page out once it holds the lock, so a second close does nothing; it returns what
  the page is afterwards. In the other operations waiting for the lock is part of the operation.
\<close>

definition driver_close ::
  "unit future \<Rightarrow> ('p \<Rightarrow> (string + unit) future) \<Rightarrow> 'p option \<Rightarrow> unit result future \<times> 'p option" where
  "driver_close lock close page =
     (fut_map (flatten_timeout (EBrowser ''Page close timed out''))
        (fut_timeout page_close_timeout
          (fut_bind (fut_map Inr lock) (\<lambda>_.
             case page of
               None \<Rightarrow> Some (0, Inr ())
             | Some p \<Rightarrow> browser_err ''Failed to close page: '' (close p)))),
      (case lock of
         None \<Rightarrow> page
       | Some (t, u) \<Rightarrow> if t \<le> page_close_timeout then None else page))"

section \<open>Properties\<close>

lemma wait_cancelled_step:
  "gets k = Some (d, Inr None) \<Longrightarrow> wait_cancelled gets k t = Some (t + cancellation_poll_interval + d, ())"
  "gets k = Some (d, r) \<Longrightarrow> r \<noteq> Inr None \<Longrightarrow>
     wait_cancelled gets k t = wait_cancelled gets (Suc k) (t + cancellation_poll_interval + d)"
  "gets k = None \<Longrightarrow> wait_cancelled gets k t = None"
  by (auto simp: wait_cancelled.simps [of gets k t] Let_def split: sum.splits option.splits)

lemma wait_cancelled_detects:
  assumes "\<forall>j<n. \<exists>d r. gets (k + j) = Some (d, r) \<and> d \<le> g \<and> r \<noteq> Inr None"
    and "gets (k + n) = Some (d, Inr None)" "d \<le> g"
  shows "\<exists>t'. wait_cancelled gets k t = Some (t', ()) \<and> t' \<le> t + Suc n * (cancellation_poll_interval + g)"
  using assms(1,2)
proof (induction n arbitrary: k t)
  case 0
  then show ?case using assms(3) by (simp add: wait_cancelled_step(1))
next
  case (Suc n)
  obtain d' r where r: "gets k = Some (d', r)" "d' \<le> g" "r \<noteq> Inr None" using Suc.prems(1) by force
  have "\<forall>j<n. \<exists>d r. gets (Suc k + j) = Some (d, r) \<and> d \<le> g \<and> r \<noteq> Inr None"
    using Suc.prems(1) by (metis Suc_less_eq add_Suc_shift)
  moreover have "gets (Suc k + n) = Some (d, Inr None)" using Suc.prems(2) by simp
  ultimately obtain t' where
    "wait_cancelled gets (Suc k) (t + cancellation_poll_interval + d') = Some (t', ())"
    "t' \<le> t + cancellation_poll_interval + d' + Suc n * (cancellation_poll_interval + g)"
    using Suc.IH [of "Suc k" "t + cancellation_poll_interval + d'"] by blast
  with r show ?case by (intro exI [of _ t']) (simp add: wait_cancelled_step(2))
qed

lemma select2_bound: "select2 a b = Some (t, x) \<Longrightarrow> b = Some (u, y) \<Longrightarrow> t \<le> u"
  by (auto simp: select2_def split: option.splits if_splits)

lemma control_run_cases:
  "control_run rx_closed d stage gets operation =
     select2 (fut_map (\<lambda>_. Inl LfCancelled) rx_closed)
       (select2 (Some (d, Inl (LfTimedOut stage)))
         (select2 (fut_map (map_err LfOperation) operation)
           (fut_map (\<lambda>_. Inl LfCancelled) (wait_cancelled gets 0 0))))"
  by (simp add: control_run_def fut_select_def)

lemma select2_Some_left: "\<exists>t x. select2 (Some (d, y)) b = Some (t, x) \<and> t \<le> d"
  by (cases b) (auto simp: select2_def)

text \<open>Every guarded step of a login ends, with a reason. Whatever the operation does, also when it
  never completes, the step ends no later than its deadline; it succeeds only with the value the
  operation completed with before the deadline while the client was there, it reports the
  operation's own error unchanged, and it reports a time-out exactly when nothing came first.\<close>

theorem control_run_spec:
  "\<exists>t r. control_run rx_closed d stage gets operation = Some (t, r) \<and> t \<le> d \<and>
     (case r of
        Inr x \<Rightarrow> operation = Some (t, Inr x) \<and> t < d \<and> (\<nexists>u. rx_closed = Some (u, ()) \<and> u \<le> t) \<and>
                 (\<nexists>u. wait_cancelled gets 0 0 = Some (u, ()) \<and> u < t)
      | Inl (LfOperation e) \<Rightarrow> operation = Some (t, Inl e) \<and> t < d
      | Inl (LfTimedOut s) \<Rightarrow> s = stage \<and> t = d \<and> (\<nexists>u x. operation = Some (u, x) \<and> u < d) \<and>
                              (\<nexists>u. rx_closed = Some (u, ()) \<and> u \<le> d)
      | Inl LfCancelled \<Rightarrow> rx_closed = Some (t, ()) \<or> wait_cancelled gets 0 0 = Some (t, ()))"
proof -
  let ?w = "wait_cancelled gets 0 0"
  have op: "operation = None \<or> (\<exists>u e. operation = Some (u, Inl e)) \<or> (\<exists>u x. operation = Some (u, Inr x))"
    by (cases operation) (auto, metis obj_sumE)
  have "rx_closed = None \<or> (\<exists>u. rx_closed = Some (u, ()))" "?w = None \<or> (\<exists>u. ?w = Some (u, ()))"
    by (cases rx_closed; auto) (cases ?w; auto)
  with op show ?thesis
    unfolding control_run_cases by (elim disjE exE) (simp_all add: select2_def)
qed

text \<open>A cancellation is noticed. When the session is found gone at some poll and every reading takes at
  most \<open>g\<close>, an operation that never completes is stopped as cancelled within that many polling
  intervals, if the deadline is later.\<close>

theorem cancellation_is_noticed:
  assumes "\<forall>j<n. \<exists>d r. gets j = Some (d, r) \<and> d \<le> g \<and> r \<noteq> Inr None"
    and "gets n = Some (d, Inr None)" "d \<le> g"
    and "Suc n * (cancellation_poll_interval + g) < remaining"
  shows "\<exists>t. control_run None remaining stage gets None = Some (t, Inl LfCancelled) \<and>
             t \<le> Suc n * (from_millis 250 + g)"
proof -
  obtain t' where "wait_cancelled gets 0 0 = Some (t', ())" "t' \<le> Suc n * (cancellation_poll_interval + g)"
    using wait_cancelled_detects [of n gets 0 g d 0] assms(1-3) by auto
  with assms(4) show ?thesis
    by (auto simp: control_run_cases select2_def cancellation_poll_interval_def)
qed

lemma cancellation_is_noticed_witness:
  "\<exists>t. control_run None (from_secs 30) ''user login''
     (\<lambda>k. Some (1000000, if k = 0 then Inr (Some (session_new 0 ''s1'' ''naver'')) else Inr None)) None =
     Some (t, Inl LfCancelled) \<and> t \<le> 502000000"
proof -
  let ?g = "\<lambda>k :: nat. Some (1000000 :: nat, if k = 0 then Inr (Some (session_new 0 ''s1'' ''naver'')) else Inr None)
    :: session option result future"
  have "\<forall>j<1. \<exists>d r. ?g j = Some (d, r) \<and> d \<le> 1000000 \<and> r \<noteq> Inr None" by simp
  moreover have "Suc 1 * (cancellation_poll_interval + 1000000) < from_secs 30"
    by (simp add: cancellation_poll_interval_def from_millis_def from_secs_def)
  ultimately show ?thesis
    using cancellation_is_noticed [of 1 ?g 1000000 1000000 "from_secs 30" "''user login''"]
    by (simp add: from_millis_def)
qed

text \<open>Page operations end. Navigation ends within its time-out, the reading of cookies within ten
  seconds and the closing of a page within five, whatever the browser does; a handler that is
  already disconnected fails them at once without touching the page; and closing a page twice
  succeeds at once.\<close>

theorem page_operations_end:
  "(\<exists>t r. navigate down changed goto nav page url secs = Some (t, r) \<and> t \<le> from_secs secs) \<and>
   (\<exists>t r. driver_get_cookies fts down changed cks page = Some (t, r) \<and> t \<le> from_secs 10) \<and>
   (\<exists>t r. fst (driver_close lock close page) = Some (t, r) \<and> t \<le> from_secs 5) \<and>
   navigate True changed goto nav page url secs = Some (0, Inl (EBrowser ''CDP handler disconnected'')) \<and>
   driver_get_cookies fts True changed cks page = Some (0, Inl (EBrowser ''CDP handler disconnected'')) \<and>
   fst (driver_close (Some (0, ())) close (snd (driver_close (Some (0, ())) close page))) = Some (0, Inr ())"
proof (intro conjI)
  show "\<exists>t r. navigate down changed goto nav page url secs = Some (t, r) \<and> t \<le> from_secs secs"
    unfolding navigate_def by (rule fut_map_timeout_bound)
  show "\<exists>t r. driver_get_cookies fts down changed cks page = Some (t, r) \<and> t \<le> from_secs 10"
    unfolding driver_get_cookies_def cookie_read_timeout_def fut_map_map by (rule fut_map_timeout_bound)
  show "\<exists>t r. fst (driver_close lock close page) = Some (t, r) \<and> t \<le> from_secs 5"
    unfolding driver_close_def page_close_timeout_def fst_conv by (rule fut_map_timeout_bound)
next
  show "navigate True changed goto nav page url secs = Some (0, Inl (EBrowser ''CDP handler disconnected''))"
    by (simp add: navigate_def run_while_connected_def flatten_timeout_def fut_timeout_def select2_def)
  show "driver_get_cookies fts True changed cks page = Some (0, Inl (EBrowser ''CDP handler disconnected''))"
    by (simp add: driver_get_cookies_def run_while_connected_def flatten_timeout_def fut_timeout_def select2_def)
  have "snd (driver_close (Some (0, ())) close page) = None"
    by (simp add: driver_close_def)
  then show "fst (driver_close (Some (0, ())) close (snd (driver_close (Some (0, ())) close page))) = Some (0, Inr ())"
    by (simp add: driver_close_def fut_bind_def flatten_timeout_def fut_timeout_def select2_def)
qed

end
