(* ===== verification/Login.thy ===== *)
theory Login
  imports Async
begin

text \<open>
  The login use case of \<open>application/login.rs\<close> as a state machine: one program counter per point
  where the task waits, and a step function that takes the next event (the completion of the
  operation waited for, the deadline, the client leaving, the session found deleted) to the next
  state. Between the steps of the task the rest of the system acts on the shared database:
  another request may delete the session, and a commit whose time-out has passed may still land.
\<close>

section \<open>States\<close>

datatype login_event =
    LeStarted session
  | LeWaitingForUser session string
  | LeFinal session "cookie list"

datatype browser_hold = NoBrowser | HeldBrowser | ClosedBrowser

datatype login_pc =
    PCreate
  | PSendStarted
  | PAcquire
  | PNewPage
  | PUpdLoading
  | PNavigate
  | PUpdWaiting
  | PSendWaiting
  | PPollSession
  | PPollCookies
  | PReconnect
  | PPollSleep
  | PSave "cookie list"
  | PRecheck nat "cookie list"
  | PRecheckSleep nat "cookie list"
  | PClose "login_failure + cookie list"
  | PUpdFailed
  | PSendFinal "cookie list"
  | PDone

record login_cfg =
  lc_platform :: platform
  lc_login_timeout :: duration
  lc_preparation_timeout :: duration
  lc_page_timeout :: duration
  lc_repo :: cookie_repo

text \<open>
  \<open>ls_now\<close> is the time since the start, \<open>ls_deadline\<close> the deadline of the control in force,
  \<open>ls_inflight\<close> a commit that timed out and may still land. \<open>ls_commits\<close> and \<open>ls_late\<close> are
  history: the cookies this login has committed, and whether its commit ever timed out.
\<close>

record login_state =
  ls_pc :: login_pc
  ls_session :: session
  ls_now :: duration
  ls_deadline :: duration
  ls_errors :: nat
  ls_browser :: browser_hold
  ls_viewer :: string
  ls_inflight :: "(session \<times> cookie list) option"
  ls_events :: "login_event list"
  ls_db :: db
  ls_commits :: "cookie list list"
  ls_late :: bool

datatype login_stop = StopClosed | StopDeadline | StopCancelled

text \<open>
  Events. A failed database statement carries its error text; \<open>landed\<close> says whether a write that
  was interrupted had taken effect. The last three are not the task's own.
\<close>

datatype login_input =
    CreateDone "string option"
  | CreateTimeout bool
  | ClientGone bool
  | Stop login_stop bool
  | SendDone bool
  | AcquireDone "string result"
  | PageDone "unit result"
  | UpdateDone "string option"
  | UpdateTimeout bool
  | GetDone "string option"
  | GetTimeout
  | CookiesDone "cookie list result"
  | Slept
  | Disconnected
  | SaveDone call_env
  | SaveTimeout
  | CloseDone
  | EnvDelete "string option"
  | EnvOther db
  | EnvLand call_env

section \<open>Constants\<close>

definition cookie_poll_interval :: duration where
  "cookie_poll_interval = from_secs 2"

definition max_errors_before_reconnect :: nat where
  "max_errors_before_reconnect = 3"

definition default_preparation_timeout :: duration where
  "default_preparation_timeout = from_secs 90"

definition default_page_timeout :: duration where
  "default_page_timeout = from_secs 30"

definition recheck_interval :: duration where
  "recheck_interval = from_millis 200"

section \<open>Helpers\<close>

definition after :: "duration \<Rightarrow> login_state \<Rightarrow> login_state" where
  "after dt st = st\<lparr>ls_now := ls_now st + dt\<rparr>"

definition set_session :: "datetime \<Rightarrow> session_state \<Rightarrow> string \<Rightarrow> login_state \<Rightarrow> login_state" where
  "set_session wall s msg st = st\<lparr>ls_session := transition wall s (Some msg) (ls_session st)\<rparr>"

definition goto_pc :: "login_pc \<Rightarrow> login_state \<Rightarrow> login_state" where
  "goto_pc pc st = st\<lparr>ls_pc := pc\<rparr>"

definition emit :: "login_event \<Rightarrow> login_state \<Rightarrow> login_state" where
  "emit e st = st\<lparr>ls_events := ls_events st @ [e]\<rparr>"

definition update_session :: "string option \<Rightarrow> login_state \<Rightarrow> unit result \<times> login_state" where
  "update_session flt st =
     (case session_update flt (ls_session st) (ls_db st) of (r, db') \<Rightarrow> (r, st\<lparr>ls_db := db'\<rparr>))"

text \<open>
  A failure of the inner block: with a browser held it is closed first, without one the session is
  marked failed at once.
\<close>

definition fail :: "datetime \<Rightarrow> login_failure \<Rightarrow> login_state \<Rightarrow> login_state" where
  "fail wall f st =
     (if ls_browser st = HeldBrowser then goto_pc (PClose (Inl f)) st
      else goto_pc PUpdFailed (set_session wall Failed (login_failure_text f) st))"

definition stage_of :: "login_pc \<Rightarrow> string" where
  "stage_of pc =
     (case pc of
        PNewPage \<Rightarrow> ''page creation''
      | PPollSession \<Rightarrow> ''user login''
      | PPollCookies \<Rightarrow> ''user login''
      | PReconnect \<Rightarrow> ''user login''
      | PPollSleep \<Rightarrow> ''user login''
      | _ \<Rightarrow> ''browser preparation'')"

section \<open>Steps\<close>

text \<open>
  A step under \<open>LoginControl::run\<close>. An operation that completes must do so before the deadline; the
  deadline stops the step when it is reached (at once when it has passed); the client may leave at
  any time until then; a deletion is seen when the session is no longer stored. \<open>landed\<close> is what
  an interrupted operation may have left behind.
\<close>

definition stop_failure :: "string \<Rightarrow> login_stop \<Rightarrow> login_failure" where
  "stop_failure stage s =
     (case s of StopClosed \<Rightarrow> LfCancelled | StopDeadline \<Rightarrow> LfTimedOut stage | StopCancelled \<Rightarrow> LfCancelled)"

definition stop_possible :: "duration \<Rightarrow> login_stop \<Rightarrow> login_state \<Rightarrow> bool" where
  "stop_possible dt s st =
     (case s of
        StopClosed \<Rightarrow> ls_now st + dt \<le> max (ls_now st) (ls_deadline st)
      | StopDeadline \<Rightarrow> ls_now st + dt = max (ls_now st) (ls_deadline st)
      | StopCancelled \<Rightarrow> ls_now st + dt < ls_deadline st \<and>
                         db_sessions (ls_db st) (ss_id (ls_session st)) = None)"

definition controlled ::
  "duration \<Rightarrow> datetime \<Rightarrow> login_input \<Rightarrow> (login_state \<Rightarrow> login_state) \<Rightarrow>
   (login_input \<Rightarrow> login_state \<Rightarrow> login_state option) \<Rightarrow> login_state \<Rightarrow> login_state option" where
  "controlled dt wall ev landing k st =
     (case ev of
        Stop s landed \<Rightarrow>
          if stop_possible dt s st
          then Some (fail wall (stop_failure (stage_of (ls_pc st)) s)
                 (after dt (if landed then landing st else st)))
          else None
      | _ \<Rightarrow> if ls_now st + dt < ls_deadline st then k ev (after dt st) else None)"

text \<open>Creating the session.\<close>

definition create_failed :: "datetime \<Rightarrow> login_state \<Rightarrow> login_state" where
  "create_failed wall st = goto_pc (PSendFinal []) (set_session wall Failed ''Failed to create session'' st)"

definition create_step ::
  "login_cfg \<Rightarrow> duration \<Rightarrow> datetime \<Rightarrow> login_input \<Rightarrow> login_state \<Rightarrow> login_state option" where
  "create_step cfg dt wall ev st =
     (let landed_db = (\<lambda>b. if b then snd (session_create None (ls_session st) (ls_db st)) else ls_db st) in
      case ev of
        CreateDone flt \<Rightarrow>
          if dt \<le> cleanup_timeout then
            (case session_create flt (ls_session st) (ls_db st) of
               (Inr s, db') \<Rightarrow>
                 Some (goto_pc PSendStarted
                   ((after dt st)\<lparr>ls_db := db', ls_session := s, ls_deadline := lc_preparation_timeout cfg\<rparr>))
             | (Inl e, db') \<Rightarrow> Some (create_failed wall ((after dt st)\<lparr>ls_db := db'\<rparr>)))
          else None
      | CreateTimeout landed \<Rightarrow>
          if dt = cleanup_timeout
          then Some (create_failed wall ((after dt st)\<lparr>ls_db := landed_db landed\<rparr>)) else None
      | ClientGone landed \<Rightarrow>
          if dt \<le> cleanup_timeout
          then Some (goto_pc PDone ((after dt st)\<lparr>ls_db := landed_db landed\<rparr>)) else None
      | _ \<Rightarrow> None)"

text \<open>Sending an event on the channel, which fails when the receiver is gone.\<close>

definition send_step :: "datetime \<Rightarrow> login_event \<Rightarrow> (login_state \<Rightarrow> login_state) \<Rightarrow> login_input \<Rightarrow>
    login_state \<Rightarrow> login_state option" where
  "send_step wall e next_st ev st =
     (case ev of
        SendDone True \<Rightarrow> Some (next_st (emit e st))
      | SendDone False \<Rightarrow> Some (fail wall (LfOperation (EBrowser ''Login cancelled'')) st)
      | _ \<Rightarrow> None)"

definition acquire_step :: "login_cfg \<Rightarrow> datetime \<Rightarrow> login_input \<Rightarrow> login_state \<Rightarrow> login_state option" where
  "acquire_step cfg wall ev st =
     (case ev of
        AcquireDone (Inr viewer) \<Rightarrow>
          Some (goto_pc PNewPage (st\<lparr>ls_browser := HeldBrowser, ls_viewer := viewer,
            ls_deadline := min (ls_deadline st) (ls_now st + lc_page_timeout cfg)\<rparr>))
      | AcquireDone (Inl e) \<Rightarrow> Some (fail wall (LfOperation e) st)
      | _ \<Rightarrow> None)"

text \<open>An operation on the browser that gives a page or nothing.\<close>

definition page_step :: "datetime \<Rightarrow> (login_state \<Rightarrow> login_state) \<Rightarrow> login_input \<Rightarrow> login_state \<Rightarrow>
    login_state option" where
  "page_step wall next_st ev st =
     (case ev of
        PageDone (Inr u) \<Rightarrow> Some (next_st st)
      | PageDone (Inl e) \<Rightarrow> Some (fail wall (LfOperation e) st)
      | _ \<Rightarrow> None)"

definition update_step :: "datetime \<Rightarrow> (login_state \<Rightarrow> login_state) \<Rightarrow> login_input \<Rightarrow> login_state \<Rightarrow>
    login_state option" where
  "update_step wall next_st ev st =
     (case ev of
        UpdateDone flt \<Rightarrow>
          (case update_session flt st of
             (Inr u, st') \<Rightarrow> Some (next_st st')
           | (Inl e, st') \<Rightarrow> Some (fail wall (LfOperation e) st'))
      | _ \<Rightarrow> None)"

definition page_created :: "login_cfg \<Rightarrow> datetime \<Rightarrow> login_state \<Rightarrow> login_state" where
  "page_created cfg wall st =
     goto_pc PUpdLoading
       (set_session wall Loading (''Opening '' @ platform_as_str (lc_platform cfg) @ '' login page...'')
         (st\<lparr>ls_deadline := lc_preparation_timeout cfg\<rparr>))"

definition navigated :: "datetime \<Rightarrow> login_state \<Rightarrow> login_state" where
  "navigated wall st =
     goto_pc PUpdWaiting (set_session wall WaitingForUser ''Waiting for user to log in via browser'' st)"

definition start_polling :: "login_cfg \<Rightarrow> login_state \<Rightarrow> login_state" where
  "start_polling cfg st =
     goto_pc PPollSession (st\<lparr>ls_deadline := ls_now st + lc_login_timeout cfg, ls_errors := 0\<rparr>)"

text \<open>The polling loop: is the session still there, what cookies does the browser hold.\<close>

definition poll_session_step ::
  "(int \<Rightarrow> datetime option) \<Rightarrow> datetime \<Rightarrow> login_input \<Rightarrow> login_state \<Rightarrow> login_state option" where
  "poll_session_step fts wall ev st =
     (case ev of
        GetDone flt \<Rightarrow>
          (case session_get fts flt (ss_id (ls_session st)) (ls_db st) of
             Inl e \<Rightarrow> Some (fail wall (LfOperation e) st)
           | Inr None \<Rightarrow> Some (fail wall LfCancelled st)
           | Inr (Some s) \<Rightarrow> Some (goto_pc PPollCookies st))
      | _ \<Rightarrow> None)"

definition poll_cookies_step ::
  "login_cfg \<Rightarrow> datetime \<Rightarrow> login_input \<Rightarrow> login_state \<Rightarrow> login_state option" where
  "poll_cookies_step cfg wall ev st =
     (case ev of
        CookiesDone (Inr raw) \<Rightarrow>
          (let st' = st\<lparr>ls_errors := 0\<rparr> in
           case classify_auth_state wall raw (lc_platform cfg) of
             CpConnected cs \<Rightarrow> Some (goto_pc (PSave cs) (set_session wall Connected ''Login successful'' st'))
           | CpPending \<Rightarrow> Some (goto_pc PPollSleep st'))
      | CookiesDone (Inl e) \<Rightarrow>
          (let st' = st\<lparr>ls_errors := ls_errors st + 1\<rparr> in
           Some (goto_pc (if ls_errors st' \<ge> max_errors_before_reconnect then PReconnect else PPollSleep) st'))
      | _ \<Rightarrow> None)"

definition poll_sleep_step :: "duration \<Rightarrow> login_input \<Rightarrow> login_state \<Rightarrow> login_state option" where
  "poll_sleep_step dt ev st =
     (case ev of
        Slept \<Rightarrow> if dt = cookie_poll_interval then Some (goto_pc PPollSession st) else None
      | Disconnected \<Rightarrow> if dt \<le> cookie_poll_interval then Some (goto_pc PReconnect st) else None
      | _ \<Rightarrow> None)"

text \<open>The commit, outside the user's deadline, and the re-check when it times out.\<close>

definition commit_login :: "login_cfg \<Rightarrow> call_env \<Rightarrow> session \<Rightarrow> cookie list \<Rightarrow> login_state \<Rightarrow>
    unit result \<times> login_state" where
  "commit_login cfg e s cs st =
     (case save_login (lc_repo cfg) e s cs (ls_db st) of
        (Inl x, db') \<Rightarrow> (Inl x, st\<lparr>ls_db := db'\<rparr>)
      | (Inr u, db') \<Rightarrow> (Inr u, st\<lparr>ls_db := db', ls_commits := ls_commits st @ [cs]\<rparr>))"

definition save_step ::
  "login_cfg \<Rightarrow> duration \<Rightarrow> cookie list \<Rightarrow> login_input \<Rightarrow> login_state \<Rightarrow> login_state option" where
  "save_step cfg dt cs ev st =
     (case ev of
        SaveDone e \<Rightarrow>
          if dt \<le> cleanup_timeout then
            (case commit_login cfg e (ls_session st) cs (after dt st) of
               (Inr u, st') \<Rightarrow> Some (goto_pc (PClose (Inr cs)) st')
             | (Inl x, st') \<Rightarrow> Some (goto_pc (PClose (Inl (LfOperation x))) st'))
          else None
      | SaveTimeout \<Rightarrow>
          if dt = cleanup_timeout
          then Some (goto_pc (PRecheck 0 cs)
                 ((after dt st)\<lparr>ls_inflight := Some (ls_session st, cs), ls_late := True\<rparr>))
          else None
      | _ \<Rightarrow> None)"

definition not_persisted :: login_failure where
  "not_persisted = LfOperation (EDatabase ''login persistence timed out'')"

definition recheck_step ::
  "(int \<Rightarrow> datetime option) \<Rightarrow> duration \<Rightarrow> nat \<Rightarrow> cookie list \<Rightarrow> login_input \<Rightarrow> login_state \<Rightarrow> login_state option" where
  "recheck_step fts dt n cs ev st =
     (case ev of
        GetDone flt \<Rightarrow>
          if dt \<le> cleanup_timeout then
            (case session_get fts flt (ss_id (ls_session st)) (ls_db st) of
               Inr (Some stored) \<Rightarrow>
                 Some (goto_pc (if ss_state stored = Connected then PClose (Inr cs) else PRecheckSleep n cs)
                        (after dt st))
             | _ \<Rightarrow> Some (goto_pc (PClose (Inl not_persisted)) (after dt st)))
          else None
      | GetTimeout \<Rightarrow>
          if dt = cleanup_timeout then Some (goto_pc (PClose (Inl not_persisted)) (after dt st)) else None
      | _ \<Rightarrow> None)"

definition recheck_sleep_step ::
  "duration \<Rightarrow> nat \<Rightarrow> cookie list \<Rightarrow> login_input \<Rightarrow> login_state \<Rightarrow> login_state option" where
  "recheck_sleep_step dt n cs ev st =
     (case ev of
        Slept \<Rightarrow>
          if dt = recheck_interval
          then Some (goto_pc (if Suc n < 5 then PRecheck (Suc n) cs else PClose (Inl not_persisted)) (after dt st))
          else None
      | _ \<Rightarrow> None)"

text \<open>Closing the browser (its failure or time-out is only logged) and the terminal state.\<close>

definition close_step ::
  "duration \<Rightarrow> datetime \<Rightarrow> login_failure + cookie list \<Rightarrow> login_input \<Rightarrow> login_state \<Rightarrow> login_state option" where
  "close_step dt wall res ev st =
     (case ev of
        CloseDone \<Rightarrow>
          if dt \<le> cleanup_timeout then
            (let st' = (after dt st)\<lparr>ls_browser := ClosedBrowser\<rparr> in
             case res of
               Inr cs \<Rightarrow> Some (goto_pc (PSendFinal cs) st')
             | Inl f \<Rightarrow> Some (goto_pc PUpdFailed (set_session wall Failed (login_failure_text f) st')))
          else None
      | _ \<Rightarrow> None)"

definition update_failed_step :: "duration \<Rightarrow> login_input \<Rightarrow> login_state \<Rightarrow> login_state option" where
  "update_failed_step dt ev st =
     (case ev of
        UpdateDone flt \<Rightarrow>
          if dt \<le> cleanup_timeout
          then Some (goto_pc (PSendFinal []) (snd (update_session flt (after dt st)))) else None
      | UpdateTimeout landed \<Rightarrow>
          if dt = cleanup_timeout
          then Some (goto_pc (PSendFinal [])
                 (if landed then snd (update_session None (after dt st)) else after dt st)) else None
      | _ \<Rightarrow> None)"

definition send_final_step :: "duration \<Rightarrow> cookie list \<Rightarrow> login_input \<Rightarrow> login_state \<Rightarrow> login_state option" where
  "send_final_step dt cs ev st =
     (case ev of
        SendDone delivered \<Rightarrow>
          if dt \<le> cleanup_timeout
          then Some (goto_pc PDone
                 (if delivered then emit (LeFinal (ls_session st) cs) (after dt st) else after dt st))
          else None
      | _ \<Rightarrow> None)"

definition task_step ::
  "login_cfg \<Rightarrow> (int \<Rightarrow> datetime option) \<Rightarrow> duration \<Rightarrow> datetime \<Rightarrow> login_input \<Rightarrow> login_state \<Rightarrow>
   login_state option" where
  "task_step cfg fts dt wall ev st =
     (let run = controlled dt wall ev id;
          run_update = controlled dt wall ev (\<lambda>st. snd (update_session None st)) in
      case ls_pc st of
        PCreate \<Rightarrow> create_step cfg dt wall ev st
      | PSendStarted \<Rightarrow> run (send_step wall (LeStarted (ls_session st)) (goto_pc PAcquire)) st
      | PAcquire \<Rightarrow> run (acquire_step cfg wall) st
      | PNewPage \<Rightarrow> run (page_step wall (page_created cfg wall)) st
      | PUpdLoading \<Rightarrow> run_update (update_step wall (goto_pc PNavigate)) st
      | PNavigate \<Rightarrow> run (page_step wall (navigated wall)) st
      | PUpdWaiting \<Rightarrow> run_update (update_step wall (goto_pc PSendWaiting)) st
      | PSendWaiting \<Rightarrow>
          run (send_step wall (LeWaitingForUser (ls_session st) (ls_viewer st)) (start_polling cfg)) st
      | PPollSession \<Rightarrow> run (poll_session_step fts wall) st
      | PPollCookies \<Rightarrow> run (poll_cookies_step cfg wall) st
      | PReconnect \<Rightarrow> run (page_step wall (\<lambda>st. goto_pc PPollSession (st\<lparr>ls_errors := 0\<rparr>))) st
      | PPollSleep \<Rightarrow> run (poll_sleep_step dt) st
      | PSave cs \<Rightarrow> save_step cfg dt cs ev st
      | PRecheck n cs \<Rightarrow> recheck_step fts dt n cs ev st
      | PRecheckSleep n cs \<Rightarrow> recheck_sleep_step dt n cs ev st
      | PClose res \<Rightarrow> close_step dt wall res ev st
      | PUpdFailed \<Rightarrow> update_failed_step dt ev st
      | PSendFinal cs \<Rightarrow> send_final_step dt cs ev st
      | PDone \<Rightarrow> None)"

text \<open>
  What others do to the database: the session is cancelled (\<open>CancelSessionUseCase\<close>), anything that
  leaves this session's row alone, or the landing of a commit that timed out.
\<close>

definition env_step :: "login_cfg \<Rightarrow> login_input \<Rightarrow> login_state \<Rightarrow> login_state option" where
  "env_step cfg ev st =
     (case ev of
        EnvDelete flt \<Rightarrow>
          Some (st\<lparr>ls_db := snd (cancel_session session_delete flt (ss_id (ls_session st)) (ls_db st))\<rparr>)
      | EnvOther db' \<Rightarrow>
          if db_sessions db' (ss_id (ls_session st)) = db_sessions (ls_db st) (ss_id (ls_session st))
          then Some (st\<lparr>ls_db := db'\<rparr>) else None
      | EnvLand e \<Rightarrow>
          (case ls_inflight st of
             None \<Rightarrow> None
           | Some (s, cs) \<Rightarrow> Some (snd (commit_login cfg e s cs (st\<lparr>ls_inflight := None\<rparr>))))
      | _ \<Rightarrow> None)"

definition is_env :: "login_input \<Rightarrow> bool" where
  "is_env ev = (case ev of EnvDelete flt \<Rightarrow> True | EnvOther db' \<Rightarrow> True | EnvLand e \<Rightarrow> True | _ \<Rightarrow> False)"

definition login_step ::
  "login_cfg \<Rightarrow> (int \<Rightarrow> datetime option) \<Rightarrow> duration \<times> datetime \<times> login_input \<Rightarrow> login_state \<Rightarrow>
   login_state option" where
  "login_step cfg fts x st =
     (case x of (dt, wall, ev) \<Rightarrow>
        if is_env ev then env_step cfg ev st else task_step cfg fts dt wall ev st)"

definition login_init :: "login_cfg \<Rightarrow> datetime \<Rightarrow> string \<Rightarrow> db \<Rightarrow> login_state" where
  "login_init cfg wall i db =
     \<lparr>ls_pc = PCreate, ls_session = session_new wall i (platform_as_str (lc_platform cfg)),
      ls_now = 0, ls_deadline = 0, ls_errors = 0, ls_browser = NoBrowser, ls_viewer = [],
      ls_inflight = None, ls_events = [], ls_db = db, ls_commits = [], ls_late = False\<rparr>"

fun login_run ::
  "login_cfg \<Rightarrow> (int \<Rightarrow> datetime option) \<Rightarrow> (duration \<times> datetime \<times> login_input) list \<Rightarrow> login_state \<Rightarrow>
   login_state option" where
  "login_run cfg fts [] st = Some st"
| "login_run cfg fts (x # xs) st =
     (case login_step cfg fts x st of None \<Rightarrow> None | Some st' \<Rightarrow> login_run cfg fts xs st')"

inductive login_reach :: "login_cfg \<Rightarrow> (int \<Rightarrow> datetime option) \<Rightarrow> login_state \<Rightarrow> login_state \<Rightarrow> bool"
  for cfg fts where
  reach_refl: "login_reach cfg fts st st"
| reach_step: "login_reach cfg fts st st1 \<Longrightarrow> login_step cfg fts x st1 = Some st2 \<Longrightarrow>
               login_reach cfg fts st st2"

lemma login_run_reach: "login_run cfg fts xs st = Some st' \<Longrightarrow> login_reach cfg fts st st'"
proof (induction xs arbitrary: st' rule: rev_induct)
  case Nil
  then show ?case by (simp add: reach_refl)
next
  case (snoc x xs)
  have append: "login_run cfg fts (ys @ zs) s =
      (case login_run cfg fts ys s of None \<Rightarrow> None | Some s' \<Rightarrow> login_run cfg fts zs s')" for ys zs s
    by (induction ys arbitrary: s) (auto split: option.splits)
  from snoc.prems obtain s1 where "login_run cfg fts xs st = Some s1" "login_step cfg fts x s1 = Some st'"
    by (auto simp: append split: option.splits)
  with snoc.IH show ?case by (blast intro: reach_step)
qed

end
