(* ===== verification/Login_Trans.thy ===== *)
theory Login_Trans
  imports Login
begin

text \<open>
  The transitions of the login machine as an inductive relation: one rule per way a state can
  change, with what the proofs need of it. Every step of the machine is a transition
  (\<open>login_step_trans\<close>), so that an invariant is proved by cases on the rules.
\<close>

section \<open>Transitions\<close>

text \<open>The states that wait under \<open>LoginControl::run\<close>.\<close>

definition under_control :: "login_pc set" where
  "under_control = {PSendStarted, PAcquire, PNewPage, PUpdLoading, PNavigate, PUpdWaiting, PSendWaiting,
     PPollSession, PPollCookies, PReconnect, PPollSleep}"

text \<open>The state after the session row was written.\<close>

definition updated :: "login_state \<Rightarrow> login_state" where
  "updated st = snd (update_session None st)"

inductive login_trans ::
  "login_cfg \<Rightarrow> (int \<Rightarrow> datetime option) \<Rightarrow> login_state \<Rightarrow> login_state \<Rightarrow> bool" for cfg fts where
  t_created: "ls_pc st = PCreate \<Longrightarrow> dt \<le> cleanup_timeout \<Longrightarrow>
    session_create None (ls_session st) (ls_db st) = (Inr s, db') \<Longrightarrow>
    login_trans cfg fts st (goto_pc PSendStarted
      ((after dt st)\<lparr>ls_db := db', ls_session := s, ls_deadline := lc_preparation_timeout cfg\<rparr>))"
| t_create_failed: "ls_pc st = PCreate \<Longrightarrow> dt \<le> cleanup_timeout \<Longrightarrow>
    db' \<in> {ls_db st, snd (session_create None (ls_session st) (ls_db st))} \<Longrightarrow>
    login_trans cfg fts st (create_failed wall ((after dt st)\<lparr>ls_db := db'\<rparr>))"
| t_client_gone: "ls_pc st = PCreate \<Longrightarrow> dt \<le> cleanup_timeout \<Longrightarrow>
    db' \<in> {ls_db st, snd (session_create None (ls_session st) (ls_db st))} \<Longrightarrow>
    login_trans cfg fts st (goto_pc PDone ((after dt st)\<lparr>ls_db := db'\<rparr>))"
| t_failed: "ls_pc st \<in> under_control \<Longrightarrow> ls_now st + dt \<le> max (ls_now st) (ls_deadline st) \<Longrightarrow>
    st0 \<in> {st, updated st} \<Longrightarrow> login_trans cfg fts st (fail wall f (after dt st0))"
| t_started: "ls_pc st = PSendStarted \<Longrightarrow> ls_now st + dt < ls_deadline st \<Longrightarrow>
    login_trans cfg fts st (goto_pc PAcquire (emit (LeStarted (ls_session st)) (after dt st)))"
| t_acquired: "ls_pc st = PAcquire \<Longrightarrow> ls_now st + dt < ls_deadline st \<Longrightarrow>
    login_trans cfg fts st (goto_pc PNewPage ((after dt st)\<lparr>ls_browser := HeldBrowser, ls_viewer := viewer,
      ls_deadline := min (ls_deadline st) (ls_now st + dt + lc_page_timeout cfg)\<rparr>))"
| t_page: "ls_pc st = PNewPage \<Longrightarrow> ls_now st + dt < ls_deadline st \<Longrightarrow>
    login_trans cfg fts st (page_created cfg wall (after dt st))"
| t_loading: "ls_pc st = PUpdLoading \<Longrightarrow> ls_now st + dt < ls_deadline st \<Longrightarrow>
    login_trans cfg fts st (goto_pc PNavigate (updated (after dt st)))"
| t_navigated: "ls_pc st = PNavigate \<Longrightarrow> ls_now st + dt < ls_deadline st \<Longrightarrow>
    login_trans cfg fts st (navigated wall (after dt st))"
| t_waiting: "ls_pc st = PUpdWaiting \<Longrightarrow> ls_now st + dt < ls_deadline st \<Longrightarrow>
    login_trans cfg fts st (goto_pc PSendWaiting (updated (after dt st)))"
| t_announced: "ls_pc st = PSendWaiting \<Longrightarrow> ls_now st + dt < ls_deadline st \<Longrightarrow>
    login_trans cfg fts st
      (start_polling cfg (emit (LeWaitingForUser (ls_session st) (ls_viewer st)) (after dt st)))"
| t_present: "ls_pc st = PPollSession \<Longrightarrow> ls_now st + dt < ls_deadline st \<Longrightarrow>
    db_sessions (ls_db st) (ss_id (ls_session st)) \<noteq> None \<Longrightarrow>
    login_trans cfg fts st (goto_pc PPollCookies (after dt st))"
| t_connected: "ls_pc st = PPollCookies \<Longrightarrow> ls_now st + dt < ls_deadline st \<Longrightarrow>
    classify_auth_state wall raw (lc_platform cfg) = CpConnected cs \<Longrightarrow>
    login_trans cfg fts st (goto_pc (PSave cs)
      (set_session wall Connected ''Login successful'' ((after dt st)\<lparr>ls_errors := 0\<rparr>)))"
| t_pending: "ls_pc st = PPollCookies \<Longrightarrow> ls_now st + dt < ls_deadline st \<Longrightarrow>
    login_trans cfg fts st (goto_pc PPollSleep ((after dt st)\<lparr>ls_errors := 0\<rparr>))"
| t_poll_error: "ls_pc st = PPollCookies \<Longrightarrow> ls_now st + dt < ls_deadline st \<Longrightarrow>
    login_trans cfg fts st (goto_pc (if ls_errors st + 1 \<ge> max_errors_before_reconnect then PReconnect else PPollSleep)
      ((after dt st)\<lparr>ls_errors := ls_errors st + 1\<rparr>))"
| t_reconnected: "ls_pc st = PReconnect \<Longrightarrow> ls_now st + dt < ls_deadline st \<Longrightarrow>
    login_trans cfg fts st (goto_pc PPollSession ((after dt st)\<lparr>ls_errors := 0\<rparr>))"
| t_slept: "ls_pc st = PPollSleep \<Longrightarrow> ls_now st + dt < ls_deadline st \<Longrightarrow> pc \<in> {PPollSession, PReconnect} \<Longrightarrow>
    login_trans cfg fts st (goto_pc pc (after dt st))"
| t_saved: "ls_pc st = PSave cs \<Longrightarrow> dt \<le> cleanup_timeout \<Longrightarrow>
    save_login (lc_repo cfg) e (ls_session st) cs (ls_db st) = (Inr u, db') \<Longrightarrow>
    login_trans cfg fts st (goto_pc (PClose (Inr cs))
      ((after dt st)\<lparr>ls_db := db', ls_commits := ls_commits st @ [cs]\<rparr>))"
| t_save_failed: "ls_pc st = PSave cs \<Longrightarrow> dt \<le> cleanup_timeout \<Longrightarrow>
    login_trans cfg fts st (goto_pc (PClose (Inl f)) (after dt st))"
| t_save_timeout: "ls_pc st = PSave cs \<Longrightarrow>
    login_trans cfg fts st (goto_pc (PRecheck 0 cs)
      ((after cleanup_timeout st)\<lparr>ls_inflight := Some (ls_session st, cs), ls_late := True\<rparr>))"
| t_found: "ls_pc st = PRecheck n cs \<Longrightarrow> dt \<le> cleanup_timeout \<Longrightarrow>
    db_sessions (ls_db st) (ss_id (ls_session st)) = Some r \<Longrightarrow> sr_status r = state_as_str Connected \<Longrightarrow>
    login_trans cfg fts st (goto_pc (PClose (Inr cs)) (after dt st))"
| t_open: "ls_pc st = PRecheck n cs \<Longrightarrow> dt \<le> cleanup_timeout \<Longrightarrow>
    login_trans cfg fts st (goto_pc (PRecheckSleep n cs) (after dt st))"
| t_lost: "ls_pc st = PRecheck n cs \<Longrightarrow> dt \<le> cleanup_timeout \<Longrightarrow>
    login_trans cfg fts st (goto_pc (PClose (Inl not_persisted)) (after dt st))"
| t_again: "ls_pc st = PRecheckSleep n cs \<Longrightarrow> Suc n < 5 \<Longrightarrow>
    login_trans cfg fts st (goto_pc (PRecheck (Suc n) cs) (after recheck_interval st))"
| t_given_up: "ls_pc st = PRecheckSleep n cs \<Longrightarrow> \<not> Suc n < 5 \<Longrightarrow>
    login_trans cfg fts st (goto_pc (PClose (Inl not_persisted)) (after recheck_interval st))"
| t_closed: "ls_pc st = PClose (Inr cs) \<Longrightarrow> dt \<le> cleanup_timeout \<Longrightarrow>
    login_trans cfg fts st (goto_pc (PSendFinal cs) ((after dt st)\<lparr>ls_browser := ClosedBrowser\<rparr>))"
| t_closed_failed: "ls_pc st = PClose (Inl f) \<Longrightarrow> dt \<le> cleanup_timeout \<Longrightarrow>
    login_trans cfg fts st (goto_pc PUpdFailed
      (set_session wall Failed (login_failure_text f) ((after dt st)\<lparr>ls_browser := ClosedBrowser\<rparr>)))"
| t_marked: "ls_pc st = PUpdFailed \<Longrightarrow> dt \<le> cleanup_timeout \<Longrightarrow>
    st0 \<in> {after dt st, updated (after dt st)} \<Longrightarrow> login_trans cfg fts st (goto_pc (PSendFinal []) st0)"
| t_final: "ls_pc st = PSendFinal cs \<Longrightarrow> dt \<le> cleanup_timeout \<Longrightarrow>
    st0 \<in> {after dt st, emit (LeFinal (ls_session st) cs) (after dt st)} \<Longrightarrow>
    login_trans cfg fts st (goto_pc PDone st0)"
| t_other: "db_sessions db' (ss_id (ls_session st)) \<in>
      {None, db_sessions (ls_db st) (ss_id (ls_session st))} \<Longrightarrow>
    login_trans cfg fts st (st\<lparr>ls_db := db'\<rparr>)"
| t_land: "ls_inflight st = Some (s, cs) \<Longrightarrow> save_login (lc_repo cfg) e s cs (ls_db st) = (Inr u, db') \<Longrightarrow>
    login_trans cfg fts st (st\<lparr>ls_inflight := None, ls_db := db', ls_commits := ls_commits st @ [cs]\<rparr>)"
| t_land_failed: "ls_inflight st = Some (s, cs) \<Longrightarrow> login_trans cfg fts st (st\<lparr>ls_inflight := None\<rparr>)"

section \<open>Every step is a transition\<close>

lemma session_update_cases:
  "session_update flt s db = (r, db') \<Longrightarrow>
     (\<exists>e. r = Inl e \<and> db' = db) \<or> (r = Inr () \<and> db' = snd (session_update None s db))"
  by (cases flt) (auto simp: session_update_def)

lemma controlledD:
  assumes "controlled dt wall ev landing k st = Some st'"
  shows "(\<exists>f landed. ls_now st + dt \<le> max (ls_now st) (ls_deadline st) \<and>
            st' = fail wall f (after dt (if landed then landing st else st))) \<or>
         (ls_now st + dt < ls_deadline st \<and> k ev (after dt st) = Some st')"
  using assms
  by (auto simp: controlled_def stop_possible_def split: login_input.splits login_stop.splits if_splits)

lemma fail_trans:
  assumes "ls_pc st \<in> under_control" "ls_now st + dt < ls_deadline st"
  shows "login_trans cfg fts st (fail wall f (after dt st))"
  by (rule t_failed) (use assms in auto)

lemma stop_trans:
  assumes "ls_pc st \<in> under_control" "ls_now st + dt \<le> max (ls_now st) (ls_deadline st)"
    and "landing = id \<or> landing = (\<lambda>st. snd (update_session None st))"
  shows "login_trans cfg fts st (fail wall f (after dt (if landed then landing st else st)))"
  by (rule t_failed) (use assms in \<open>auto simp: updated_def\<close>)

lemma update_step_trans:
  assumes "update_step wall next ev (after dt st) = Some st'" "ls_pc st \<in> under_control"
    and "ls_now st + dt < ls_deadline st"
    and "login_trans cfg fts st (next (updated (after dt st)))"
  shows "login_trans cfg fts st st'"
proof -
  from assms(1) obtain flt where "ev = UpdateDone flt"
    by (auto simp: update_step_def split: login_input.splits)
  with assms(1) obtain r db' where u: "session_update flt (ls_session (after dt st)) (ls_db (after dt st)) = (r, db')"
    and st': "st' = (case r of Inr u \<Rightarrow> next ((after dt st)\<lparr>ls_db := db'\<rparr>)
                     | Inl e \<Rightarrow> fail wall (LfOperation e) ((after dt st)\<lparr>ls_db := db'\<rparr>))"
    by (auto simp: update_step_def update_session_def split: prod.splits sum.splits)
  from session_update_cases [OF u] show ?thesis
  proof (elim disjE exE conjE)
    fix e assume "r = Inl e" "db' = ls_db (after dt st)"
    with st' have "st' = fail wall (LfOperation e) (after dt st)" by simp
    then show ?thesis using fail_trans [OF assms(2,3)] by simp
  next
    assume "r = Inr ()" "db' = snd (session_update None (ls_session (after dt st)) (ls_db (after dt st)))"
    with st' assms(4) show ?thesis by (simp add: updated_def update_session_def split: prod.splits)
  qed
qed


lemma session_create_cases:
  "session_create flt s db = (r, db') \<Longrightarrow>
     (\<exists>e. r = Inl e \<and> db' = db) \<or> (r = Inr s \<and> session_create None s db = (Inr s, db'))"
  by (auto simp: session_create_def split: option.splits if_splits)

lemma create_step_trans:
  assumes "create_step cfg dt wall ev st = Some st'" "ls_pc st = PCreate"
  shows "login_trans cfg fts st st'"
proof (cases ev)
  case (CreateDone flt)
  obtain r db' where c: "session_create flt (ls_session st) (ls_db st) = (r, db')" by fastforce
  from assms(1) CreateDone have dt: "dt \<le> cleanup_timeout"
    by (auto simp: create_step_def split: if_splits)
  from session_create_cases [OF c] show ?thesis
  proof (elim disjE exE conjE)
    fix e assume "r = Inl e" "db' = ls_db st"
    with assms c CreateDone dt show ?thesis by (auto simp: create_step_def intro: t_create_failed)
  next
    assume "r = Inr (ls_session st)" "session_create None (ls_session st) (ls_db st) = (Inr (ls_session st), db')"
    with assms c CreateDone dt show ?thesis by (auto simp: create_step_def intro: t_created)
  qed
qed (use assms in \<open>auto simp: create_step_def Let_def split: if_splits intro: t_create_failed t_client_gone\<close>)

lemma commit_login_cases:
  assumes "commit_login cfg e s cs st = (r, st')"
  shows "(\<exists>x. r = Inl x \<and> st' = st) \<or>
         (\<exists>db'. r = Inr () \<and> save_login (lc_repo cfg) e s cs (ls_db st) = (Inr (), db') \<and>
                st' = st\<lparr>ls_db := db', ls_commits := ls_commits st @ [cs]\<rparr>)"
  using assms save_login_ErrD [of "lc_repo cfg" e s cs "ls_db st"]
  by (auto simp: commit_login_def split: prod.splits sum.splits)

lemma save_step_trans:
  assumes "save_step cfg dt cs ev st = Some st'" "ls_pc st = PSave cs"
  shows "login_trans cfg fts st st'"
proof (cases ev)
  case (SaveDone e)
  obtain r st1 where c: "commit_login cfg e (ls_session st) cs (after dt st) = (r, st1)" by fastforce
  from assms(1) SaveDone have dt: "dt \<le> cleanup_timeout"
    by (auto simp: save_step_def split: if_splits)
  from commit_login_cases [OF c] show ?thesis
  proof (elim disjE exE conjE)
    fix x assume "r = Inl x" "st1 = after dt st"
    with assms c SaveDone dt show ?thesis by (auto simp: save_step_def intro: t_save_failed)
  next
    fix db' assume "r = Inr ()" "save_login (lc_repo cfg) e (ls_session st) cs (ls_db (after dt st)) = (Inr (), db')"
      "st1 = (after dt st)\<lparr>ls_db := db', ls_commits := ls_commits (after dt st) @ [cs]\<rparr>"
    with assms c SaveDone dt t_saved [OF assms(2) dt, of cfg e "()" db' fts] show ?thesis
      by (simp add: save_step_def after_def)
  qed
next
  case SaveTimeout
  with assms show ?thesis by (auto simp: save_step_def split: if_splits intro: t_save_timeout)
qed (use assms in \<open>auto simp: save_step_def\<close>)

lemma session_get_Some:
  "session_get fts flt i db = Inr (Some s) \<Longrightarrow> \<exists>r. db_sessions db i = Some r \<and> sr_status r = state_as_str (ss_state s)"
  by (auto simp: session_get_def session_of_row_def res_iffs split: option.splits)

lemma recheck_step_trans:
  assumes "recheck_step fts dt n cs ev st = Some st'" "ls_pc st = PRecheck n cs"
  shows "login_trans cfg fts st st'"
proof (cases ev)
  case (GetDone flt)
  with assms show ?thesis
    by (auto simp: recheck_step_def split: if_splits sum.splits option.splits
        dest!: session_get_Some intro: t_lost t_open t_found)
qed (use assms in \<open>auto simp: recheck_step_def split: if_splits intro: t_lost\<close>)

lemma env_step_trans:
  assumes "env_step cfg ev st = Some st'"
  shows "login_trans cfg fts st st'"
proof (cases ev)
  case (EnvDelete flt)
  with assms t_other [of "ls_db st" st cfg fts] show ?thesis
    by (cases flt) (auto simp: env_step_def cancel_session_def session_delete_def intro: t_other)
next
  case (EnvOther db')
  with assms show ?thesis by (auto simp: env_step_def split: if_splits intro: t_other)
next
  case (EnvLand e)
  with assms obtain s cs where i: "ls_inflight st = Some (s, cs)" by (auto simp: env_step_def split: option.splits)
  obtain r st1 where c: "commit_login cfg e s cs (st\<lparr>ls_inflight := None\<rparr>) = (r, st1)" by fastforce
  with assms EnvLand i have "st' = st1" by (simp add: env_step_def)
  with commit_login_cases [OF c] i show ?thesis by (auto intro: t_land_failed t_land)
qed (use assms in \<open>auto simp: env_step_def\<close>)

lemma poll_session_step_trans:
  assumes "poll_session_step fts wall ev (after dt st) = Some st'" "ls_pc st = PPollSession"
    and "ls_now st + dt < ls_deadline st"
  shows "login_trans cfg fts st st'"
proof -
  have c: "ls_pc st \<in> under_control" using assms(2) by (simp add: under_control_def)
  from assms(1) obtain flt where "ev = GetDone flt"
    by (auto simp: poll_session_step_def split: login_input.splits)
  with assms(1) show ?thesis
    using fail_trans [OF c assms(3)] t_present [OF assms(2,3)]
    by (auto simp: poll_session_step_def after_def split: sum.splits option.splits dest!: session_get_Some)
qed

lemma poll_cookies_step_trans:
  assumes "poll_cookies_step cfg wall ev (after dt st) = Some st'" "ls_pc st = PPollCookies"
    and "ls_now st + dt < ls_deadline st"
  shows "login_trans cfg fts st st'"
proof -
  from assms(1) obtain r where ev: "ev = CookiesDone r"
    by (auto simp: poll_cookies_step_def split: login_input.splits)
  show ?thesis
  proof (cases r)
    case (Inl e)
    with assms(1) ev t_poll_error [OF assms(2,3)] show ?thesis
      by (simp add: poll_cookies_step_def Let_def after_def)
  next
    case (Inr raw)
    with assms(1) ev t_connected [OF assms(2,3)] t_pending [OF assms(2,3)] show ?thesis
      by (auto simp: poll_cookies_step_def Let_def split: auth_checkpoint.splits)
  qed
qed

lemma controlled_trans:
  assumes "controlled dt wall ev landing k st = Some st'" "ls_pc st \<in> under_control"
    and "landing = id \<or> landing = (\<lambda>st. snd (update_session None st))"
    and "ls_now st + dt < ls_deadline st \<Longrightarrow> k ev (after dt st) = Some st' \<Longrightarrow> login_trans cfg fts st st'"
  shows "login_trans cfg fts st st'"
  using controlledD [OF assms(1)]
proof (elim disjE exE conjE)
  fix f landed assume "ls_now st + dt \<le> max (ls_now st) (ls_deadline st)"
    "st' = fail wall f (after dt (if landed then landing st else st))"
  then show ?thesis using stop_trans [OF assms(2) _ assms(3)] by blast
qed (use assms(4) in blast)

lemma control_step_trans:
  assumes step: "task_step cfg fts dt wall ev st = Some st'" and c: "ls_pc st \<in> under_control"
  shows "login_trans cfg fts st st'"
proof -
  note run = controlled_trans [OF _ c]
  note failed = fail_trans [OF c]
  show ?thesis
  proof (cases "ls_pc st")
    case PSendStarted
    with step show ?thesis
      by (auto simp: task_step_def send_step_def failed elim!: run
          split: login_input.splits bool.splits intro: t_started [OF PSendStarted])
  next
    case PAcquire
    with step show ?thesis
      using t_acquired [OF PAcquire, of dt cfg fts] failed [unfolded after_def]
      by (auto simp: task_step_def acquire_step_def after_def elim!: run
          split: login_input.splits sum.splits)
  next
    case PNewPage
    with step show ?thesis
      by (auto simp: task_step_def page_step_def failed elim!: run
          split: login_input.splits sum.splits intro: t_page [OF PNewPage])
  next
    case PUpdLoading
    with step show ?thesis
      by (auto simp: task_step_def elim!: run intro: update_step_trans [OF _ c] t_loading [OF PUpdLoading])
  next
    case PNavigate
    with step show ?thesis
      by (auto simp: task_step_def page_step_def failed elim!: run
          split: login_input.splits sum.splits intro: t_navigated [OF PNavigate])
  next
    case PUpdWaiting
    with step show ?thesis
      by (auto simp: task_step_def elim!: run intro: update_step_trans [OF _ c] t_waiting [OF PUpdWaiting])
  next
    case PSendWaiting
    with step show ?thesis
      by (auto simp: task_step_def send_step_def failed elim!: run
          split: login_input.splits bool.splits intro: t_announced [OF PSendWaiting])
  next
    case PPollSession
    with step show ?thesis
      by (auto simp: task_step_def elim!: run intro: poll_session_step_trans)
  next
    case PPollCookies
    with step show ?thesis
      by (auto simp: task_step_def elim!: run intro: poll_cookies_step_trans)
  next
    case PReconnect
    with step show ?thesis
      by (auto simp: task_step_def page_step_def failed elim!: run
          split: login_input.splits sum.splits intro: t_reconnected [OF PReconnect])
  next
    case PPollSleep
    with step show ?thesis
      by (auto simp: task_step_def poll_sleep_step_def failed elim!: run
          split: login_input.splits if_splits intro: t_slept [OF PPollSleep])
  qed (use c in \<open>simp_all add: under_control_def\<close>)
qed

lemma marked_trans:
  assumes "ls_pc st = PUpdFailed" "dt \<le> cleanup_timeout"
  shows "login_trans cfg fts st (goto_pc (PSendFinal []) (after dt st))"
    and "login_trans cfg fts st (goto_pc (PSendFinal []) (snd (update_session flt (after dt st))))"
proof -
  have "snd (update_session flt (after dt st)) \<in> {after dt st, updated (after dt st)}"
    by (cases flt) (simp_all add: updated_def update_session_def session_update_def)
  then show "login_trans cfg fts st (goto_pc (PSendFinal []) (snd (update_session flt (after dt st))))"
    by (rule t_marked [OF assms])
qed (rule t_marked [OF assms], simp)

lemma login_step_trans:
  assumes "login_step cfg fts x st = Some st'"
  shows "login_trans cfg fts st st'"
proof -
  obtain dt wall ev where x: "x = (dt, wall, ev)" by (cases x)
  show ?thesis
  proof (cases "is_env ev")
    case True
    with assms x env_step_trans show ?thesis by (simp add: login_step_def)
  next
    case False
    with assms x have step: "task_step cfg fts dt wall ev st = Some st'" by (simp add: login_step_def)
    show ?thesis
    proof (cases "ls_pc st \<in> under_control")
      case True
      with step show ?thesis by (rule control_step_trans)
    next
      case False
      with step show ?thesis
        by (cases "ls_pc st")
          (auto simp: task_step_def under_control_def close_step_def recheck_sleep_step_def update_failed_step_def
            send_final_step_def Let_def
            intro: create_step_trans save_step_trans recheck_step_trans t_again t_given_up t_closed
              t_closed_failed t_final marked_trans
            split: login_input.splits if_splits sum.splits)
    qed
  qed
qed

end
