(* ===== verification/Login_Inv.thy ===== *)
theory Login_Inv
  imports Login_Trans
begin

text \<open>
  Invariants of the login machine: the browser is held exactly while it is used, the events come in
  order, time stays within the budgets, and what the login reports agrees with what it committed
  to the store. Then progress: from every state the clock alone ends the login.
\<close>

lemmas login_upd = after_def set_session_def goto_pc_def emit_def fail_def create_failed_def
  page_created_def navigated_def start_polling_def

lemma updated_simps [simp]:
  "ls_pc (updated st) = ls_pc st" "ls_session (updated st) = ls_session st"
  "ls_now (updated st) = ls_now st" "ls_deadline (updated st) = ls_deadline st"
  "ls_errors (updated st) = ls_errors st" "ls_browser (updated st) = ls_browser st"
  "ls_viewer (updated st) = ls_viewer st" "ls_inflight (updated st) = ls_inflight st"
  "ls_events (updated st) = ls_events st" "ls_commits (updated st) = ls_commits st"
  "ls_late (updated st) = ls_late st"
  by (simp_all add: updated_def update_session_def split: prod.splits)

section \<open>The browser, the session and the events\<close>

definition browser_inv :: "login_state \<Rightarrow> bool" where
  "browser_inv st =
     (case ls_pc st of
        PCreate \<Rightarrow> ls_browser st = NoBrowser
      | PSendStarted \<Rightarrow> ls_browser st = NoBrowser
      | PAcquire \<Rightarrow> ls_browser st = NoBrowser
      | PUpdFailed \<Rightarrow> ls_browser st \<noteq> HeldBrowser
      | PSendFinal cs \<Rightarrow> ls_browser st \<noteq> HeldBrowser
      | PDone \<Rightarrow> ls_browser st \<noteq> HeldBrowser
      | _ \<Rightarrow> ls_browser st = HeldBrowser)"

lemma browser_inv_trans: "login_trans cfg fts st st' \<Longrightarrow> browser_inv st \<Longrightarrow> browser_inv st'"
  by (cases rule: login_trans.cases) (auto simp: browser_inv_def login_upd cong: login_pc.case_cong)


definition session_inv :: "login_cfg \<Rightarrow> string \<Rightarrow> login_state \<Rightarrow> bool" where
  "session_inv cfg i st \<longleftrightarrow>
     ss_id (ls_session st) = i \<and> ss_platform (ls_session st) = platform_as_str (lc_platform cfg) \<and>
     session_wf (ls_session st)"

lemma session_create_Inr: "session_create flt s db = (Inr s', db') \<Longrightarrow> s' = s"
  by (auto simp: session_create_def split: option.splits if_splits)

lemma session_inv_trans: "login_trans cfg fts st st' \<Longrightarrow> session_inv cfg i st \<Longrightarrow> session_inv cfg i st'"
  by (cases rule: login_trans.cases) (auto simp: session_inv_def login_upd dest: session_create_Inr)

definition waiting_events :: "login_event list \<Rightarrow> bool" where
  "waiting_events es \<longleftrightarrow> (\<exists>s t v. es = [LeStarted s, LeWaitingForUser t v] \<and> ss_state t = WaitingForUser)"

definition started_events :: "login_event list \<Rightarrow> bool" where
  "started_events es \<longleftrightarrow> (\<exists>s. es = [LeStarted s])"

definition early_events :: "login_event list \<Rightarrow> bool" where
  "early_events es \<longleftrightarrow> es = [] \<or> started_events es \<or> waiting_events es"

definition events_inv :: "login_state \<Rightarrow> bool" where
  "events_inv st =
     (case ls_pc st of
        PCreate \<Rightarrow> ls_events st = []
      | PSendStarted \<Rightarrow> ls_events st = []
      | PAcquire \<Rightarrow> started_events (ls_events st)
      | PNewPage \<Rightarrow> started_events (ls_events st)
      | PUpdLoading \<Rightarrow> started_events (ls_events st)
      | PNavigate \<Rightarrow> started_events (ls_events st)
      | PUpdWaiting \<Rightarrow> started_events (ls_events st) \<and> ss_state (ls_session st) = WaitingForUser
      | PSendWaiting \<Rightarrow> started_events (ls_events st) \<and> ss_state (ls_session st) = WaitingForUser
      | PClose (Inl f) \<Rightarrow> started_events (ls_events st) \<or> waiting_events (ls_events st)
      | PUpdFailed \<Rightarrow> early_events (ls_events st)
      | PSendFinal cs \<Rightarrow> early_events (ls_events st)
      | PDone \<Rightarrow> early_events (ls_events st) \<or>
                 (\<exists>es s cs. ls_events st = es @ [LeFinal s cs] \<and> early_events es)
      | _ \<Rightarrow> waiting_events (ls_events st))"

lemma events_inv_trans: "login_trans cfg fts st st' \<Longrightarrow> events_inv st \<Longrightarrow> browser_inv st \<Longrightarrow> events_inv st'"
  by (cases rule: login_trans.cases, assumption)
    (auto simp: events_inv_def login_upd started_events_def waiting_events_def early_events_def
      under_control_def browser_inv_def cong: login_pc.case_cong sum.case_cong)

section \<open>Time\<close>

definition prep_limit :: "login_cfg \<Rightarrow> duration" where
  "prep_limit cfg = max (lc_preparation_timeout cfg) cleanup_timeout"

definition user_limit :: "login_cfg \<Rightarrow> duration" where
  "user_limit cfg = prep_limit cfg + lc_login_timeout cfg"

definition recheck_limit :: "login_cfg \<Rightarrow> nat \<Rightarrow> duration" where
  "recheck_limit cfg n = user_limit cfg + cleanup_timeout + n * (cleanup_timeout + recheck_interval)"

definition time_inv :: "login_cfg \<Rightarrow> login_state \<Rightarrow> bool" where
  "time_inv cfg st =
     (case ls_pc st of
        PCreate \<Rightarrow> ls_now st = 0
      | PPollSession \<Rightarrow> ls_now st \<le> user_limit cfg \<and> ls_deadline st \<le> user_limit cfg
      | PPollCookies \<Rightarrow> ls_now st \<le> user_limit cfg \<and> ls_deadline st \<le> user_limit cfg
      | PReconnect \<Rightarrow> ls_now st \<le> user_limit cfg \<and> ls_deadline st \<le> user_limit cfg
      | PPollSleep \<Rightarrow> ls_now st \<le> user_limit cfg \<and> ls_deadline st \<le> user_limit cfg
      | PSave cs \<Rightarrow> ls_now st \<le> user_limit cfg
      | PRecheck n cs \<Rightarrow> n < 5 \<and> ls_now st \<le> recheck_limit cfg n
      | PRecheckSleep n cs \<Rightarrow> n < 5 \<and> ls_now st \<le> recheck_limit cfg n + cleanup_timeout
      | PClose r \<Rightarrow> ls_now st \<le> recheck_limit cfg 5
      | PUpdFailed \<Rightarrow> ls_now st \<le> recheck_limit cfg 5 + cleanup_timeout
      | PSendFinal cs \<Rightarrow> ls_now st \<le> recheck_limit cfg 5 + 2 * cleanup_timeout
      | PDone \<Rightarrow> ls_now st \<le> recheck_limit cfg 5 + 3 * cleanup_timeout
      | _ \<Rightarrow> ls_now st \<le> prep_limit cfg \<and> ls_deadline st \<le> prep_limit cfg)"

lemma limits:
  "cleanup_timeout \<le> prep_limit cfg" "lc_preparation_timeout cfg \<le> prep_limit cfg"
  "prep_limit cfg \<le> user_limit cfg" "user_limit cfg + cleanup_timeout = recheck_limit cfg 0"
  "recheck_limit cfg (Suc n) = recheck_limit cfg n + cleanup_timeout + recheck_interval"
  by (simp_all add: prep_limit_def user_limit_def recheck_limit_def)

lemma recheck_limit_5:
  assumes "n < 5"
  shows "recheck_limit cfg n + cleanup_timeout + recheck_interval \<le> recheck_limit cfg 5"
proof -
  have "Suc n * (cleanup_timeout + recheck_interval) \<le> 5 * (cleanup_timeout + recheck_interval)"
    using assms by (intro mult_right_mono) auto
  then show ?thesis by (simp add: recheck_limit_def)
qed

lemma user_limit_5:
  "user_limit cfg \<le> recheck_limit cfg 5" "user_limit cfg + cleanup_timeout \<le> recheck_limit cfg 5"
  "prep_limit cfg \<le> recheck_limit cfg 5"
  by (simp_all add: recheck_limit_def user_limit_def)

lemma time_fail:
  assumes "ls_now st \<le> recheck_limit cfg 5"
  shows "time_inv cfg (fail wall f st)"
  using assms by (simp add: fail_def time_inv_def goto_pc_def set_session_def)

lemma time_inv_trans:
  assumes t: "login_trans cfg fts st st'" and i: "time_inv cfg st"
  shows "time_inv cfg st'"
  using t
proof (cases rule: login_trans.cases)
  case (t_failed dt st0 wall f)
  then have "ls_now (after dt st0) \<le> recheck_limit cfg 5"
    using i user_limit_5 [of cfg] by (auto simp: time_inv_def under_control_def after_def)
  then show ?thesis using t_failed time_fail by blast
next
  case (t_found n cs dt r)
  then show ?thesis using i recheck_limit_5 [of n cfg] by (simp add: time_inv_def login_upd)
next
  case (t_lost n cs dt)
  then show ?thesis using i recheck_limit_5 [of n cfg] by (simp add: time_inv_def login_upd)
next
  case (t_save_failed cs dt f)
  then show ?thesis using i user_limit_5(2) [of cfg] by (simp add: time_inv_def login_upd)
next
  case (t_saved cs dt e u db')
  then show ?thesis using i user_limit_5(2) [of cfg] by (simp add: time_inv_def login_upd)
qed (use i limits [of cfg] recheck_limit_5 [of _ cfg] in
      \<open>auto simp: time_inv_def login_upd limits(5) user_limit_def cong: login_pc.case_cong split: if_splits
         intro: order_trans add_mono\<close>)

section \<open>The outcome\<close>

definition detected :: "login_cfg \<Rightarrow> cookie list \<Rightarrow> bool" where
  "detected cfg cs \<longleftrightarrow> (\<exists>wall raw. classify_auth_state wall raw (lc_platform cfg) = CpConnected cs)"

definition uncommitted :: "login_state \<Rightarrow> bool" where
  "uncommitted st \<longleftrightarrow> ls_commits st = [] \<and> ls_inflight st = None \<and> \<not> ls_late st"

definition committed :: "login_cfg \<Rightarrow> cookie list \<Rightarrow> login_state \<Rightarrow> bool" where
  "committed cfg cs st \<longleftrightarrow> ls_commits st = [cs] \<and> ls_inflight st = None \<and> detected cfg cs"

definition rechecking :: "login_cfg \<Rightarrow> cookie list \<Rightarrow> login_state \<Rightarrow> bool" where
  "rechecking cfg cs st \<longleftrightarrow>
     ls_late st \<and> detected cfg cs \<and>
     (ls_inflight st = Some (ls_session st, cs) \<and> ls_commits st = [] \<or>
      ls_inflight st = None \<and> ls_commits st \<in> {[], [cs]})"

definition outcome :: "login_cfg \<Rightarrow> session \<Rightarrow> cookie list \<Rightarrow> login_state \<Rightarrow> bool" where
  "outcome cfg s cs st \<longleftrightarrow>
     ss_state s = Connected \<and> committed cfg cs st \<or>
     ss_state s = Failed \<and> cs = [] \<and> (ls_late st \<or> uncommitted st)"

definition phase_inv :: "login_cfg \<Rightarrow> login_state \<Rightarrow> bool" where
  "phase_inv cfg st =
     (case ls_pc st of
        PSave cs \<Rightarrow> uncommitted st \<and> detected cfg cs \<and> ss_state (ls_session st) = Connected
      | PRecheck n cs \<Rightarrow> rechecking cfg cs st \<and> ss_state (ls_session st) = Connected
      | PRecheckSleep n cs \<Rightarrow> rechecking cfg cs st \<and> ss_state (ls_session st) = Connected
      | PClose (Inr cs) \<Rightarrow> committed cfg cs st \<and> ss_state (ls_session st) = Connected
      | PClose (Inl f) \<Rightarrow> ls_late st \<or> uncommitted st
      | PUpdFailed \<Rightarrow> ss_state (ls_session st) = Failed \<and> (ls_late st \<or> uncommitted st)
      | PSendFinal cs \<Rightarrow> outcome cfg (ls_session st) cs st
      | PDone \<Rightarrow> (\<forall>s cs. LeFinal s cs \<in> set (ls_events st) \<longrightarrow> outcome cfg s cs st)
      | _ \<Rightarrow> uncommitted st)"

text \<open>The store: the row reads connected only after a commit, and a committed row is never open again.\<close>

definition store_inv :: "string \<Rightarrow> login_state \<Rightarrow> bool" where
  "store_inv i st \<longleftrightarrow>
     (\<forall>r. db_sessions (ls_db st) i = Some r \<longrightarrow>
        (sr_status r = state_as_str Connected \<longrightarrow> ls_commits st \<noteq> []) \<and>
        (ls_commits st \<noteq> [] \<longrightarrow> sr_status r \<notin> set open_statuses)) \<and>
     (\<forall>s cs. ls_inflight st = Some (s, cs) \<longrightarrow> ss_id s = i \<and> ss_state s = Connected)"


lemma phase_inv_under_control: "phase_inv cfg st \<Longrightarrow> ls_pc st \<in> under_control \<Longrightarrow> uncommitted st"
  by (auto simp: phase_inv_def under_control_def)

lemma early_no_final: "early_events es \<Longrightarrow> LeFinal s cs \<notin> set es"
  by (auto simp: early_events_def started_events_def waiting_events_def)

lemma phase_inv_trans:
  assumes t: "login_trans cfg fts st st'" and i: "phase_inv cfg st" and s: "session_inv cfg i st"
    and d: "store_inv i st" and e: "events_inv st"
  shows "phase_inv cfg st'"
  using t
proof (cases rule: login_trans.cases)
  case (t_failed dt st0 wall f)
  with phase_inv_under_control [OF i] show ?thesis
    by (auto simp: phase_inv_def uncommitted_def login_upd)
next
  case (t_connected dt wall raw cs)
  then have "detected cfg cs" by (auto simp: detected_def)
  with t_connected i show ?thesis by (simp add: phase_inv_def uncommitted_def login_upd)
next
  case (t_slept dt pc)
  with i show ?thesis by (auto simp: phase_inv_def uncommitted_def login_upd)
next
  case (t_found n cs dt r)
  then have "ls_commits st \<noteq> []" using s d by (auto simp: store_inv_def session_inv_def)
  with t_found i show ?thesis
    by (auto simp: phase_inv_def rechecking_def committed_def login_upd)
next
  case (t_marked dt st0)
  with i show ?thesis by (auto simp: phase_inv_def outcome_def uncommitted_def login_upd)
next
  case (t_final cs dt st0)
  then have "LeFinal s' cs' \<notin> set (ls_events st)" for s' cs'
    using e by (simp add: events_inv_def early_no_final)
  with t_final i show ?thesis
    by (auto simp: phase_inv_def outcome_def uncommitted_def committed_def login_upd)
next
  case (t_land s cs e u db')
  with i show ?thesis
    by (cases "ls_pc st")
      (auto simp: phase_inv_def outcome_def uncommitted_def committed_def rechecking_def split: sum.splits)
next
  case (t_land_failed s cs)
  with i show ?thesis
    by (cases "ls_pc st")
      (auto simp: phase_inv_def outcome_def uncommitted_def committed_def rechecking_def split: sum.splits)
next
  case (t_other db')
  with i show ?thesis
    by (cases "ls_pc st")
      (auto simp: phase_inv_def outcome_def uncommitted_def committed_def rechecking_def split: sum.splits)
qed (use i e in \<open>simp_all add: phase_inv_def login_upd uncommitted_def committed_def rechecking_def
        outcome_def events_inv_def early_no_final\<close>)


definition state_inv :: "login_state \<Rightarrow> bool" where
  "state_inv st \<longleftrightarrow>
     (ls_pc st = PCreate \<longrightarrow> ss_state (ls_session st) = Idle) \<and>
     (ls_pc st \<in> under_control \<longrightarrow> ss_state (ls_session st) \<noteq> Connected)"

lemma state_inv_trans: "login_trans cfg fts st st' \<Longrightarrow> state_inv st \<Longrightarrow> state_inv st'"
  by (cases rule: login_trans.cases, assumption)
    (auto simp: state_inv_def under_control_def login_upd dest: session_create_Inr split: if_splits)

lemma created_row:
  assumes "db' \<in> {db, snd (session_create None s db)}" "ss_state s = Idle"
    and "db_sessions db' i = Some r"
  shows "db_sessions db i = Some r \<or> sr_status r = state_as_str Idle"
  using assms by (auto simp: session_create_def session_row_of_def split: if_splits)

lemma updated_row:
  "db_sessions (ls_db (updated st)) i =
     (if i = ss_id (ls_session st) then map_option (set_session_columns (ls_session st)) (db_sessions (ls_db st) i)
      else db_sessions (ls_db st) i)"
  by (auto simp: updated_def update_session_def session_update_def split: option.splits)

lemma saved_row:
  assumes "save_login rp e s cs db = (Inr u, db')"
  shows "\<exists>r. db_sessions db (ss_id s) \<noteq> None \<and> db_sessions db' (ss_id s) = Some r \<and>
             sr_status r = state_as_str Connected"
proof -
  from save_login_OkD [OF assms] obtain rows r where r: "ss_state s = Connected" "login_row s db = Some r"
    and db': "db' = db\<lparr>db_cookies := rows, db_sessions := (db_sessions db)(ss_id s \<mapsto> set_session_columns s r)\<rparr>"
    by blast
  with login_row_SomeD [OF r(2)] show ?thesis by simp
qed

lemma state_as_str_connected [simp]: "state_as_str s = ''connected'' \<longleftrightarrow> s = Connected"
  by (cases s) auto

lemma store_inv_updated:
  assumes "store_inv i st" "ss_id (ls_session st) = i" "ss_state (ls_session st) \<noteq> Connected"
    and "ls_commits st = [] \<or> ss_state (ls_session st) = Failed"
  shows "store_inv i (updated st)"
  using assms by (auto simp: store_inv_def updated_row open_statuses_def)

lemma store_inv_cong:
  assumes "store_inv i st" "ls_db st' = ls_db st" "ls_commits st' = ls_commits st"
    and "ls_inflight st' = ls_inflight st \<or> ls_inflight st' = None"
  shows "store_inv i st'"
  using assms by (auto simp: store_inv_def)

lemma store_inv_trans:
  assumes t: "login_trans cfg fts st st'" and d: "store_inv i st" and p: "phase_inv cfg st"
    and s: "session_inv cfg i st" and x: "state_inv st"
  shows "store_inv i st'"
  using t
proof (cases rule: login_trans.cases)
  case (t_created dt s db')
  have u: "ls_commits st = [] \<and> ls_inflight st = None \<and> ss_state (ls_session st) = Idle"
    using p x t_created(2) by (simp add: phase_inv_def uncommitted_def state_inv_def)
  have "db' \<in> {ls_db st, snd (session_create None (ls_session st) (ls_db st))}" using t_created by simp
  from created_row [OF this] u d t_created(1) show ?thesis
    by (fastforce simp: store_inv_def login_upd)
next
  case (t_create_failed dt db' wall)
  have u: "ls_commits st = [] \<and> ls_inflight st = None \<and> ss_state (ls_session st) = Idle"
    using p x t_create_failed(2) by (simp add: phase_inv_def uncommitted_def state_inv_def)
  from created_row [OF t_create_failed(4)] u d t_create_failed(1) show ?thesis
    by (fastforce simp: store_inv_def login_upd)
next
  case (t_client_gone dt db')
  have u: "ls_commits st = [] \<and> ls_inflight st = None \<and> ss_state (ls_session st) = Idle"
    using p x t_client_gone(2) by (simp add: phase_inv_def uncommitted_def state_inv_def)
  from created_row [OF t_client_gone(4)] u d t_client_gone(1) show ?thesis
    by (fastforce simp: store_inv_def login_upd)
next
  case (t_failed dt st0 wall f)
  have "store_inv i st0"
    using t_failed(4) d store_inv_updated [OF d] s x phase_inv_under_control [OF p t_failed(2)] t_failed(2)
    by (auto simp: session_inv_def state_inv_def uncommitted_def)
  then show ?thesis by (rule store_inv_cong) (simp_all add: t_failed(1) login_upd)
next
  case (t_loading dt)
  then have "store_inv i (updated (after dt st))"
    using s x phase_inv_under_control [OF p]
    by (intro store_inv_updated store_inv_cong [OF d])
      (auto simp: session_inv_def state_inv_def uncommitted_def under_control_def after_def)
  then show ?thesis by (rule store_inv_cong) (simp_all add: t_loading(1) login_upd)
next
  case (t_waiting dt)
  then have "store_inv i (updated (after dt st))"
    using s x phase_inv_under_control [OF p]
    by (intro store_inv_updated store_inv_cong [OF d])
      (auto simp: session_inv_def state_inv_def uncommitted_def under_control_def after_def)
  then show ?thesis by (rule store_inv_cong) (simp_all add: t_waiting(1) login_upd)
next
  case (t_marked dt st0)
  have f: "ss_state (ls_session st) = Failed" using p t_marked(2) by (simp add: phase_inv_def)
  have a: "store_inv i (after dt st)" by (rule store_inv_cong [OF d]) (simp_all add: after_def)
  have "store_inv i st0"
    using t_marked(4) a store_inv_updated [OF a] s f by (auto simp: session_inv_def after_def)
  then show ?thesis by (rule store_inv_cong) (simp_all add: t_marked(1) login_upd)
next
  case (t_saved cs dt e u db')
  have "ss_id (ls_session st) = i" "ls_inflight st = None"
    using s p t_saved(2) by (simp_all add: session_inv_def phase_inv_def uncommitted_def)
  with saved_row [OF t_saved(4)] t_saved(1) show ?thesis
    by (auto simp: store_inv_def login_upd open_statuses_def)
next
  case (t_save_timeout cs)
  with d s p show ?thesis by (auto simp: store_inv_def login_upd session_inv_def phase_inv_def)
next
  case (t_other db')
  with d s show ?thesis by (auto simp: store_inv_def session_inv_def)
next
  case (t_land s cs e u db')
  have "ss_id s = i" using d t_land(2) by (simp add: store_inv_def)
  with saved_row [OF t_land(3)] t_land(1) show ?thesis by (auto simp: store_inv_def open_statuses_def)
next
  case (t_final cs dt st0)
  then have "ls_db st0 = ls_db st" "ls_commits st0 = ls_commits st" "ls_inflight st0 = ls_inflight st"
    by (auto simp: login_upd)
  then show ?thesis using d t_final(1) by (simp add: store_inv_def login_upd)
next
  case (t_land_failed s cs)
  then show ?thesis using d by (simp add: store_inv_def)
qed (rule store_inv_cong [OF d]; simp add: login_upd)+

text \<open>A deleted session is never committed.\<close>

definition gone :: "string \<Rightarrow> login_state \<Rightarrow> bool" where
  "gone i st \<longleftrightarrow> ls_pc st \<noteq> PCreate \<and> db_sessions (ls_db st) i = None \<and> ls_commits st = []"

lemma gone_trans:
  assumes t: "login_trans cfg fts st st'" and g: "gone i st" and s: "session_inv cfg i st" and d: "store_inv i st"
  shows "gone i st'"
  using t
proof (cases rule: login_trans.cases)
  case (t_saved cs dt e u db')
  with saved_row [OF t_saved(4)] g s show ?thesis by (simp add: gone_def session_inv_def)
next
  case (t_land s cs e u db')
  have "ss_id s = i" using d t_land(2) by (simp add: store_inv_def)
  with saved_row [OF t_land(3)] g show ?thesis by (simp add: gone_def)
next
  case (t_other db')
  with g s show ?thesis by (auto simp: gone_def session_inv_def)
qed (use g in \<open>auto simp: gone_def login_upd updated_row\<close>)


section \<open>Reachable states\<close>

definition login_ok :: "login_cfg \<Rightarrow> string \<Rightarrow> login_state \<Rightarrow> bool" where
  "login_ok cfg i st \<longleftrightarrow>
     session_inv cfg i st \<and> state_inv st \<and> browser_inv st \<and> events_inv st \<and> time_inv cfg st \<and>
     phase_inv cfg st \<and> store_inv i st"

lemma login_ok_step: "login_ok cfg i st \<Longrightarrow> login_step cfg fts x st = Some st' \<Longrightarrow> login_ok cfg i st'"
  unfolding login_ok_def
  using login_step_trans session_inv_trans state_inv_trans browser_inv_trans events_inv_trans time_inv_trans
    phase_inv_trans store_inv_trans by metis

lemma login_ok_init: "db_sessions db i = None \<Longrightarrow> login_ok cfg i (login_init cfg wall i db)"
  by (simp add: login_ok_def login_init_def session_inv_def state_inv_def browser_inv_def events_inv_def
      time_inv_def phase_inv_def store_inv_def uncommitted_def under_control_def session_wf_def session_new_def)

lemma login_ok_reach: "login_reach cfg fts st st' \<Longrightarrow> login_ok cfg i st \<Longrightarrow> login_ok cfg i st'"
  by (induction rule: login_reach.induct) (auto intro: login_ok_step)

lemma gone_reach: "login_reach cfg fts st st' \<Longrightarrow> login_ok cfg i st \<Longrightarrow> gone i st \<Longrightarrow> gone i st'"
proof (induction rule: login_reach.induct)
  case (reach_step st st1 x st2)
  then have "login_ok cfg i st1" by (blast intro: login_ok_reach)
  with reach_step gone_trans login_step_trans show ?case unfolding login_ok_def by metis
qed

lemma login_final_outcome: 
  assumes "login_ok cfg i st" "LeFinal s cs \<in> set (ls_events st)"
  shows "outcome cfg s cs st"
proof -
  have "ls_pc st = PDone"
    using assms by (cases "ls_pc st")
      (auto simp: login_ok_def events_inv_def started_events_def waiting_events_def early_events_def split: sum.splits)
  with assms show ?thesis by (auto simp: login_ok_def phase_inv_def)
qed

section \<open>Progress\<close>

text \<open>What the clock alone does in each state.\<close>

definition timer_event :: "login_state \<Rightarrow> duration \<times> login_input" where
  "timer_event st =
     (case ls_pc st of
        PCreate \<Rightarrow> (cleanup_timeout, CreateTimeout False)
      | PSave cs \<Rightarrow> (cleanup_timeout, SaveTimeout)
      | PRecheck n cs \<Rightarrow> (cleanup_timeout, GetTimeout)
      | PRecheckSleep n cs \<Rightarrow> (recheck_interval, Slept)
      | PClose r \<Rightarrow> (cleanup_timeout, CloseDone)
      | PUpdFailed \<Rightarrow> (cleanup_timeout, UpdateTimeout False)
      | PSendFinal cs \<Rightarrow> (cleanup_timeout, SendDone False)
      | _ \<Rightarrow> (ls_deadline st - ls_now st, Stop StopDeadline False))"

fun steps_left :: "login_pc \<Rightarrow> nat" where
  "steps_left PDone = 0"
| "steps_left (PSendFinal cs) = 1"
| "steps_left PUpdFailed = 2"
| "steps_left PCreate = 2"
| "steps_left (PClose r) = 3"
| "steps_left (PRecheck n cs) = 4"
| "steps_left (PRecheckSleep n cs) = 5"
| "steps_left (PSave cs) = 5"
| "steps_left pc = 4"

lemma timer_progress:
  assumes "ls_pc st \<noteq> PDone"
  shows "\<exists>st'. login_step cfg fts (fst (timer_event st), wall, snd (timer_event st)) st = Some st' \<and>
               steps_left (ls_pc st') < steps_left (ls_pc st)"
  using assms
  by (cases "ls_pc st")
    (auto simp: timer_event_def login_step_def is_env_def task_step_def create_step_def controlled_def
      stop_possible_def save_step_def recheck_step_def recheck_sleep_step_def close_step_def
      update_failed_step_def send_final_step_def login_upd Let_def split: sum.splits)

fun run_timers :: "login_cfg \<Rightarrow> (int \<Rightarrow> datetime option) \<Rightarrow> datetime \<Rightarrow> nat \<Rightarrow> login_state \<Rightarrow> login_state option" where
  "run_timers cfg fts wall 0 st = Some st"
| "run_timers cfg fts wall (Suc n) st =
     (if ls_pc st = PDone then Some st
      else case login_step cfg fts (fst (timer_event st), wall, snd (timer_event st)) st of
             None \<Rightarrow> None | Some st' \<Rightarrow> run_timers cfg fts wall n st')"

lemma run_timers_done:
  "steps_left (ls_pc st) \<le> n \<Longrightarrow>
     \<exists>st'. run_timers cfg fts wall n st = Some st' \<and> ls_pc st' = PDone \<and> login_reach cfg fts st st'"
proof (induction n arbitrary: st)
  case 0
  then have "ls_pc st = PDone" by (cases "ls_pc st") simp_all
  then show ?case by (simp add: reach_refl)
next
  case (Suc n)
  have trans: "login_reach cfg fts a c" if "login_reach cfg fts b c" "login_step cfg fts x a = Some b" for a b c x
    using that(1,2) by (induction rule: login_reach.induct) (auto intro: login_reach.intros)
  show ?case
  proof (cases "ls_pc st = PDone")
    case True
    then show ?thesis by (simp add: reach_refl)
  next
    case False
    from timer_progress [OF this, of cfg fts wall] obtain st1 where st1:
      "login_step cfg fts (fst (timer_event st), wall, snd (timer_event st)) st = Some st1"
      "steps_left (ls_pc st1) < steps_left (ls_pc st)" by blast
    with Suc.prems have "steps_left (ls_pc st1) \<le> n" by simp
    from Suc.IH [OF this] st1(1) False trans show ?thesis by auto
  qed
qed

lemma steps_left_le: "steps_left pc \<le> 5"
  by (cases pc) simp_all

end
