(* ===== verification/Login_Props.thy ===== *)
theory Login_Props
  imports Login_Inv
begin

text \<open>
  The properties of a login: what it reports is what was committed, a deleted session never
  connects, the events are in order, the browser is given back, and the login ends in time.
\<close>

section \<open>A concrete login\<close>

definition toy_cfg :: login_cfg where
  "toy_cfg = \<lparr>lc_platform = Naver, lc_login_timeout = from_secs 300, lc_preparation_timeout = from_secs 90,
              lc_page_timeout = from_secs 30, lc_repo = toy_repo\<rparr>"

definition toy_start :: login_state where
  "toy_start = login_init toy_cfg 0 ''s1'' \<lparr>db_sessions = Map.empty, db_cookies = [], db_credentials = Map.empty\<rparr>"

definition toy_inputs :: "(duration \<times> datetime \<times> login_input) list" where
  "toy_inputs =
     [(1, 0, CreateDone None), (1, 0, SendDone True), (1, 0, AcquireDone (Inr ''http://viewer'')),
      (1, 0, PageDone (Inr ())), (1, 0, UpdateDone None), (1, 0, PageDone (Inr ())), (1, 0, UpdateDone None),
      (1, 0, SendDone True), (1, 0, GetDone None), (1, 0, CookiesDone (Inr [])),
      (2000000000, 0, Slept), (1, 0, GetDone None),
      (1, 0, CookiesDone (Inr [toy_cookie ''NID_AUT'' ''x''])), (1, 0, SaveDone toy_env),
      (1, 0, CloseDone), (1, 0, SendDone True)]"

lemmas toy_login_defs = toy_cfg_def login_init_def login_step_def is_env_def task_step_def controlled_def
  create_step_def send_step_def acquire_step_def page_step_def update_step_def update_session_def
  poll_session_step_def poll_cookies_step_def poll_sleep_step_def save_step_def commit_login_def
  close_step_def send_final_step_def fail_def create_failed_def page_created_def navigated_def
  start_polling_def after_def set_session_def goto_pc_def emit_def session_create_def session_update_def
  session_get_def session_of_row_def session_row_of_def set_session_columns_def transition_def session_new_def
  cleanup_timeout_def from_secs_def state_from_str_def cookie_poll_interval_def

lemma toy_classify:
  "classify_auth_state 0 [] Naver = CpPending"
  "classify_auth_state 0 [toy_cookie ''NID_AUT'' ''x''] Naver = CpConnected [toy_cookie ''NID_AUT'' ''x'']"
proof -
  have m: "cookie_matches_domain Naver (toy_cookie ''NID_AUT'' ''x'')" by code_simp
  show "classify_auth_state 0 [] Naver = CpPending"
    by (simp add: classify_auth_state_def has_session_cookie_def session_cookie_def active_cookie_def)
  show "classify_auth_state 0 [toy_cookie ''NID_AUT'' ''x''] Naver = CpConnected [toy_cookie ''NID_AUT'' ''x'']"
    using m by (simp add: classify_auth_state_def has_session_cookie_def session_cookie_def
        active_cookie_def filter_cookies_def unexpired_def) (simp add: toy_cookie_def)
qed

lemma toy_login_runs:
  "\<exists>st s. login_run toy_cfg toy_time toy_inputs toy_start = Some st \<and> ls_pc st = PDone \<and>
         LeFinal s [toy_cookie ''NID_AUT'' ''x''] \<in> set (ls_events st) \<and> ss_state s = Connected \<and>
         ls_commits st = [[toy_cookie ''NID_AUT'' ''x'']]"
  by (simp add: toy_inputs_def toy_start_def toy_login_defs toy_classify Let_def
     save_login_def toy_env_def sqlite_repo_def aes_svc_encrypt_def login_row_def open_statuses_def)

lemma toy_start_ok: "login_ok toy_cfg ''s1'' toy_start"
  unfolding toy_start_def by (rule login_ok_init) simp

section \<open>Properties\<close>

text \<open>C1: A login reports what it did. In every reachable state, a final event either says Connected and
  carries exactly the cookies of the one commit this login made, which hold an unexpired session
  cookie of the platform and no cookie of another site, while the stored session (if it was not
  deleted since) is no longer open; or it says Failed, carries no cookies, and nothing was
  committed, unless the commit had timed out.\<close>

theorem login_final_event_is_truthful:
  assumes "login_reach cfg fts (login_init cfg wall i db) st" "db_sessions db i = None"
    and "LeFinal s cs \<in> set (ls_events st)"
  shows "ss_state s = Connected \<and> ls_commits st = [cs] \<and>
           (\<exists>now. has_session_cookie (lc_platform cfg) now cs) \<and>
           (\<forall>c\<in>set cs. cookie_matches_domain (lc_platform cfg) c) \<and>
           (\<forall>r. db_sessions (ls_db st) i = Some r \<longrightarrow> sr_status r \<notin> set open_statuses) \<or>
         ss_state s = Failed \<and> cs = [] \<and> (ls_commits st = [] \<or> ls_late st)"
proof -
  have ok: "login_ok cfg i st" using login_ok_reach [OF assms(1)] login_ok_init [OF assms(2)] by blast
  from login_final_outcome [OF ok assms(3)] show ?thesis
    unfolding outcome_def
  proof (elim disjE conjE)
    assume c: "ss_state s = Connected" "committed cfg cs st"
    then obtain now raw where "classify_auth_state now raw (lc_platform cfg) = CpConnected cs"
      by (auto simp: committed_def detected_def)
    from classify_ConnectedD [OF this] c ok show ?thesis
      by (auto simp: committed_def login_ok_def store_inv_def)
  qed (auto simp: uncommitted_def)
qed

lemma login_final_event_is_truthful_witness:
  "\<exists>st s. login_run toy_cfg toy_time toy_inputs toy_start = Some st \<and>
     LeFinal s [toy_cookie ''NID_AUT'' ''x''] \<in> set (ls_events st) \<and>
     (\<exists>now. has_session_cookie Naver now [toy_cookie ''NID_AUT'' ''x''])"
proof -
  obtain st s where st: "login_run toy_cfg toy_time toy_inputs toy_start = Some st"
    and s: "LeFinal s [toy_cookie ''NID_AUT'' ''x''] \<in> set (ls_events st)" using toy_login_runs by blast
  have "login_reach toy_cfg toy_time toy_start st" by (rule login_run_reach [OF st])
  from login_final_event_is_truthful [OF this [unfolded toy_start_def] _ s] st s show ?thesis
    by (auto simp: toy_cfg_def)
qed

text \<open>A step of the login that commits nothing leaves the cookies alone.\<close>

lemma session_writes_cookies [simp]:
  "db_cookies (snd (session_create flt s db)) = db_cookies db"
  "db_cookies (snd (session_delete flt i db)) = db_cookies db"
  by (simp_all add: session_create_def session_delete_def split: option.split)

lemma update_cookies_kept [simp]: "db_cookies (ls_db (snd (update_session flt st))) = db_cookies (ls_db st)"
  by (simp add: update_session_def session_update_def split: option.split prod.split)

lemma fail_db [simp]: "ls_db (fail wall f st) = ls_db st"
  by (simp add: fail_def login_upd)

lemma commit_login_cookies:
  "commit_login cfg e s cs st = (r, st') \<Longrightarrow> ls_commits st' = [] \<Longrightarrow> db_cookies (ls_db st') = db_cookies (ls_db st)"
  by (auto simp: commit_login_def dest: save_login_ErrD split: prod.splits sum.splits)

lemma controlled_cookies:
  assumes "controlled dt wall ev landing k st = Some st'"
    and "\<And>st. db_cookies (ls_db (landing st)) = db_cookies (ls_db st)"
    and "\<And>st1 st2. k ev st1 = Some st2 \<Longrightarrow> db_cookies (ls_db st2) = db_cookies (ls_db st1)"
  shows "db_cookies (ls_db st') = db_cookies (ls_db st)"
  using controlledD [OF assms(1)] assms(2,3) by (force simp: login_upd)

lemma page_cookies:
  assumes "page_step wall k ev st = Some st'" "\<And>st. ls_db (k st) = ls_db st"
  shows "db_cookies (ls_db st') = db_cookies (ls_db st)"
  using assms by (auto simp: page_step_def split: login_input.splits sum.splits)

lemma update_cookies_step:
  assumes "update_step wall k ev st = Some st'" "\<And>st. ls_db (k st) = ls_db st"
  shows "db_cookies (ls_db st') = db_cookies (ls_db st)"
proof -
  from assms(1) obtain flt where "ev = UpdateDone flt" by (auto simp: update_step_def split: login_input.splits)
  moreover obtain r st1 where "update_session flt st = (r, st1)" by fastforce
  moreover from this have "db_cookies (ls_db st1) = db_cookies (ls_db st)" using update_cookies_kept [of flt st] by simp
  ultimately show ?thesis using assms by (auto simp: update_step_def split: sum.splits)
qed

lemma send_cookies:
  assumes "send_step wall e k ev st = Some st'" "\<And>st. ls_db (k st) = ls_db st"
  shows "db_cookies (ls_db st') = db_cookies (ls_db st)"
  using assms by (auto simp: send_step_def login_upd split: login_input.splits bool.splits)

lemma other_steps_cookies:
  "acquire_step cfg wall ev st = Some st' \<Longrightarrow> db_cookies (ls_db st') = db_cookies (ls_db st)"
  "poll_session_step fts wall ev st = Some st' \<Longrightarrow> db_cookies (ls_db st') = db_cookies (ls_db st)"
  "poll_cookies_step cfg wall ev st = Some st' \<Longrightarrow> db_cookies (ls_db st') = db_cookies (ls_db st)"
  "poll_sleep_step dt ev st = Some st' \<Longrightarrow> db_cookies (ls_db st') = db_cookies (ls_db st)"
  by (auto simp: acquire_step_def poll_session_step_def poll_cookies_step_def poll_sleep_step_def login_upd Let_def
      split: login_input.splits sum.splits option.splits auth_checkpoint.splits if_splits)

lemma create_cookies: "create_step cfg dt wall ev st = Some st' \<Longrightarrow> db_cookies (ls_db st') = db_cookies (ls_db st)"
proof -
  have c: "session_create flt s db = (r, db') \<Longrightarrow> db_cookies db' = db_cookies db" for flt s db r db'
    using session_writes_cookies(1) [of flt s db] by simp
  show "create_step cfg dt wall ev st = Some st' \<Longrightarrow> db_cookies (ls_db st') = db_cookies (ls_db st)"
    by (auto simp: create_step_def create_failed_def login_upd Let_def dest: c
        split: login_input.splits sum.splits prod.splits if_splits)
qed

lemma closing_cookies:
  "recheck_step fts dt n cs ev st = Some st' \<Longrightarrow> db_cookies (ls_db st') = db_cookies (ls_db st)"
  "recheck_sleep_step dt n cs ev st = Some st' \<Longrightarrow> db_cookies (ls_db st') = db_cookies (ls_db st)"
  "close_step dt wall res ev st = Some st' \<Longrightarrow> db_cookies (ls_db st') = db_cookies (ls_db st)"
  "update_failed_step dt ev st = Some st' \<Longrightarrow> db_cookies (ls_db st') = db_cookies (ls_db st)"
  "send_final_step dt cs ev st = Some st' \<Longrightarrow> db_cookies (ls_db st') = db_cookies (ls_db st)"
  by (auto simp: recheck_step_def recheck_sleep_step_def close_step_def update_failed_step_def send_final_step_def
      login_upd Let_def split: login_input.splits sum.splits option.splits if_splits)

lemma save_step_cookies:
  "save_step cfg dt cs ev st = Some st' \<Longrightarrow> ls_commits st' = [] \<Longrightarrow> db_cookies (ls_db st') = db_cookies (ls_db st)"
  by (auto simp: save_step_def login_upd dest: commit_login_cookies split: login_input.splits sum.splits prod.splits if_splits)

lemma env_cookies:
  assumes "env_step cfg ev st = Some st'" "\<forall>db'. ev \<noteq> EnvOther db'" "ls_commits st' = []"
  shows "db_cookies (ls_db st') = db_cookies (ls_db st)"
proof (cases ev)
  case (EnvLand e)
  with assms obtain s cs where l: "st' = snd (commit_login cfg e s cs (st\<lparr>ls_inflight := None\<rparr>))"
    by (auto simp: env_step_def split: option.splits)
  obtain r where "commit_login cfg e s cs (st\<lparr>ls_inflight := None\<rparr>) = (r, st')" using l by (metis prod.collapse)
  from commit_login_cookies [OF this assms(3)] show ?thesis by simp
qed (use assms in \<open>auto simp: env_step_def cancel_session_def\<close>)

lemma step_cookies:
  assumes "login_step cfg fts (dt, wall, ev) st = Some st'" "\<forall>db'. ev \<noteq> EnvOther db'" "ls_commits st' = []"
  shows "db_cookies (ls_db st') = db_cookies (ls_db st)"
proof (cases "is_env ev")
  case True
  with assms env_cookies show ?thesis by (simp add: login_step_def)
next
  case False
  then have t: "task_step cfg fts dt wall ev st = Some st'" using assms(1) by (simp add: login_step_def)
  note run = controlled_cookies [of dt wall ev _ _ st st']
  show ?thesis
  proof (cases "ls_pc st")
    case PCreate
    with t create_cookies show ?thesis by (simp add: task_step_def)
  next
    case (PSave cs)
    with t assms(3) save_step_cookies show ?thesis by (simp add: task_step_def)
  qed (use t closing_cookies in \<open>auto simp: task_step_def Let_def login_upd page_created_def navigated_def start_polling_def
      intro: other_steps_cookies elim!: run page_cookies update_cookies_step send_cookies\<close>)
qed

text \<open>C2: A cancelled login never connects, and its session stays deleted. Once the session is gone from the
  store before anything was committed, no later step, not even the last update of a failed login or a
  late landing of a commit that timed out, brings its row back or reports Connected, and no step but
  those of other requests changes a stored cookie.\<close>

theorem cancelled_login_never_connects:
  assumes "login_reach cfg fts (login_init cfg wall i db) st" "db_sessions db i = None"
    and "ls_pc st \<noteq> PCreate" "db_sessions (ls_db st) i = None" "ls_commits st = []"
    and "login_reach cfg fts st st'"
  shows "db_sessions (ls_db st') i = None \<and> ls_commits st' = [] \<and>
    (\<forall>s cs. LeFinal s cs \<in> set (ls_events st') \<longrightarrow> ss_state s = Failed \<and> cs = []) \<and>
    (\<forall>dt wall ev st2. login_step cfg fts (dt, wall, ev) st' = Some st2 \<longrightarrow> (\<forall>db'. ev \<noteq> EnvOther db') \<longrightarrow>
       db_cookies (ls_db st2) = db_cookies (ls_db st'))"
proof -
  have ok: "login_ok cfg i st" using login_ok_reach [OF assms(1)] login_ok_init [OF assms(2)] by blast
  have stays: "gone i s" if "login_reach cfg fts st s" for s
    using gone_reach [OF that ok] assms(3-5) by (simp add: gone_def)
  have "db_cookies (ls_db st2) = db_cookies (ls_db st')"
    if "login_step cfg fts (dt, wall, ev) st' = Some st2" "\<forall>db'. ev \<noteq> EnvOther db'" for dt wall ev st2
    using step_cookies [OF that] stays [OF reach_step [OF assms(6) that(1)]] by (simp add: gone_def)
  moreover have "gone i st'" "login_ok cfg i st'" using stays assms(6) login_ok_reach [OF assms(6) ok] by blast+
  ultimately show ?thesis
    using login_final_outcome by (fastforce simp: gone_def outcome_def committed_def)
qed

definition toy_cancelled :: "(duration \<times> datetime \<times> login_input) list" where
  "toy_cancelled = [(1, 0, CreateDone None), (0, 0, EnvDelete None)]"

lemma cancelled_login_never_connects_witness:
  "\<exists>st. login_run toy_cfg toy_time toy_cancelled toy_start = Some st \<and> db_sessions (ls_db st) ''s1'' = None \<and>
     (\<forall>st'. login_reach toy_cfg toy_time st st' \<longrightarrow> db_sessions (ls_db st') ''s1'' = None \<and> ls_commits st' = [])"
proof -
  obtain st where st: "login_run toy_cfg toy_time toy_cancelled toy_start = Some st"
    and g: "ls_pc st \<noteq> PCreate" "db_sessions (ls_db st) ''s1'' = None" "ls_commits st = []"
    by (simp add: toy_cancelled_def toy_start_def toy_login_defs env_step_def cancel_session_def session_delete_def)
  have "login_reach toy_cfg toy_time toy_start st" by (rule login_run_reach [OF st])
  from cancelled_login_never_connects [OF this [unfolded toy_start_def] _ g] st g show ?thesis by auto
qed

text \<open>C4: The events of a login come in order: Started, then WaitingForUser with the viewer's address,
  then one final event, each at most once and nothing after the final one; and when the login is
  over, or a final event was sent, the browser is not held any more.\<close>

theorem login_events_in_order:
  assumes "login_reach cfg fts (login_init cfg wall i db) st" "db_sessions db i = None"
  shows "(\<exists>s t v f cs n m. ls_events st = take n [LeStarted s, LeWaitingForUser t v] @ take m [LeFinal f cs] \<and>
            ss_state t = WaitingForUser) \<and>
         (ls_pc st = PDone \<or> (\<exists>f cs. LeFinal f cs \<in> set (ls_events st)) \<longrightarrow> ls_browser st \<noteq> HeldBrowser)"
proof -
  have ok: "login_ok cfg i st" using login_ok_reach [OF assms(1)] login_ok_init [OF assms(2)] by blast
  have early: "\<exists>s t v n. es = take n [LeStarted s, LeWaitingForUser t v] \<and> ss_state t = WaitingForUser"
    if "early_events es" for es
    using that unfolding early_events_def started_events_def waiting_events_def
  proof (elim disjE exE conjE)
    assume "es = []"
    then show ?thesis
      by (intro exI [of _ "transition 0 WaitingForUser None (session_new 0 [] [])"] exI [of _ 0] exI) simp
  next
    fix s assume "es = [LeStarted s]"
    then show ?thesis
      by (intro exI [of _ s] exI [of _ "transition 0 WaitingForUser None (session_new 0 [] [])"] exI [of _ 1] exI) simp
  next
    fix s t v assume "es = [LeStarted s, LeWaitingForUser t v]" "ss_state t = WaitingForUser"
    then show ?thesis by (intro exI [of _ s] exI [of _ t] exI [of _ v] exI [of _ 2]) simp
  qed
  have "\<exists>es m f cs. ls_events st = es @ take m [LeFinal f cs] \<and> early_events es"
  proof (cases "early_events (ls_events st)")
    case True
    then show ?thesis by (intro exI [of _ "ls_events st"] exI [of _ 0] exI) simp
  next
    case False
    with ok obtain es f cs where "ls_events st = es @ [LeFinal f cs]" "early_events es"
      by (cases "ls_pc st") (auto simp: login_ok_def events_inv_def early_events_def split: sum.splits)
    then show ?thesis by (intro exI [of _ es] exI [of _ 1] exI) simp
  qed
  moreover have "ls_pc st = PDone" if "LeFinal f cs \<in> set (ls_events st)" for f cs
    using that ok by (cases "ls_pc st")
      (auto simp: login_ok_def events_inv_def started_events_def waiting_events_def early_events_def split: sum.splits)
  ultimately show ?thesis
    using early ok by (fastforce simp: login_ok_def browser_inv_def)
qed

lemma login_events_in_order_witness:
  "\<exists>st. login_run toy_cfg toy_time toy_inputs toy_start = Some st \<and> ls_browser st \<noteq> HeldBrowser"
proof -
  obtain st s where st: "login_run toy_cfg toy_time toy_inputs toy_start = Some st" "ls_pc st = PDone"
    using toy_login_runs by blast
  have "login_reach toy_cfg toy_time toy_start st" by (rule login_run_reach [OF st(1)])
  from login_events_in_order [OF this [unfolded toy_start_def]] st show ?thesis by auto
qed

text \<open>C3: A login always ends, and in time. From every reachable state the timers alone, without any
  cooperation of the browser, the database or the client, bring the login to its end in at most
  five steps; and no reachable state is later than the preparation and login budgets plus 46
  seconds of cleanup (5 for the commit, 5 re-checks of 5.2, 15 to close, mark and report).\<close>

theorem login_always_ends:
  assumes "login_reach cfg fts (login_init cfg wall i db) st" "db_sessions db i = None"
  shows "(\<exists>st'. run_timers cfg fts now 5 st = Some st' \<and> ls_pc st' = PDone \<and> login_reach cfg fts st st') \<and>
         ls_now st \<le> max (lc_preparation_timeout cfg) (from_secs 5) + lc_login_timeout cfg + from_secs 46"
proof
  show "\<exists>st'. run_timers cfg fts now 5 st = Some st' \<and> ls_pc st' = PDone \<and> login_reach cfg fts st st'"
    by (rule run_timers_done [OF steps_left_le])
  have ok: "login_ok cfg i st" using login_ok_reach [OF assms(1)] login_ok_init [OF assms(2)] by blast
  have top: "recheck_limit cfg 5 + 3 * cleanup_timeout =
      max (lc_preparation_timeout cfg) (from_secs 5) + lc_login_timeout cfg + from_secs 46"
    by (simp add: recheck_limit_def user_limit_def prep_limit_def cleanup_timeout_def recheck_interval_def
        from_secs_def from_millis_def)
  have "ls_now st \<le> recheck_limit cfg 5 + 3 * cleanup_timeout"
  proof (cases "ls_pc st")
    case (PRecheck n cs)
    with ok recheck_limit_5 [of n cfg] show ?thesis by (simp add: login_ok_def time_inv_def)
  next
    case (PRecheckSleep n cs)
    with ok recheck_limit_5 [of n cfg] show ?thesis by (simp add: login_ok_def time_inv_def)
  qed (use ok user_limit_5 [of cfg] in \<open>simp_all add: login_ok_def time_inv_def\<close>)
  with top show "ls_now st \<le> max (lc_preparation_timeout cfg) (from_secs 5) + lc_login_timeout cfg + from_secs 46"
    by simp
qed

lemma login_always_ends_witness:
  "\<exists>st. login_run toy_cfg toy_time toy_inputs toy_start = Some st \<and> ls_now st \<le> from_secs 436"
proof -
  obtain st s where st: "login_run toy_cfg toy_time toy_inputs toy_start = Some st"
    using toy_login_runs by blast
  have "login_reach toy_cfg toy_time toy_start st" by (rule login_run_reach [OF st])
  from login_always_ends [OF this [unfolded toy_start_def], of 0] st show ?thesis
    by (auto simp: toy_cfg_def from_secs_def)
qed

end
