(* ===== verification/Browser_Pool.thy ===== *)
theory Browser_Pool
  imports Login_Props
begin

text \<open>
  The pool of browsers of \<open>adapters/chromiumoxide/browser_factory.rs\<close>: slots with one permit each,
  the acquisition of a slot, the session that holds it, and the cleanup that closes the session's
  tab and gives the permit back. The CDP connection, DNS and the \<open>url\<close> crate are parameters.
\<close>

section \<open>Slots\<close>

record chrome_slot =
  sl_cdp_url :: string
  sl_viewer_url :: string

record browser_pool =
  bp_slots :: "chrome_slot list"
  bp_acquire_timeout :: duration
  bp_connect_timeout :: duration

definition pool_new :: "string list \<Rightarrow> string list \<Rightarrow> duration \<Rightarrow> duration \<Rightarrow> browser_pool" where
  "pool_new cdp viewers acquire connect =
     \<lparr>bp_slots = map (\<lambda>(i, u). \<lparr>sl_cdp_url = u,
                                sl_viewer_url = (if i < length viewers then viewers ! i else [])\<rparr>)
                   (enumerate 0 cdp),
      bp_acquire_timeout = acquire, bp_connect_timeout = connect\<rparr>"

definition pool_viewer_url :: "browser_pool \<Rightarrow> string option" where
  "pool_viewer_url p = (case bp_slots p of [] \<Rightarrow> None | s # ss \<Rightarrow> Some (sl_viewer_url s))"

section \<open>Connecting\<close>

record 'u url_ops =
  uo_parse :: "string \<Rightarrow> string + 'u"
  uo_host :: "'u \<Rightarrow> string option"
  uo_port :: "'u \<Rightarrow> nat option"
  uo_set_host :: "'u \<Rightarrow> string \<Rightarrow> string + 'u"
  uo_show :: "'u \<Rightarrow> string"
  uo_is_ip :: "string \<Rightarrow> bool"
  uo_lookup :: "string \<Rightarrow> string + string list"

definition resolve_cdp_url :: "'u url_ops \<Rightarrow> string \<Rightarrow> string result" where
  "resolve_cdp_url ops cdp_url =
     res_bind (map_err (\<lambda>e. EBrowser (''Invalid CDP URL: '' @ e)) (uo_parse ops cdp_url)) (\<lambda>url.
       case uo_host ops url of
         None \<Rightarrow> Inl (EBrowser ''CDP URL has no host'')
       | Some host \<Rightarrow>
           if uo_is_ip ops host then Inr cdp_url
           else
             (let port = (case uo_port ops url of None \<Rightarrow> 9222 | Some n \<Rightarrow> n) in
              res_bind (map_err (\<lambda>e. EBrowser (''Failed to resolve '' @ host @ '': '' @ e))
                         (uo_lookup ops (host @ '':'' @ show_nat port))) (\<lambda>addrs.
                case addrs of
                  [] \<Rightarrow> Inl (EBrowser (''No addresses for '' @ host))
                | a # as \<Rightarrow>
                    res_bind (map_err (\<lambda>e. EBrowser (''Failed to set host: '' @ e)) (uo_set_host ops url a))
                      (\<lambda>url'. Inr (uo_show ops url')))))"

definition target_ready_retry_interval :: duration where
  "target_ready_retry_interval = from_millis 10"

definition target_ready_budget :: duration where
  "target_ready_budget = from_secs 1"

text \<open>
  A probe of a target at an instant says whether the target is ready and how long the answer took.
  A target that must be ready is probed until it is (the caller's time-out ends the loop); the
  others share one budget.
\<close>

partial_function (option) wait_ready ::
  "('t \<Rightarrow> duration \<Rightarrow> bool \<times> duration) \<Rightarrow> bool \<Rightarrow> duration \<Rightarrow> 't \<Rightarrow> duration \<Rightarrow> duration option" where
  "wait_ready probe require_ready deadline t now =
     (case probe t now of (ready, d) \<Rightarrow>
        if ready then Some (now + d)
        else if \<not> require_ready \<and> deadline \<le> now + d then Some (now + d)
        else wait_ready probe require_ready deadline t (now + d + target_ready_retry_interval))"

fun wait_targets ::
  "('t \<Rightarrow> duration \<Rightarrow> bool \<times> duration) \<Rightarrow> bool \<Rightarrow> duration \<Rightarrow> 't list \<Rightarrow> duration \<Rightarrow> duration option" where
  "wait_targets probe require_ready deadline [] now = Some now"
| "wait_targets probe require_ready deadline (t # ts) now =
     (case wait_ready probe require_ready deadline t now of
        None \<Rightarrow> None
      | Some now' \<Rightarrow> wait_targets probe require_ready deadline ts now')"

record cdp_target =
  tg_id :: string
  tg_type :: string

text \<open>
  \<open>ChromeSlot::connect\<close> from the reply to \<open>GetTargets\<close> on: which targets to wait for; \<open>None\<close> when
  the wait never ends.
\<close>

definition connect_targets :: "string option \<Rightarrow> cdp_target list \<Rightarrow> (string list \<times> bool) result" where
  "connect_targets owned targets =
     (case owned of
        Some t \<Rightarrow>
          if t \<notin> set (map tg_id targets) then Inl (EBrowser ''Owned login target no longer exists'')
          else Inr ([t], True)
      | None \<Rightarrow> Inr (map tg_id (filter (\<lambda>x. tg_type x = ''page'') targets), False))"

definition slot_connect ::
  "'u url_ops \<Rightarrow> (string \<Rightarrow> string + unit) \<Rightarrow> (string + cdp_target list) \<Rightarrow>
   (string \<Rightarrow> duration \<Rightarrow> bool \<times> duration) \<Rightarrow> string \<Rightarrow> string option \<Rightarrow> duration \<Rightarrow> unit result future" where
  "slot_connect ops browser_connect get_targets probe cdp_url owned now =
     (case res_bind (resolve_cdp_url ops cdp_url) (\<lambda>resolved.
             res_bind (map_err (\<lambda>e. EBrowser (''Failed to connect to CDP: '' @ e)) (browser_connect resolved)) (\<lambda>u.
               res_bind (map_err (\<lambda>e. EBrowser (''Failed to discover CDP targets: '' @ e)) get_targets)
                 (connect_targets owned))) of
        Inl e \<Rightarrow> Some (0, Inl e)
      | Inr (pending, require_ready) \<Rightarrow>
          (case wait_targets probe require_ready (now + target_ready_budget) pending now of
             None \<Rightarrow> None
           | Some t \<Rightarrow> Some (t - now, Inr ())))"

text \<open>\<open>PooledBrowserFactory::connect\<close> around the connection attempt \<open>attempt\<close>.\<close>

definition pool_connect :: "browser_pool \<Rightarrow> unit result future \<Rightarrow> unit result future" where
  "pool_connect p attempt =
     fut_map (flatten_timeout (EBrowser (''CDP connection timed out after '' @
                show_nat (as_secs (bp_connect_timeout p)) @ ''s'')))
       (fut_timeout (bp_connect_timeout p) attempt)"

section \<open>Acquiring a slot\<close>

text \<open>
  \<open>acquire\<close> as a machine over the set of free permits: try each slot in turn, connecting to those
  whose permit is free; then wait for a busy one. \<open>AConnect\<close> and \<open>AWaitConnect\<close> hold the slot's
  permit. While waiting, permits that other waiters of the same call were given are returned when
  the first one wins; the model gives them back at once.
\<close>

datatype acquire_pc =
    AScan nat "string list" "nat list"
  | AConnect nat "string list" "nat list"
  | AWait "nat list"
  | AWaitConnect nat
  | AAcquired nat
  | AFailed imauth_error

datatype acquire_input = ANext | AConnDone "unit result" | AGot nat | AWaitTimeout

definition scan_end :: "browser_pool \<Rightarrow> string list \<Rightarrow> nat list \<Rightarrow> acquire_pc" where
  "scan_end p errs busy =
     (if bp_slots p = [] then AFailed (EBrowser ''No browser slots configured'')
      else if busy \<noteq> [] then AWait busy
      else if errs \<noteq> [] then
        AFailed (EBrowser (''Failed to connect to available browser slots: '' @ join ''; '' errs))
      else AFailed (EBrowser ''No available browser slots could be acquired''))"

definition pool_acquire_step ::
  "browser_pool \<Rightarrow> duration \<times> acquire_input \<Rightarrow> nat set \<times> acquire_pc \<Rightarrow> (nat set \<times> acquire_pc) option" where
  "pool_acquire_step p x st =
     (case x of (dt, ev) \<Rightarrow> case st of (free, pc) \<Rightarrow>
      case pc of
        AScan i errs busy \<Rightarrow>
          (case ev of
             ANext \<Rightarrow>
               if dt \<noteq> 0 then None
               else if i \<ge> length (bp_slots p) then Some (free, scan_end p errs busy)
               else if i \<in> free then Some (free - {i}, AConnect i errs busy)
               else Some (free, AScan (Suc i) errs (busy @ [i]))
           | _ \<Rightarrow> None)
      | AConnect i errs busy \<Rightarrow>
          (case ev of
             AConnDone r \<Rightarrow>
               if dt \<le> bp_connect_timeout p then
                 (case r of
                    Inr u \<Rightarrow> Some (free, AAcquired i)
                  | Inl e \<Rightarrow> Some (insert i free, AScan (Suc i) (errs @ [error_to_string e]) busy))
               else None
           | _ \<Rightarrow> None)
      | AWait busy \<Rightarrow>
          (case ev of
             AGot i \<Rightarrow>
               if dt \<le> bp_acquire_timeout p \<and> i \<in> set busy \<and> i \<in> free
               then Some (free - {i}, AWaitConnect i) else None
           | AWaitTimeout \<Rightarrow>
               if dt = bp_acquire_timeout p
               then Some (free, AFailed (EBrowser (''Browser slot acquisition timed out after '' @
                                  show_nat (as_secs (bp_acquire_timeout p)) @ ''s''))) else None
           | _ \<Rightarrow> None)
      | AWaitConnect i \<Rightarrow>
          (case ev of
             AConnDone r \<Rightarrow>
               if dt \<le> bp_connect_timeout p then
                 (case r of Inr u \<Rightarrow> Some (free, AAcquired i) | Inl e \<Rightarrow> Some (insert i free, AFailed e))
               else None
           | _ \<Rightarrow> None)
      | _ \<Rightarrow> None)"

text \<open>The permit a call holds; dropping the call gives it back.\<close>

fun acquire_holds :: "acquire_pc \<Rightarrow> nat option" where
  "acquire_holds (AConnect i errs busy) = Some i"
| "acquire_holds (AWaitConnect i) = Some i"
| "acquire_holds (AAcquired i) = Some i"
| "acquire_holds pc = None"

section \<open>The session\<close>

record browser_session =
  bs_slot :: nat
  bs_connected :: bool
  bs_target :: "string option"
  bs_creating :: bool
  bs_permit :: bool

definition session_of_slot :: "nat \<Rightarrow> browser_session" where
  "session_of_slot i =
     \<lparr>bs_slot = i, bs_connected = True, bs_target = None, bs_creating = False, bs_permit = True\<rparr>"

text \<open>
  \<open>new_page\<close>: the guard and the spawned creation, then its outcome. When the call is dropped in
  between, the creation goes on and the session remembers it.
\<close>

definition new_page_start :: "browser_session \<Rightarrow> unit result \<times> browser_session" where
  "new_page_start s =
     (if bs_target s \<noteq> None \<or> bs_creating s
      then (Inl (EBrowser ''browser session already owns a login target''), s)
      else if \<not> bs_connected s then (Inl (EBrowser ''browser session already released''), s)
      else (Inr (), s\<lparr>bs_creating := True\<rparr>))"

definition finish_page_creation ::
  "string + (string + string) \<Rightarrow> browser_session \<Rightarrow> string result \<times> browser_session" where
  "finish_page_creation joined s =
     (if \<not> bs_creating s then (Inl (EBrowser ''page creation is not running''), s)
      else
        (case joined of
           Inl e \<Rightarrow> Inl (EBrowser (''Page creation task failed: '' @ e))
         | Inr r \<Rightarrow> map_err (\<lambda>e. EBrowser (''Failed to create page: '' @ e)) r,
         s\<lparr>bs_creating := False\<rparr>))"

definition new_page_end :: "string + (string + string) \<Rightarrow> browser_session \<Rightarrow> unit result \<times> browser_session" where
  "new_page_end joined s =
     (case finish_page_creation joined s of
        (Inl e, s') \<Rightarrow> (Inl e, s')
      | (Inr t, s') \<Rightarrow> (Inr (), s'\<lparr>bs_target := Some t\<rparr>))"

text \<open>
  \<open>reconnect\<close>: the old connection is shut down first; \<open>attempt\<close> is the new one, \<open>page\<close> the
  reattachment to the owned target.
\<close>

definition reconnect ::
  "duration \<Rightarrow> (string \<Rightarrow> unit result future) \<Rightarrow> (string \<Rightarrow> string + unit) \<Rightarrow> browser_session \<Rightarrow>
   unit result future \<times> browser_session" where
  "reconnect connect_timeout attempt page s =
     (case bs_target s of
        None \<Rightarrow> (Some (0, Inl (EBrowser ''browser session has no login target'')), s)
      | Some t \<Rightarrow>
          (let s' = s\<lparr>bs_connected := False\<rparr> in
           case fut_map (flatten_timeout (EBrowser ''CDP reconnect timed out''))
                  (fut_timeout connect_timeout (attempt t)) of
             None \<Rightarrow> (None, s')
           | Some (d, Inl e) \<Rightarrow> (Some (d, Inl e), s')
           | Some (d, Inr u) \<Rightarrow>
               (case page t of
                  Inl e \<Rightarrow> (Some (d, Inl (EBrowser (''Failed to reattach login target: '' @ e))), s')
                | Inr u' \<Rightarrow> (Some (d, Inr ()), s'\<lparr>bs_connected := True\<rparr>))))"

text \<open>\<open>shutdown\<close> takes everything out of the session and hands it to the cleanup task.\<close>

definition take_all :: "browser_session \<Rightarrow> browser_session" where
  "take_all s = s\<lparr>bs_connected := False, bs_target := None, bs_creating := False, bs_permit := False\<rparr>"

section \<open>Cleanup\<close>

definition session_close_timeout :: duration where
  "session_close_timeout = from_secs 5"

datatype cleanup_action =
    AbortCreation
  | OpenConnection string
  | CloseTarget string
  | ShutdownConnection
  | ReleasePermit

text \<open>
  What the environment answers: the join of a running page creation (\<open>None\<close> inside when it
  failed), a connection made only to close a target, and the close request.
\<close>

record cleanup_env =
  cl_join :: "string option future"
  cl_attempt :: "string \<Rightarrow> unit result future"
  cl_close :: "string \<Rightarrow> (string + unit) future"

definition elapsed :: "'a future \<Rightarrow> duration" where
  "elapsed f = (case f of None \<Rightarrow> 0 | Some (t, x) \<Rightarrow> t)"

definition pending_target :: "cleanup_env \<Rightarrow> browser_session \<Rightarrow> string option \<times> cleanup_action list \<times> duration" where
  "pending_target env s =
     (if bs_creating s then
        (let j = fut_timeout session_close_timeout (cl_join env) in
         case j of
           Some (t, Inr r) \<Rightarrow> (r, [], t)
         | _ \<Rightarrow> (None, [AbortCreation], elapsed j))
      else (None, [], 0))"

definition cleanup_session ::
  "duration \<Rightarrow> cleanup_env \<Rightarrow> browser_session \<Rightarrow> unit result \<times> cleanup_action list \<times> duration" where
  "cleanup_session connect_timeout env s =
     (case pending_target env s of (pending, acts1, t1) \<Rightarrow>
      let owned = (case bs_target s of Some t \<Rightarrow> Some t | None \<Rightarrow> pending) in
      case (case owned of
              Some t \<Rightarrow>
                if bs_connected s then (True, [], 0)
                else
                  (let a = fut_timeout connect_timeout (cl_attempt env t) in
                   case a of
                     Some (d, Inr (Inr u)) \<Rightarrow> (True, [OpenConnection t], d)
                   | _ \<Rightarrow> (False, [OpenConnection t], elapsed a))
            | None \<Rightarrow> (bs_connected s, [], 0)) of (conn, acts2, t2) \<Rightarrow>
      case (case owned of
              Some t \<Rightarrow>
                if conn then
                  (let c = fut_timeout session_close_timeout (cl_close env t) in
                   case c of
                     Some (d, Inr r) \<Rightarrow>
                       (map_err (\<lambda>e. EBrowser (''Failed to close browser target: '' @ e)) r, [CloseTarget t], d)
                   | _ \<Rightarrow> (Inl (EBrowser ''Browser target close timed out''), [CloseTarget t], elapsed c))
                else (Inr (), [], 0)
            | None \<Rightarrow> (Inr (), [], 0)) of (res, acts3, t3) \<Rightarrow>
      (res,
       acts1 @ acts2 @ acts3 @ (if conn then [ShutdownConnection] else []) @
         (if bs_permit s then [ReleasePermit] else []),
       t1 + t2 + t3))"

text \<open>
  \<open>drop\<close> of a session: nothing is left to clean after a shutdown; otherwise the cleanup runs in a
  task of the runtime, or, without one, only the permit and the connection are let go.
\<close>

definition drop_session ::
  "bool \<Rightarrow> duration \<Rightarrow> cleanup_env \<Rightarrow> browser_session \<Rightarrow> cleanup_action list" where
  "drop_session runtime connect_timeout env s =
     (if \<not> bs_connected s \<and> \<not> bs_creating s \<and> bs_target s = None
      then (if bs_permit s then [ReleasePermit] else [])
      else if \<not> runtime then
        (if bs_creating s then [AbortCreation] else []) @ (if bs_connected s then [ShutdownConnection] else []) @
        (if bs_permit s then [ReleasePermit] else [])
      else fst (snd (cleanup_session connect_timeout env s)))"

end
