(* ===== verification/Pool_Props.thy ===== *)
theory Pool_Props
  imports Browser_Pool
begin

text \<open>
  The properties of the browser pool: permits are neither lost nor shared among any number of
  concurrent logins, an acquisition stays within the budget the container computes for it, the
  cleanup closes the session's own tab before it gives the permit back, and waiting for
  unrelated tabs shares one budget.
\<close>

section \<open>Any number of clients\<close>

text \<open>
  A client acquires, uses its session and closes or drops it; the cleanup gives the permit back
  at its end. A call may be dropped at any point.
\<close>

datatype pool_client =
    CIdle
  | CAcquiring acquire_pc
  | CSession browser_session
  | CCleaning browser_session

record pool_state =
  po_free :: "nat set"
  po_client :: "nat \<Rightarrow> pool_client"

fun client_holds :: "pool_client \<Rightarrow> nat option" where
  "client_holds CIdle = None"
| "client_holds (CAcquiring pc) = acquire_holds pc"
| "client_holds (CSession s) = (if bs_permit s then Some (bs_slot s) else None)"
| "client_holds (CCleaning s) = (if bs_permit s then Some (bs_slot s) else None)"

definition give_back :: "nat option \<Rightarrow> nat set \<Rightarrow> nat set" where
  "give_back h free = (case h of None \<Rightarrow> free | Some i \<Rightarrow> insert i free)"

text \<open>The operations of a session between acquisition and cleanup.\<close>

definition session_op :: "browser_session \<Rightarrow> browser_session \<Rightarrow> bool" where
  "session_op s s' \<longleftrightarrow>
     s' = snd (new_page_start s) \<or> (\<exists>joined. s' = snd (new_page_end joined s)) \<or>
     (\<exists>d attempt page. s' = snd (reconnect d attempt page s))"

inductive pool_step :: "browser_pool \<Rightarrow> pool_state \<Rightarrow> pool_state \<Rightarrow> bool" for p where
  ps_start: "po_client st c = CIdle \<Longrightarrow>
     pool_step p st (st\<lparr>po_client := (po_client st)(c := CAcquiring (AScan 0 [] []))\<rparr>)"
| ps_acquire: "po_client st c = CAcquiring pc \<Longrightarrow> pool_acquire_step p x (po_free st, pc) = Some (free', pc') \<Longrightarrow>
     pool_step p st (st\<lparr>po_free := free', po_client := (po_client st)(c := CAcquiring pc')\<rparr>)"
| ps_abandon: "po_client st c = CAcquiring pc \<Longrightarrow>
     pool_step p st (st\<lparr>po_free := give_back (acquire_holds pc) (po_free st),
                        po_client := (po_client st)(c := CIdle)\<rparr>)"
| ps_acquired: "po_client st c = CAcquiring (AAcquired i) \<Longrightarrow>
     pool_step p st (st\<lparr>po_client := (po_client st)(c := CSession (session_of_slot i))\<rparr>)"
| ps_use: "po_client st c = CSession s \<Longrightarrow> session_op s s' \<Longrightarrow>
     pool_step p st (st\<lparr>po_client := (po_client st)(c := CSession s')\<rparr>)"
| ps_close: "po_client st c = CSession s \<Longrightarrow>
     pool_step p st (st\<lparr>po_client := (po_client st)(c := CCleaning s)\<rparr>)"
| ps_cleaned: "po_client st c = CCleaning s \<Longrightarrow>
     pool_step p st (st\<lparr>po_free := (if ReleasePermit \<in> set (fst (snd (cleanup_session d env s)))
                                    then insert (bs_slot s) (po_free st) else po_free st),
                        po_client := (po_client st)(c := CIdle)\<rparr>)"

inductive pool_reach :: "browser_pool \<Rightarrow> pool_state \<Rightarrow> bool" for p where
  pr_init: "pool_reach p \<lparr>po_free = {..<length (bp_slots p)}, po_client = (\<lambda>c. CIdle)\<rparr>"
| pr_step: "pool_reach p st \<Longrightarrow> pool_step p st st' \<Longrightarrow> pool_reach p st'"

inductive_cases pool_stepE: "pool_step p st st'"

text \<open>Every permit is in exactly one place.\<close>

definition permits_ok :: "browser_pool \<Rightarrow> pool_state \<Rightarrow> bool" where
  "permits_ok p st \<longleftrightarrow>
     po_free st \<union> {i. \<exists>c. client_holds (po_client st c) = Some i} = {..<length (bp_slots p)} \<and>
     (\<forall>c i. client_holds (po_client st c) = Some i \<longrightarrow> i \<notin> po_free st) \<and>
     (\<forall>c d i. client_holds (po_client st c) = Some i \<and> client_holds (po_client st d) = Some i \<longrightarrow> c = d)"

lemma give_back_iff: "i \<in> give_back h F \<longleftrightarrow> h = Some i \<or> i \<in> F"
  by (auto simp: give_back_def split: option.splits)

text \<open>A step of one client that moves permits only between it and the free ones.\<close>

lemma permits_ok_move:
  assumes ok: "permits_ok p st"
    and held: "client_holds x = h'" "client_holds (po_client st c) = h"
    and move: "give_back h' free' = give_back h (po_free st)"
    and new: "\<And>i. h' = Some i \<Longrightarrow> i \<notin> free'" and kept: "\<And>i. h = Some i \<Longrightarrow> i \<notin> po_free st"
  shows "permits_ok p (st\<lparr>po_free := free', po_client := (po_client st)(c := x)\<rparr>)"
proof -
  have eq: "h' = Some i \<or> i \<in> free' \<longleftrightarrow> h = Some i \<or> i \<in> po_free st" for i
    using move by (metis give_back_iff)
  have other: "client_holds (po_client st d) = Some i \<Longrightarrow> d \<noteq> c \<Longrightarrow> h \<noteq> Some i \<and> i \<notin> po_free st" for d i
    using ok held(2) unfolding permits_ok_def by metis
  have all: "i \<in> po_free st \<or> (\<exists>d. client_holds (po_client st d) = Some i) \<longleftrightarrow> i < length (bp_slots p)" for i
    using ok unfolding permits_ok_def by blast
  have all': "i \<in> free' \<or> (\<exists>d. client_holds (((po_client st)(c := x)) d) = Some i) \<longleftrightarrow> i < length (bp_slots p)" for i
  proof -
    have "(\<exists>d. client_holds (((po_client st)(c := x)) d) = Some i) \<longleftrightarrow>
          h' = Some i \<or> (\<exists>d. d \<noteq> c \<and> client_holds (po_client st d) = Some i)"
      using held(1) by auto
    moreover have "(\<exists>d. client_holds (po_client st d) = Some i) \<longleftrightarrow>
          h = Some i \<or> (\<exists>d. d \<noteq> c \<and> client_holds (po_client st d) = Some i)"
      using held(2) by auto
    ultimately show ?thesis using all[of i] eq[of i] by blast
  qed
  have uniq: "client_holds (po_client st d) = Some i \<Longrightarrow> client_holds (po_client st e) = Some i \<Longrightarrow> d = e" for d e i
    using ok unfolding permits_ok_def by blast
  have fields: "po_free (st\<lparr>po_free := free', po_client := (po_client st)(c := x)\<rparr>) = free'"
    "po_client (st\<lparr>po_free := free', po_client := (po_client st)(c := x)\<rparr>) = (po_client st)(c := x)"
    by simp_all
  show ?thesis
    unfolding permits_ok_def fields
  proof (intro conjI allI impI)
    show "free' \<union> {i. \<exists>d. client_holds (((po_client st)(c := x)) d) = Some i} = {..<length (bp_slots p)}"
      using all' by blast
  next
    fix d i assume "client_holds (((po_client st)(c := x)) d) = Some i"
    then show "i \<notin> free'" using other[of d i] new[of i] eq[of i] held(1) by (auto split: if_splits)
  next
    fix d e i
    assume "client_holds (((po_client st)(c := x)) d) = Some i \<and> client_holds (((po_client st)(c := x)) e) = Some i"
    then show "d = e" using other[of d i] other[of e i] eq[of i] held(1) uniq[of d i e] by (auto split: if_splits)
  qed
qed

section \<open>Permits are neither lost nor shared\<close>

lemma session_op_keeps: "session_op s s' \<Longrightarrow> bs_slot s' = bs_slot s \<and> bs_permit s' = bs_permit s"
  by (auto simp: session_op_def new_page_start_def new_page_end_def finish_page_creation_def reconnect_def Let_def
           split: if_splits option.splits sum.splits)

lemma cleanup_releases: "ReleasePermit \<in> set (fst (snd (cleanup_session d env s))) \<longleftrightarrow> bs_permit s"
  by (auto simp: cleanup_session_def pending_target_def Let_def split: prod.splits option.splits sum.splits if_splits)

lemma pool_acquire_step_moves:
  "pool_acquire_step p x (free, pc) = Some (free', pc') \<Longrightarrow> (\<And>i. acquire_holds pc = Some i \<Longrightarrow> i \<notin> free) \<Longrightarrow>
   give_back (acquire_holds pc') free' = give_back (acquire_holds pc) free \<and>
   (\<forall>i. acquire_holds pc' = Some i \<longrightarrow> i \<notin> free')"
  by (auto simp: pool_acquire_step_def scan_end_def give_back_def
           split: prod.splits acquire_pc.splits acquire_input.splits if_splits sum.splits)

lemma permits_ok_held: "permits_ok p st \<Longrightarrow> client_holds (po_client st c) = Some i \<Longrightarrow> i \<notin> po_free st"
  by (auto simp: permits_ok_def)

lemma permits_ok_step:
  assumes "pool_step p st st'" "permits_ok p st"
  shows "permits_ok p st'"
  using assms
proof cases
  case (ps_start c)
  with assms(2) show ?thesis
    using permits_ok_move[OF assms(2), of "CAcquiring (AScan 0 [] [])" None c None "po_free st"]
    by (simp add: give_back_def)
next
  case (ps_acquire c pc x free' pc')
  have held: "acquire_holds pc = Some i \<Longrightarrow> i \<notin> po_free st" for i
    using permits_ok_held[OF assms(2), of c i] ps_acquire by simp
  show ?thesis unfolding ps_acquire(1)
    by (rule permits_ok_move[OF assms(2), where h = "acquire_holds pc" and h' = "acquire_holds pc'"])
       (use pool_acquire_step_moves[OF ps_acquire(3) held] held ps_acquire(2) in auto)
next
  case (ps_abandon c pc)
  show ?thesis unfolding ps_abandon(1)
    by (rule permits_ok_move[OF assms(2), where h = "acquire_holds pc" and h' = None])
       (use permits_ok_held[OF assms(2), of c] ps_abandon(2) in \<open>auto simp: give_back_def split: option.splits\<close>)
next
  case (ps_acquired c i)
  show ?thesis
    using permits_ok_move[OF assms(2), of "CSession (session_of_slot i)" "Some i" c "Some i" "po_free st"]
      permits_ok_held[OF assms(2), of c] ps_acquired by (simp add: session_of_slot_def)
next
  case (ps_use c s s')
  let ?h = "if bs_permit s then Some (bs_slot s) else None"
  show ?thesis
    using permits_ok_move[OF assms(2), of "CSession s'" ?h c ?h "po_free st"]
      permits_ok_held[OF assms(2), of c] session_op_keeps[OF ps_use(3)] ps_use(1,2) by simp
next
  case (ps_close c s)
  let ?h = "if bs_permit s then Some (bs_slot s) else None"
  show ?thesis
    using permits_ok_move[OF assms(2), of "CCleaning s" ?h c ?h "po_free st"]
      permits_ok_held[OF assms(2), of c] ps_close by simp
next
  case (ps_cleaned c s d env)
  let ?h = "if bs_permit s then Some (bs_slot s) else None"
  show ?thesis unfolding ps_cleaned(1)
    by (rule permits_ok_move[OF assms(2), where h = ?h and h' = None])
       (use permits_ok_held[OF assms(2), of c] ps_cleaned(2) in
         \<open>auto simp: give_back_def cleanup_releases split: if_splits\<close>)
qed

lemma permits_ok_reach: "pool_reach p st \<Longrightarrow> permits_ok p st"
proof (induction rule: pool_reach.induct)
  case pr_init
  show ?case by (auto simp: permits_ok_def)
next
  case (pr_step st st')
  then show ?case using permits_ok_step by blast
qed

text \<open>C5: However many logins acquire, use, close, drop or abandon sessions of one pool, no two of
  them ever hold the permit of the same browser, a permit that is held is not free, and no permit
  is ever lost: each one is free or held by a client.\<close>

theorem permits_neither_shared_nor_lost:
  "pool_reach p st \<Longrightarrow>
   (\<forall>c d i. client_holds (po_client st c) = Some i \<and> client_holds (po_client st d) = Some i \<longrightarrow> c = d) \<and>
   (\<forall>i < length (bp_slots p). (i \<in> po_free st) \<noteq> (\<exists>c. client_holds (po_client st c) = Some i)) \<and>
   (\<forall>c i. client_holds (po_client st c) = Some i \<longrightarrow> i < length (bp_slots p))"
proof -
  assume "pool_reach p st"
  then have ok: "permits_ok p st" by (rule permits_ok_reach)
  have "i < length (bp_slots p) \<longleftrightarrow> i \<in> po_free st \<or> (\<exists>c. client_holds (po_client st c) = Some i)" for i
    using ok unfolding permits_ok_def by blast
  then show ?thesis using ok unfolding permits_ok_def by blast
qed

theorem permits_neither_shared_nor_lost_witness:
  "\<exists>p st. pool_reach p st \<and> client_holds (po_client st 0) = Some 0 \<and> client_holds (po_client st 1) = None \<and>
     (\<forall>c d i. client_holds (po_client st c) = Some i \<and> client_holds (po_client st d) = Some i \<longrightarrow> c = d)"
proof -
  let ?p = "pool_new [''http://a''] [] 10 5"
  let ?s0 = "\<lparr>po_free = {..<length (bp_slots ?p)}, po_client = (\<lambda>c. CIdle)\<rparr>"
  let ?s1 = "?s0\<lparr>po_client := (po_client ?s0)(0 := CAcquiring (AScan 0 [] []))\<rparr>"
  let ?s2 = "?s1\<lparr>po_free := {..<length (bp_slots ?p)} - {0}, po_client := (po_client ?s1)(0 := CAcquiring (AConnect 0 [] []))\<rparr>"
  have "pool_reach ?p ?s0" by (rule pr_init)
  then have "pool_reach ?p ?s1" by (rule pr_step) (rule ps_start, simp)
  then have r: "pool_reach ?p ?s2"
    by (rule pr_step) (rule ps_acquire [where x = "(0, ANext)"], auto simp: pool_acquire_step_def pool_new_def enumerate_eq_zip)
  have h: "client_holds (po_client ?s2 0) = Some 0 \<and> client_holds (po_client ?s2 1) = None" by simp
  show ?thesis using r h permits_neither_shared_nor_lost[OF r] by blast
qed

section \<open>How long an acquisition takes\<close>

text \<open>One call, while the others change the set of free permits at will.\<close>

inductive acquire_run :: "browser_pool \<Rightarrow> acquire_pc \<Rightarrow> duration \<Rightarrow> acquire_pc \<Rightarrow> bool" for p where
  ar_refl: "acquire_run p pc 0 pc"
| ar_step: "pool_acquire_step p (dt, ev) (free, pc) = Some (free', pc') \<Longrightarrow> acquire_run p pc' t pc'' \<Longrightarrow>
     acquire_run p pc (dt + t) pc''"

text \<open>The time a call may still take.\<close>

fun acquire_left :: "browser_pool \<Rightarrow> acquire_pc \<Rightarrow> duration" where
  "acquire_left p (AScan i errs busy) =
     (length (bp_slots p) - i) * bp_connect_timeout p + bp_acquire_timeout p +
     (if busy = [] then 0 else bp_connect_timeout p)"
| "acquire_left p (AConnect i errs busy) =
     bp_connect_timeout p + (length (bp_slots p) - Suc i) * bp_connect_timeout p + bp_acquire_timeout p +
     (if busy = [] then 0 else bp_connect_timeout p)"
| "acquire_left p (AWait busy) = bp_acquire_timeout p + bp_connect_timeout p"
| "acquire_left p (AWaitConnect i) = bp_connect_timeout p"
| "acquire_left p pc = 0"

lemma scan_one: "i < n \<Longrightarrow> (n - i) * c = c + (n - Suc i) * (c::nat)"
  by (metis Suc_diff_Suc mult_Suc)

lemma pool_acquire_step_left:
  "pool_acquire_step p (dt, ev) (free, pc) = Some (free', pc') \<Longrightarrow> dt + acquire_left p pc' \<le> acquire_left p pc"
  by (auto simp: pool_acquire_step_def scan_end_def scan_one not_le
           split: acquire_pc.splits acquire_input.splits if_splits sum.splits)

lemma acquire_run_left: "acquire_run p pc t pc' \<Longrightarrow> t + acquire_left p pc' \<le> acquire_left p pc"
proof (induction rule: acquire_run.induct)
  case (ar_step dt ev free pc free' pc' t pc'')
  then show ?case using pool_acquire_step_left[OF ar_step(1)] by linarith
qed simp

text \<open>C34: Whatever the other holders of the browsers do, an acquisition lasts at most the acquire
  timeout plus one connection timeout per slot. So the preparation budget that the container
  computes for a login of a container built from a configuration covers an acquisition together
  with the two page operations that follow it.\<close>

theorem acquisition_within_budget:
  "acquire_run p (AScan 0 [] []) t pc \<Longrightarrow>
   t \<le> bp_acquire_timeout p + length (bp_slots p) * bp_connect_timeout p \<and>
   (\<forall>page budget. preparation_timeout (bp_acquire_timeout p) (bp_connect_timeout p) page (length (bp_slots p)) = Some budget \<longrightarrow>
      length (bp_slots p) < 2 ^ 32 \<longrightarrow> length (bp_slots p) * bp_connect_timeout p \<le> dur_max \<longrightarrow> 2 * page \<le> dur_max \<longrightarrow>
      t + 2 * page \<le> budget)"
  using acquire_run_left[of p "AScan 0 [] []" t pc]
  by (auto simp: preparation_timeout_def saturating_mul_def dur_add_def mult.commute min_def
           split: bind_splits if_splits)

theorem acquisition_within_budget_witness:
  "\<exists>p t. acquire_run p (AScan 0 [] []) t (AAcquired 1) \<and>
     t \<le> bp_acquire_timeout p + length (bp_slots p) * bp_connect_timeout p \<and> t = 5 + 10 + 4"
proof -
  let ?p = "pool_new [''http://a'', ''http://b''] [] 10 5"
  have r: "acquire_run ?p (AScan 0 [] []) (0 + (5 + (0 + (0 + (10 + (4 + 0)))))) (AAcquired 1)"
    apply (rule ar_step [where ev = ANext and free = "{0}" and free' = "{}" and pc' = "AConnect 0 [] []"])
     apply (simp add: pool_acquire_step_def pool_new_def)
    apply (rule ar_step [where ev = "AConnDone (Inl (EBrowser ''x''))" and free = "{}" and free' = "{0}"
             and pc' = "AScan 1 [error_to_string (EBrowser ''x'')] []"])
     apply (simp add: pool_acquire_step_def pool_new_def)
    apply (rule ar_step [where ev = ANext and free = "{0}" and free' = "{0}"
             and pc' = "AScan 2 [error_to_string (EBrowser ''x'')] [1]"])
     apply (simp add: pool_acquire_step_def pool_new_def numeral_2_eq_2)
    apply (rule ar_step [where ev = ANext and free = "{0}" and free' = "{0}" and pc' = "AWait [1]"])
     apply (simp add: pool_acquire_step_def pool_new_def scan_end_def)
    apply (rule ar_step [where ev = "AGot 1" and free = "{1}" and free' = "{}" and pc' = "AWaitConnect 1"])
     apply (simp add: pool_acquire_step_def pool_new_def)
    apply (rule ar_step [where ev = "AConnDone (Inr ())" and free = "{}" and free' = "{}" and pc' = "AAcquired 1"])
     apply (simp add: pool_acquire_step_def pool_new_def)
    apply (rule ar_refl)
    done
  then show ?thesis using acquisition_within_budget[OF r] by (intro exI[of _ ?p]) auto
qed

section \<open>Cleanup\<close>

lemma elapsed_timeout: "elapsed (fut_timeout d a) \<le> d"
  using fut_timeout_bound[of d a] by (auto simp: elapsed_def)

lemma pending_target_bounds:
  "pending_target env s = (r, acts, t) \<Longrightarrow>
   t \<le> session_close_timeout \<and> set acts \<subseteq> {AbortCreation} \<and>
   (\<forall>x. r = Some x \<longrightarrow> bs_creating s \<and> (\<exists>u. cl_join env = Some (u, Some x)))"
  using elapsed_timeout[of session_close_timeout "cl_join env"]
  by (auto simp: pending_target_def Let_def fut_timeout_Inr elapsed_def split: if_splits option.splits sum.splits prod.splits)

text \<open>C25: The cleanup of a session always ends, after at most ten seconds and one connection timeout;
  it gives the permit back once, as its last action, so the next login finds the browser only after
  the tab was dealt with. It asks to close no tab but the one the session created: the page it
  owns, or the one whose creation was still running; and it does ask to close the owned tab when
  the session is connected, or when it can connect again in time.\<close>

theorem cleanup_closes_own_tab_first:
  "cleanup_session d env s = (res, acts, t) \<Longrightarrow>
   t \<le> 2 * session_close_timeout + d \<and>
   (bs_permit s \<longrightarrow> (\<exists>before. acts = before @ [ReleasePermit] \<and> ReleasePermit \<notin> set before)) \<and>
   (\<forall>x. CloseTarget x \<in> set acts \<longrightarrow>
      bs_target s = Some x \<or> bs_target s = None \<and> bs_creating s \<and> (\<exists>u. cl_join env = Some (u, Some x))) \<and>
   (\<forall>x. bs_target s = Some x \<longrightarrow>
      bs_connected s \<or> (\<exists>u \<le> d. cl_attempt env x = Some (u, Inr ())) \<longrightarrow> CloseTarget x \<in> set acts)"
proof -
  assume run: "cleanup_session d env s = (res, acts, t)"
  obtain r a1 t1 where p: "pending_target env s = (r, a1, t1)" by (cases "pending_target env s")
  note b = pending_target_bounds[OF p]
  have close: "elapsed (fut_timeout session_close_timeout (cl_close env x)) \<le> session_close_timeout"
    and attempt: "elapsed (fut_timeout d (cl_attempt env x)) \<le> d" for x
    by (rule elapsed_timeout)+
  have reopen: "cl_attempt env x = Some (u, Inr ()) \<Longrightarrow> u \<le> d \<Longrightarrow>
      fut_timeout d (cl_attempt env x) = Some (u, Inr (Inr ()))" for u x
    by (simp add: fut_timeout_Inr)
  show ?thesis
  proof (cases "case bs_target s of Some x \<Rightarrow> Some x | None \<Rightarrow> r")
    case None
    then show ?thesis using run p b
      by (auto simp: cleanup_session_def Let_def split: option.splits if_splits)
  next
    case (Some x)
    then show ?thesis using run p b close[of x] attempt[of x] reopen[of x]
      by (auto simp: cleanup_session_def Let_def elapsed_def split: option.splits if_splits sum.splits prod.splits)
  qed
qed

theorem cleanup_closes_own_tab_first_witness:
  "\<exists>env s res acts t. cleanup_session 5 env s = (res, acts, t) \<and> bs_target s = Some ''T1'' \<and> \<not> bs_connected s \<and>
     acts = [OpenConnection ''T1'', CloseTarget ''T1'', ShutdownConnection, ReleasePermit] \<and>
     t \<le> 2 * session_close_timeout + 5"
proof -
  let ?env = "\<lparr>cl_join = None, cl_attempt = (\<lambda>x. Some (3, Inr ())), cl_close = (\<lambda>x. Some (2, Inr ()))\<rparr>"
  let ?s = "\<lparr>bs_slot = 0, bs_connected = False, bs_target = Some ''T1'', bs_creating = False, bs_permit = True\<rparr>"
  have r: "cleanup_session 5 ?env ?s =
      (Inr (), [OpenConnection ''T1'', CloseTarget ''T1'', ShutdownConnection, ReleasePermit], 5)"
    by (simp add: cleanup_session_def pending_target_def fut_timeout_def fut_map_def select2_def
        session_close_timeout_def from_secs_def Let_def)
  then show ?thesis using cleanup_closes_own_tab_first[OF r] by (intro exI[of _ ?env] exI[of _ ?s]) auto
qed

section \<open>Readiness of tabs\<close>

lemma wait_ready_ends:
  assumes quick: "\<And>n. snd (probe t n) \<le> g"
  shows "\<exists>e. wait_ready probe False deadline t now = Some e \<and> now \<le> e \<and> e \<le> max now (deadline + target_ready_retry_interval) + g"
proof (induction "deadline - now" arbitrary: now rule: less_induct)
  case less
  obtain r d where pr: "probe t now = (r, d)" by (cases "probe t now")
  then have d: "d \<le> g" using quick[of now] by simp
  show ?case
  proof (cases "r \<or> deadline \<le> now + d")
    case True
    then show ?thesis using pr d by (subst wait_ready.simps) auto
  next
    case False
    let ?n = "now + d + target_ready_retry_interval"
    have pos: "0 < target_ready_retry_interval" by (simp add: target_ready_retry_interval_def from_millis_def)
    then have "deadline - ?n < deadline - now" using False by (intro diff_less_mono2) auto
    from less[OF this] obtain e where e: "wait_ready probe False deadline t ?n = Some e" "?n \<le> e"
      "e \<le> max ?n (deadline + target_ready_retry_interval) + g" by blast
    have "wait_ready probe False deadline t now = Some e"
      using e(1) pr False by (subst wait_ready.simps) simp
    then show ?thesis using e(2,3) False by auto
  qed
qed

text \<open>Waiting for tabs a login does not own always ends and shares one budget of a second: with
  every probe answered within \<open>g\<close>, \<open>n\<close> tabs cost the budget, one retry interval and \<open>n\<close> probes,
  not \<open>n\<close> budgets; a single unresponsive tab cannot consume a browser's whole connection timeout.\<close>

theorem unrelated_tabs_share_one_budget:
  "(\<And>t n. snd (probe t n) \<le> g) \<Longrightarrow>
   \<exists>e. wait_targets probe False (now + target_ready_budget) ts now = Some e \<and>
       e \<le> now + target_ready_budget + target_ready_retry_interval + length ts * g"
proof -
  assume quick: "\<And>t n. snd (probe t n) \<le> g"
  let ?dl = "now + target_ready_budget"
  have "\<exists>e. wait_targets probe False ?dl ts s = Some e \<and> e \<le> max s (?dl + target_ready_retry_interval) + length ts * g" for s
  proof (induction ts arbitrary: s)
    case (Cons x xs)
    obtain m where m: "wait_ready probe False ?dl x s = Some m" "m \<le> max s (?dl + target_ready_retry_interval) + g"
      using wait_ready_ends[of probe x g ?dl s] quick by blast
    obtain e where "wait_targets probe False ?dl xs m = Some e" "e \<le> max m (?dl + target_ready_retry_interval) + length xs * g"
      using Cons.IH[of m] by blast
    then show ?case using m by auto
  qed simp
  from this[of now] show ?thesis by auto
qed

theorem unrelated_tabs_share_one_budget_witness:
  "\<exists>e. wait_targets (\<lambda>t n. (t = ''page'', 7)) False (0 + target_ready_budget) [''stuck'', ''page''] 0 = Some e \<and>
       e \<le> 0 + target_ready_budget + target_ready_retry_interval + length [''stuck'', ''page''] * 7"
  by (rule unrelated_tabs_share_one_budget) simp

end
