(* ===== verification/Grpc.thy ===== *)
theory Grpc
  imports Pool_Props
begin

text \<open>
  The gRPC services of \<open>imauth-server/src/grpc.rs\<close> on the use cases of the core: the messages of
  \<open>proto/imauth/v1\<close>, the conversions between them and the domain, the error mapping, every handler,
  and the login service with its capacity semaphore. A handler returns the status it fails with or
  its reply, together with the database it leaves behind. \<open>tonic\<close> and \<open>prost\<close> carry the messages.
\<close>

section \<open>Messages\<close>

datatype proto_platform =
  PpUnspecified | PpInstagram | PpThreads | PpNaver | PpNovelpia | PpMunpia

fun proto_platform_code :: "proto_platform \<Rightarrow> int" where
  "proto_platform_code PpUnspecified = 0"
| "proto_platform_code PpInstagram = 1"
| "proto_platform_code PpThreads = 2"
| "proto_platform_code PpNaver = 3"
| "proto_platform_code PpNovelpia = 4"
| "proto_platform_code PpMunpia = 5"

definition proto_platform_try_from :: "int \<Rightarrow> proto_platform option" where
  "proto_platform_try_from n =
     find (\<lambda>p. proto_platform_code p = n)
       [PpUnspecified, PpInstagram, PpThreads, PpNaver, PpNovelpia, PpMunpia]"

datatype proto_status =
    PsUnspecified | PsIdle | PsLoading | PsAuthenticating | PsWaitingForUser | PsConnected | PsFailed

fun proto_status_code :: "proto_status \<Rightarrow> int" where
  "proto_status_code PsUnspecified = 0"
| "proto_status_code PsIdle = 1"
| "proto_status_code PsLoading = 2"
| "proto_status_code PsAuthenticating = 3"
| "proto_status_code PsWaitingForUser = 4"
| "proto_status_code PsConnected = 7"
| "proto_status_code PsFailed = 8"

definition proto_status_try_from :: "int \<Rightarrow> proto_status option" where
  "proto_status_try_from n =
     find (\<lambda>p. proto_status_code p = n)
       [PsUnspecified, PsIdle, PsLoading, PsAuthenticating, PsWaitingForUser, PsConnected, PsFailed]"

record proto_cookie =
  pk_name :: string
  pk_value :: string
  pk_domain :: string
  pk_path :: string
  pk_expires :: int
  pk_http_only :: bool
  pk_secure :: bool

record auth_event =
  ae_session_id :: string
  ae_status :: int
  ae_message :: string
  ae_requires_input :: bool
  ae_input_type :: string
  ae_cookies :: "proto_cookie list"
  ae_viewer_url :: string

record auth_status_response =
  ar_session_id :: string
  ar_status :: int
  ar_message :: string
  ar_requires_input :: bool
  ar_input_type :: string

record auth_response =
  au_success :: bool
  au_session_id :: string
  au_message :: string
  au_cookies :: "proto_cookie list"

record validation_result =
  vr_valid :: bool
  vr_expires_at :: int
  vr_session_cookie_name :: string

record credential_info =
  ci_platform :: int
  ci_username :: string
  ci_has_password :: bool
  ci_twofa_method :: string

record credential_response =
  cp_success :: bool
  cp_platform :: int
  cp_username :: string

datatype grpc_code = GNotFound | GInvalidArgument | GInternal | GResourceExhausted | GUnauthenticated

record grpc_status =
  gs_code :: grpc_code
  gs_message :: string

type_synonym 'a reply = "grpc_status + 'a"

abbreviation status_of :: "grpc_code \<Rightarrow> string \<Rightarrow> grpc_status" where
  "status_of c m \<equiv> \<lparr>gs_code = c, gs_message = m\<rparr>"

section \<open>Conversions\<close>

definition map_auth_err :: "imauth_error \<Rightarrow> grpc_status" where
  "map_auth_err e =
     (case e of
        ENotFound m \<Rightarrow> status_of GNotFound m
      | EPlatform m \<Rightarrow> status_of GInvalidArgument m
      | _ \<Rightarrow> status_of GInternal ''Internal server error'')"

definition platform_from_proto :: "int \<Rightarrow> platform reply" where
  "platform_from_proto n =
     (case (case proto_platform_try_from n of None \<Rightarrow> PpUnspecified | Some p \<Rightarrow> p) of
        PpInstagram \<Rightarrow> Inr Instagram
      | PpThreads \<Rightarrow> Inr Threads
      | PpNaver \<Rightarrow> Inr Naver
      | PpNovelpia \<Rightarrow> Inr Novelpia
      | PpMunpia \<Rightarrow> Inr Munpia
      | PpUnspecified \<Rightarrow> Inl (status_of GInvalidArgument ''Unknown platform''))"

fun session_state_to_proto :: "session_state \<Rightarrow> proto_status" where
  "session_state_to_proto Idle = PsIdle"
| "session_state_to_proto Loading = PsLoading"
| "session_state_to_proto Authenticating = PsAuthenticating"
| "session_state_to_proto WaitingForUser = PsWaitingForUser"
| "session_state_to_proto Connected = PsConnected"
| "session_state_to_proto Failed = PsFailed"

definition unwrap_or_default :: "string option \<Rightarrow> string" where
  "unwrap_or_default m = (case m of None \<Rightarrow> [] | Some s \<Rightarrow> s)"

definition cookie_to_proto :: "cookie \<Rightarrow> proto_cookie" where
  "cookie_to_proto c =
     \<lparr>pk_name = ck_name c, pk_value = ck_value c, pk_domain = ck_domain c, pk_path = ck_path c,
      pk_expires = (case ck_expires c of None \<Rightarrow> 0 | Some t \<Rightarrow> timestamp t),
      pk_http_only = ck_http_only c, pk_secure = ck_secure c\<rparr>"

definition proto_cookie_from :: "(int \<Rightarrow> datetime option) \<Rightarrow> proto_cookie \<Rightarrow> cookie" where
  "proto_cookie_from fts c =
     \<lparr>ck_name = pk_name c, ck_value = pk_value c, ck_domain = pk_domain c, ck_path = pk_path c,
      ck_expires = (if pk_expires c = 0 then None else fts (pk_expires c)),
      ck_http_only = pk_http_only c, ck_secure = pk_secure c\<rparr>"

definition auth_event_from :: "session \<Rightarrow> auth_event" where
  "auth_event_from s =
     \<lparr>ae_session_id = ss_id s, ae_status = proto_status_code (session_state_to_proto (ss_state s)),
      ae_message = unwrap_or_default (ss_message s), ae_requires_input = ss_requires_input s,
      ae_input_type = unwrap_or_default (ss_input_type s), ae_cookies = [], ae_viewer_url = []\<rparr>"

text \<open>The stream's mapping of the events of a login.\<close>

definition event_to_proto :: "login_event \<Rightarrow> auth_event" where
  "event_to_proto e =
     (case e of
        LeStarted s \<Rightarrow> (auth_event_from s)\<lparr>ae_cookies := [], ae_viewer_url := []\<rparr>
      | LeWaitingForUser s url \<Rightarrow> (auth_event_from s)\<lparr>ae_cookies := [], ae_viewer_url := url\<rparr>
      | LeFinal s cs \<Rightarrow> (auth_event_from s)\<lparr>ae_cookies := map cookie_to_proto cs, ae_viewer_url := []\<rparr>)"

section \<open>The login service\<close>

text \<open>
  The semaphore of \<open>AuthGrpcService\<close> and the logins that hold a permit of it, by number. A login
  runs in a task of its own and gives its permit back when \<open>execute\<close> returns, whatever became of
  the client's stream. \<open>max_permits\<close> is tokio's \<open>Semaphore::MAX_PERMITS\<close>.
\<close>

record auth_service =
  as_permits :: nat
  as_tasks :: "(nat \<times> platform) list"
  as_next :: nat

definition usize_saturating_add :: "nat \<Rightarrow> nat \<Rightarrow> nat" where
  "usize_saturating_add a b = min (a + b) (2 ^ 64 - 1)"

definition login_capacity :: "nat \<Rightarrow> config \<Rightarrow> nat" where
  "login_capacity max_permits cfg =
     min (usize_saturating_add (length (cdp_urls cfg)) (unat (bc_max_pending_logins (cf_browser cfg)))) max_permits"

definition auth_service_new :: "nat \<Rightarrow> config \<Rightarrow> auth_service" where
  "auth_service_new max_permits cfg =
     \<lparr>as_permits = login_capacity max_permits cfg, as_tasks = [], as_next = 0\<rparr>"

definition grpc_login :: "int \<Rightarrow> auth_service \<Rightarrow> nat reply \<times> auth_service" where
  "grpc_login platform sv =
     (case platform_from_proto platform of
        Inl st \<Rightarrow> (Inl st, sv)
      | Inr p \<Rightarrow>
          if as_permits sv = 0
          then (Inl (status_of GResourceExhausted
                  ''Login capacity reached; retry after an active login finishes''), sv)
          else (Inr (as_next sv),
                sv\<lparr>as_permits := as_permits sv - 1, as_tasks := (as_next sv, p) # as_tasks sv,
                   as_next := Suc (as_next sv)\<rparr>))"

definition login_task_ends :: "nat \<Rightarrow> auth_service \<Rightarrow> auth_service" where
  "login_task_ends t sv =
     (if t \<in> fst ` set (as_tasks sv)
      then sv\<lparr>as_permits := Suc (as_permits sv), as_tasks := filter (\<lambda>x. fst x \<noteq> t) (as_tasks sv)\<rparr>
      else sv)"

section \<open>The other handlers\<close>

definition to_reply :: "'a result \<Rightarrow> 'a reply" where
  "to_reply r = map_err map_auth_err r"

definition grpc_get_status ::
  "(int \<Rightarrow> datetime option) \<Rightarrow> string option \<Rightarrow> string \<Rightarrow> db \<Rightarrow> auth_status_response reply" where
  "grpc_get_status fts flt i db =
     res_bind (to_reply (get_status (session_get fts) flt i db)) (\<lambda>s.
       Inr \<lparr>ar_session_id = ss_id s, ar_status = proto_status_code (session_state_to_proto (ss_state s)),
            ar_message = unwrap_or_default (ss_message s), ar_requires_input = ss_requires_input s,
            ar_input_type = unwrap_or_default (ss_input_type s)\<rparr>)"

definition grpc_cancel :: "string option \<Rightarrow> string \<Rightarrow> db \<Rightarrow> auth_response reply \<times> db" where
  "grpc_cancel flt i db =
     (case cancel_session session_delete flt i db of
        (r, db') \<Rightarrow>
          (res_bind (to_reply r) (\<lambda>u.
             Inr \<lparr>au_success = True, au_session_id = i, au_message = ''Session cancelled'', au_cookies = []\<rparr>), db'))"

definition grpc_get_cookies ::
  "cookie_repo \<Rightarrow> call_env \<Rightarrow> int \<Rightarrow> string list \<Rightarrow> db \<Rightarrow> proto_cookie list reply \<times> db" where
  "grpc_get_cookies rp e platform domains db =
     (case platform_from_proto platform of
        Inl st \<Rightarrow> (Inl st, db)
      | Inr p \<Rightarrow>
          (case get_cookies (cookie_get rp) e p (if domains = [] then None else Some domains) db of
             (r, db') \<Rightarrow> (res_bind (to_reply r) (\<lambda>cs. Inr (map cookie_to_proto cs)), db')))"

text \<open>The second environment is that of the read after the update.\<close>

definition grpc_update_cookies ::
  "cookie_repo \<Rightarrow> call_env \<Rightarrow> call_env \<Rightarrow> int \<Rightarrow> proto_cookie list \<Rightarrow> db \<Rightarrow> proto_cookie list reply \<times> db" where
  "grpc_update_cookies rp e e2 platform cookies db =
     (case platform_from_proto platform of
        Inl st \<Rightarrow> (Inl st, db)
      | Inr p \<Rightarrow>
          (case update_cookies (cookie_save rp) e p (map (proto_cookie_from (rp_from_timestamp rp)) cookies) db of
             (Inl x, db') \<Rightarrow> (Inl (map_auth_err x), db')
           | (Inr u, db') \<Rightarrow>
               (case get_cookies (cookie_get rp) e2 p None db' of
                  (r, db'') \<Rightarrow> (res_bind (to_reply r) (\<lambda>cs. Inr (map cookie_to_proto cs)), db''))))"

definition grpc_export_netscape :: "cookie_repo \<Rightarrow> call_env \<Rightarrow> int \<Rightarrow> db \<Rightarrow> string reply \<times> db" where
  "grpc_export_netscape rp e platform db =
     (case platform_from_proto platform of
        Inl st \<Rightarrow> (Inl st, db)
      | Inr p \<Rightarrow> (case export_netscape (cookie_export_netscape rp) e p db of (r, db') \<Rightarrow> (to_reply r, db')))"

definition grpc_validate_session ::
  "cookie_repo \<Rightarrow> datetime \<Rightarrow> call_env \<Rightarrow> int \<Rightarrow> db \<Rightarrow> validation_result reply \<times> db" where
  "grpc_validate_session rp now e platform db =
     (case platform_from_proto platform of
        Inl st \<Rightarrow> (Inl st, db)
      | Inr p \<Rightarrow>
          (case validate_session (cookie_get rp) now e p db of
             (r, db') \<Rightarrow>
               (res_bind (to_reply r) (\<lambda>v.
                  Inr \<lparr>vr_valid = vo_valid v, vr_expires_at = vo_expires_at v,
                       vr_session_cookie_name = session_cookie_name p\<rparr>), db')))"

definition grpc_get_connection_status ::
  "cookie_repo \<Rightarrow> datetime \<Rightarrow> (platform \<Rightarrow> call_env) \<Rightarrow> platform list \<Rightarrow> db \<Rightarrow> (string \<rightharpoonup> bool) reply \<times> db" where
  "grpc_get_connection_status rp now env ps db =
     (case get_connection_status (cookie_get rp) now env ps db of (r, db') \<Rightarrow> (to_reply r, db'))"

definition grpc_save_credential ::
  "cookie_repo \<Rightarrow> call_env \<Rightarrow> int \<Rightarrow> string \<Rightarrow> string \<Rightarrow> string \<Rightarrow> db \<Rightarrow> credential_response reply \<times> db" where
  "grpc_save_credential rp e platform username password twofa db =
     (case platform_from_proto platform of
        Inl st \<Rightarrow> (Inl st, db)
      | Inr p \<Rightarrow>
          (case save_credential (credential_save rp) e p username password
                  (if twofa = [] then None else Some twofa) db of
             (r, db') \<Rightarrow>
               (res_bind (to_reply r) (\<lambda>u.
                  Inr \<lparr>cp_success = True, cp_platform = platform, cp_username = username\<rparr>), db')))"

definition grpc_get_credential :: "call_env \<Rightarrow> int \<Rightarrow> db \<Rightarrow> credential_info reply" where
  "grpc_get_credential e platform db =
     res_bind (platform_from_proto platform) (\<lambda>p.
       res_bind (to_reply (get_credential credential_get e p db)) (\<lambda>cred.
         case cred of
           Some c \<Rightarrow> Inr \<lparr>ci_platform = platform, ci_username = cr_username c,
                        ci_has_password = (cr_password_encrypted c \<noteq> []),
                        ci_twofa_method = unwrap_or_default (cr_twofa_method c)\<rparr>
         | None \<Rightarrow> Inl (status_of GNotFound ''Credential not found'')))"

definition grpc_delete_credential :: "call_env \<Rightarrow> int \<Rightarrow> db \<Rightarrow> credential_response reply \<times> db" where
  "grpc_delete_credential e platform db =
     (case platform_from_proto platform of
        Inl st \<Rightarrow> (Inl st, db)
      | Inr p \<Rightarrow>
          (case delete_credential credential_delete e p db of
             (r, db') \<Rightarrow>
               (res_bind (to_reply r) (\<lambda>u.
                  Inr \<lparr>cp_success = True, cp_platform = platform, cp_username = []\<rparr>), db')))"

end
