(* ===== verification/Grpc_Props.thy ===== *)
theory Grpc_Props
  imports Grpc
begin

text \<open>
  The properties of the gRPC services: the capacity semaphore counts the running logins exactly,
  no error status of a handler tells a client what failed inside, an updated cookie comes back in the reply as it was
  sent, and the event stream of a login on the wire.
\<close>

section \<open>Capacity\<close>

datatype service_event = SvLogin int | SvTaskEnds nat

fun service_step :: "service_event \<Rightarrow> auth_service \<Rightarrow> auth_service" where
  "service_step (SvLogin n) sv = snd (grpc_login n sv)"
| "service_step (SvTaskEnds t) sv = login_task_ends t sv"

definition service_inv :: "nat \<Rightarrow> auth_service \<Rightarrow> bool" where
  "service_inv cap sv \<longleftrightarrow>
     length (as_tasks sv) + as_permits sv = cap \<and> distinct (map fst (as_tasks sv)) \<and>
     (\<forall>t\<in>set (map fst (as_tasks sv)). t < as_next sv)"

lemma filter_distinct_key:
  "distinct (map fst xs) \<Longrightarrow> t \<in> fst ` set xs \<Longrightarrow> Suc (length (filter (\<lambda>x. fst x \<noteq> t) xs)) = length xs"
proof (induction xs)
  case (Cons a xs)
  show ?case
  proof (cases "fst a = t")
    case True
    with Cons.prems have "filter (\<lambda>x. fst x \<noteq> t) xs = xs" by (intro filter_True) (force simp: image_iff)
    with True show ?thesis by simp
  qed (use Cons in auto)
qed simp

lemma service_inv_step: "service_inv cap sv \<Longrightarrow> service_inv cap (service_step ev sv)"
proof (cases ev)
  case (SvLogin n)
  assume "service_inv cap sv"
  with SvLogin show ?thesis
    by (auto simp: service_inv_def grpc_login_def less_Suc_eq split: sum.splits if_splits)
next
  case (SvTaskEnds t)
  assume inv: "service_inv cap sv"
  show ?thesis
  proof (cases "t \<in> fst ` set (as_tasks sv)")
    case True
    with inv SvTaskEnds filter_distinct_key[of "as_tasks sv" t] show ?thesis
      by (auto simp: service_inv_def login_task_ends_def distinct_map_filter)
  qed (use inv SvTaskEnds in \<open>simp add: login_task_ends_def\<close>)
qed

lemma service_inv_run: "service_inv cap sv \<Longrightarrow> service_inv cap (fold service_step evs sv)"
  by (induction evs arbitrary: sv) (auto intro: service_inv_step)

lemma service_inv_new: "service_inv (login_capacity mp cfg) (auth_service_new mp cfg)"
  by (simp add: service_inv_def auth_service_new_def)

text \<open>C6: The login service runs at most its capacity of logins at a time, the browsers plus the pending
  logins allowed, and the semaphore counts them exactly: after any sequence of requests and ends of
  tasks, a request for a known platform is refused if and only if that many logins are running,
  and then with RESOURCE_EXHAUSTED and without effect.\<close>

theorem login_capacity_is_exact:
  assumes "platform_from_proto n = Inr p" "sv = fold service_step evs (auth_service_new mp cfg)"
  shows "length (as_tasks sv) \<le> login_capacity mp cfg \<and>
         (case grpc_login n sv of
            (Inl st, sv') \<Rightarrow> gs_code st = GResourceExhausted \<and> sv' = sv \<and>
                            length (as_tasks sv) = login_capacity mp cfg
          | (Inr t, sv') \<Rightarrow> length (as_tasks sv) < login_capacity mp cfg \<and>
                            as_tasks sv' = (t, p) # as_tasks sv \<and> t \<notin> fst ` set (as_tasks sv))"
proof -
  have "service_inv (login_capacity mp cfg) sv"
    unfolding assms(2) by (rule service_inv_run [OF service_inv_new])
  then show ?thesis using assms(1)
    by (auto simp: service_inv_def grpc_login_def)
qed

theorem login_capacity_is_exact_witness:
  "let cfg = config_default None;
       sv = fold service_step [SvLogin 3, SvLogin 5, SvTaskEnds 0] (auth_service_new 1000 cfg)
   in platform_from_proto 3 = Inr Naver \<and> length (as_tasks sv) \<le> login_capacity 1000 cfg"
proof -
  have p: "platform_from_proto 3 = Inr Naver" by code_simp
  show ?thesis unfolding Let_def
    using login_capacity_is_exact[OF p refl, of "[SvLogin 3, SvLogin 5, SvTaskEnds 0]" 1000 "config_default None"] p
    by blast
qed

section \<open>Errors\<close>

fun opaque_error :: "imauth_error \<Rightarrow> bool" where
  "opaque_error (ENotFound m) = False"
| "opaque_error (EPlatform m) = False"
| "opaque_error e = True"

lemma map_auth_err_opaque: "opaque_error x \<Longrightarrow> map_auth_err x = status_of GInternal ''Internal server error''"
  by (cases x) (simp_all add: map_auth_err_def)

named_theorems opaque

lemma error_of_opaque [simp]:
  "opaque_error (error_of_sqlx m)" "opaque_error (error_of_aead m)" "opaque_error (error_of_base64 m)"
  by (simp_all add: error_of_sqlx_def error_of_aead_def error_of_base64_def)

lemma base64_any_opaque: "base64_any cr s = Inl x \<Longrightarrow> opaque_error x"
  by (auto simp: base64_any_def map_err_Inl_iff)

lemma aes_opaque [opaque]:
  "aes_svc_encrypt s n p = Inl x \<Longrightarrow> opaque_error x"
  "aes_svc_decrypt s c = Inl x \<Longrightarrow> opaque_error x"
  by (auto simp: aes_svc_encrypt_def aes_svc_decrypt_def aes_encrypt_def aes_decrypt_def res_bind_Inl_iff
      map_err_Inl_iff dest: base64_any_opaque split: if_splits option.splits)

lemma repo_opaque [opaque]:
  "rp_encrypt (sqlite_repo s fts) n p = Inl x \<Longrightarrow> opaque_error x"
  "rp_decrypt (sqlite_repo s fts) c = Inl x \<Longrightarrow> opaque_error x"
  by (auto simp: sqlite_repo_def dest: aes_opaque)

lemma save_cookies_opaque [opaque]:
  "save_cookies_in_transaction (sqlite_repo s fts) e p i cs rows = Inl x \<Longrightarrow> opaque_error x"
  by (induction cs arbitrary: i rows) (auto simp: res_bind_Inl_iff dest: opaque split: option.splits)

lemma cookie_save_opaque [opaque]: "cookie_save (sqlite_repo s fts) e p cs db = (Inl x, db') \<Longrightarrow> opaque_error x"
  by (auto simp: cookie_save_def dest: opaque split: option.splits sum.splits if_splits)

lemma cookie_from_row_opaque [opaque]:
  "cookie_from_row (sqlite_repo s fts) e p i r db = (Inl x, db') \<Longrightarrow> opaque_error x"
  by (auto simp: cookie_from_row_def migrate_plaintext_def res_bind_Inl_iff dest: opaque
      split: option.splits sum.splits prod.splits)

lemma read_rows_opaque [opaque]:
  "read_rows (sqlite_repo s fts) e p i rs db = (Inl x, db') \<Longrightarrow> opaque_error x"
  by (induction rs arbitrary: i db x db') (auto dest: opaque split: sum.splits prod.splits)

lemma cookie_get_opaque [opaque]:
  "cookie_get (sqlite_repo s fts) e p ds db = (Inl x, db') \<Longrightarrow> opaque_error x"
  by (auto simp: cookie_get_def dest: opaque split: option.splits if_splits)

lemma fetch_all_opaque [opaque]:
  "fetch_all (cookie_get (sqlite_repo s fts)) env ps db = (Inl x, db') \<Longrightarrow> opaque_error x"
  by (induction ps arbitrary: db x db') (auto dest: opaque split: sum.splits prod.splits)

lemma session_get_opaque [opaque]: "session_get fts flt i db = Inl x \<Longrightarrow> opaque_error x"
  by (auto simp: session_get_def session_of_row_def res_bind_Inl_iff map_err_Inl_iff split: option.splits)

lemma credential_opaque [opaque]:
  "credential_save (sqlite_repo s fts) e p u pw m db = (Inl x, db') \<Longrightarrow> opaque_error x"
  "credential_get e p db = Inl x \<Longrightarrow> opaque_error x"
  "credential_delete e p db = (Inl x, db') \<Longrightarrow> opaque_error x"
  by (auto simp: credential_save_def credential_get_def credential_delete_def dest: opaque
      split: option.splits sum.splits)

text \<open>The statuses a client can see.\<close>

definition public_statuses :: "grpc_status set" where
  "public_statuses =
     {status_of GInvalidArgument ''Unknown platform'',
      status_of GResourceExhausted ''Login capacity reached; retry after an active login finishes'',
      status_of GNotFound ''Session not found'',
      status_of GNotFound ''Credential not found'', status_of GInternal ''Internal server error''}"

lemma public_internal: "opaque_error x \<Longrightarrow> map_auth_err x \<in> public_statuses"
  by (simp add: map_auth_err_opaque public_statuses_def)

lemma platform_from_proto_public: "platform_from_proto n = Inl st \<Longrightarrow> st \<in> public_statuses"
  by (auto simp: platform_from_proto_def public_statuses_def split: option.splits proto_platform.splits)

lemmas handler_defs =
  to_reply_def res_bind_Inl_iff map_err_Inl_iff get_status_def cancel_session_def session_delete_def
  get_cookies_def update_cookies_def export_netscape_def validate_session_def get_connection_status_def
  save_credential_def get_credential_def delete_credential_def cookie_export_netscape_def

text \<open>C10: The error statuses of the handlers tell a client nothing of what went wrong inside. Whatever
  fails in the database, the encryption or the stored data, an error status of a handler is one of five
  fixed texts; the only errors passed on by name are an unknown platform, no capacity for a login, a
  missing session and a missing credential. (It is about error statuses only: a reply can carry the
  message of a session, and \<open>failure_text_reaches_client\<close> shows what that gives away.)\<close>

theorem grpc_errors_are_redacted:
  "(case fst (grpc_login n sv) of Inl st \<Rightarrow> st \<in> public_statuses | Inr _ \<Rightarrow> True) \<and>
   (case grpc_get_status fts flt i db of Inl st \<Rightarrow> st \<in> public_statuses | Inr _ \<Rightarrow> True) \<and>
   (case fst (grpc_cancel flt i db) of Inl st \<Rightarrow> st \<in> public_statuses | Inr _ \<Rightarrow> True) \<and>
   (case fst (grpc_get_cookies (sqlite_repo s fts) e n ds db) of Inl st \<Rightarrow> st \<in> public_statuses | Inr _ \<Rightarrow> True) \<and>
   (case fst (grpc_update_cookies (sqlite_repo s fts) e e2 n cs db) of Inl st \<Rightarrow> st \<in> public_statuses | Inr _ \<Rightarrow> True) \<and>
   (case fst (grpc_export_netscape (sqlite_repo s fts) e n db) of Inl st \<Rightarrow> st \<in> public_statuses | Inr _ \<Rightarrow> True) \<and>
   (case fst (grpc_validate_session (sqlite_repo s fts) now e n db) of Inl st \<Rightarrow> st \<in> public_statuses | Inr _ \<Rightarrow> True) \<and>
   (case fst (grpc_get_connection_status (sqlite_repo s fts) now env ps db) of Inl st \<Rightarrow> st \<in> public_statuses | Inr _ \<Rightarrow> True) \<and>
   (case fst (grpc_save_credential (sqlite_repo s fts) e n u pw tf db) of Inl st \<Rightarrow> st \<in> public_statuses | Inr _ \<Rightarrow> True) \<and>
   (case grpc_get_credential e n db of Inl st \<Rightarrow> st \<in> public_statuses | Inr _ \<Rightarrow> True) \<and>
   (case fst (grpc_delete_credential e n db) of Inl st \<Rightarrow> st \<in> public_statuses | Inr _ \<Rightarrow> True)"
proof (intro conjI)
  show "case fst (grpc_login n sv) of Inl st \<Rightarrow> st \<in> public_statuses | Inr _ \<Rightarrow> True"
    by (auto simp: grpc_login_def platform_from_proto_public split: sum.splits) (simp add: public_statuses_def)
  have nf: "map_auth_err (ENotFound ''Session not found'') \<in> public_statuses"
    by (simp add: map_auth_err_def public_statuses_def)
  have nc: "status_of GNotFound ''Credential not found'' \<in> public_statuses" by (simp add: public_statuses_def)
  show "(case grpc_get_status fts flt i db of Inl st \<Rightarrow> st \<in> public_statuses | Inr _ \<Rightarrow> True)"
    using nf by (auto simp: grpc_get_status_def handler_defs intro: public_internal dest: opaque split: sum.splits option.splits)
  show "case fst (grpc_cancel flt i db) of Inl st \<Rightarrow> st \<in> public_statuses | Inr _ \<Rightarrow> True"
    by (auto simp: grpc_cancel_def handler_defs intro: public_internal dest: opaque split: sum.splits option.splits prod.splits)
  show "case fst (grpc_get_cookies (sqlite_repo s fts) e n ds db) of Inl st \<Rightarrow> st \<in> public_statuses | Inr _ \<Rightarrow> True"
    by (auto simp: grpc_get_cookies_def handler_defs intro: public_internal dest: opaque platform_from_proto_public split: sum.splits prod.splits)
  show "case fst (grpc_update_cookies (sqlite_repo s fts) e e2 n cs db) of Inl st \<Rightarrow> st \<in> public_statuses | Inr _ \<Rightarrow> True"
    by (auto simp: grpc_update_cookies_def handler_defs intro: public_internal dest: opaque platform_from_proto_public split: sum.splits prod.splits)
  show "case fst (grpc_export_netscape (sqlite_repo s fts) e n db) of Inl st \<Rightarrow> st \<in> public_statuses | Inr _ \<Rightarrow> True"
    by (auto simp: grpc_export_netscape_def handler_defs intro: public_internal dest: opaque platform_from_proto_public split: sum.splits prod.splits)
  show "case fst (grpc_validate_session (sqlite_repo s fts) now e n db) of Inl st \<Rightarrow> st \<in> public_statuses | Inr _ \<Rightarrow> True"
    by (auto simp: grpc_validate_session_def handler_defs intro: public_internal dest: opaque platform_from_proto_public split: sum.splits prod.splits)
  show "case fst (grpc_get_connection_status (sqlite_repo s fts) now env ps db) of Inl st \<Rightarrow> st \<in> public_statuses | Inr _ \<Rightarrow> True"
    by (auto simp: grpc_get_connection_status_def handler_defs intro: public_internal dest: opaque split: sum.splits prod.splits)
  show "case fst (grpc_save_credential (sqlite_repo s fts) e n u pw tf db) of Inl st \<Rightarrow> st \<in> public_statuses | Inr _ \<Rightarrow> True"
    by (auto simp: grpc_save_credential_def handler_defs intro: public_internal dest: opaque platform_from_proto_public split: sum.splits prod.splits)
  show "case grpc_get_credential e n db of Inl st \<Rightarrow> st \<in> public_statuses | Inr _ \<Rightarrow> True"
    using nc by (auto simp: grpc_get_credential_def handler_defs intro: public_internal dest: opaque platform_from_proto_public split: sum.splits option.splits)
  show "case fst (grpc_delete_credential e n db) of Inl st \<Rightarrow> st \<in> public_statuses | Inr _ \<Rightarrow> True"
    by (auto simp: grpc_delete_credential_def handler_defs intro: public_internal dest: opaque platform_from_proto_public split: sum.splits prod.splits)
qed

text \<open>
  The message of a session is not redacted: when no browser can be had, the client of the stream and
  everybody who asks for the status of the session read the text of the error.
\<close>

lemma failure_text_reaches_client:
  "\<exists>st s. login_run toy_cfg toy_time
       [(1, 0, CreateDone None), (1, 0, SendDone True), (1, 0, AcquireDone (Inl (EBrowser ''ws://10.0.0.7:9222''))),
        (1, 0, UpdateDone None), (1, 0, SendDone True)] toy_start = Some st \<and>
     LeFinal s [] \<in> set (ls_events st) \<and>
     ae_message (event_to_proto (LeFinal s [])) = ''Browser error: ws://10.0.0.7:9222'' \<and>
     (\<exists>r. grpc_get_status (\<lambda>n. Some n) None ''s1'' (ls_db st) = Inr r \<and>
        ar_message r = ''Browser error: ws://10.0.0.7:9222'')"
  by (simp add: toy_start_def toy_login_defs Let_def update_failed_step_def event_to_proto_def auth_event_from_def
      grpc_get_status_def to_reply_def get_status_def unwrap_or_default_def)

section \<open>Cookies over the wire\<close>

lemma proto_cookie_round_trip:
  "pk_expires c = 0 \<or> fts (pk_expires c) \<noteq> None \<Longrightarrow> chrono_ok fts \<Longrightarrow>
   cookie_to_proto (stored_cookie fts (proto_cookie_from fts c)) = c"
  by (cases c) (auto simp: cookie_to_proto_def stored_cookie_def proto_cookie_from_def chrono_ok_timestamp)

text \<open>An update is visible in its own reply. When an update of a platform's cookies succeeds, every
  cookie of the request that belongs to the platform, the last one of its name and domain, comes
  back in the reply exactly as it was sent, expiry included, when the expiry is none or a second
  that the calendar can represent; and no other cookie of its name and domain does.\<close>

theorem updated_cookie_is_returned:
  assumes "grpc_update_cookies (sqlite_repo s fts) e e2 n cs db = (Inr reply, db')"
    and "platform_from_proto n = Inr p" "sqlite_env_ok s e" "sqlite_env_ok s e2" "cookies_wf db" "chrono_ok fts"
    and "\<forall>c\<in>set cs. utf8_valid (pk_value c)"
    and "find (\<lambda>d. pk_name d = pk_name c \<and> pk_domain d = pk_domain c) (rev cs) = Some c"
    and "cookie_matches_domain p (proto_cookie_from fts c)"
    and "pk_expires c = 0 \<or> fts (pk_expires c) \<noteq> None"
  shows "{d \<in> set reply. pk_name d = pk_name c \<and> pk_domain d = pk_domain c} = {c}"
proof -
  let ?R = "sqlite_repo s fts" and ?from = "proto_cookie_from fts"
  let ?k = "cookie_key (?from c)"
  have rt: "rp_from_timestamp ?R = fts" by (simp add: sqlite_repo_def)
  have key: "cookie_key (?from d) = (pk_name d, pk_domain d)" for d
    by (simp add: cookie_key_def proto_cookie_from_def)
  from assms(1,2) obtain u dbm ds where
    save: "cookie_save ?R e (platform_as_str p) (filter_cookies p (map ?from cs)) db = (Inr u, dbm)" and
    get: "cookie_get ?R e2 (platform_as_str p) None dbm = (Inr ds, db')" and
    reply: "reply = map cookie_to_proto ds"
    by (auto simp: grpc_update_cookies_def update_cookies_def get_cookies_def to_reply_def rt
        res_bind_Inr_iff map_err_Inr_iff split: prod.splits sum.splits)
  have same: "cookie_matches_domain p (?from d) = cookie_matches_domain p (?from c)"
    if "pk_domain d = pk_domain c" for d
    using that by (simp add: cookie_matches_domain_def proto_cookie_from_def)
  have utf8: "\<forall>d\<in>set (filter_cookies p (map ?from cs)). utf8_valid (ck_value d)"
    using assms(7) by (auto simp: filter_cookies_def proto_cookie_from_def)
  have "find (\<lambda>d. cookie_key d = ?k) (rev (filter_cookies p (map ?from cs))) = Some (?from c)"
  proof -
    have "find (\<lambda>d. cookie_key d = ?k) (filter (cookie_matches_domain p) (map ?from ds)) =
        map_option ?from (find (\<lambda>d. pk_name d = pk_name c \<and> pk_domain d = pk_domain c) ds)" for ds
      using same assms(9) by (induction ds) (auto simp: key)
    from this[of "rev cs"] show ?thesis using assms(8) by (simp add: filter_cookies_def rev_filter rev_map)
  qed
  then have one: "{d \<in> set ds. cookie_key d = ?k} = {stored_cookie fts (?from c)}"
    by (rule sqlite_cookies.get_after_save [OF assms(3,4,5) utf8 save get])
  have "cookie_key d = ?k \<longleftrightarrow> pk_name (cookie_to_proto d) = pk_name c \<and> pk_domain (cookie_to_proto d) = pk_domain c" for d
    by (auto simp: key) (auto simp: cookie_key_def cookie_to_proto_def)
  then have "{d \<in> set reply. pk_name d = pk_name c \<and> pk_domain d = pk_domain c} =
      cookie_to_proto ` {d \<in> set ds. cookie_key d = ?k}"
    unfolding reply by auto
  then show ?thesis using one proto_cookie_round_trip[OF assms(10,6)] by simp
qed

theorem updated_cookie_is_returned_witness:
  "\<exists>reply db'. grpc_update_cookies toy_repo toy_env toy_env 3 [cookie_to_proto (toy_cookie ''NID_AUT'' ''x'')] toy_db =
       (Inr reply, db') \<and>
     {d \<in> set reply. pk_name d = ''NID_AUT'' \<and> pk_domain d = ''.naver.com''} = {cookie_to_proto (toy_cookie ''NID_AUT'' ''x'')}"
proof -
  obtain c where c_def: "c = cookie_to_proto (toy_cookie ''NID_AUT'' ''x'')" by simp
  have p: "platform_from_proto 3 = Inr Naver" by code_simp
  have bk: "proto_cookie_from toy_time c = toy_cookie ''NID_AUT'' ''x''"
    by (simp add: c_def proto_cookie_from_def cookie_to_proto_def toy_cookie_def timestamp_def toy_time_def)
  have m: "cookie_matches_domain Naver (toy_cookie ''NID_AUT'' ''x'')" by code_simp
  have rt: "rp_from_timestamp toy_repo = toy_time" by (simp add: sqlite_repo_def)
  have "\<exists>reply db'. grpc_update_cookies toy_repo toy_env toy_env 3 [c] toy_db = (Inr reply, db')"
    using toy_read [of "''x''"] m
    by (simp add: grpc_update_cookies_def p bk rt update_cookies_def get_cookies_def filter_cookies_def
        cookie_save_def cookie_get_def toy_env_def toy_db_def select_cookies_def insert_row_def to_reply_def
        cookie_from_row_def sqlite_repo_def aes_svc_encrypt_def aes_svc_decrypt_def)
  then obtain reply db' where r: "grpc_update_cookies toy_repo toy_env toy_env 3 [c] toy_db = (Inr reply, db')"
    by blast
  have "{d \<in> set reply. pk_name d = pk_name c \<and> pk_domain d = pk_domain c} = {c}"
    by (rule updated_cookie_is_returned [OF r p]) (simp_all add: bk m, simp_all add: c_def cookie_to_proto_def toy_cookie_def toy_time_def)
  with r show ?thesis by (auto simp: c_def cookie_to_proto_def toy_cookie_def)
qed

section \<open>The stream of a login\<close>

definition stream_inv :: "string \<Rightarrow> login_state \<Rightarrow> bool" where
  "stream_inv i st \<longleftrightarrow>
     (ls_pc st \<in> {PCreate, PSendStarted} \<longrightarrow> ss_state (ls_session st) = Idle) \<and>
     (\<forall>e\<in>set (ls_events st).
        case e of
          LeStarted s \<Rightarrow> ss_id s = i \<and> ss_state s = Idle
        | LeWaitingForUser s v \<Rightarrow> ss_id s = i
        | LeFinal s cs \<Rightarrow> ss_id s = i)"

lemma stream_inv_trans:
  "login_trans cfg fts st st' \<Longrightarrow> stream_inv i st \<Longrightarrow> session_inv cfg i st \<Longrightarrow> stream_inv i st'"
  by (cases rule: login_trans.cases, assumption)
    (auto simp: stream_inv_def login_upd session_inv_def under_control_def dest: session_create_Inr)

lemma stream_inv_reach:
  "login_reach cfg fts st st' \<Longrightarrow> login_ok cfg i st \<Longrightarrow> stream_inv i st \<Longrightarrow> stream_inv i st'"
proof (induction rule: login_reach.induct)
  case (reach_step st st1 x st2)
  then have "login_ok cfg i st1" by (blast intro: login_ok_reach)
  with reach_step stream_inv_trans login_step_trans show ?case unfolding login_ok_def by metis
qed

lemma login_stream_events:
  assumes "login_reach cfg fts (login_init cfg wall i db) st" "db_sessions db i = None"
    and e: "e \<in> set (ls_events st)"
  shows "case e of
      LeStarted s \<Rightarrow> ss_id s = i \<and> ss_state s = Idle
    | LeWaitingForUser s v \<Rightarrow> ss_id s = i \<and> ss_state s = WaitingForUser
    | LeFinal s cs \<Rightarrow> ss_id s = i \<and> outcome cfg s cs st"
proof -
  have init: "login_ok cfg i (login_init cfg wall i db)" "stream_inv i (login_init cfg wall i db)"
    using login_ok_init [OF assms(2)] by (simp_all add: stream_inv_def login_init_def session_new_def)
  have ok: "login_ok cfg i st" and stream: "stream_inv i st"
    using login_ok_reach [OF assms(1) init(1)] stream_inv_reach [OF assms(1) init] by blast+
  have waiting: "ss_state s = WaitingForUser" if "LeWaitingForUser s v \<in> set (ls_events st)" for s v
    using that ok by (cases "ls_pc st")
      (auto simp: login_ok_def events_inv_def started_events_def waiting_events_def early_events_def split: sum.splits)
  show ?thesis
    using stream e waiting login_final_outcome [OF ok] by (cases e) (force simp: stream_inv_def)+
qed

lemma status_of_event [simp]:
  "ae_status (event_to_proto (LeStarted s)) = proto_status_code (session_state_to_proto (ss_state s))"
  "ae_status (event_to_proto (LeWaitingForUser s v)) = proto_status_code (session_state_to_proto (ss_state s))"
  "ae_status (event_to_proto (LeFinal s cs)) = proto_status_code (session_state_to_proto (ss_state s))"
  by (simp_all add: event_to_proto_def auth_event_from_def)

text \<open>Only a login that has waited for its user can end as connected.\<close>

definition connected_inv :: "login_state \<Rightarrow> bool" where
  "connected_inv st \<longleftrightarrow>
     (\<forall>cs. ls_pc st = PSendFinal cs \<and> ss_state (ls_session st) = Connected \<longrightarrow> waiting_events (ls_events st)) \<and>
     (\<forall>es s cs. ls_events st = es @ [LeFinal s cs] \<and> ss_state s = Connected \<longrightarrow> waiting_events es)"

lemma early_not_final: "early_events es \<Longrightarrow> es \<noteq> ds @ [LeFinal s cs]"
  by (auto simp: early_events_def started_events_def waiting_events_def Cons_eq_append_conv)

lemma connected_inv_trans:
  assumes t: "login_trans cfg fts st st'" and inv: "connected_inv st" "events_inv st" "phase_inv cfg st"
  shows "connected_inv st'"
proof -
  have early: "early_events (ls_events st)" if "ls_pc st \<noteq> PDone"
    using inv(2) that by (cases "ls_pc st") (auto simp: events_inv_def early_events_def split: sum.splits)
  have no_final: "ls_events st \<noteq> es @ [LeFinal s cs]" if "ls_pc st \<noteq> PDone" for es s cs
    by (rule early_not_final [OF early [OF that]])
  have closing: "waiting_events (ls_events st)" if "ls_pc st = PClose (Inr cs)" for cs
    using inv(2) that by (simp add: events_inv_def)
  have failed: "ss_state (ls_session st) = Failed" if "ls_pc st = PUpdFailed"
    using inv(3) that by (simp add: phase_inv_def)
  have new: "ls_events st = []" if "ls_pc st = PCreate" using inv(2) that by (simp add: events_inv_def)
  have sending: "waiting_events (ls_events st)" if "ls_pc st = PSendFinal cs" "ss_state (ls_session st) = Connected" for cs
    using inv(1) that by (auto simp: connected_inv_def)
  have sent: "waiting_events es" if "ls_events st = es @ [LeFinal s cs]" "ss_state s = Connected" for es s cs
    using inv(1) that by (auto simp: connected_inv_def)
  from t show ?thesis
    by cases (auto simp: connected_inv_def login_upd no_final closing failed new sending sent under_control_def)
qed

lemma connected_inv_reach:
  "login_reach cfg fts st st' \<Longrightarrow> login_ok cfg i st \<Longrightarrow> connected_inv st \<Longrightarrow> connected_inv st'"
proof (induction rule: login_reach.induct)
  case (reach_step st st1 x st2)
  then have "login_ok cfg i st1" "login_ok cfg i st2" by (blast intro: login_ok_reach login_ok_step)+
  with reach_step connected_inv_trans login_step_trans show ?case unfolding login_ok_def by metis
qed

text \<open>
  The statuses one by one: the first event of a stream says IDLE, and LOADING, which the comment on the
  service announces, is written to the store but never streamed.
\<close>

lemma login_stream_never_loads:
  assumes "login_reach cfg fts (login_init cfg wall i db) st" "db_sessions db i = None"
  shows "\<exists>n m x. map (ae_status \<circ> event_to_proto) (ls_events st) = take n [1, 4] @ take m [x] \<and> x \<in> {7, 8} \<and>
    (0 < m \<and> x = 7 \<longrightarrow> 2 \<le> n)"
proof -
  note events = login_stream_events [OF assms]
  have init: "connected_inv (login_init cfg wall i db)" by (simp add: connected_inv_def login_init_def)
  have ok: "login_ok cfg i st" using login_ok_reach [OF assms(1)] login_ok_init [OF assms(2)] by blast
  have con: "connected_inv st" using connected_inv_reach [OF assms(1) login_ok_init [OF assms(2)] init] .
  have idle: "ss_state s = Idle" if "LeStarted s \<in> set (ls_events st)" for s
    using events [OF that] by simp
  have early: "\<exists>n. map (ae_status \<circ> event_to_proto) es = take n [1, 4] \<and> (waiting_events es \<longrightarrow> n = 2)"
    if "early_events es" "set es \<subseteq> set (ls_events st)" for es
    using that(1) [unfolded early_events_def started_events_def waiting_events_def]
  proof (elim disjE exE conjE)
    assume "es = []"
    then show ?thesis by (intro exI[of _ 0]) (simp add: waiting_events_def)
  next
    fix s assume "es = [LeStarted s]"
    then show ?thesis using that(2) idle[of s] by (intro exI[of _ 1]) (simp add: waiting_events_def)
  next
    fix s t v assume "es = [LeStarted s, LeWaitingForUser t v]" "ss_state t = WaitingForUser"
    then show ?thesis using that(2) idle[of s] by (intro exI[of _ 2]) simp
  qed
  consider "early_events (ls_events st)" |
      es s cs where "ls_events st = es @ [LeFinal s cs]" "early_events es"
    using ok by (cases "ls_pc st") (auto simp: login_ok_def events_inv_def early_events_def split: sum.splits)
  then show ?thesis
  proof cases
    case 1
    then obtain n where "map (ae_status \<circ> event_to_proto) (ls_events st) = take n [1, 4]" using early by blast
    then show ?thesis by (intro exI[of _ n] exI[of _ 0] exI[of _ 7]) simp
  next
    case (2 es s cs)
    then obtain n where n: "map (ae_status \<circ> event_to_proto) es = take n [1, 4]" "waiting_events es \<longrightarrow> n = 2"
      using early by auto
    have "ss_state s = Connected \<and> waiting_events es \<or> ss_state s = Failed"
      using events [of "LeFinal s cs"] con 2(1) by (auto simp: outcome_def connected_inv_def)
    then show ?thesis using 2 n
      by (intro exI[of _ n] exI[of _ 1] exI[of _ "proto_status_code (session_state_to_proto (ss_state s))"]) auto
  qed
qed

text \<open>C8: The stream a client sees. Every event names the session of the login. At most one event says
  WAITING_FOR_USER, and only it carries the address of the viewer; at most one event says CONNECTED or
  FAILED, it is the last one, and only one that says CONNECTED carries cookies; and CONNECTED comes only
  after WAITING_FOR_USER.\<close>

theorem login_stream_on_the_wire:
  assumes "login_reach cfg fts (login_init cfg wall i db) st" "db_sessions db i = None"
    and "statuses = map (ae_status \<circ> event_to_proto) (ls_events st)"
  shows "count_list statuses 4 \<le> 1 \<and>
         (\<exists>es ts. statuses = es @ ts \<and> 7 \<notin> set es \<and> 8 \<notin> set es \<and> ts \<in> {[], [7], [8]} \<and> (ts = [7] \<longrightarrow> 4 \<in> set es)) \<and>
         (\<forall>e\<in>set (map event_to_proto (ls_events st)).
            ae_session_id e = i \<and> (ae_cookies e \<noteq> [] \<longrightarrow> ae_status e = 7) \<and>
            (ae_viewer_url e \<noteq> [] \<longrightarrow> ae_status e = 4))"
proof -
  note events = login_stream_events [OF assms(1,2)]
  obtain n m x where st: "statuses = take n [1, 4] @ take m [x]" "x \<in> {7, 8}" "0 < m \<and> x = 7 \<longrightarrow> 2 \<le> n"
    using login_stream_never_loads [OF assms(1,2)] unfolding assms(3) by blast
  have t: "take n [1, 4] \<in> {[], [1], [1, 4 :: int]}" by (cases n; cases "n - 1") auto
  have m: "take m [x] = [] \<or> (0 < m \<and> take m [x] = [x])" by (cases m) auto
  have "2 \<le> n \<Longrightarrow> take n [1, 4 :: int] = [1, 4]" by simp
  with st(2,3) t m have parts: "7 \<notin> set (take n [1, 4 :: int]) \<and> 8 \<notin> set (take n [1, 4 :: int]) \<and>
      take m [x] \<in> {[], [7], [8]} \<and> (take m [x] = [7] \<longrightarrow> 4 \<in> set (take n [1, 4 :: int]))" by auto
  moreover have "count_list statuses 4 \<le> 1" using st t m by auto
  moreover have "ae_session_id (event_to_proto e) = i \<and> (ae_cookies (event_to_proto e) \<noteq> [] \<longrightarrow> ae_status (event_to_proto e) = 7) \<and>
      (ae_viewer_url (event_to_proto e) \<noteq> [] \<longrightarrow> ae_status (event_to_proto e) = 4)" if "e \<in> set (ls_events st)" for e
    using events [OF that] by (cases e) (auto simp: event_to_proto_def auth_event_from_def outcome_def)
  moreover have "\<exists>es ts. statuses = es @ ts \<and> 7 \<notin> set es \<and> 8 \<notin> set es \<and> ts \<in> {[], [7], [8]} \<and> (ts = [7] \<longrightarrow> 4 \<in> set es)"
    using st(1) parts by blast
  ultimately show ?thesis by auto
qed

theorem login_stream_on_the_wire_witness:
  "\<exists>st. login_run toy_cfg toy_time toy_inputs toy_start = Some st \<and>
     (\<forall>e\<in>set (map event_to_proto (ls_events st)). ae_session_id e = ''s1'')"
proof -
  obtain st s where st: "login_run toy_cfg toy_time toy_inputs toy_start = Some st"
    using toy_login_runs by blast
  have "login_reach toy_cfg toy_time toy_start st" by (rule login_run_reach [OF st])
  from login_stream_on_the_wire [OF this [unfolded toy_start_def] _ refl] st show ?thesis by auto
qed

end
