(* ===== verification/Server_Auth.thy ===== *)
theory Server_Auth
  imports Grpc_Props
begin

text \<open>
  Authentication and start-up of the server (\<open>imauth-server/src/auth.rs\<close>, \<open>main.rs\<close>, \<open>cli.rs\<close>): the
  normalized API key, the interceptor in front of every business service, the bind address, the TLS
  identity and the order of the start-up steps. The constant-time comparison of \<open>subtle\<close>, the
  readability test of a header value, socket addresses and the file system are parameters.
\<close>

section \<open>The API key\<close>

definition normalize_api_key :: "string option \<Rightarrow> string option" where
  "normalize_api_key raw =
     (case map_option trim raw of None \<Rightarrow> None | Some k \<Rightarrow> if k = [] then None else Some k)"

text \<open>
  The metadata of a request: names and values in order; \<open>get\<close> finds the first value of a name.
  \<open>to_str\<close> is the text of a value that is readable.
\<close>

type_synonym metadata = "(string \<times> bytes) list"

record auth_ops =
  ao_to_str :: "bytes \<Rightarrow> string option"
  ao_ct_eq :: "bytes \<Rightarrow> bytes \<Rightarrow> bool"

definition provided_key :: "auth_ops \<Rightarrow> metadata \<Rightarrow> string option" where
  "provided_key ops md =
     (case Option.bind (Option.bind (map_of md ''authorization'') (ao_to_str ops))
             (\<lambda>s. strip_prefix s ''Bearer '') of
        Some k \<Rightarrow> Some k
      | None \<Rightarrow> Option.bind (map_of md ''x-api-key'') (ao_to_str ops))"

definition auth_interceptor :: "auth_ops \<Rightarrow> string option \<Rightarrow> metadata \<Rightarrow> metadata reply" where
  "auth_interceptor ops api_key md =
     (case api_key of
        None \<Rightarrow> Inr md
      | Some key \<Rightarrow>
          (case provided_key ops md of
             Some k \<Rightarrow> if ao_ct_eq ops k key then Inr md
                      else Inl (status_of GUnauthenticated ''Invalid or missing API key'')
           | None \<Rightarrow> Inl (status_of GUnauthenticated ''Invalid or missing API key'')))"

text \<open>What \<open>tonic\<close> and \<open>subtle\<close> document of the two.\<close>

definition auth_ops_ok :: "auth_ops \<Rightarrow> bool" where
  "auth_ops_ok ops \<longleftrightarrow>
     (\<forall>b s. ao_to_str ops b = Some s \<longrightarrow> s = b) \<and> (\<forall>a b. ao_ct_eq ops a b = (a = b))"

section \<open>Start-up\<close>

datatype server_commands = Serve "string option" "16 word option" "string option"

record 'a socket_ops =
  so_parse :: "string \<Rightarrow> string + 'a"
  so_set_port :: "'a \<Rightarrow> 16 word \<Rightarrow> 'a"

definition resolve_bind_addr :: "'a socket_ops \<Rightarrow> string \<Rightarrow> 16 word option \<Rightarrow> string + 'a" where
  "resolve_bind_addr ops configured port =
     res_bind (so_parse ops configured) (\<lambda>addr.
       Inr (case port of None \<Rightarrow> addr | Some p \<Rightarrow> so_set_port ops addr p))"

definition read_tls_file :: "(string \<Rightarrow> string + bytes) \<Rightarrow> string \<Rightarrow> string \<Rightarrow> string + bytes" where
  "read_tls_file read path kind =
     map_err (\<lambda>e. ''Failed to read TLS '' @ kind @ '' '' @ path @ '': '' @ e) (read path)"

definition load_server_identity :: "(string \<Rightarrow> string + bytes) \<Rightarrow> config \<Rightarrow> string + (bytes \<times> bytes) option" where
  "load_server_identity read cfg =
     res_bind (map_err error_to_string (tls_identity_paths cfg)) (\<lambda>paths.
       case paths of
         None \<Rightarrow> Inr None
       | Some (cert_path, key_path) \<Rightarrow>
           res_bind (read_tls_file read cert_path ''certificate'') (\<lambda>cert.
             res_bind (read_tls_file read key_path ''private key'') (\<lambda>key. Inr (Some (cert, key)))))"

text \<open>
  The crypto provider: already installed, installed now, or installed meanwhile by another thread.
\<close>

definition install_crypto_provider :: "bool \<Rightarrow> bool \<Rightarrow> bool \<Rightarrow> string + unit" where
  "install_crypto_provider before installed installed_by_other =
     (if before then Inr ()
      else if installed then Inr ()
      else if installed_by_other then Inr ()
      else Inl ''failed to install rustls crypto provider'')"

text \<open>
  What \<open>main\<close> hands to the transport: the address, the identity, the container and the services,
  each with whether the interceptor guards it, and the key. \<open>None\<close> is the panic of the container.
\<close>

datatype grpc_service = SvcAuth | SvcSession | SvcCredential | SvcHealth

record ('a, 'c) server =
  sv_addr :: 'a
  sv_identity :: "(bytes \<times> bytes) option"
  sv_container :: "'c app_container"
  sv_key :: "string option"
  sv_services :: "(grpc_service \<times> bool) list"

definition serve ::
  "'a socket_ops \<Rightarrow> (string \<Rightarrow> string + bytes) \<Rightarrow> (string option \<Rightarrow> string + config) \<Rightarrow>
   (config \<Rightarrow> 'c app_container result option \<times> db_file) \<Rightarrow> db_file \<Rightarrow> server_commands \<Rightarrow>
   (string + ('a, 'c) server) option \<times> db_file" where
  "serve so read load_config build file cmd =
     (case cmd of Serve path port api_key \<Rightarrow>
        (case load_config path of
           Inl e \<Rightarrow> (Some (Inl e), file)
         | Inr cfg \<Rightarrow>
             (case res_bind (resolve_bind_addr so (sc_grpc_addr (cf_server cfg)) port) (\<lambda>addr.
                      res_bind (load_server_identity read cfg) (\<lambda>identity. Inr (addr, identity))) of
                Inl e \<Rightarrow> (Some (Inl e), file)
              | Inr (addr, identity) \<Rightarrow>
                  (case build cfg of
                     (None, file') \<Rightarrow> (None, file')
                   | (Some (Inl x), file') \<Rightarrow> (Some (Inl (error_to_string x)), file')
                   | (Some (Inr c), file') \<Rightarrow>
                       (Some (Inr \<lparr>sv_addr = addr, sv_identity = identity, sv_container = c,
                                 sv_key = normalize_api_key api_key,
                                 sv_services = [(SvcAuth, True), (SvcSession, True), (SvcCredential, True),
                                                (SvcHealth, False)]\<rparr>), file')))))"

definition serve_request :: "auth_ops \<Rightarrow> ('a, 'c) server \<Rightarrow> grpc_service \<Rightarrow> metadata \<Rightarrow> metadata reply option" where
  "serve_request ops sv s md =
     (case map_of (sv_services sv) s of
        None \<Rightarrow> None
      | Some True \<Rightarrow> Some (auth_interceptor ops (sv_key sv) md)
      | Some False \<Rightarrow> Some (Inr md))"

section \<open>Properties\<close>

lemma trim_trim: "trim k = k' \<Longrightarrow> trim k' = k'"
  using trim_idem by blast

lemma normalize_api_key_SomeD: "normalize_api_key raw = Some k \<Longrightarrow> k \<noteq> [] \<and> trim k = k"
  by (auto simp: normalize_api_key_def split: option.splits if_splits intro: trim_trim)

lemma auth_interceptor_spec:
  assumes "auth_ops_ok ops"
  shows "auth_interceptor ops key md =
    (if key = None \<or> provided_key ops md = key then Inr md
     else Inl (status_of GUnauthenticated ''Invalid or missing API key''))"
  using assms by (auto simp: auth_interceptor_def auth_ops_ok_def split: option.splits)

lemma serve_services:
  "serve so read load build file (Serve path port raw) = (Some (Inr sv), file') \<Longrightarrow>
   sv_key sv = normalize_api_key raw \<and>
   sv_services sv = [(SvcAuth, True), (SvcSession, True), (SvcCredential, True), (SvcHealth, False)]"
  by (auto simp: serve_def split: sum.splits option.splits prod.splits)

text \<open>C7: The API key guards every business service of a started server. With a key, a request to the
  login, session or credential service passes exactly when the key it presents, the bearer token if
  it has a readable one and the x-api-key header otherwise, is the configured key without its
  surrounding white space, and is refused as UNAUTHENTICATED otherwise; a wrong bearer token is not
  rescued by a right x-api-key; the effective key is never empty, so an empty or missing
  credential never passes; and without a key every request passes.\<close>

theorem api_key_guards_services:
  assumes "serve so read load build file (Serve path port raw) = (Some (Inr sv), file')"
    and "auth_ops_ok ops" "s \<in> {SvcAuth, SvcSession, SvcCredential}"
  shows "serve_request ops sv s md =
           Some (if sv_key sv = None \<or> provided_key ops md = sv_key sv then Inr md
                 else Inl (status_of GUnauthenticated ''Invalid or missing API key'')) \<and>
         (\<forall>k. sv_key sv = Some k \<longrightarrow>
            k \<noteq> [] \<and> (\<exists>r. raw = Some r \<and> k = trim r) \<and>
            (map_of md ''authorization'' = None \<and> map_of md ''x-api-key'' = None \<longrightarrow>
               serve_request ops sv s md \<noteq> Some (Inr md)) \<and>
            (\<forall>t. Option.bind (map_of md ''authorization'') (ao_to_str ops) = Some (''Bearer '' @ t) \<and> t \<noteq> k \<longrightarrow>
               serve_request ops sv s md \<noteq> Some (Inr md)))"
proof -
  note sv = serve_services [OF assms(1)]
  have req: "serve_request ops sv s md = Some (auth_interceptor ops (sv_key sv) md)"
    using assms(3) sv by (auto simp: serve_request_def)
  have key: "k \<noteq> [] \<and> (\<exists>r. raw = Some r \<and> k = trim r)" if "sv_key sv = Some k" for k
    using that sv by (auto simp: normalize_api_key_def split: option.splits if_splits)
  have bearer: "provided_key ops md = Some t"
    if "Option.bind (map_of md ''authorization'') (ao_to_str ops) = Some (''Bearer '' @ t)" for t
    using that strip_prefix_append [of "''Bearer ''" t] by (simp add: provided_key_def)
  show ?thesis
    unfolding req auth_interceptor_spec [OF assms(2)]
    using key bearer by (auto simp: provided_key_def)
qed

definition toy_ops :: auth_ops where
  "toy_ops = \<lparr>ao_to_str = (\<lambda>b. if \<forall>c\<in>set b. c \<noteq> CHR 0x0A then Some b else None), ao_ct_eq = (\<lambda>a b. a = b)\<rparr>"

lemma toy_ops_ok [simp]: "auth_ops_ok toy_ops"
  by (auto simp: auth_ops_ok_def toy_ops_def split: if_splits)

definition toy_container :: "unit app_container" where
  "toy_container =
     \<lparr>ac_config = config_default None, ac_cipher = (), ac_cdp_urls = [], ac_viewer_urls = [],
      ac_login_timeout = 0, ac_acquire_timeout = 0, ac_connect_timeout = 0, ac_page_timeout = 0,
      ac_preparation_timeout = 0\<rparr>"

definition toy_sockets :: "(string \<times> 16 word option) socket_ops" where
  "toy_sockets = \<lparr>so_parse = (\<lambda>s. Inr (s, None)), so_set_port = (\<lambda>a p. (fst a, Some p))\<rparr>"

lemma toy_serve_starts: "\<exists>sv. serve toy_sockets (\<lambda>_. Inl ''no file'') (\<lambda>_. Inr (config_default None))
     (\<lambda>_. (Some (Inr toy_container), disk)) disk (Serve None (Some 7443) key) = (Some (Inr sv), disk) \<and>
     sv_key sv = normalize_api_key key"
  by (simp add: serve_def resolve_bind_addr_def toy_sockets_def load_server_identity_def tls_identity_paths_def
      config_default_def)

theorem api_key_guards_services_witness:
  "\<exists>sv :: (string \<times> 16 word option, unit) server. sv_key sv = Some ''abc'' \<and>
     serve_request toy_ops sv SvcSession [(''authorization'', ''Bearer abc'')] =
       Some (Inr [(''authorization'', ''Bearer abc'')]) \<and>
     serve_request toy_ops sv SvcSession [(''authorization'', ''Bearer x''), (''x-api-key'', ''abc'')] =
       Some (Inl (status_of GUnauthenticated ''Invalid or missing API key''))"
proof -
  obtain disk :: db_file where "disk = disk" by simp
  obtain sv where sv: "serve toy_sockets (\<lambda>_. Inl ''no file'') (\<lambda>_. Inr (config_default None))
     (\<lambda>_. (Some (Inr toy_container), disk)) disk (Serve None (Some 7443) (Some '' abc '')) = (Some (Inr sv), disk)"
    "sv_key sv = normalize_api_key (Some '' abc '')" using toy_serve_starts by blast
  have k: "normalize_api_key (Some '' abc '') = Some ''abc''" by code_simp
  have p1: "provided_key toy_ops [(''authorization'', ''Bearer abc'')] = Some ''abc''"
    and p2: "provided_key toy_ops [(''authorization'', ''Bearer x''), (''x-api-key'', ''abc'')] = Some ''x''"
    by code_simp+
  have key: "sv_key sv = Some ''abc''" using sv(2) k by (simp only:)
  have req: "serve_request toy_ops sv SvcSession md =
      Some (if provided_key toy_ops md = Some ''abc'' then Inr md
            else Inl (status_of GUnauthenticated ''Invalid or missing API key''))" for md
    using api_key_guards_services [OF sv(1) toy_ops_ok, of SvcSession md] key by simp
  show ?thesis
    by (rule exI [of _ sv]) (simp add: key req p1 p2)
qed

end
