(* ===== verification/Cli.thy ===== *)
theory Cli
  imports Server_Auth "HOL-Library.List_Lexorder" "HOL-Library.Char_ord"
begin

text \<open>
  The command-line client (\<open>imauth-cli/src\<close>): the commands, what is sent for each of them and under
  which key (\<open>cli_support.rs\<close>, \<open>grpc_commands.rs\<close>), what is printed for the streamed events of a
  login, and the runtime of the provider recorder (\<open>provider_record.rs\<close>). A \<open>Box<dyn Error>\<close> is its
  text; the channel and the child processes are parameters.
\<close>

section \<open>Commands\<close>

datatype credential_action =
    CaSave string string "string option" bool "string option"
  | CaGet string
  | CaDelete string

record record_action =
  ra_url :: string
  ra_domain :: "string option"
  ra_cdp_url :: "string option"
  ra_output_root :: string
  ra_headless :: bool
  ra_auto_finish :: bool
  ra_deep :: bool

datatype cli_command =
    CmdLogin string
  | CmdStatus string
  | CmdCancel string
  | CmdValidate string
  | CmdConnections
  | CmdCookies string string
  | CmdCredentials credential_action
  | CmdProvider record_action

record cli_args =
  cli_server :: string
  cli_api_key :: "string option"
  cli_tls_ca :: "string option"
  cli_tls_domain :: "string option"
  cli_command :: cli_command

definition platform_to_proto :: "string \<Rightarrow> string + int" where
  "platform_to_proto platform =
     (let l = to_lowercase platform in
      if l = ''instagram'' then Inr (proto_platform_code PpInstagram)
      else if l = ''threads'' then Inr (proto_platform_code PpThreads)
      else if l = ''naver'' then Inr (proto_platform_code PpNaver)
      else if l = ''novelpia'' then Inr (proto_platform_code PpNovelpia)
      else if l = ''munpia'' then Inr (proto_platform_code PpMunpia)
      else Inl (''Unknown platform '' @ [CHR 39] @ l @ [CHR 39] @
             ''. Expected one of: instagram, threads, naver, novelpia, munpia''))"

definition resolve_password :: "(string + string) \<Rightarrow> string option \<Rightarrow> bool \<Rightarrow> string + string" where
  "resolve_password stdin password password_stdin =
     (if password_stdin
      then res_bind stdin (\<lambda>v.
             let v' = trim_end_matches v [CHR 0x0D, CHR 0x0A] in
             if v' = [] then Inl ''Password from stdin must not be empty'' else Inr v')
      else
        (case password of
           Some p \<Rightarrow> Inr p
         | None \<Rightarrow> Inl ''Provide a password with IMAUTH_PASSWORD, --password-stdin, or --password''))"

text \<open>\<open>insert\<close> replaces the values of a name; \<open>valid\<close> is the check of a header value.\<close>

definition metadata_insert :: "string \<Rightarrow> bytes \<Rightarrow> metadata \<Rightarrow> metadata" where
  "metadata_insert n v md = (n, v) # filter (\<lambda>x. fst x \<noteq> n) md"

definition with_api_key :: "(bytes \<Rightarrow> bool) \<Rightarrow> string option \<Rightarrow> metadata \<Rightarrow> string + metadata" where
  "with_api_key valid key md =
     (case key of
        None \<Rightarrow> Inr md
      | Some k \<Rightarrow>
          if valid (''Bearer '' @ k) then Inr (metadata_insert ''authorization'' (''Bearer '' @ k) md)
          else Inl ''failed to parse metadata value'')"

section \<open>The channel\<close>

record tls_options =
  to_ca :: "bytes option"
  to_domain :: "string option"

record endpoint =
  ep_server :: string
  ep_tls :: "tls_options option"

definition starts_https :: "string \<Rightarrow> bool" where
  "starts_https s = starts_with s ''https://''"

text \<open>\<open>valid_uri\<close> is the check of \<open>Endpoint::from_shared\<close>, \<open>connect\<close> the connection itself.\<close>

definition connect_channel ::
  "(string \<Rightarrow> string + unit) \<Rightarrow> (string \<Rightarrow> string + bytes) \<Rightarrow> (endpoint \<Rightarrow> string + unit) \<Rightarrow>
   string \<Rightarrow> string option \<Rightarrow> string option \<Rightarrow> string + endpoint" where
  "connect_channel valid_uri read connect server tls_ca tls_domain =
     res_bind (valid_uri server) (\<lambda>u.
       res_bind
         (if starts_https server \<or> tls_ca \<noteq> None \<or> tls_domain \<noteq> None then
            (if \<not> starts_https server then Inl ''TLS options require an https:// server URL''
             else res_bind
               (case tls_ca of
                  None \<Rightarrow> Inr None
                | Some path \<Rightarrow>
                    res_bind (map_err (\<lambda>e. ''Failed to read TLS CA '' @ path @ '': '' @ e) (read path))
                      (\<lambda>pem. Inr (Some pem)))
               (\<lambda>ca. Inr \<lparr>ep_server = server, ep_tls = Some \<lparr>to_ca = ca, to_domain = tls_domain\<rparr>\<rparr>))
          else Inr \<lparr>ep_server = server, ep_tls = None\<rparr>)
         (\<lambda>ep. res_bind (connect ep) (\<lambda>u. Inr ep)))"

section \<open>Requests\<close>

datatype cli_request =
    RqLogin int
  | RqStatus string
  | RqCancel string
  | RqValidate int
  | RqConnections
  | RqExport int
  | RqGetCookies int "string list"
  | RqSaveCredential int string string string
  | RqGetCredential int
  | RqDeleteCredential int

definition request_of :: "(string + string) \<Rightarrow> cli_command \<Rightarrow> string + cli_request" where
  "request_of stdin cmd =
     (case cmd of
        CmdLogin p \<Rightarrow> res_bind (platform_to_proto p) (\<lambda>n. Inr (RqLogin n))
      | CmdStatus i \<Rightarrow> Inr (RqStatus i)
      | CmdCancel i \<Rightarrow> Inr (RqCancel i)
      | CmdValidate p \<Rightarrow> res_bind (platform_to_proto p) (\<lambda>n. Inr (RqValidate n))
      | CmdConnections \<Rightarrow> Inr RqConnections
      | CmdCookies p fmt \<Rightarrow>
          if fmt = ''netscape'' then res_bind (platform_to_proto p) (\<lambda>n. Inr (RqExport n))
          else res_bind (platform_to_proto p) (\<lambda>n. Inr (RqGetCookies n []))
      | CmdCredentials (CaSave p u pw pw_stdin twofa) \<Rightarrow>
          res_bind (resolve_password stdin pw pw_stdin) (\<lambda>password.
            res_bind (platform_to_proto p) (\<lambda>n.
              Inr (RqSaveCredential n u password (unwrap_or_default twofa))))
      | CmdCredentials (CaGet p) \<Rightarrow> res_bind (platform_to_proto p) (\<lambda>n. Inr (RqGetCredential n))
      | CmdCredentials (CaDelete p) \<Rightarrow> res_bind (platform_to_proto p) (\<lambda>n. Inr (RqDeleteCredential n))
      | CmdProvider a \<Rightarrow> Inl ''Provider commands must run locally'')"

text \<open>What \<open>run\<close> sends after connecting: the request and its metadata.\<close>

definition cli_send ::
  "(bytes \<Rightarrow> bool) \<Rightarrow> (string + endpoint) \<Rightarrow> (string + string) \<Rightarrow> string option \<Rightarrow> cli_command \<Rightarrow>
   string + cli_request \<times> metadata" where
  "cli_send valid channel stdin key cmd =
     res_bind channel (\<lambda>ep.
       res_bind (request_of stdin cmd) (\<lambda>rq.
         res_bind (with_api_key valid key []) (\<lambda>md. Inr (rq, md))))"

section \<open>Output\<close>

definition status_name :: "proto_status \<Rightarrow> string" where
  "status_name s =
     (case s of
        PsUnspecified \<Rightarrow> ''AUTH_STATUS_UNSPECIFIED''
      | PsIdle \<Rightarrow> ''AUTH_STATUS_IDLE''
      | PsLoading \<Rightarrow> ''AUTH_STATUS_LOADING''
      | PsAuthenticating \<Rightarrow> ''AUTH_STATUS_AUTHENTICATING''
      | PsWaitingForUser \<Rightarrow> ''AUTH_STATUS_WAITING_FOR_USER''
      | PsConnected \<Rightarrow> ''AUTH_STATUS_CONNECTED''
      | PsFailed \<Rightarrow> ''AUTH_STATUS_FAILED'')"

definition event_status :: "auth_event \<Rightarrow> proto_status" where
  "event_status e = (case proto_status_try_from (ae_status e) of None \<Rightarrow> PsUnspecified | Some s \<Rightarrow> s)"

definition event_lines :: "auth_event \<Rightarrow> string list" where
  "event_lines e =
     [''Status: '' @ status_name (event_status e), ''Message: '' @ ae_message e] @
     (if ae_viewer_url e \<noteq> []
      then [[], ''Open this URL in your browser to log in:'', ''  '' @ ae_viewer_url e, [],
            ''Waiting for login... '']
      else []) @
     (case event_status e of
        PsConnected \<Rightarrow> [''Login successful! Cookies: '' @ show_nat (length (ae_cookies e))]
      | PsFailed \<Rightarrow> [''Login failed: '' @ ae_message e]
      | _ \<Rightarrow> [])"

text \<open>
  The loop over the stream stops at the first terminal event; an error of the stream is the error of
  the command. Each element of the result is one \<open>print\<close> or \<open>println\<close>.
\<close>

fun login_output :: "(string + auth_event) list \<Rightarrow> string list \<times> (string + unit)" where
  "login_output [] = ([], Inr ())"
| "login_output (Inl e # es) = ([], Inl e)"
| "login_output (Inr e # es) =
     (if event_status e \<in> {PsConnected, PsFailed} then (event_lines e, Inr ())
      else (case login_output es of (ls, r) \<Rightarrow> (event_lines e @ ls, r)))"

definition validate_output :: "validation_result \<Rightarrow> string list" where
  "validate_output v =
     [''Valid: '' @ (if vr_valid v then ''true'' else ''false''),
      ''Session cookie: '' @ vr_session_cookie_name v,
      ''Expires at: '' @ show_int (vr_expires_at v)]"

definition connections_output :: "(string \<times> bool) list \<Rightarrow> string list" where
  "connections_output ps =
     map (\<lambda>(p, c). p @ '': '' @ (if c then ''true'' else ''false'')) (sort_key fst ps)"

definition cookies_output :: "proto_cookie list \<Rightarrow> string list" where
  "cookies_output cs =
     map (\<lambda>c. pk_name c @ ''='' @ pk_value c @ '' (domain: '' @ pk_domain c @ '', path: '' @ pk_path c @ '')'') cs"

section \<open>The provider recorder\<close>

definition playwright_version :: string where
  "playwright_version = ''1.62.1''"

text \<open>The package file of the runtime, line by line.\<close>

definition package_source :: string where
  "package_source =
     join [CHR 0x0A]
       [[CHR 123],
        ''  '' @ [CHR 34] @ ''private'' @ [CHR 34] @ '': true,'',
        ''  '' @ [CHR 34] @ ''type'' @ [CHR 34] @ '': '' @ [CHR 34] @ ''module'' @ [CHR 34] @ '','',
        ''  '' @ [CHR 34] @ ''dependencies'' @ [CHR 34] @ '': { '' @ [CHR 34] @ ''playwright'' @ [CHR 34] @ '': '' @
          [CHR 34] @ ''1.62.1'' @ [CHR 34] @ '' }'',
        [CHR 125], []]"

definition record_arguments :: "record_action \<Rightarrow> string list" where
  "record_arguments a =
     [''--url'', ra_url a] @
     (case ra_domain a of None \<Rightarrow> [] | Some d \<Rightarrow> [''--domain'', d]) @
     (case ra_cdp_url a of None \<Rightarrow> [] | Some u \<Rightarrow> [''--cdp-url'', u]) @
     [''--output-root'', ra_output_root a] @
     (if ra_headless a then [''--headless''] else []) @
     (if ra_auto_finish a then [''--auto-finish''] else []) @
     (if ra_deep a then [''--deep''] else [])"

datatype target_os = OsMac | OsWindows | OsOther

definition home_directory :: "(string \<rightharpoonup> string) \<Rightarrow> string + string" where
  "home_directory env = (case env ''HOME'' of None \<Rightarrow> Inl ''HOME is not set'' | Some h \<Rightarrow> Inr h)"

definition runtime_directory :: "target_os \<Rightarrow> (string \<rightharpoonup> string) \<Rightarrow> string + string" where
  "runtime_directory os env =
     (case env ''IMAUTH_PROVIDER_RECORDER_CACHE'' of
        Some v \<Rightarrow> Inr (path_join v playwright_version)
      | None \<Rightarrow>
          res_bind
            (if os = OsMac then res_bind (home_directory env) (\<lambda>h. Inr (path_join h ''Library/Caches''))
             else
               (case env ''XDG_CACHE_HOME'' of
                  Some v \<Rightarrow> Inr v
                | None \<Rightarrow>
                    if os = OsWindows
                    then (case env ''LOCALAPPDATA'' of None \<Rightarrow> Inl ''LOCALAPPDATA is not set'' | Some v \<Rightarrow> Inr v)
                    else res_bind (home_directory env) (\<lambda>h. Inr (path_join h ''.cache''))))
            (\<lambda>base. Inr (path_join (path_join base ''imauth/provider-recorder'') playwright_version)))"

text \<open>
  A child process cannot be started, or ends with success or with a status that is shown. The
  machine: which commands answer \<open>--version\<close> with success, the outcome of creating the directory
  and of writing a file, how npm and the recorder end, and the readable files.
\<close>

datatype process_end = NotStarted string | Succeeded | ExitedWith string

record rec_machine =
  rm_version_ok :: "string \<Rightarrow> bool"
  rm_create_dir :: "string \<Rightarrow> string + unit"
  rm_write :: "string \<Rightarrow> string + unit"
  rm_npm :: "string list \<Rightarrow> process_end"
  rm_node :: "string list \<Rightarrow> process_end"
  rm_files :: "string \<rightharpoonup> string"

definition require_command :: "rec_machine \<Rightarrow> string \<Rightarrow> string \<Rightarrow> string + unit" where
  "require_command m name help =
     (if rm_version_ok m name then Inr () else Inl (name @ '' is required. '' @ help @ ''.''))"

definition run_npm :: "rec_machine \<Rightarrow> string list \<Rightarrow> string + unit" where
  "run_npm m args =
     (case rm_npm m args of
        NotStarted e \<Rightarrow> Inl e
      | Succeeded \<Rightarrow> Inr ()
      | ExitedWith st \<Rightarrow> Inl (''npm '' @ join '' '' args @ '' failed with '' @ st))"

definition write_if_changed :: "string \<Rightarrow> string \<Rightarrow> rec_machine \<Rightarrow> (string + unit) \<times> rec_machine" where
  "write_if_changed path content m =
     (if rm_files m path \<noteq> Some content then
        (case rm_write m path of
           Inl e \<Rightarrow> (Inl e, m)
         | Inr u \<Rightarrow> (Inr (), m\<lparr>rm_files := (rm_files m)(path \<mapsto> content)\<rparr>))
      else (Inr (), m))"

fun write_all :: "(string \<times> string) list \<Rightarrow> rec_machine \<Rightarrow> (string + unit) \<times> rec_machine" where
  "write_all [] m = (Inr (), m)"
| "write_all ((p, c) # ws) m =
     (case write_if_changed p c m of (Inl e, m') \<Rightarrow> (Inl e, m') | (Inr u, m') \<Rightarrow> write_all ws m')"

text \<open>The two embedded scripts are \<open>recorder\<close> and \<open>redaction\<close>.\<close>

definition prepare_runtime ::
  "string \<Rightarrow> string \<Rightarrow> target_os \<Rightarrow> (string \<rightharpoonup> string) \<Rightarrow> bool \<Rightarrow> rec_machine \<Rightarrow> (string + string) \<times> rec_machine" where
  "prepare_runtime recorder redaction os env install_browser m =
     (case res_bind (require_command m ''node'' ''Install Node.js 20 or newer'') (\<lambda>u.
             res_bind (require_command m ''npm'' ''Install npm with Node.js'') (\<lambda>u.
               res_bind (runtime_directory os env) (\<lambda>d. res_bind (rm_create_dir m d) (\<lambda>u. Inr d)))) of
        Inl e \<Rightarrow> (Inl e, m)
      | Inr d \<Rightarrow>
          (case write_all [(path_join d ''package.json'', package_source),
                           (path_join d ''provider-record.mjs'', recorder),
                           (path_join d ''provider-record-redaction.mjs'', redaction)] m of
             (Inl e, m') \<Rightarrow> (Inl e, m')
           | (Inr u, m') \<Rightarrow>
               (res_bind
                  (if rm_files m' (path_join d ''node_modules/playwright/package.json'') = None
                   then run_npm m' [''install'', ''--omit=dev'', ''--no-audit'', ''--no-fund''] else Inr ())
                  (\<lambda>u. res_bind
                    (if install_browser
                     then run_npm m' [''exec'', ''--'', ''playwright'', ''install'', ''chromium''] else Inr ())
                    (\<lambda>u. Inr d)), m')))"

definition provider_run ::
  "string \<Rightarrow> string \<Rightarrow> target_os \<Rightarrow> (string \<rightharpoonup> string) \<Rightarrow> record_action \<Rightarrow> rec_machine \<Rightarrow>
   (string + unit) \<times> rec_machine" where
  "provider_run recorder redaction os env a m =
     (case prepare_runtime recorder redaction os env (ra_cdp_url a = None) m of
        (Inl e, m') \<Rightarrow> (Inl e, m')
      | (Inr d, m') \<Rightarrow>
          (case rm_node m' (path_join d ''provider-record.mjs'' # record_arguments a) of
             NotStarted e \<Rightarrow> (Inl (''Failed to start Node.js provider recorder: '' @ e), m')
           | Succeeded \<Rightarrow> (Inr (), m')
           | ExitedWith st \<Rightarrow> (Inl (''Provider recorder exited with '' @ st), m')))"

section \<open>Properties\<close>

text \<open>The client and the server agree on platform names. The number that the client sends for a name
  is the one the server reads as the platform that the core's parser gives the name, and the client
  refuses exactly the names that the parser refuses, that is, those that are not the name of a
  platform up to case.\<close>

theorem cli_platform_matches_server:
  "(case platform_to_proto s of
      Inl e \<Rightarrow> platform_from_str s = None \<and> to_lowercase s \<notin> set (map platform_as_str platform_ALL)
    | Inr n \<Rightarrow> \<exists>p. platform_from_str s = Some p \<and> platform_from_proto n = Inr p \<and> to_lowercase s = platform_as_str p)"
proof -
  have codes: "platform_from_proto 1 = Inr Instagram" "platform_from_proto 2 = Inr Threads"
    "platform_from_proto 3 = Inr Naver" "platform_from_proto 4 = Inr Novelpia" "platform_from_proto 5 = Inr Munpia"
    by (simp_all add: platform_from_proto_def proto_platform_try_from_def)
  show ?thesis
    by (auto simp: platform_to_proto_def platform_from_str_def platform_ALL_def Let_def codes)
qed

text \<open>A client's key opens exactly a server that has it. A request that the client sends passes the
  interceptor if and only if the server has no key or its trimmed key is the client's key as given.
  The client does not trim: a key with surrounding white space that is given to both sides locks
  the client out.\<close>

theorem cli_key_accepted_iff:
  assumes "cli_send valid channel stdin key cmd = Inr (rq, md)" "auth_ops_ok ops"
    and "\<forall>v. valid v \<longrightarrow> ao_to_str ops v = Some v"
  shows "(auth_interceptor ops (normalize_api_key raw) md = Inr md \<longleftrightarrow>
           normalize_api_key raw = None \<or> normalize_api_key raw = key) \<and>
         (key = raw \<and> raw = Some r \<and> trim r \<noteq> r \<and> trim r \<noteq> [] \<longrightarrow>
           auth_interceptor ops (normalize_api_key raw) md =
             Inl (status_of GUnauthenticated ''Invalid or missing API key''))"
proof -
  have "provided_key ops md = key"
    using assms(1,3) by (cases key)
      (auto simp: cli_send_def with_api_key_def metadata_insert_def provided_key_def res_bind_Inr_iff
            simp del: append_Cons split: if_splits)
  then show ?thesis
    by (auto simp: auth_interceptor_spec [OF assms(2)] normalize_api_key_def)
qed

theorem cli_key_accepted_iff_witness:
  "\<exists>rq md. cli_send (\<lambda>v. \<forall>c\<in>set v. c \<noteq> CHR 0x0A) (Inr \<lparr>ep_server = ''http://h'', ep_tls = None\<rparr>) (Inr [])
       (Some '' k'') (CmdStatus ''s1'') = Inr (rq, md) \<and>
     auth_interceptor toy_ops (normalize_api_key (Some '' k'')) md =
       Inl (status_of GUnauthenticated ''Invalid or missing API key'')"
proof -
  let ?v = "\<lambda>v::string. \<forall>c\<in>set v. c \<noteq> CHR 0x0A"
  obtain rq md where s: "cli_send ?v (Inr \<lparr>ep_server = ''http://h'', ep_tls = None\<rparr>) (Inr [])
       (Some '' k'') (CmdStatus ''s1'') = Inr (rq, md)"
    by (simp add: cli_send_def request_of_def with_api_key_def)
  have t: "trim '' k'' \<noteq> '' k''" "trim '' k'' \<noteq> []" by code_simp+
  have v: "\<forall>v. ?v v \<longrightarrow> ao_to_str toy_ops v = Some v" by (simp add: toy_ops_def)
  from cli_key_accepted_iff [OF s toy_ops_ok v, of "Some '' k''" "'' k''"] s t show ?thesis by blast
qed

lemma event_status_of [simp]:
  "event_status (event_to_proto (LeStarted s)) = session_state_to_proto (ss_state s)"
  "event_status (event_to_proto (LeWaitingForUser s v)) = session_state_to_proto (ss_state s)"
  "event_status (event_to_proto (LeFinal s cs)) = session_state_to_proto (ss_state s)"
  by (cases "ss_state s"; simp add: event_status_def proto_status_try_from_def)+

lemma session_state_to_proto_Connected [simp]: "session_state_to_proto x = PsConnected \<longleftrightarrow> x = Connected"
  by (cases x) simp_all

lemma show_one: "show_nat (Suc 0) = ''1''" by code_simp

lemma toy_login_events:
  "\<exists>st s1 s2 v s. login_run toy_cfg toy_time toy_inputs toy_start = Some st \<and>
     ls_events st = [LeStarted s1, LeWaitingForUser s2 v, LeFinal s [toy_cookie ''NID_AUT'' ''x'']] \<and>
     ss_state s1 = Idle \<and> ss_state s2 = WaitingForUser \<and> ss_state s = Connected"
  by (simp add: toy_inputs_def toy_start_def toy_login_defs toy_classify Let_def
     save_login_def toy_env_def sqlite_repo_def aes_svc_encrypt_def login_row_def open_statuses_def)

text \<open>C9: What the client tells the user is true. When the output for the event stream of a login has the
  line of a successful login, that login committed cookies, as many as the line says, and they hold
  an unexpired session cookie of the platform.\<close>

theorem cli_success_is_truthful:
  assumes "login_reach cfg fts (login_init cfg wall i db) st" "db_sessions db i = None"
    and "login_output (map (Inr \<circ> event_to_proto) (ls_events st)) = (ls, r)"
    and "''Login successful! Cookies: '' @ n \<in> set ls"
  shows "\<exists>cs now. ls_commits st = [cs] \<and> n = show_nat (length cs) \<and> has_session_cookie (lc_platform cfg) now cs"
proof -
  have ok: "login_ok cfg i st" using login_ok_reach [OF assms(1)] login_ok_init [OF assms(2)] by blast
  have lines: "\<exists>e\<in>set es. event_status (event_to_proto e) = PsConnected \<and> n = show_nat (length (ae_cookies (event_to_proto e)))"
    if "login_output (map (Inr \<circ> event_to_proto) es) = (ls', r')" "''Login successful! Cookies: '' @ n \<in> set ls'"
    for es ls' r'
    using that
    by (induction es arbitrary: ls')
      (auto simp: event_lines_def split: if_splits prod.splits proto_status.splits)
  from lines [OF assms(3,4)] obtain e where e: "e \<in> set (ls_events st)"
    "event_status (event_to_proto e) = PsConnected" "n = show_nat (length (ae_cookies (event_to_proto e)))" by blast
  note ev = login_stream_events [OF assms(1,2) e(1)]
  show ?thesis
  proof (cases e)
    case (LeFinal s cs)
    then have "ss_state s = Connected" using e(2) by simp
    with ev LeFinal have "committed cfg cs st" by (simp add: outcome_def)
    then obtain now raw where "ls_commits st = [cs]" "classify_auth_state now raw (lc_platform cfg) = CpConnected cs"
      by (auto simp: committed_def detected_def)
    moreover have "n = show_nat (length cs)" using e(3) LeFinal by (simp add: event_to_proto_def)
    ultimately show ?thesis using classify_ConnectedD by blast
  qed (use e(2) ev in auto)
qed

theorem cli_success_is_truthful_witness:
  "\<exists>st ls r. login_run toy_cfg toy_time toy_inputs toy_start = Some st \<and>
     login_output (map (Inr \<circ> event_to_proto) (ls_events st)) = (ls, r) \<and>
     ''Login successful! Cookies: '' @ ''1'' \<in> set ls \<and> length (ls_commits st) = 1"
proof -
  obtain st s1 s2 v s where st: "login_run toy_cfg toy_time toy_inputs toy_start = Some st"
    and ev: "ls_events st = [LeStarted s1, LeWaitingForUser s2 v, LeFinal s [toy_cookie ''NID_AUT'' ''x'']]"
    "ss_state s1 = Idle" "ss_state s2 = WaitingForUser" "ss_state s = Connected"
    using toy_login_events by blast
  have reach: "login_reach toy_cfg toy_time (login_init toy_cfg 0 ''s1''
      \<lparr>db_sessions = Map.empty, db_cookies = [], db_credentials = Map.empty\<rparr>) st"
    using login_run_reach [OF st] unfolding toy_start_def .
  obtain ls r where out: "login_output (map (Inr \<circ> event_to_proto) (ls_events st)) = (ls, r)" by fastforce
  have "event_lines (event_to_proto (LeFinal s [toy_cookie ''NID_AUT'' ''x''])) =
      [''Status: '' @ status_name PsConnected, ''Message: '' @ ae_message (event_to_proto (LeFinal s [toy_cookie ''NID_AUT'' ''x''])),
       ''Login successful! Cookies: '' @ ''1'']"
    using ev(4) by (simp add: event_lines_def) (simp add: event_to_proto_def show_one)
  then have "''Login successful! Cookies: '' @ ''1'' \<in> set ls"
    using out ev by (auto split: prod.splits)
  from cli_success_is_truthful [OF reach _ out this] st out this show ?thesis by fastforce
qed

end
