(* ===== verification/Cdp_Command.thy ===== *)
theory Cdp_Command
  imports Prelude
begin

text \<open>
  The command chain and the network manager of the patched browser driver
  (\<open>patches/chromiumoxide/src/cmd.rs\<close>, \<open>handler/network.rs\<close>, \<open>handler/http.rs\<close>). A chain sends its
  commands one at a time and gives up when an answer is late; the network manager turns the
  DevTools events of requests into its own and answers interception and authentication events.
  Parameters of a command are opaque values (\<open>serde_json\<close>), identifiers are strings.
\<close>

section \<open>Command chains\<close>

record 'v command_chain =
  cc_cmds :: "(string \<times> 'v) list"
  cc_waiting :: "(string \<times> duration) option"
  cc_timeout :: duration

datatype 'v next_command =
    NcPending
  | NcDone
  | NcCommand string 'v
  | NcDeadline duration duration

definition chain_new :: "(string \<times> 'v) list \<Rightarrow> duration \<Rightarrow> 'v command_chain" where
  "chain_new cmds timeout = \<lparr>cc_cmds = cmds, cc_waiting = None, cc_timeout = timeout\<rparr>"

definition chain_push_back :: "string \<Rightarrow> 'v \<Rightarrow> 'v command_chain \<Rightarrow> 'v command_chain" where
  "chain_push_back m v c = c\<lparr>cc_cmds := cc_cmds c @ [(m, v)]\<rparr>"

definition chain_received_response :: "string \<Rightarrow> 'v command_chain \<Rightarrow> bool \<times> 'v command_chain" where
  "chain_received_response i c =
     (if map_option fst (cc_waiting c) = Some i then (True, c\<lparr>cc_waiting := None\<rparr>) else (False, c))"

definition chain_poll :: "duration \<Rightarrow> 'v command_chain \<Rightarrow> 'v next_command \<times> 'v command_chain" where
  "chain_poll now c =
     (case cc_waiting c of
        Some (cmd, deadline) \<Rightarrow> (if now > deadline then NcDeadline now deadline else NcPending, c)
      | None \<Rightarrow>
          (case cc_cmds c of
             [] \<Rightarrow> (NcDone, c)
           | (m, v) # cs \<Rightarrow>
               (NcCommand m v, c\<lparr>cc_cmds := cs, cc_waiting := Some (m, now + cc_timeout c)\<rparr>)))"

text \<open>What a chain has to do: the commands it was given, in order.\<close>

datatype 'v chain_event = CePoll duration | CeResponse string | CePush string 'v

text \<open>A run collects the commands handed out.\<close>

fun chain_run :: "'v chain_event list \<Rightarrow> 'v command_chain \<Rightarrow> (string \<times> 'v) list \<times> 'v command_chain" where
  "chain_run [] c = ([], c)"
| "chain_run (CePoll now # es) c =
     (case chain_poll now c of
        (NcCommand m v, c') \<Rightarrow> (case chain_run es c' of (out, d) \<Rightarrow> ((m, v) # out, d))
      | (_, c') \<Rightarrow> chain_run es c')"
| "chain_run (CeResponse i # es) c = chain_run es (snd (chain_received_response i c))"
| "chain_run (CePush m v # es) c = chain_run es (chain_push_back m v c)"

fun pushed :: "'v chain_event list \<Rightarrow> (string \<times> 'v) list" where
  "pushed [] = []"
| "pushed (CePush m v # es) = (m, v) # pushed es"
| "pushed (e # es) = pushed es"

lemma chain_run_order:
  "chain_run es c = (out, d) \<Longrightarrow> out @ cc_cmds d = cc_cmds c @ pushed es"
  by (induction es c arbitrary: out d rule: chain_run.induct)
    (auto simp: chain_poll_def chain_received_response_def chain_push_back_def
      split: option.splits list.splits prod.splits if_splits)

text \<open>Responses to the commands handed out, by name.\<close>

fun answered :: "'v chain_event list \<Rightarrow> 'v command_chain \<Rightarrow> nat" where
  "answered [] c = 0"
| "answered (CePoll now # es) c = answered es (snd (chain_poll now c))"
| "answered (CeResponse i # es) c =
     (case chain_received_response i c of (b, c') \<Rightarrow> (if b then 1 else 0) + answered es c')"
| "answered (CePush m v # es) c = answered es (chain_push_back m v c)"

definition outstanding :: "'v command_chain \<Rightarrow> nat" where
  "outstanding c = (if cc_waiting c = None then 0 else 1)"

lemma chain_run_outstanding:
  "chain_run es c = (out, d) \<Longrightarrow> length out + outstanding c = answered es c + outstanding d"
  by (induction es c arbitrary: out d rule: chain_run.induct)
    (auto simp: chain_poll_def chain_received_response_def chain_push_back_def outstanding_def
      split: option.splits list.splits prod.splits if_splits)

end
