(* ===== verification/Cdp_Network.thy ===== *)
theory Cdp_Network
  imports Cdp_Command
begin

text \<open>
  The network manager of the patched browser driver (\<open>handler/network.rs\<close>, \<open>handler/http.rs\<close>): it
  turns the DevTools events of requests into its own, answers interception and authentication
  events, and keeps the protocol state of interception and cache. A response is its opaque text;
  the hash maps are partial functions, the queue is a list.
\<close>

section \<open>Requests\<close>

datatype http_request = HttpRequest
  (hr_request_id: string)
  (hr_from_memory_cache: bool)
  (hr_failure_text: "string option")
  (hr_interception_id: "string option")
  (hr_response: "string option")
  (hr_headers: "(string \<times> string) list")
  (hr_frame: "string option")
  (hr_is_navigation_request: bool)
  (hr_allow_interception: bool)
  (hr_interception_handled: bool)
  (hr_method: "string option")
  (hr_url: "string option")
  (hr_resource_type: "string option")
  (hr_post_data: "string option")
  (hr_redirect_chain: "http_request list")

definition http_request_new ::
  "string \<Rightarrow> string option \<Rightarrow> string option \<Rightarrow> bool \<Rightarrow> http_request list \<Rightarrow> http_request" where
  "http_request_new i frame interception allow redirects =
     HttpRequest i False None interception None [] frame False allow False None None None None redirects"

fun set_response :: "string \<Rightarrow> http_request \<Rightarrow> http_request" where
  "set_response r (HttpRequest i c f x _ h fr n a d m u t p ch) = HttpRequest i c f x (Some r) h fr n a d m u t p ch"

fun set_from_memory_cache :: "http_request \<Rightarrow> http_request" where
  "set_from_memory_cache (HttpRequest i _ f x r h fr n a d m u t p ch) = HttpRequest i True f x r h fr n a d m u t p ch"

fun set_failure_text :: "string \<Rightarrow> http_request \<Rightarrow> http_request" where
  "set_failure_text e (HttpRequest i c _ x r h fr n a d m u t p ch) = HttpRequest i c (Some e) x r h fr n a d m u t p ch"

fun take_redirect_chain :: "http_request \<Rightarrow> http_request list \<times> http_request" where
  "take_redirect_chain (HttpRequest i c f x r h fr n a d m u t p ch) = (ch, HttpRequest i c f x r h fr n a d m u t p [])"

section \<open>Events and commands\<close>

record request_will_be_sent =
  rw_request_id :: string
  rw_url :: string
  rw_frame_id :: "string option"
  rw_redirect_response :: "string option"

record request_paused =
  ev_request_id :: string
  ev_network_id :: "string option"

record net_credentials =
  nc_username :: string
  nc_password :: string

datatype auth_answer = CancelAuth | ProvideCredentials | DefaultAuth

datatype net_command =
    NetEnable
  | SetIgnoreCertificateErrors bool
  | SetExtraHttpHeaders "string \<rightharpoonup> string"
  | SetCacheDisabled bool
  | FetchEnable bool string
  | FetchDisable
  | ContinueRequest string
  | ContinueWithAuth string auth_answer "string option" "string option"
  | EmulateNetworkConditions bool

datatype network_event =
    SendCdpRequest net_command
  | NeRequest string
  | NeResponse string
  | NeRequestFailed http_request
  | NeRequestFinished http_request

record network_manager =
  nm_queued_events :: "network_event list"
  nm_ignore_httpserrors :: bool
  nm_requests :: "string \<rightharpoonup> http_request"
  nm_requests_will_be_sent :: "string \<rightharpoonup> request_will_be_sent"
  nm_extra_headers :: "string \<rightharpoonup> string"
  nm_interception_ids :: "string \<rightharpoonup> string"
  nm_user_cache_disabled :: bool
  nm_attempted :: "string set"
  nm_credentials :: "net_credentials option"
  nm_user_interception :: bool
  nm_protocol_interception :: bool
  nm_offline :: bool
  nm_request_timeout :: duration

definition network_manager_new :: "bool \<Rightarrow> duration \<Rightarrow> network_manager" where
  "network_manager_new ignore timeout =
     \<lparr>nm_queued_events = [], nm_ignore_httpserrors = ignore, nm_requests = Map.empty,
      nm_requests_will_be_sent = Map.empty, nm_extra_headers = Map.empty,
      nm_interception_ids = Map.empty, nm_user_cache_disabled = False, nm_attempted = {},
      nm_credentials = None, nm_user_interception = False, nm_protocol_interception = False,
      nm_offline = False, nm_request_timeout = timeout\<rparr>"

definition net_init_commands :: "network_manager \<Rightarrow> net_command list" where
  "net_init_commands nm =
     (if nm_ignore_httpserrors nm then [NetEnable, SetIgnoreCertificateErrors True] else [NetEnable])"

definition queue_event :: "network_event \<Rightarrow> network_manager \<Rightarrow> network_manager" where
  "queue_event e nm = nm\<lparr>nm_queued_events := nm_queued_events nm @ [e]\<rparr>"

definition push_cdp_request :: "net_command \<Rightarrow> network_manager \<Rightarrow> network_manager" where
  "push_cdp_request c nm = queue_event (SendCdpRequest c) nm"

definition net_poll :: "network_manager \<Rightarrow> network_event option \<times> network_manager" where
  "net_poll nm =
     (case nm_queued_events nm of
        [] \<Rightarrow> (None, nm)
      | e # es \<Rightarrow> (Some e, nm\<lparr>nm_queued_events := es\<rparr>))"

section \<open>Settings\<close>

definition set_extra_headers :: "(string \<rightharpoonup> string) \<Rightarrow> network_manager \<Rightarrow> network_manager" where
  "set_extra_headers h nm = push_cdp_request (SetExtraHttpHeaders h) (nm\<lparr>nm_extra_headers := h\<rparr>)"

definition update_protocol_cache_disabled :: "network_manager \<Rightarrow> network_manager" where
  "update_protocol_cache_disabled nm =
     push_cdp_request (SetCacheDisabled (nm_user_cache_disabled nm \<or> nm_protocol_interception nm)) nm"

definition update_protocol_request_interception :: "network_manager \<Rightarrow> network_manager" where
  "update_protocol_request_interception nm =
     (let enabled = nm_user_interception nm \<or> nm_credentials nm \<noteq> None in
      if enabled = nm_protocol_interception nm then nm
      else
        (let nm' = (update_protocol_cache_disabled nm)\<lparr>nm_protocol_interception := enabled\<rparr> in
         if enabled then push_cdp_request (FetchEnable True ''*'') nm'
         else push_cdp_request FetchDisable nm'))"

definition set_request_interception :: "bool \<Rightarrow> network_manager \<Rightarrow> network_manager" where
  "set_request_interception enabled nm =
     update_protocol_request_interception (nm\<lparr>nm_user_interception := enabled\<rparr>)"

definition set_cache_enabled :: "bool \<Rightarrow> network_manager \<Rightarrow> network_manager" where
  "set_cache_enabled enabled nm =
     update_protocol_cache_disabled (nm\<lparr>nm_user_cache_disabled := \<not> enabled\<rparr>)"

definition authenticate :: "net_credentials \<Rightarrow> network_manager \<Rightarrow> network_manager" where
  "authenticate c nm = update_protocol_request_interception (nm\<lparr>nm_credentials := Some c\<rparr>)"

definition set_offline_mode :: "bool \<Rightarrow> network_manager \<Rightarrow> network_manager" where
  "set_offline_mode v nm =
     (if nm_offline nm = v then nm
      else push_cdp_request (EmulateNetworkConditions v) (nm\<lparr>nm_offline := v\<rparr>))"

section \<open>Events of requests\<close>

definition forget_attempt :: "http_request \<Rightarrow> network_manager \<Rightarrow> network_manager" where
  "forget_attempt r nm =
     (case hr_interception_id r of
        None \<Rightarrow> nm
      | Some i \<Rightarrow> nm\<lparr>nm_attempted := nm_attempted nm - {i}\<rparr>)"

definition handle_request_redirect ::
  "http_request \<Rightarrow> string \<Rightarrow> network_manager \<Rightarrow> http_request \<times> network_manager" where
  "handle_request_redirect r resp nm = (set_response resp r, forget_attempt r nm)"

definition on_request :: "request_will_be_sent \<Rightarrow> string option \<Rightarrow> network_manager \<Rightarrow> network_manager" where
  "on_request ev interception nm =
     (let i = rw_request_id ev;
          (redirects, nm1) =
            (case rw_redirect_response ev of
               None \<Rightarrow> ([], nm)
             | Some resp \<Rightarrow>
                 (case nm_requests nm i of
                    None \<Rightarrow> ([], nm)
                  | Some r \<Rightarrow>
                      (case handle_request_redirect r resp (nm\<lparr>nm_requests := (nm_requests nm)(i := None)\<rparr>) of
                         (r', nm') \<Rightarrow> (case take_redirect_chain r' of (ch, r'') \<Rightarrow> (ch @ [r''], nm')))))
      in queue_event (NeRequest i)
           (nm1\<lparr>nm_requests := (nm_requests nm1)(i \<mapsto>
              http_request_new i (rw_frame_id ev) interception (nm_user_interception nm1) redirects)\<rparr>))"

definition on_fetch_request_paused :: "request_paused \<Rightarrow> network_manager \<Rightarrow> network_manager" where
  "on_fetch_request_paused ev nm =
     (let nm1 = (if \<not> nm_user_interception nm \<and> nm_protocol_interception nm
                 then push_cdp_request (ContinueRequest (ev_request_id ev)) nm else nm)
      in case ev_network_id ev of
           None \<Rightarrow> nm1
         | Some n \<Rightarrow>
             (case nm_requests_will_be_sent nm1 n of
                Some w \<Rightarrow>
                  on_request w (Some (ev_request_id ev))
                    (nm1\<lparr>nm_requests_will_be_sent := (nm_requests_will_be_sent nm1)(n := None)\<rparr>)
              | None \<Rightarrow> nm1\<lparr>nm_interception_ids := (nm_interception_ids nm1)(n \<mapsto> ev_request_id ev)\<rparr>))"

definition on_fetch_auth_required :: "string \<Rightarrow> network_manager \<Rightarrow> network_manager" where
  "on_fetch_auth_required i nm =
     (let (answer, nm1) =
        (if i \<in> nm_attempted nm then (CancelAuth, nm)
         else if nm_credentials nm \<noteq> None then (ProvideCredentials, nm\<lparr>nm_attempted := insert i (nm_attempted nm)\<rparr>)
         else (DefaultAuth, nm))
      in push_cdp_request
           (ContinueWithAuth i answer (map_option nc_username (nm_credentials nm1))
              (map_option nc_password (nm_credentials nm1))) nm1)"

definition on_request_will_be_sent :: "request_will_be_sent \<Rightarrow> network_manager \<Rightarrow> network_manager" where
  "on_request_will_be_sent ev nm =
     (if nm_protocol_interception nm \<and> \<not> starts_with (rw_url ev) ''data:'' then
        (case nm_interception_ids nm (rw_request_id ev) of
           Some i \<Rightarrow>
             on_request ev (Some i)
               (nm\<lparr>nm_interception_ids := (nm_interception_ids nm)(rw_request_id ev := None)\<rparr>)
         | None \<Rightarrow>
             nm\<lparr>nm_requests_will_be_sent := (nm_requests_will_be_sent nm)(rw_request_id ev \<mapsto> ev)\<rparr>)
      else on_request ev None nm)"

definition on_request_served_from_cache :: "string \<Rightarrow> network_manager \<Rightarrow> network_manager" where
  "on_request_served_from_cache i nm =
     nm\<lparr>nm_requests := (case nm_requests nm i of None \<Rightarrow> nm_requests nm
                        | Some r \<Rightarrow> (nm_requests nm)(i \<mapsto> set_from_memory_cache r))\<rparr>"

definition on_response_received :: "string \<Rightarrow> string \<Rightarrow> network_manager \<Rightarrow> network_manager" where
  "on_response_received i resp nm =
     (case nm_requests nm i of
        None \<Rightarrow> nm
      | Some r \<Rightarrow>
          queue_event (NeRequestFinished (set_response resp r))
            (nm\<lparr>nm_requests := (nm_requests nm)(i := None)\<rparr>))"

definition on_network_loading_finished :: "string \<Rightarrow> network_manager \<Rightarrow> network_manager" where
  "on_network_loading_finished i nm =
     (case nm_requests nm i of
        None \<Rightarrow> nm
      | Some r \<Rightarrow>
          queue_event (NeRequestFinished r)
            (forget_attempt r (nm\<lparr>nm_requests := (nm_requests nm)(i := None)\<rparr>)))"

definition on_network_loading_failed :: "string \<Rightarrow> string \<Rightarrow> network_manager \<Rightarrow> network_manager" where
  "on_network_loading_failed i err nm =
     (case nm_requests nm i of
        None \<Rightarrow> nm
      | Some r \<Rightarrow>
          queue_event (NeRequestFailed (set_failure_text err r))
            (forget_attempt r (nm\<lparr>nm_requests := (nm_requests nm)(i := None)\<rparr>)))"

text \<open>Everything that can happen to the manager.\<close>

datatype net_input =
    NiHeaders "string \<rightharpoonup> string"
  | NiInterception bool
  | NiCache bool
  | NiAuthenticate net_credentials
  | NiOffline bool
  | NiPaused request_paused
  | NiAuthRequired string
  | NiWillBeSent request_will_be_sent
  | NiServedFromCache string
  | NiResponse string string
  | NiLoadingFinished string
  | NiLoadingFailed string string

fun net_step :: "net_input \<Rightarrow> network_manager \<Rightarrow> network_manager" where
  "net_step (NiHeaders h) nm = set_extra_headers h nm"
| "net_step (NiInterception b) nm = set_request_interception b nm"
| "net_step (NiCache b) nm = set_cache_enabled b nm"
| "net_step (NiAuthenticate c) nm = authenticate c nm"
| "net_step (NiOffline b) nm = set_offline_mode b nm"
| "net_step (NiPaused ev) nm = on_fetch_request_paused ev nm"
| "net_step (NiAuthRequired i) nm = on_fetch_auth_required i nm"
| "net_step (NiWillBeSent ev) nm = on_request_will_be_sent ev nm"
| "net_step (NiServedFromCache i) nm = on_request_served_from_cache i nm"
| "net_step (NiResponse i r) nm = on_response_received i r nm"
| "net_step (NiLoadingFinished i) nm = on_network_loading_finished i nm"
| "net_step (NiLoadingFailed i e) nm = on_network_loading_failed i e nm"

end
