(* ===== verification/Cdp_Network_Props.thy ===== *)
theory Cdp_Network_Props
  imports Cdp_Network
begin

text \<open>
  The properties of command chains and of the network manager: commands go out in order and one at a
  time, credentials are offered once, requests are reported once, the two events that announce an
  intercepted request commute, and the cache setting that interception leaves behind.
\<close>

section \<open>Chains\<close>

text \<open>A command chain is a queue that has one command under way. Over any polls, answers and further
  commands, what it hands out is a prefix of what it was given, in that order, every command but the
  last one handed out has been answered by name, and while the last one is unanswered a poll hands
  out nothing: it is pending until the deadline and a deadline error after it.\<close>

theorem command_chain_in_order:
  assumes "chain_run es (chain_new cmds t) = (out, c)"
  shows "out @ cc_cmds c = cmds @ pushed es \<and>
         length out = answered es (chain_new cmds t) + outstanding c \<and> outstanding c \<le> 1 \<and>
         (\<forall>m d now. cc_waiting c = Some (m, d) \<longrightarrow>
            chain_poll now c = (if now \<le> d then NcPending else NcDeadline now d, c))"
  using chain_run_order [OF assms] chain_run_outstanding [OF assms]
  by (auto simp: chain_new_def outstanding_def chain_poll_def)

theorem command_chain_in_order_witness:
  "\<exists>c. chain_run [CePoll 0, CePoll 1, CeResponse ''a'', CePoll 2, CePoll 9] (chain_new [(''a'', 1), (''b'', 2 :: int)] 5) =
       ([(''a'', 1), (''b'', 2)], c) \<and> length [(''a'', 1), (''b'', 2 :: int)] = 1 + outstanding c"
proof -
  obtain c where c: "chain_run [CePoll 0, CePoll 1, CeResponse ''a'', CePoll 2, CePoll 9]
      (chain_new [(''a'', 1), (''b'', 2 :: int)] 5) = ([(''a'', 1), (''b'', 2)], c)"
    by (simp add: chain_new_def chain_poll_def chain_received_response_def)
  have "answered [CePoll 0, CePoll 1, CeResponse ''a'', CePoll 2, CePoll 9]
      (chain_new [(''a'', 1), (''b'', 2 :: int)] 5) = 1"
    by (simp add: chain_new_def chain_poll_def chain_received_response_def)
  with command_chain_in_order [OF c] c show ?thesis by metis
qed

section \<open>The queue of the manager\<close>

lemmas net_defs = push_cdp_request_def queue_event_def set_extra_headers_def update_protocol_cache_disabled_def
  update_protocol_request_interception_def set_request_interception_def set_cache_enabled_def authenticate_def
  set_offline_mode_def forget_attempt_def on_fetch_auth_required_def on_request_served_from_cache_def
  on_response_received_def on_network_loading_finished_def on_network_loading_failed_def

text \<open>What \<open>on_request\<close> does to each part of the state.\<close>

definition redirected :: "request_will_be_sent \<Rightarrow> network_manager \<Rightarrow> http_request option" where
  "redirected ev nm = (if rw_redirect_response ev = None then None else nm_requests nm (rw_request_id ev))"

lemma on_request_facts:
  "nm_queued_events (on_request ev x nm) = nm_queued_events nm @ [NeRequest (rw_request_id ev)]"
  "\<exists>r. nm_requests (on_request ev x nm) = (nm_requests nm)(rw_request_id ev \<mapsto> r) \<and> hr_request_id r = rw_request_id ev"
  "nm_attempted (on_request ev x nm) =
     (case Option.bind (redirected ev nm) hr_interception_id of None \<Rightarrow> nm_attempted nm | Some i \<Rightarrow> nm_attempted nm - {i})"
  by (auto simp: on_request_def redirected_def queue_event_def handle_request_redirect_def forget_attempt_def
      http_request_new_def Let_def split: option.splits prod.splits)

section \<open>Credentials are offered once\<close>

definition completes :: "string \<Rightarrow> net_input \<Rightarrow> network_manager \<Rightarrow> bool" where
  "completes i e nm =
     (case e of
        NiLoadingFinished j \<Rightarrow> Option.bind (nm_requests nm j) hr_interception_id = Some i
      | NiLoadingFailed j err \<Rightarrow> Option.bind (nm_requests nm j) hr_interception_id = Some i
      | NiWillBeSent ev \<Rightarrow> Option.bind (redirected ev nm) hr_interception_id = Some i
      | NiPaused p \<Rightarrow>
          (\<exists>w. Option.bind (ev_network_id p) (nm_requests_will_be_sent nm) = Some w \<and>
               Option.bind (redirected w nm) hr_interception_id = Some i)
      | _ \<Rightarrow> False)"

fun undisturbed :: "string \<Rightarrow> net_input list \<Rightarrow> network_manager \<Rightarrow> bool" where
  "undisturbed i [] nm = True"
| "undisturbed i (e # es) nm = (\<not> completes i e nm \<and> undisturbed i es (net_step e nm))"

fun is_offer :: "string \<Rightarrow> network_event \<Rightarrow> bool" where
  "is_offer i (SendCdpRequest (ContinueWithAuth j ProvideCredentials u p)) = (i = j)"
| "is_offer i e = False"

definition offers :: "string \<Rightarrow> network_manager \<Rightarrow> nat" where
  "offers i nm = length (filter (is_offer i) (nm_queued_events nm))"

definition offers_left :: "string \<Rightarrow> network_manager \<Rightarrow> nat" where
  "offers_left i nm = (if i \<in> nm_attempted nm then 0 else 1)"

lemma offers_step:
  assumes "\<not> completes i e nm"
  shows "offers i (net_step e nm) + offers_left i (net_step e nm) \<le> offers i nm + offers_left i nm"
proof (cases e)
  case (NiPaused p)
  with assms show ?thesis
    by (auto simp: on_fetch_request_paused_def offers_def offers_left_def on_request_facts completes_def redirected_def
        push_cdp_request_def queue_event_def Let_def split: option.splits if_splits)
next
  case (NiWillBeSent ev)
  with assms show ?thesis
    by (auto simp: on_request_will_be_sent_def offers_def offers_left_def on_request_facts completes_def redirected_def
        split: option.splits if_splits)
qed (use assms in \<open>auto simp: net_defs offers_def offers_left_def completes_def Let_def split: option.splits\<close>)

text \<open>C23: The network manager offers the credentials of a proxy or site at most once for an intercepted
  request. As long as that request is neither redirected nor finished nor failed, further
  authentication challenges for it are cancelled, so wrong credentials cannot cause an endless
  exchange of challenges.\<close>

theorem credentials_offered_once:
  assumes "undisturbed i es nm"
  shows "offers i (fold net_step es nm) \<le> Suc (offers i nm)"
proof -
  have "offers i (fold net_step es nm) + offers_left i (fold net_step es nm) \<le> offers i nm + offers_left i nm"
    using assms
  proof (induction es arbitrary: nm)
    case (Cons e es)
    then have "offers i (net_step e nm) + offers_left i (net_step e nm) \<le> offers i nm + offers_left i nm"
      by (intro offers_step) simp
    with Cons show ?case by force
  qed simp
  then show ?thesis by (auto simp: offers_left_def split: if_splits)
qed

theorem credentials_offered_once_witness:
  "let es = [NiAuthenticate \<lparr>nc_username = ''u'', nc_password = ''p''\<rparr>, NiAuthRequired ''i1'', NiAuthRequired ''i1''];
       nm = network_manager_new False 0
   in offers ''i1'' (fold net_step es nm) \<le> Suc (offers ''i1'' nm) \<and> offers ''i1'' (fold net_step es nm) = 1"
proof -
  let ?es = "[NiAuthenticate \<lparr>nc_username = ''u'', nc_password = ''p''\<rparr>, NiAuthRequired ''i1'', NiAuthRequired ''i1'']"
  have "undisturbed ''i1'' ?es (network_manager_new False 0)" by (simp add: completes_def)
  from credentials_offered_once [OF this] show ?thesis
    by (simp add: Let_def net_defs network_manager_new_def offers_def)
qed

section \<open>Requests are reported once\<close>

fun starts_request :: "string \<Rightarrow> network_event \<Rightarrow> bool" where
  "starts_request i (NeRequest j) = (i = j)"
| "starts_request i e = False"

fun ends_request :: "string \<Rightarrow> network_event \<Rightarrow> bool" where
  "ends_request i (NeRequestFinished r) = (hr_request_id r = i)"
| "ends_request i (NeRequestFailed r) = (hr_request_id r = i)"
| "ends_request i e = False"

definition started :: "string \<Rightarrow> network_manager \<Rightarrow> nat" where
  "started i nm = length (filter (starts_request i) (nm_queued_events nm))"

definition ended :: "string \<Rightarrow> network_manager \<Rightarrow> nat" where
  "ended i nm = length (filter (ends_request i) (nm_queued_events nm))"

definition reports_ok :: "network_manager \<Rightarrow> bool" where
  "reports_ok nm \<longleftrightarrow>
     (\<forall>i r. nm_requests nm i = Some r \<longrightarrow> hr_request_id r = i) \<and>
     (\<forall>i. ended i nm + (if nm_requests nm i = None then 0 else 1) \<le> started i nm)"

lemma request_id_kept [simp]:
  "hr_request_id (set_response x r) = hr_request_id r"
  "hr_request_id (set_failure_text x r) = hr_request_id r"
  "hr_request_id (set_from_memory_cache r) = hr_request_id r"
  by (cases r; simp)+

definition request_report :: "network_event \<Rightarrow> bool" where
  "request_report e = (\<exists>i. starts_request i e \<or> ends_request i e)"

lemma count_reports:
  "started i nm = length (filter (starts_request i) (filter request_report (nm_queued_events nm)))"
  "ended i nm = length (filter (ends_request i) (filter request_report (nm_queued_events nm)))"
  by (auto simp: started_def ended_def request_report_def filter_filter intro!: arg_cong [of _ _ length] filter_cong)

lemma reports_ok_cong:
  assumes "nm_requests nm' = nm_requests nm"
    and "filter request_report (nm_queued_events nm') = filter request_report (nm_queued_events nm)"
  shows "reports_ok nm' = reports_ok nm"
  using assms by (simp add: reports_ok_def count_reports)

lemma request_report_send [simp]: "request_report (SendCdpRequest c) = False"
  by (simp add: request_report_def)

lemma reports_okI:
  assumes "\<And>i r. nm_requests nm i = Some r \<Longrightarrow> hr_request_id r = i"
    and "\<And>i. ended i nm + (if nm_requests nm i = None then 0 else 1) \<le> started i nm"
  shows "reports_ok nm"
  using assms by (simp add: reports_ok_def)

lemma reports_okD:
  assumes "reports_ok nm"
  shows "nm_requests nm i = Some r \<Longrightarrow> hr_request_id r = i"
    and "ended i nm + (if nm_requests nm i = None then 0 else 1) \<le> started i nm"
  using assms by (simp_all only: reports_ok_def)

lemma reports_ok_on_request:
  assumes ok: "reports_ok nm"
  shows "reports_ok (on_request ev x nm)"
proof -
  obtain r where r: "nm_requests (on_request ev x nm) = (nm_requests nm)(rw_request_id ev \<mapsto> r)"
    "hr_request_id r = rw_request_id ev" using on_request_facts(2) [of ev x nm] by blast
  show ?thesis
  proof (rule reports_okI)
    show "hr_request_id q = i" if "nm_requests (on_request ev x nm) i = Some q" for i q
      using that r reports_okD(1) [OF ok, of i q] by (auto split: if_splits)
    show "ended i (on_request ev x nm) + (if nm_requests (on_request ev x nm) i = None then 0 else 1)
        \<le> started i (on_request ev x nm)" for i
      using r reports_okD(2) [OF ok, of i]
      by (auto simp: started_def ended_def on_request_facts(1) split: if_splits)
  qed
qed

text \<open>The three handlers that end a request.\<close>

lemma reports_ok_end:
  assumes ok: "reports_ok nm"
    and fin: "\<And>r. nm_requests nm j = Some r \<Longrightarrow>
      nm_queued_events (f r) = nm_queued_events nm @ [ev r] \<and> nm_requests (f r) = (nm_requests nm)(j := None) \<and>
      (\<forall>i. ends_request i (ev r) = (hr_request_id r = i)) \<and> (\<forall>i. \<not> starts_request i (ev r))"
  shows "reports_ok (case nm_requests nm j of None \<Rightarrow> nm | Some r \<Rightarrow> f r)"
proof (cases "nm_requests nm j")
  case (Some r)
  note f = fin [OF Some] and id = reports_okD(1) [OF ok Some]
  show ?thesis unfolding Some option.case
  proof (rule reports_okI)
    show "hr_request_id q = i" if "nm_requests (f r) i = Some q" for i q
      using that f reports_okD(1) [OF ok, of i q] by (auto split: if_splits)
    show "ended i (f r) + (if nm_requests (f r) i = None then 0 else 1) \<le> started i (f r)" for i
      using f id reports_okD(2) [OF ok, of i] Some by (auto simp: started_def ended_def split: if_splits)
  qed
qed (use ok in simp)

lemma reports_ok_step: "reports_ok nm \<Longrightarrow> reports_ok (net_step e nm)"
proof (cases e)
  case (NiPaused p)
  assume ok: "reports_ok nm"
  let ?nm = "if \<not> nm_user_interception nm \<and> nm_protocol_interception nm
             then push_cdp_request (ContinueRequest (ev_request_id p)) nm else nm"
  have ok1: "reports_ok ?nm" using ok by (subst reports_ok_cong [where nm = nm]) (auto simp: net_defs)
  have "reports_ok (?nm\<lparr>nm_requests_will_be_sent := a\<rparr>)" "reports_ok (?nm\<lparr>nm_interception_ids := b\<rparr>)" for a b
    using ok1 by (simp_all add: reports_ok_def started_def ended_def)
  then show ?thesis using NiPaused ok1
    by (auto simp: on_fetch_request_paused_def Let_def intro: reports_ok_on_request split: option.splits)
next
  case (NiWillBeSent ev)
  assume ok: "reports_ok nm"
  then have "reports_ok (nm\<lparr>nm_requests_will_be_sent := a\<rparr>)" "reports_ok (nm\<lparr>nm_interception_ids := b\<rparr>)" for a b
    by (simp_all add: reports_ok_def started_def ended_def)
  then show ?thesis using NiWillBeSent ok
    by (auto simp: on_request_will_be_sent_def intro: reports_ok_on_request split: option.splits)
next
  case (NiServedFromCache j)
  assume ok: "reports_ok nm"
  show ?thesis
  proof (rule reports_okI)
    show "hr_request_id q = i" if "nm_requests (net_step e nm) i = Some q" for i q
      using that NiServedFromCache reports_okD(1) [OF ok]
      by (auto simp: net_defs split: option.splits if_splits)
    show "ended i (net_step e nm) + (if nm_requests (net_step e nm) i = None then 0 else 1) \<le> started i (net_step e nm)" for i
      using NiServedFromCache reports_okD(2) [OF ok, of i]
      by (auto simp: net_defs started_def ended_def split: option.splits if_splits)
  qed
next
  case (NiResponse j x)
  assume ok: "reports_ok nm"
  show ?thesis unfolding NiResponse net_step.simps on_response_received_def
    by (rule reports_ok_end [OF ok, where ev = "\<lambda>r. NeRequestFinished (set_response x r)"]) (auto simp: queue_event_def)
next
  case (NiLoadingFinished j)
  assume ok: "reports_ok nm"
  show ?thesis unfolding NiLoadingFinished net_step.simps on_network_loading_finished_def
    by (rule reports_ok_end [OF ok, where ev = NeRequestFinished]) (auto simp: queue_event_def forget_attempt_def split: option.splits)
next
  case (NiLoadingFailed j x)
  assume ok: "reports_ok nm"
  show ?thesis unfolding NiLoadingFailed net_step.simps on_network_loading_failed_def
    by (rule reports_ok_end [OF ok, where ev = "\<lambda>r. NeRequestFailed (set_failure_text x r)"])
      (auto simp: queue_event_def forget_attempt_def split: option.splits)
qed (subst reports_ok_cong [where nm = nm]; auto simp: net_defs Let_def)+

text \<open>C24: Every request is reported consistently. From a new manager, after any events, no request has been
  reported finished or failed more often than it was reported started, and a request that is still
  being tracked has an end outstanding.\<close>

theorem requests_reported_once:
  "ended i (fold net_step es (network_manager_new b t)) +
     (if nm_requests (fold net_step es (network_manager_new b t)) i = None then 0 else 1)
   \<le> started i (fold net_step es (network_manager_new b t))"
proof -
  have "reports_ok nm \<Longrightarrow> reports_ok (fold net_step es nm)" for nm
    by (induction es arbitrary: nm) (auto intro: reports_ok_step)
  moreover have "reports_ok (network_manager_new b t)"
    by (simp add: reports_ok_def network_manager_new_def started_def ended_def)
  ultimately show ?thesis unfolding reports_ok_def by blast
qed

section \<open>Interception\<close>

text \<open>The two events that announce an intercepted request may come in either order. When neither was
  seen before, taking the paused event before the request or after it leads to the same state: the
  same requests, the same commands and the same reports in the same order.\<close>

theorem interception_events_commute:
  assumes "nm_protocol_interception nm" "\<not> starts_with (rw_url w) ''data:''"
    and "ev_network_id p = Some (rw_request_id w)"
    and "nm_requests_will_be_sent nm (rw_request_id w) = None" "nm_interception_ids nm (rw_request_id w) = None"
  shows "on_fetch_request_paused p (on_request_will_be_sent w nm) =
         on_request_will_be_sent w (on_fetch_request_paused p nm)"
  using assms
  by (cases nm)
    (auto simp: on_fetch_request_paused_def on_request_will_be_sent_def on_request_def push_cdp_request_def
      queue_event_def handle_request_redirect_def forget_attempt_def Let_def fun_upd_idem split: option.splits prod.splits)

theorem interception_events_commute_witness:
  "let nm = set_request_interception True (network_manager_new False 0);
       w = \<lparr>rw_request_id = ''r1'', rw_url = ''https://x'', rw_frame_id = None, rw_redirect_response = None\<rparr>;
       p = \<lparr>ev_request_id = ''i1'', ev_network_id = Some ''r1''\<rparr>
   in on_fetch_request_paused p (on_request_will_be_sent w nm) =
      on_request_will_be_sent w (on_fetch_request_paused p nm)"
  unfolding Let_def
  by (rule interception_events_commute) (simp_all add: net_defs network_manager_new_def starts_with_def)

text \<open>Switching interception sends the cache setting of the state before the switch. Enabling
  interception on a new manager leaves the browser's cache on, although cached answers are not
  intercepted, and disabling it again leaves the cache off for good.\<close>

theorem interception_sends_stale_cache_setting:
  "nm_queued_events (set_request_interception True (network_manager_new b t)) =
     [SendCdpRequest (SetCacheDisabled False), SendCdpRequest (FetchEnable True ''*'')] \<and>
   nm_queued_events (set_request_interception False (set_request_interception True (network_manager_new b t))) =
     [SendCdpRequest (SetCacheDisabled False), SendCdpRequest (FetchEnable True ''*''),
      SendCdpRequest (SetCacheDisabled True), SendCdpRequest FetchDisable]"
  by (simp add: net_defs network_manager_new_def)

end
