(* ===== verification/Cdp_Frame.thy ===== *)
theory Cdp_Frame
  imports Cdp_Network "HOL-Library.AList"
begin

text \<open>
  The frame manager of the patched browser driver (\<open>handler/frame.rs\<close>, \<open>handler/domworld.rs\<close>): the tree
  of frames of a page, their execution contexts and lifecycle events, and the navigations, one
  at a time, each watched until its lifecycle is complete or its deadline has passed. The hash map
  of the frames is an association list and the hash set of a frame's children a list, whose order
  stands for the iteration order of the set. The two recursive functions take a depth bound;
  \<open>frame_depth\<close> is always enough on the states that occur. \<open>None\<close> is a panic.
\<close>

section \<open>Worlds\<close>

record dom_world =
  dw_ctx :: "int option"
  dw_unique_id :: "string option"
  dw_detached :: bool

definition dom_world_default :: dom_world where
  "dom_world_default = \<lparr>dw_ctx = None, dw_unique_id = None, dw_detached = False\<rparr>"

definition set_context :: "int \<Rightarrow> string \<Rightarrow> dom_world \<Rightarrow> dom_world" where
  "set_context ctx u w = w\<lparr>dw_ctx := Some ctx, dw_unique_id := Some u\<rparr>"

definition take_context :: "dom_world \<Rightarrow> dom_world" where
  "take_context w = w\<lparr>dw_ctx := None, dw_unique_id := None\<rparr>"

section \<open>Frames\<close>

record frame =
  fr_parent :: "string option"
  fr_id :: string
  fr_main_world :: dom_world
  fr_secondary_world :: dom_world
  fr_loader_id :: "string option"
  fr_url :: "string option"
  fr_http_request :: "http_request option"
  fr_children :: "string list"
  fr_name :: "string option"
  fr_lifecycle :: "string set"

text \<open>A frame as the browser reports it.\<close>

record cdp_frame =
  xf_id :: string
  xf_parent_id :: "string option"
  xf_loader_id :: string
  xf_name :: "string option"
  xf_url :: string
  xf_url_fragment :: "string option"

datatype frame_tree = FrameTree cdp_frame "frame_tree list"

definition frame_new :: "string \<Rightarrow> frame" where
  "frame_new i =
     \<lparr>fr_parent = None, fr_id = i, fr_main_world = dom_world_default, fr_secondary_world = dom_world_default,
      fr_loader_id = None, fr_url = None, fr_http_request = None, fr_children = [], fr_name = None,
      fr_lifecycle = {}\<rparr>"

definition frame_with_parent :: "string \<Rightarrow> frame \<Rightarrow> frame \<times> frame" where
  "frame_with_parent i parent =
     ((frame_new i)\<lparr>fr_parent := Some (fr_id parent)\<rparr>,
      parent\<lparr>fr_children := List.insert i (fr_children parent)\<rparr>)"

definition frame_of_cdp :: "cdp_frame \<Rightarrow> frame" where
  "frame_of_cdp x =
     (frame_new (xf_id x))\<lparr>fr_parent := xf_parent_id x, fr_loader_id := Some (xf_loader_id x),
       fr_url := Some (xf_url x), fr_name := xf_name x\<rparr>"

definition frame_navigated :: "cdp_frame \<Rightarrow> frame \<Rightarrow> frame" where
  "frame_navigated x f =
     f\<lparr>fr_name := xf_name x,
       fr_url := Some (case xf_url_fragment x of None \<Rightarrow> xf_url x | Some fragment \<Rightarrow> xf_url x @ fragment)\<rparr>"

definition on_loading_stopped :: "frame \<Rightarrow> frame" where
  "on_loading_stopped f = f\<lparr>fr_lifecycle := insert ''load'' (insert ''DOMContentLoaded'' (fr_lifecycle f))\<rparr>"

definition on_loading_started :: "frame \<Rightarrow> frame" where
  "on_loading_started f = f\<lparr>fr_lifecycle := {}, fr_http_request := None\<rparr>"

definition is_loaded :: "frame \<Rightarrow> bool" where
  "is_loaded f \<longleftrightarrow> ''load'' \<in> fr_lifecycle f"

definition clear_contexts :: "frame \<Rightarrow> frame" where
  "clear_contexts f =
     f\<lparr>fr_main_world := take_context (fr_main_world f), fr_secondary_world := take_context (fr_secondary_world f)\<rparr>"

definition destroy_context :: "string \<Rightarrow> frame \<Rightarrow> frame" where
  "destroy_context u f =
     (if dw_unique_id (fr_main_world f) = Some u then f\<lparr>fr_main_world := take_context (fr_main_world f)\<rparr>
      else if dw_unique_id (fr_secondary_world f) = Some u
      then f\<lparr>fr_secondary_world := take_context (fr_secondary_world f)\<rparr>
      else f)"

type_synonym frames = "(string \<times> frame) list"

section \<open>Navigations\<close>

record navigation_watcher =
  nw_id :: nat
  nw_expected_lifecycle :: "string list"
  nw_frame_id :: string
  nw_loader_id :: "string option"
  nw_same_document :: bool

text \<open>The parameters of the request are its object, if they are one.\<close>

record navigation_request =
  nr_id :: nat
  nr_method :: string
  nr_session :: "string option"
  nr_params :: "(string \<rightharpoonup> string) option"
  nr_timeout :: duration

datatype navigation_ok = SameDocumentNavigation nat | NewDocumentNavigation nat

datatype navigation_error = NavTimeout nat duration duration | NavFrameNotFound nat string

datatype frame_event =
    NavigationResult "navigation_error + navigation_ok"
  | NavigationRequest nat navigation_request

fun nav_ok_id :: "navigation_ok \<Rightarrow> nat" where
  "nav_ok_id (SameDocumentNavigation i) = i"
| "nav_ok_id (NewDocumentNavigation i) = i"

fun nav_error_id :: "navigation_error \<Rightarrow> nat" where
  "nav_error_id (NavTimeout i now deadline) = i"
| "nav_error_id (NavFrameNotFound i frame) = i"

definition request_timeout :: duration where
  "request_timeout = from_millis 30000"

definition navigation_request_new ::
  "nat \<Rightarrow> string \<Rightarrow> string option \<Rightarrow> (string \<rightharpoonup> string) option \<Rightarrow> navigation_request" where
  "navigation_request_new i m s params =
     \<lparr>nr_id = i, nr_method = m, nr_session = s, nr_params = params, nr_timeout = request_timeout\<rparr>"

definition set_frame_id :: "string \<Rightarrow> navigation_request \<Rightarrow> navigation_request" where
  "set_frame_id i r =
     r\<lparr>nr_params := map_option (\<lambda>m. if m ''frameId'' = None then m(''frameId'' \<mapsto> i) else m) (nr_params r)\<rparr>"

definition until_page_load :: "nat \<Rightarrow> string \<Rightarrow> string option \<Rightarrow> navigation_watcher" where
  "until_page_load i frame loader =
     \<lparr>nw_id = i, nw_expected_lifecycle = [''load''], nw_frame_id = frame, nw_loader_id = loader,
      nw_same_document = False\<rparr>"

definition watcher_navigated_within :: "string \<Rightarrow> navigation_watcher \<Rightarrow> navigation_watcher" where
  "watcher_navigated_within frame w = (if nw_frame_id w = frame then w\<lparr>nw_same_document := True\<rparr> else w)"

section \<open>The manager\<close>

record frame_manager =
  fm_main :: "string option"
  fm_frames :: frames
  fm_contexts :: "(string \<times> string) list"
  fm_isolated_worlds :: "string set"
  fm_request_timeout :: duration
  fm_pending :: "(navigation_request \<times> navigation_watcher) list"
  fm_navigation :: "(navigation_watcher \<times> duration) option"

definition frame_manager_new :: "duration \<Rightarrow> frame_manager" where
  "frame_manager_new timeout =
     \<lparr>fm_main = None, fm_frames = [], fm_contexts = [], fm_isolated_worlds = {},
      fm_request_timeout = timeout, fm_pending = [], fm_navigation = None\<rparr>"

datatype frame_command = PageEnable | GetFrameTree | SetLifecycleEventsEnabled bool | RuntimeEnable

definition frame_init_commands :: "duration \<Rightarrow> frame_command list \<times> duration" where
  "frame_init_commands timeout =
     ([PageEnable, GetFrameTree, SetLifecycleEventsEnabled True, RuntimeEnable], timeout)"

definition update_frame :: "string \<Rightarrow> (frame \<Rightarrow> frame) \<Rightarrow> frame_manager \<Rightarrow> frame_manager" where
  "update_frame i f fm = fm\<lparr>fm_frames := AList.map_entry i f (fm_frames fm)\<rparr>"

text \<open>Removing a frame, then its children, then its place in its parent.\<close>

fun remove_frame :: "nat \<Rightarrow> string \<Rightarrow> frames \<Rightarrow> frames"
and remove_frames :: "nat \<Rightarrow> string list \<Rightarrow> frames \<Rightarrow> frames" where
  "remove_frame 0 i fs = fs"
| "remove_frame (Suc n) i fs =
     (case map_of fs i of
        None \<Rightarrow> fs
      | Some f \<Rightarrow>
          (let fs' = remove_frames n (fr_children f) (AList.delete i fs) in
           case fr_parent f of
             None \<Rightarrow> fs'
           | Some p \<Rightarrow> AList.map_entry p (\<lambda>q. q\<lparr>fr_children := removeAll (fr_id f) (fr_children q)\<rparr>) fs'))"
| "remove_frames n [] fs = fs"
| "remove_frames n (c # cs) fs = remove_frames n cs (remove_frame n c fs)"

definition frame_depth :: "frames \<Rightarrow> nat" where
  "frame_depth fs = Suc (length fs)"

definition remove_frames_recursively :: "string \<Rightarrow> frames \<Rightarrow> frames" where
  "remove_frames_recursively i fs = remove_frame (frame_depth fs) i fs"

definition on_frame_attached :: "string \<Rightarrow> string option \<Rightarrow> frame_manager \<Rightarrow> frame_manager" where
  "on_frame_attached i parent fm =
     (if map_of (fm_frames fm) i \<noteq> None then fm
      else
        (case Option.bind parent (map_of (fm_frames fm)) of
           None \<Rightarrow> fm
         | Some p \<Rightarrow>
             (case frame_with_parent i p of
                (f, p') \<Rightarrow>
                  fm\<lparr>fm_frames := (i, f) # AList.map_entry (the parent) (\<lambda>_. p') (fm_frames fm)\<rparr>)))"

definition on_frame_detached :: "string \<Rightarrow> frame_manager \<Rightarrow> frame_manager" where
  "on_frame_detached i fm = fm\<lparr>fm_frames := remove_frames_recursively i (fm_frames fm)\<rparr>"

definition on_frame_navigated :: "cdp_frame \<Rightarrow> frame_manager \<Rightarrow> frame_manager option" where
  "on_frame_navigated x fm =
     (let fs = fm_frames fm in
      if xf_parent_id x \<noteq> None then
        (case map_of fs (xf_id x) of
           None \<Rightarrow> Some fm
         | Some f \<Rightarrow>
             (let fs' = remove_frames (frame_depth fs) (fr_children f) (AList.delete (xf_id x) fs) in
              Some (fm\<lparr>fm_frames :=
                AList.update (xf_id x) (frame_navigated x (f\<lparr>fr_children := []\<rparr>)) fs'\<rparr>)))
      else
        (case fm_main fm of
           None \<Rightarrow>
             Some (fm\<lparr>fm_main := Some (xf_id x),
                      fm_frames := AList.update (xf_id x) (frame_navigated x (frame_new (xf_id x))) fs\<rparr>)
         | Some m \<Rightarrow>
             (case map_of fs m of
                None \<Rightarrow> None
              | Some f \<Rightarrow>
                  (let fs' = remove_frames (frame_depth fs) (fr_children f) (AList.delete m fs) in
                   Some (fm\<lparr>fm_main := Some (xf_id x),
                            fm_frames := AList.update (xf_id x)
                              (frame_navigated x (f\<lparr>fr_children := [], fr_id := xf_id x\<rparr>)) fs'\<rparr>)))))"

text \<open>The reply to \<open>GetFrameTree\<close>: attach and navigate each frame before its children.\<close>

fun on_frame_tree :: "frame_tree \<Rightarrow> frame_manager \<Rightarrow> frame_manager option"
and on_frame_trees :: "frame_tree list \<Rightarrow> frame_manager \<Rightarrow> frame_manager option" where
  "on_frame_tree (FrameTree x ts) fm =
     Option.bind (on_frame_navigated x (on_frame_attached (xf_id x) (xf_parent_id x) fm)) (on_frame_trees ts)"
| "on_frame_trees [] fm = Some fm"
| "on_frame_trees (t # ts) fm = Option.bind (on_frame_tree t fm) (on_frame_trees ts)"

definition on_navigated_within_document :: "string \<Rightarrow> string \<Rightarrow> frame_manager \<Rightarrow> frame_manager" where
  "on_navigated_within_document i url fm =
     (let fm' = update_frame i (\<lambda>f. f\<lparr>fr_url := Some url\<rparr>) fm in
      fm'\<lparr>fm_navigation := map_option (\<lambda>(w, d). (watcher_navigated_within i w, d)) (fm_navigation fm)\<rparr>)"

definition on_http_request_finished :: "http_request \<Rightarrow> frame_manager \<Rightarrow> frame_manager" where
  "on_http_request_finished r fm =
     (case hr_frame r of
        None \<Rightarrow> fm
      | Some i \<Rightarrow> update_frame i (\<lambda>f. f\<lparr>fr_http_request := Some r\<rparr>) fm)"

definition on_page_lifecycle_event :: "string \<Rightarrow> string \<Rightarrow> string \<Rightarrow> frame_manager \<Rightarrow> frame_manager" where
  "on_page_lifecycle_event i loader name fm =
     update_frame i (\<lambda>f.
       let f' = (if name = ''init'' then f\<lparr>fr_loader_id := Some loader, fr_lifecycle := {}\<rparr> else f)
       in f'\<lparr>fr_lifecycle := insert name (fr_lifecycle f')\<rparr>) fm"

section \<open>Execution contexts\<close>

definition utility_world_name :: string where
  "utility_world_name = ''__chromiumoxide_utility_world__''"

text \<open>The auxiliary data of a context, as far as it is read.\<close>

record context_created =
  cx_id :: int
  cx_unique_id :: string
  cx_name :: string
  cx_frame_id :: "string option"
  cx_is_default :: bool
  cx_isolated :: bool

definition context_frame :: "context_created \<Rightarrow> frame \<Rightarrow> frame" where
  "context_frame ev f =
     (if cx_is_default ev
      then f\<lparr>fr_main_world := set_context (cx_id ev) (cx_unique_id ev) (fr_main_world f)\<rparr>
      else if cx_name ev = utility_world_name \<and> dw_ctx (fr_secondary_world f) = None
      then f\<lparr>fr_secondary_world := set_context (cx_id ev) (cx_unique_id ev) (fr_secondary_world f)\<rparr>
      else f)"

definition on_context_created :: "context_created \<Rightarrow> frame_manager \<Rightarrow> frame_manager" where
  "on_context_created ev fm =
     (let fm1 =
        (case Option.bind (cx_frame_id ev) (map_of (fm_frames fm)) of
           None \<Rightarrow> fm
         | Some f \<Rightarrow>
             (update_frame (the (cx_frame_id ev)) (context_frame ev) fm)\<lparr>fm_contexts :=
                AList.update (cx_unique_id ev) (fr_id f) (fm_contexts fm)\<rparr>)
      in if cx_isolated ev then fm1\<lparr>fm_isolated_worlds := insert (cx_name ev) (fm_isolated_worlds fm1)\<rparr> else fm1)"

definition on_context_destroyed :: "string \<Rightarrow> frame_manager \<Rightarrow> frame_manager" where
  "on_context_destroyed u fm =
     (case map_of (fm_contexts fm) u of
        None \<Rightarrow> fm
      | Some i \<Rightarrow> update_frame i (destroy_context u) (fm\<lparr>fm_contexts := AList.delete u (fm_contexts fm)\<rparr>))"

definition on_contexts_cleared :: "frame_manager \<Rightarrow> frame_manager" where
  "on_contexts_cleared fm =
     (fold (\<lambda>(u, i). update_frame i clear_contexts) (fm_contexts fm) fm)\<lparr>fm_contexts := []\<rparr>"

text \<open>The commands that create an isolated world in every frame; none when it exists already.\<close>

datatype world_command = AddScriptToEvaluate string string | CreateIsolatedWorld string string

definition evaluation_script_url :: string where
  "evaluation_script_url = ''____chromiumoxide_utility_world___evaluation_script__''"

definition ensure_isolated_world ::
  "string \<Rightarrow> frame_manager \<Rightarrow> (world_command list \<times> duration) option \<times> frame_manager" where
  "ensure_isolated_world name fm =
     (if name \<in> fm_isolated_worlds fm then (None, fm)
      else
        (Some (AddScriptToEvaluate (''//# sourceURL='' @ evaluation_script_url) name #
                 map (\<lambda>i. CreateIsolatedWorld i name) (map fst (fm_frames fm)), fm_request_timeout fm),
         fm\<lparr>fm_isolated_worlds := insert name (fm_isolated_worlds fm)\<rparr>))"

section \<open>Watching a navigation\<close>

definition own_lifecycle :: "navigation_watcher \<Rightarrow> frame \<Rightarrow> bool" where
  "own_lifecycle w f =
     list_all (\<lambda>ev. ev \<in> fr_lifecycle f \<or> (fr_url f = None \<and> ''DOMContentLoaded'' \<in> fr_lifecycle f))
       (nw_expected_lifecycle w)"

fun check_lifecycle :: "nat \<Rightarrow> frames \<Rightarrow> navigation_watcher \<Rightarrow> frame \<Rightarrow> bool option"
and check_lifecycles :: "nat \<Rightarrow> frames \<Rightarrow> navigation_watcher \<Rightarrow> frame list \<Rightarrow> bool option" where
  "check_lifecycle 0 fs w f = None"
| "check_lifecycle (Suc n) fs w f =
     (if own_lifecycle w f then check_lifecycles n fs w (List.map_filter (map_of fs) (fr_children f))
      else Some False)"
| "check_lifecycles n fs w [] = Some True"
| "check_lifecycles n fs w (f # gs) =
     (case check_lifecycle n fs w f of
        None \<Rightarrow> None
      | Some False \<Rightarrow> Some False
      | Some True \<Rightarrow> check_lifecycles n fs w gs)"

definition check_lifecycle_complete :: "frames \<Rightarrow> navigation_watcher \<Rightarrow> frame \<Rightarrow> navigation_ok option option" where
  "check_lifecycle_complete fs w f =
     map_option (\<lambda>complete.
       if \<not> complete then None
       else if fr_loader_id f = nw_loader_id w \<and> \<not> nw_same_document w then None
       else if nw_same_document w then Some (SameDocumentNavigation (nw_id w))
       else if fr_loader_id f \<noteq> nw_loader_id w then Some (NewDocumentNavigation (nw_id w))
       else None)
     (check_lifecycle (frame_depth fs) fs w f)"

text \<open>
  \<open>poll\<close>; \<open>clock\<close> is the clock when the deadline of a new navigation is set. The outer option is
  the recursion that does not end.
\<close>

definition frame_poll :: "duration \<Rightarrow> duration \<Rightarrow> frame_manager \<Rightarrow> (frame_event option \<times> frame_manager) option" where
  "frame_poll now clock fm =
     (case fm_navigation fm of
        Some (w, deadline) \<Rightarrow>
          (let fm' = fm\<lparr>fm_navigation := None\<rparr> in
           if now > deadline then Some (Some (NavigationResult (Inl (NavTimeout (nw_id w) now deadline))), fm')
           else
             (case map_of (fm_frames fm) (nw_frame_id w) of
                None \<Rightarrow> Some (Some (NavigationResult (Inl (NavFrameNotFound (nw_id w) (nw_frame_id w)))), fm')
              | Some f \<Rightarrow>
                  map_option (\<lambda>r.
                    case r of
                      Some nav \<Rightarrow> (Some (NavigationResult (Inr nav)), fm')
                    | None \<Rightarrow> (None, fm))
                  (check_lifecycle_complete (fm_frames fm) w f)))
      | None \<Rightarrow>
          (case fm_pending fm of
             [] \<Rightarrow> Some (None, fm)
           | (req, w) # ps \<Rightarrow>
               Some (Some (NavigationRequest (nr_id req) req),
                     fm\<lparr>fm_pending := ps, fm_navigation := Some (w, clock + nr_timeout req)\<rparr>)))"

definition navigate_frame :: "string \<Rightarrow> navigation_request \<Rightarrow> frame_manager \<Rightarrow> frame_manager" where
  "navigate_frame i req fm =
     (let loader = Option.bind (map_of (fm_frames fm) i) fr_loader_id in
      fm\<lparr>fm_pending := fm_pending fm @ [(set_frame_id i req, until_page_load (nr_id req) i loader)]\<rparr>)"

definition frame_goto :: "navigation_request \<Rightarrow> frame_manager \<Rightarrow> frame_manager" where
  "frame_goto req fm = (case fm_main fm of None \<Rightarrow> fm | Some i \<Rightarrow> navigate_frame i req fm)"

end
