(* ===== verification/Cdp_Frame_Tree.thy ===== *)
theory Cdp_Frame_Tree
  imports Cdp_Frame
begin

text \<open>
  The frames as a graph: an edge leads from a frame to each tracked child. Removing a frame
  recursively removes exactly what is reachable from it and no other edge, within the depth bound;
  the lifecycle check ends within it when the graph has no cycle.
\<close>

section \<open>The graph of the frames\<close>

definition fids :: "frames \<Rightarrow> string set" where
  "fids fs = fst ` set fs"

definition kids :: "frames \<Rightarrow> string \<Rightarrow> string list" where
  "kids fs i = (case map_of fs i of None \<Rightarrow> [] | Some f \<Rightarrow> fr_children f)"

definition edges :: "frames \<Rightarrow> (string \<times> string) set" where
  "edges fs = {(p, c). p \<in> fids fs \<and> c \<in> fids fs \<and> c \<in> set (kids fs p)}"

definition keys_ok :: "frames \<Rightarrow> bool" where
  "keys_ok fs \<longleftrightarrow> distinct (map fst fs) \<and> (\<forall>i f. map_of fs i = Some f \<longrightarrow> fr_id f = i)"

lemma fids_map_of: "i \<in> fids fs \<longleftrightarrow> map_of fs i \<noteq> None"
  by (simp add: fids_def map_of_eq_None_iff)

lemma fids_delete [simp]: "fids (AList.delete i fs) = fids fs - {i}"
  by (auto simp: fids_map_of delete_conv' split: if_splits)

lemma kids_delete [simp]: "kids (AList.delete i fs) p = (if p = i then [] else kids fs p)"
  by (simp add: kids_def delete_conv')

lemma fids_map_entry [simp]: "fids (AList.map_entry i f fs) = fids fs"
  by (simp add: fids_def dom_map_entry)

lemma length_map_entry [simp]: "length (AList.map_entry i f fs) = length fs"
  by (induction fs) auto

lemma keys_ok_delete: "keys_ok fs \<Longrightarrow> keys_ok (AList.delete i fs)"
  by (auto simp: keys_ok_def delete_conv' distinct_delete split: if_splits)

lemma keys_ok_map_entry: "keys_ok fs \<Longrightarrow> (\<And>q. fr_id (f q) = fr_id q) \<Longrightarrow> keys_ok (AList.map_entry p f fs)"
  by (auto simp: keys_ok_def map_of_map_entry distinct_map_entry split: if_splits option.splits)

lemma length_delete: "map_of fs i \<noteq> None \<Longrightarrow> Suc (length (AList.delete i fs)) \<le> length fs"
proof -
  assume "map_of fs i \<noteq> None"
  then obtain f where "(i, f) \<in> set fs" by (auto dest: map_of_SomeD)
  then have "length (filter (\<lambda>(k, _). i \<noteq> k) fs) < length fs" by (rule length_filter_less) simp
  then show ?thesis by (simp add: AList.delete_eq)
qed

section \<open>Reachability\<close>

definition reach :: "frames \<Rightarrow> string set \<Rightarrow> string set" where
  "reach fs A = (edges fs)\<^sup>* `` (A \<inter> fids fs)"

lemma edges_fids: "(p, c) \<in> edges fs \<Longrightarrow> p \<in> fids fs \<and> c \<in> fids fs"
  by (simp add: edges_def)

lemma reach_subset: "reach fs A \<subseteq> fids fs"
proof
  fix j assume "j \<in> reach fs A"
  then obtain i where "(i, j) \<in> (edges fs)\<^sup>*" "i \<in> fids fs" by (auto simp: reach_def)
  then show "j \<in> fids fs" by (induction rule: rtrancl_induct) (auto dest: edges_fids)
qed

lemma reach_Un: "reach fs (A \<union> B) = reach fs A \<union> reach fs B"
  by (auto simp: reach_def)

lemma reach_closed: "i \<in> reach fs A \<Longrightarrow> (i, j) \<in> edges fs \<Longrightarrow> j \<in> reach fs A"
  by (auto simp: reach_def intro: rtrancl_into_rtrancl)

lemma rtrancl_avoid:
  assumes "(x, y) \<in> E\<^sup>*" "y \<notin> D" "\<And>a b. a \<in> D \<Longrightarrow> (a, b) \<in> E \<Longrightarrow> b \<in> D"
  shows "(x, y) \<in> (E \<inter> (- D) \<times> (- D))\<^sup>* \<and> x \<notin> D"
  using assms(1,2)
proof (induction rule: converse_rtrancl_induct)
  case (step x z)
  then have "x \<notin> D" using assms(3) by blast
  with step show ?case by (auto intro: converse_rtrancl_into_rtrancl)
qed simp

text \<open>A path from a node to another one goes through a successor and then avoids the node.\<close>

lemma rtrancl_leave:
  assumes "(i, j) \<in> E\<^sup>*" "j \<noteq> i"
  shows "\<exists>c. (i, c) \<in> E \<and> c \<noteq> i \<and> (c, j) \<in> (E \<inter> (- {i}) \<times> (- {i}))\<^sup>*"
  using assms
proof (induction rule: rtrancl_induct)
  case (step y z)
  show ?case
  proof (cases "y = i")
    case False
    then obtain c where "(i, c) \<in> E" "c \<noteq> i" "(c, y) \<in> (E \<inter> (- {i}) \<times> (- {i}))\<^sup>*"
      using step by blast
    moreover have "(y, z) \<in> E \<inter> (- {i}) \<times> (- {i})" using step False by auto
    ultimately show ?thesis by (meson rtrancl.rtrancl_into_rtrancl)
  qed (use step in auto)
qed simp

section \<open>Removal\<close>

text \<open>\<open>r\<close> is what is left of \<open>fs\<close> when the nodes \<open>D\<close> are taken out.\<close>

definition pruned :: "frames \<Rightarrow> string set \<Rightarrow> frames \<Rightarrow> bool" where
  "pruned fs D r \<longleftrightarrow>
     fids r = fids fs - D \<and> length r \<le> length fs \<and>
     (\<forall>j f. map_of fs j = Some f \<and> j \<notin> D \<longrightarrow>
        (\<exists>g. map_of r j = Some g \<and> g = f\<lparr>fr_children := fr_children g\<rparr> \<and>
             set (fr_children g) \<subseteq> set (fr_children f) \<and> set (fr_children f) - D \<subseteq> set (fr_children g)))"

lemma pruned_edges:
  assumes "pruned fs D r"
  shows "edges r = edges fs \<inter> (- D) \<times> (- D)"
proof -
  have kid: "c \<in> set (kids r p) \<longleftrightarrow> c \<in> set (kids fs p)" if "p \<in> fids fs" "p \<notin> D" "c \<notin> D" for p c
  proof -
    from that(1) obtain f where "map_of fs p = Some f" by (auto simp: fids_map_of)
    with assms that show ?thesis unfolding pruned_def kids_def by fastforce
  qed
  have "fids r = fids fs - D" using assms by (simp add: pruned_def)
  with kid show ?thesis by (auto simp: edges_def)
qed

lemma pruned_refl: "D \<inter> fids fs = {} \<Longrightarrow> pruned fs D fs"
  by (auto simp: pruned_def)

lemma pruned_trans:
  assumes "pruned fs D r" "pruned r D' s"
  shows "pruned fs (D \<union> D') s"
  unfolding pruned_def
proof (intro conjI allI impI)
  show "fids s = fids fs - (D \<union> D')" "length s \<le> length fs" using assms by (auto simp: pruned_def)
  fix j f assume j: "map_of fs j = Some f \<and> j \<notin> D \<union> D'"
  then obtain g where g: "map_of r j = Some g" "g = f\<lparr>fr_children := fr_children g\<rparr>"
    "set (fr_children g) \<subseteq> set (fr_children f)" "set (fr_children f) - D \<subseteq> set (fr_children g)"
    using assms(1) unfolding pruned_def by blast
  then obtain h where h: "map_of s j = Some h" "h = g\<lparr>fr_children := fr_children h\<rparr>"
    "set (fr_children h) \<subseteq> set (fr_children g)" "set (fr_children g) - D' \<subseteq> set (fr_children h)"
    using assms(2) j unfolding pruned_def by blast
  have "h = f\<lparr>fr_children := fr_children h\<rparr>" using g(2) h(2)
    by (cases f; cases g; cases h) simp
  with g h show "\<exists>g. map_of s j = Some g \<and> g = f\<lparr>fr_children := fr_children g\<rparr> \<and>
      set (fr_children g) \<subseteq> set (fr_children f) \<and> set (fr_children f) - (D \<union> D') \<subseteq> set (fr_children g)"
    by blast
qed

lemma reach_delete:
  assumes "i \<in> fids fs"
  shows "reach fs {i} = insert i (reach (AList.delete i fs) (set (kids fs i)))"
proof
  let ?E = "edges fs" and ?r = "AList.delete i fs"
  have del: "edges ?r = ?E \<inter> (- {i}) \<times> (- {i})" by (auto simp: edges_def)
  show "reach fs {i} \<subseteq> insert i (reach ?r (set (kids fs i)))"
  proof
    fix j assume "j \<in> reach fs {i}"
    then have p: "(i, j) \<in> ?E\<^sup>*" using assms by (simp add: reach_def)
    show "j \<in> insert i (reach ?r (set (kids fs i)))"
    proof (cases "j = i")
      case False
      from rtrancl_leave [OF p False] obtain c where c: "(i, c) \<in> ?E" "c \<noteq> i" "(c, j) \<in> (edges ?r)\<^sup>*"
        unfolding del by blast
      then have "c \<in> set (kids fs i) \<inter> fids ?r" by (auto simp: edges_def)
      with c(3) show ?thesis by (auto simp: reach_def)
    qed simp
  qed
  have sub: "(edges ?r)\<^sup>* \<subseteq> ?E\<^sup>*" by (rule rtrancl_mono) (auto simp: del)
  show "insert i (reach ?r (set (kids fs i))) \<subseteq> reach fs {i}"
  proof
    fix j assume "j \<in> insert i (reach ?r (set (kids fs i)))"
    then consider "j = i" | c where "c \<in> set (kids fs i)" "c \<in> fids ?r" "(c, j) \<in> (edges ?r)\<^sup>*"
      by (auto simp: reach_def)
    then show "j \<in> reach fs {i}"
    proof cases
      case 1
      then show ?thesis using assms by (auto simp: reach_def)
    next
      case (2 c)
      then have "(i, c) \<in> ?E" using assms by (simp add: edges_def)
      with 2(3) sub have "(i, j) \<in> ?E\<^sup>*" by (meson converse_rtrancl_into_rtrancl subsetD)
      with assms show ?thesis by (simp add: reach_def)
    qed
  qed
qed

lemma reach_pruned:
  assumes "pruned fs (reach fs A) r"
  shows "reach fs A \<union> reach r B = reach fs (A \<union> B)"
proof -
  let ?D = "reach fs A"
  have e: "edges r = edges fs \<inter> (- ?D) \<times> (- ?D)" and f: "fids r = fids fs - ?D"
    using pruned_edges [OF assms] assms by (simp_all add: pruned_def)
  have "reach r B \<subseteq> reach fs B"
  proof
    fix j assume "j \<in> reach r B"
    then obtain x where "x \<in> B" "x \<in> fids r" "(x, j) \<in> (edges r)\<^sup>*" by (auto simp: reach_def)
    moreover have "(edges r)\<^sup>* \<subseteq> (edges fs)\<^sup>*" by (rule rtrancl_mono) (simp add: e)
    ultimately show "j \<in> reach fs B" using f by (auto simp: reach_def)
  qed
  moreover have "reach fs B \<subseteq> ?D \<union> reach r B"
  proof
    fix j assume "j \<in> reach fs B"
    then obtain x where x: "x \<in> B" "x \<in> fids fs" "(x, j) \<in> (edges fs)\<^sup>*" by (auto simp: reach_def)
    show "j \<in> ?D \<union> reach r B"
    proof (cases "j \<in> ?D")
      case False
      from rtrancl_avoid [OF x(3) False] reach_closed have "(x, j) \<in> (edges r)\<^sup>*" "x \<notin> ?D"
        unfolding e by blast+
      with x f show ?thesis by (auto simp: reach_def)
    qed simp
  qed
  ultimately show ?thesis by (auto simp: reach_Un)
qed


lemma pruned_delete:
  "map_of fs i = Some f \<Longrightarrow> pruned fs {i} (AList.delete i fs)"
  by (auto simp: pruned_def length_delete_le delete_conv')

lemma pruned_unlink:
  assumes "pruned fs D r" "x \<in> D"
  shows "pruned fs D (AList.map_entry p (\<lambda>q. q\<lparr>fr_children := removeAll x (fr_children q)\<rparr>) r)"
  using assms unfolding pruned_def
proof (intro conjI allI impI; (elim conjE)?)
  assume a: "\<forall>j f. map_of fs j = Some f \<and> j \<notin> D \<longrightarrow>
        (\<exists>g. map_of r j = Some g \<and> g = f\<lparr>fr_children := fr_children g\<rparr> \<and>
             set (fr_children g) \<subseteq> set (fr_children f) \<and> set (fr_children f) - D \<subseteq> set (fr_children g))"
  fix j f assume "map_of fs j = Some f" "j \<notin> D"
  with a obtain g where g: "map_of r j = Some g" "g = f\<lparr>fr_children := fr_children g\<rparr>"
    "set (fr_children g) \<subseteq> set (fr_children f)" "set (fr_children f) - D \<subseteq> set (fr_children g)" by blast
  let ?h = "if j = p then g\<lparr>fr_children := removeAll x (fr_children g)\<rparr> else g"
  have "map_of (AList.map_entry p (\<lambda>q. q\<lparr>fr_children := removeAll x (fr_children q)\<rparr>) r) j = Some ?h"
    using g(1) by (auto simp: map_of_map_entry)
  moreover have "?h = f\<lparr>fr_children := fr_children ?h\<rparr>" using g(2) by (cases f; cases g) auto
  moreover have "set (fr_children ?h) \<subseteq> set (fr_children f)" "set (fr_children f) - D \<subseteq> set (fr_children ?h)"
    using g(3,4) assms(2) by auto
  ultimately show "\<exists>g. map_of (AList.map_entry p (\<lambda>q. q\<lparr>fr_children := removeAll x (fr_children q)\<rparr>) r) j = Some g \<and>
      g = f\<lparr>fr_children := fr_children g\<rparr> \<and> set (fr_children g) \<subseteq> set (fr_children f) \<and>
      set (fr_children f) - D \<subseteq> set (fr_children g)" by blast
qed simp_all

lemma remove_frame_pruned:
  "keys_ok fs \<Longrightarrow> length fs < n \<Longrightarrow> pruned fs (reach fs {i}) (remove_frame n i fs) \<and> keys_ok (remove_frame n i fs)"
  "keys_ok fs \<Longrightarrow> length fs < n \<Longrightarrow> pruned fs (reach fs (set cs)) (remove_frames n cs fs) \<and> keys_ok (remove_frames n cs fs)"
proof (induction n i fs and n cs fs rule: remove_frame_remove_frames.induct)
  case (2 n i fs)
  show ?case
  proof (cases "map_of fs i")
    case None
    then have "reach fs {i} = {}" by (simp add: reach_def fids_map_of)
    with None 2(2) show ?thesis by (simp add: pruned_refl)
  next
    case (Some f)
    let ?d = "AList.delete i fs" and ?r = "remove_frames n (fr_children f) (AList.delete i fs)"
    have "keys_ok ?d" "length ?d < n"
      using 2(2,3) Some length_delete [of fs i] by (simp_all add: keys_ok_delete)
    with 2(1) Some have r: "pruned ?d (reach ?d (set (fr_children f))) ?r" "keys_ok ?r" by simp_all
    have D: "insert i (reach ?d (set (fr_children f))) = reach fs {i}"
      using reach_delete [of i fs] Some by (simp add: fids_map_of kids_def)
    have "pruned fs ({i} \<union> reach ?d (set (fr_children f))) ?r"
      by (rule pruned_trans [OF pruned_delete [OF Some] r(1)])
    then have p: "pruned fs (reach fs {i}) ?r" using D by simp
    have "i \<in> reach fs {i}" using D by blast
    moreover have "fr_id f = i" using 2(2) Some by (simp add: keys_ok_def)
    ultimately show ?thesis using Some p r(2) pruned_unlink [OF p]
      by (auto simp: Let_def keys_ok_map_entry split: option.splits)
  qed
next
  case (4 n c cs fs)
  let ?r = "remove_frame n c fs"
  have r: "pruned fs (reach fs {c}) ?r" "keys_ok ?r" using 4(1,3,4) by blast+
  then have "length ?r < n" using 4(4) by (simp add: pruned_def)
  with 4(2) r have "pruned ?r (reach ?r (set cs)) (remove_frames n cs ?r)" "keys_ok (remove_frames n cs ?r)" by blast+
  with pruned_trans [OF r(1), of "reach ?r (set cs)" "remove_frames n cs ?r"] reach_pruned [OF r(1), of "set cs"]
  show ?case by simp
qed (simp_all add: pruned_refl reach_def)

section \<open>The lifecycle check ends\<close>

definition ranked :: "frames \<Rightarrow> (string \<Rightarrow> nat) \<Rightarrow> bool" where
  "ranked fs rank \<longleftrightarrow> (\<forall>(p, c) \<in> edges fs. rank p < rank c)"

text \<open>The frames that may still be visited below a node.\<close>

definition above :: "frames \<Rightarrow> (string \<Rightarrow> nat) \<Rightarrow> nat \<Rightarrow> nat" where
  "above fs rank k = card {j \<in> fids fs. k < rank j}"

lemma above_less: "j \<in> fids fs \<Longrightarrow> k < rank j \<Longrightarrow> above fs rank (rank j) < above fs rank k"
  unfolding above_def by (rule psubset_card_mono) (auto simp: fids_def)

lemma above_le: "above fs rank k \<le> length fs"
proof -
  have "above fs rank k \<le> card (fids fs)" unfolding above_def by (rule card_mono) (auto simp: fids_def)
  also have "\<dots> \<le> length fs" unfolding fids_def by (metis card_length length_map set_map)
  finally show ?thesis .
qed

lemma check_lifecycle_ends:
  "ranked fs rank \<Longrightarrow> keys_ok fs \<Longrightarrow> map_of fs (fr_id f) = Some f \<Longrightarrow> above fs rank (rank (fr_id f)) < n \<Longrightarrow>
   check_lifecycle n fs w f \<noteq> None"
  "ranked fs rank \<Longrightarrow> keys_ok fs \<Longrightarrow> (\<forall>g\<in>set gs. map_of fs (fr_id g) = Some g \<and> above fs rank (rank (fr_id g)) < n) \<Longrightarrow>
   check_lifecycles n fs w gs \<noteq> None"
proof (induction n fs w f and n fs w gs rule: check_lifecycle_check_lifecycles.induct)
  case (2 n fs w f)
  have "\<forall>g\<in>set (List.map_filter (map_of fs) (fr_children f)).
      map_of fs (fr_id g) = Some g \<and> above fs rank (rank (fr_id g)) < n"
  proof
    fix g assume "g \<in> set (List.map_filter (map_of fs) (fr_children f))"
    then obtain c where c: "c \<in> set (fr_children f)" "map_of fs c = Some g" by (auto simp: List.map_filter_def)
    then have id: "fr_id g = c" using 2(3) by (simp add: keys_ok_def)
    have "(fr_id f, c) \<in> edges fs" using c 2(4) by (simp add: edges_def fids_map_of kids_def)
    then have "rank (fr_id f) < rank c" using 2(2) by (auto simp: ranked_def)
    then have "above fs rank (rank c) < above fs rank (rank (fr_id f))"
      using c(2) by (intro above_less) (simp_all add: fids_map_of)
    with 2(5) id c(2) show "map_of fs (fr_id g) = Some g \<and> above fs rank (rank (fr_id g)) < n" by simp
  qed
  with 2(1-3) show ?case by (cases "own_lifecycle w f") auto
next
  case (4 n fs w f gs)
  then show ?case by (auto split: option.splits bool.splits)
qed simp_all

lemma check_lifecycle_total:
  assumes "ranked fs rank" "keys_ok fs" "map_of fs i = Some f"
  shows "check_lifecycle (frame_depth fs) fs w f \<noteq> None"
proof (rule check_lifecycle_ends(1) [OF assms(1,2)])
  show "map_of fs (fr_id f) = Some f" using assms(2,3) by (simp add: keys_ok_def)
  show "above fs rank (rank (fr_id f)) < frame_depth fs"
    using above_le [of fs rank "rank (fr_id f)"] by (simp add: frame_depth_def)
qed

end
