(* ===== verification/Cdp_Frame_Props.thy ===== *)
theory Cdp_Frame_Props
  imports Cdp_Frame_Tree
begin

text \<open>
  The properties of the frame manager: as long as the main frame is not detached, the frames are a tree
  below it whose child and parent links agree, so that no event makes the manager panic and every poll
  ends; a detachment removes exactly the subtree of the frame; and the navigations that find a main frame
  are taken up one at a time and in order, each with one result.
\<close>

section \<open>Steps\<close>

datatype frame_input =
    FiAttached string "string option"
  | FiDetached string
  | FiNavigated cdp_frame
  | FiTree frame_tree
  | FiWithinDocument string string
  | FiStoppedLoading string
  | FiStartedLoading string
  | FiRequestFinished http_request
  | FiLifecycle string string string
  | FiContextCreated context_created
  | FiContextDestroyed string
  | FiContextsCleared
  | FiGoto navigation_request
  | FiPoll duration duration

fun frame_step :: "frame_input \<Rightarrow> frame_manager \<Rightarrow> (frame_event option \<times> frame_manager) option" where
  "frame_step (FiAttached i p) fm = Some (None, on_frame_attached i p fm)"
| "frame_step (FiDetached i) fm = Some (None, on_frame_detached i fm)"
| "frame_step (FiNavigated x) fm = map_option (Pair None) (on_frame_navigated x fm)"
| "frame_step (FiTree t) fm = map_option (Pair None) (on_frame_tree t fm)"
| "frame_step (FiWithinDocument i u) fm = Some (None, on_navigated_within_document i u fm)"
| "frame_step (FiStoppedLoading i) fm = Some (None, update_frame i on_loading_stopped fm)"
| "frame_step (FiStartedLoading i) fm = Some (None, update_frame i on_loading_started fm)"
| "frame_step (FiRequestFinished r) fm = Some (None, on_http_request_finished r fm)"
| "frame_step (FiLifecycle i l n) fm = Some (None, on_page_lifecycle_event i l n fm)"
| "frame_step (FiContextCreated ev) fm = Some (None, on_context_created ev fm)"
| "frame_step (FiContextDestroyed u) fm = Some (None, on_context_destroyed u fm)"
| "frame_step FiContextsCleared fm = Some (None, on_contexts_cleared fm)"
| "frame_step (FiGoto req) fm = Some (None, frame_goto req fm)"
| "frame_step (FiPoll now clock) fm = frame_poll now clock fm"

definition event_list :: "frame_event option \<Rightarrow> frame_event list" where
  "event_list e = (case e of None \<Rightarrow> [] | Some x \<Rightarrow> [x])"

fun frame_run :: "frame_input list \<Rightarrow> frame_manager \<Rightarrow> (frame_event list \<times> frame_manager) option" where
  "frame_run [] fm = Some ([], fm)"
| "frame_run (i # is) fm =
     (case frame_step i fm of
        None \<Rightarrow> None
      | Some (e, fm') \<Rightarrow> map_option (\<lambda>(es, r). (event_list e @ es, r)) (frame_run is fm'))"

text \<open>No detachment names the frame that is the main frame at that time.\<close>

fun main_kept :: "frame_input list \<Rightarrow> frame_manager \<Rightarrow> bool" where
  "main_kept [] fm = True"
| "main_kept (i # is) fm =
     ((case i of FiDetached j \<Rightarrow> fm_main fm \<noteq> Some j | _ \<Rightarrow> True) \<and>
      (case frame_step i fm of None \<Rightarrow> True | Some (e, fm') \<Rightarrow> main_kept is fm'))"

section \<open>The tree\<close>

definition fr_ok :: "string option \<Rightarrow> frames \<Rightarrow> bool" where
  "fr_ok main fs \<longleftrightarrow>
     keys_ok fs \<and> (\<exists>rank. ranked fs rank) \<and>
     (case main of
        None \<Rightarrow> fs = []
      | Some m \<Rightarrow> m \<in> fids fs \<and> (\<forall>p. m \<notin> set (kids fs p)) \<and> (\<forall>j\<in>fids fs. j = m \<or> (\<exists>q. (q, j) \<in> edges fs)))"

abbreviation fm_ok :: "frame_manager \<Rightarrow> bool" where
  "fm_ok fm \<equiv> fr_ok (fm_main fm) (fm_frames fm)"

lemma fr_ok_single: "fr_id f = i \<Longrightarrow> fr_children f = [] \<Longrightarrow> fr_ok (Some i) [(i, f)]"
  by (auto simp: fr_ok_def keys_ok_def ranked_def edges_def kids_def fids_def)

lemma fr_ok_cong:
  assumes "fr_ok main fs" "keys_ok fs'" "fids fs' = fids fs" "\<And>p. kids fs' p = kids fs p"
  shows "fr_ok main fs'"
proof -
  have e: "edges fs' = edges fs" using assms(3,4) by (simp add: edges_def)
  have "fs = [] \<Longrightarrow> fs' = []" using assms(3) by (simp add: fids_def)
  with assms e show ?thesis by (auto simp: fr_ok_def ranked_def split: option.splits)
qed

lemma fr_ok_map_entry:
  assumes "fr_ok main fs" "\<And>f. fr_id (g f) = fr_id f" "\<And>f. fr_children (g f) = fr_children f"
  shows "fr_ok main (AList.map_entry i g fs)"
proof (rule fr_ok_cong [OF assms(1)])
  show "keys_ok (AList.map_entry i g fs)"
    using assms(1,2) by (intro keys_ok_map_entry) (simp_all add: fr_ok_def)
  show "kids (AList.map_entry i g fs) p = kids fs p" for p
    using assms(3) by (auto simp: kids_def map_of_map_entry split: option.splits)
qed simp

lemma rank_reach: "ranked fs rank \<Longrightarrow> (x, j) \<in> (edges fs)\<^sup>* \<Longrightarrow> rank x \<le> rank j"
proof -
  assume r: "ranked fs rank" and "(x, j) \<in> (edges fs)\<^sup>*"
  from this(2) show ?thesis
  proof (induction rule: rtrancl_induct)
    case (step y z)
    then have "rank y < rank z" using r by (auto simp: ranked_def)
    with step show ?case by simp
  qed simp
qed

lemma all_below_main:
  assumes "fr_ok (Some m) fs"
  shows "reach fs {m} = fids fs"
proof
  show "fids fs \<subseteq> reach fs {m}"
  proof
    fix j assume "j \<in> fids fs"
    obtain rank where rank: "ranked fs rank" using assms by (auto simp: fr_ok_def)
    have m: "m \<in> fids fs" "j \<in> fids fs \<Longrightarrow> j = m \<or> (\<exists>q. (q, j) \<in> edges fs)" for j
      using assms by (auto simp: fr_ok_def)
    from \<open>j \<in> fids fs\<close> show "j \<in> reach fs {m}"
    proof (induction "rank j" arbitrary: j rule: less_induct)
      case less
      show ?case
      proof (cases "j = m")
        case True
        then show ?thesis using m(1) by (auto simp: reach_def)
      next
        case False
        then obtain q where q: "(q, j) \<in> edges fs" using m(2) less.prems by blast
        then have "rank q < rank j" "q \<in> fids fs" using rank by (auto simp: ranked_def edges_def)
        then have "q \<in> reach fs {m}" using less.hyps by blast
        then show ?thesis using q reach_closed by blast
      qed
    qed
  qed
qed (rule reach_subset)

lemma main_not_below:
  assumes "fr_ok (Some m) fs" "m \<in> reach fs A"
  shows "m \<in> A"
proof -
  obtain i where i: "i \<in> A" "(i, m) \<in> (edges fs)\<^sup>*" using assms(2) by (auto simp: reach_def)
  have "(q, m) \<notin> edges fs" for q using assms(1) by (auto simp: fr_ok_def edges_def)
  with i(2) have "i = m" by (auto elim: rtranclE)
  with i(1) show ?thesis by simp
qed

text \<open>Taking out a set that is closed under children and does not hold the main frame.\<close>

lemma fr_ok_pruned:
  assumes ok: "fr_ok (Some m) fs" and p: "pruned fs D r" "keys_ok r" and D: "m \<notin> D"
    and closed: "\<And>a b. a \<in> D \<Longrightarrow> (a, b) \<in> edges fs \<Longrightarrow> b \<in> D"
  shows "fr_ok (Some m) r"
proof -
  have e: "edges r = edges fs \<inter> (- D) \<times> (- D)" and f: "fids r = fids fs - D"
    using pruned_edges [OF p(1)] p(1) by (simp_all add: pruned_def)
  obtain rank where "ranked fs rank" using ok by (auto simp: fr_ok_def)
  then have "ranked r rank" using e by (auto simp: ranked_def)
  moreover have "m \<notin> set (kids r q)" for q
  proof
    assume m: "m \<in> set (kids r q)"
    then have q: "q \<in> fids r" by (cases "map_of r q") (auto simp: kids_def fids_map_of)
    then obtain g where "map_of fs q = Some g" "q \<notin> D" using f by (auto simp: fids_map_of)
    then have "set (kids r q) \<subseteq> set (kids fs q)" using p(1) by (fastforce simp: pruned_def kids_def)
    with m ok show False by (auto simp: fr_ok_def)
  qed
  moreover have "j = m \<or> (\<exists>q. (q, j) \<in> edges r)" if "j \<in> fids r" for j
  proof (cases "j = m")
    case False
    have "j \<in> fids fs" "j \<notin> D" using that f by auto
    then obtain q where q: "(q, j) \<in> edges fs" using False ok by (auto simp: fr_ok_def)
    then have "q \<notin> D" using closed \<open>j \<notin> D\<close> by blast
    with q \<open>j \<notin> D\<close> e show ?thesis by blast
  qed simp
  ultimately show ?thesis using p(2) f D ok by (auto simp: fr_ok_def)
qed

lemma detached_ok:
  assumes "fr_ok main fs" "main \<noteq> Some i"
  shows "fr_ok main (remove_frames_recursively i fs)"
proof (cases main)
  case None
  then have "fs = []" using assms by (simp add: fr_ok_def)
  then show ?thesis using assms by (simp add: remove_frames_recursively_def frame_depth_def)
next
  case (Some m)
  have k: "keys_ok fs" using assms(1) by (simp add: fr_ok_def)
  have "pruned fs (reach fs {i}) (remove_frames_recursively i fs) \<and> keys_ok (remove_frames_recursively i fs)"
    unfolding remove_frames_recursively_def by (rule remove_frame_pruned(1) [OF k]) (simp add: frame_depth_def)
  moreover have "m \<notin> reach fs {i}"
  proof
    assume "m \<in> reach fs {i}"
    then have "m \<in> {i}" using assms(1) unfolding Some by (rule main_not_below [rotated])
    then show False using assms(2) Some by simp
  qed
  ultimately show ?thesis unfolding Some
    using fr_ok_pruned [OF assms(1) [unfolded Some], of "reach fs {i}"] reach_closed by blast
qed

lemma keys_ok_Cons: "keys_ok fs \<Longrightarrow> i \<notin> fids fs \<Longrightarrow> fr_id f = i \<Longrightarrow> keys_ok ((i, f) # fs)"
  by (auto simp: keys_ok_def fids_def split: if_splits)

lemma keys_ok_replace: "keys_ok fs \<Longrightarrow> fr_id f = i \<Longrightarrow> keys_ok (AList.map_entry i (\<lambda>_. f) fs)"
  by (auto simp: keys_ok_def map_of_map_entry distinct_map_entry split: if_splits option.splits)

text \<open>A new frame, to which stale links may already lead.\<close>

lemma fr_ok_add:
  assumes ok: "fr_ok (Some m) fs" and new: "i \<notin> fids fs"
    and fs': "keys_ok fs'" "fids fs' = insert i (fids fs)" "kids fs' i = []"
    and kids: "\<And>q. q \<noteq> i \<Longrightarrow> set (kids fs q) \<subseteq> set (kids fs' q) \<and> set (kids fs' q) \<subseteq> insert i (set (kids fs q))"
    and linked: "\<exists>q\<in>fids fs. i \<in> set (kids fs' q)"
  shows "fr_ok (Some m) fs'"
proof -
  have m: "m \<in> fids fs" "\<And>p. m \<notin> set (kids fs p)" "\<And>j. j \<in> fids fs \<Longrightarrow> j = m \<or> (\<exists>q. (q, j) \<in> edges fs)"
    using ok by (auto simp: fr_ok_def)
  have sub: "edges fs \<subseteq> edges fs'"
  proof (rule subrelI)
    fix a b assume "(a, b) \<in> edges fs"
    then have "a \<in> fids fs" "b \<in> fids fs" "b \<in> set (kids fs a)" by (simp_all add: edges_def)
    moreover have "a \<noteq> i" using \<open>a \<in> fids fs\<close> new by blast
    ultimately show "(a, b) \<in> edges fs'" using kids [of a] fs'(2) by (simp add: edges_def subset_iff)
  qed
  have new_edges: "(a, b) \<in> edges fs \<or> (b = i \<and> a \<in> fids fs)" if "(a, b) \<in> edges fs'" for a b
  proof (cases "a = i")
    case True
    with that fs'(3) show ?thesis by (simp add: edges_def)
  next
    case False
    have "a \<in> fids fs" "b \<in> insert i (fids fs)" "b \<in> insert i (set (kids fs a))"
      using that False fs'(2) kids [OF False] by (auto simp: edges_def)
    then show ?thesis by (auto simp: edges_def)
  qed
  obtain rank where rank: "ranked fs rank" using ok by (auto simp: fr_ok_def)
  have fin: "finite (fids fs)" by (simp add: fids_def)
  let ?rank = "rank(i := Suc (Max (rank ` fids fs)))"
  have "ranked fs' ?rank"
  proof (unfold ranked_def, clarify)
    fix a b assume ab: "(a, b) \<in> edges fs'"
    show "?rank a < ?rank b"
    proof (cases "(a, b) \<in> edges fs")
      case True
      then have "a \<noteq> i" "b \<noteq> i" using new edges_fids by blast+
      with True rank show ?thesis by (auto simp: ranked_def)
    next
      case False
      then have "b = i" "a \<in> fids fs" using new_edges [OF ab] by simp_all
      then have "rank a \<le> Max (rank ` fids fs)" "a \<noteq> i" using fin new by auto
      then show ?thesis using \<open>b = i\<close> by simp
    qed
  qed
  moreover have "m \<notin> set (kids fs' q)" for q
    using m(1,2) new kids [of q] fs'(3) by (cases "q = i") auto
  moreover have "\<exists>q. (q, i) \<in> edges fs'" using linked fs'(2) by (auto simp: edges_def)
  then have "j = m \<or> (\<exists>q. (q, j) \<in> edges fs')" if "j \<in> fids fs'" for j
  proof (cases "j = i")
    case False
    then have "j \<in> fids fs" using that fs'(2) by simp
    then show ?thesis using m(3) [of j] sub by (meson subsetD)
  qed simp
  ultimately show ?thesis using fs'(1,2) m(1) by (auto simp: fr_ok_def)
qed

lemma attached_ok:
  assumes "fm_ok fm"
  shows "fm_ok (on_frame_attached i parent fm)"
proof (cases "map_of (fm_frames fm) i \<noteq> None \<or> Option.bind parent (map_of (fm_frames fm)) = None")
  case True
  with assms show ?thesis by (auto simp: on_frame_attached_def split: option.splits)
next
  case False
  let ?fs = "fm_frames fm"
  from False obtain p f where p: "parent = Some p" "map_of ?fs p = Some f" and new: "map_of ?fs i = None"
    by (auto simp: bind_eq_Some_conv)
  then obtain m where m: "fm_main fm = Some m" using assms by (cases "fm_main fm") (auto simp: fr_ok_def)
  let ?f' = "f\<lparr>fr_children := List.insert i (fr_children f)\<rparr>"
  let ?fs' = "(i, (frame_new i)\<lparr>fr_parent := Some (fr_id f)\<rparr>) # AList.map_entry p (\<lambda>_. ?f') ?fs"
  have keys: "keys_ok ?fs" using assms by (simp add: fr_ok_def)
  have pi: "p \<noteq> i" using p(2) new by auto
  have map': "map_of ?fs' j = (if j = i then Some ((frame_new i)\<lparr>fr_parent := Some (fr_id f)\<rparr>)
      else if j = p then Some ?f' else map_of ?fs j)" for j
    using p(2) by (simp add: map_of_map_entry)
  have "fr_ok (Some m) ?fs'"
  proof (rule fr_ok_add)
    show "fr_ok (Some m) ?fs" using assms m by simp
    show "i \<notin> fids ?fs" using new by (simp add: fids_map_of)
    show "fids ?fs' = insert i (fids ?fs)" by (simp add: fids_def dom_map_entry)
    show "keys_ok ?fs'"
      using keys new p(2) by (intro keys_ok_Cons keys_ok_replace) (auto simp: keys_ok_def frame_new_def fids_map_of)
    show "kids ?fs' i = []" by (simp add: kids_def frame_new_def)
    show "set (kids ?fs q) \<subseteq> set (kids ?fs' q) \<and> set (kids ?fs' q) \<subseteq> insert i (set (kids ?fs q))" if "q \<noteq> i" for q
    proof (cases "q = p")
      case True
      then have "map_of ?fs' q = Some ?f'" using map' [of q] that by simp
      then show ?thesis using p(2) True by (auto simp: kids_def)
    next
      case False
      then have "map_of ?fs' q = map_of ?fs q" using map' [of q] that by simp
      then show ?thesis by (auto simp: kids_def)
    qed
    show "\<exists>q\<in>fids ?fs. i \<in> set (kids ?fs' q)"
    proof
      have "map_of ?fs' p = Some ?f'" using map' [of p] pi by simp
      then show "i \<in> set (kids ?fs' p)" by (simp add: kids_def)
      show "p \<in> fids ?fs" using p(2) by (simp add: fids_map_of)
    qed
  qed
  then show ?thesis using p new m by (simp add: on_frame_attached_def frame_with_parent_def)
qed

lemma fids_update [simp]: "fids (AList.update i f fs) = insert i (fids fs)"
  by (simp add: fids_def dom_update)

lemma kids_update: "kids (AList.update i f fs) p = (if p = i then fr_children f else kids fs p)"
  by (simp add: kids_def update_conv')

lemma keys_ok_update: "keys_ok fs \<Longrightarrow> fr_id f = i \<Longrightarrow> keys_ok (AList.update i f fs)"
  by (auto simp: keys_ok_def update_conv' distinct_update split: if_splits)

lemma below_pruned:
  assumes "keys_ok fs"
  shows "pruned (AList.delete i fs) (reach (AList.delete i fs) (set (fr_children f)))
      (remove_frames (frame_depth fs) (fr_children f) (AList.delete i fs)) \<and>
    keys_ok (remove_frames (frame_depth fs) (fr_children f) (AList.delete i fs))"
  using length_delete_le [of i fs]
  by (intro remove_frame_pruned(2) keys_ok_delete [OF assms(1)]) (simp add: frame_depth_def)

lemma main_removed_all:
  assumes "fr_ok (Some m) fs" "map_of fs m = Some f"
  shows "remove_frames (frame_depth fs) (fr_children f) (AList.delete m fs) = []"
proof -
  let ?r = "remove_frames (frame_depth fs) (fr_children f) (AList.delete m fs)"
  have "fids ?r = fids fs - {m} - reach (AList.delete m fs) (set (fr_children f))"
    using below_pruned [of fs m f] assms(1) by (simp add: fr_ok_def pruned_def)
  moreover have "fids fs = insert m (reach (AList.delete m fs) (set (fr_children f)))"
    using all_below_main [OF assms(1)] reach_delete [of m fs] assms(1,2) by (simp add: fr_ok_def kids_def)
  ultimately have "fids ?r = {}" by blast
  then show ?thesis by (simp add: fids_def)
qed

lemma main_navigated_ok:
  assumes "fr_ok (Some m) fs" "map_of fs m = Some f" "fr_id g = i" "fr_children g = []"
  shows "fr_ok (Some i) (AList.update i g (remove_frames (frame_depth fs) (fr_children f) (AList.delete m fs)))"
  using main_removed_all [OF assms(1,2)] fr_ok_single [OF assms(3,4)] by simp

text \<open>The removal below a frame that is about to be put back.\<close>

lemma below_pruned_frame:
  assumes "keys_ok fs" "map_of fs i = Some f"
  shows "pruned fs (reach fs {i}) (remove_frames (frame_depth fs) (fr_children f) (AList.delete i fs))"
  using pruned_trans [OF pruned_delete [OF assms(2)] conjunct1 [OF below_pruned [OF assms(1)]]]
    reach_delete [of i fs] assms(2) by (simp add: fids_map_of kids_def)

lemma child_navigated_ok:
  assumes ok: "fr_ok (Some m) fs" and f: "map_of fs i = Some f" and im: "i \<noteq> m"
    and g: "fr_id g = i" "fr_children g = []"
  shows "fr_ok (Some m) (AList.update i g (remove_frames (frame_depth fs) (fr_children f) (AList.delete i fs)))"
proof -
  let ?r = "remove_frames (frame_depth fs) (fr_children f) (AList.delete i fs)"
  let ?D = "reach (AList.delete i fs) (set (fr_children f))"
  have k: "keys_ok fs" and i: "i \<in> fids fs" using ok f by (simp_all add: fr_ok_def fids_map_of)
  have p: "pruned (AList.delete i fs) ?D ?r" "keys_ok ?r" using below_pruned [OF k, of i f] by simp_all
  have D: "reach fs {i} = insert i ?D" using reach_delete [OF i] f by (simp add: kids_def)
  have r: "pruned fs (reach fs {i}) ?r" by (rule below_pruned_frame [OF k f])
  have m: "m \<notin> reach fs {i}" using main_not_below [OF ok, of "{i}"] im by blast
  have r_ok: "fr_ok (Some m) ?r" by (rule fr_ok_pruned [OF ok r p(2) m]) (rule reach_closed)
  have new: "i \<notin> fids ?r" using p(1) by (simp add: pruned_def)
  have linked: "\<exists>q\<in>fids ?r. i \<in> set (kids (AList.update i g ?r) q)"
  proof -
    obtain q where q: "(q, i) \<in> edges fs" using ok i im by (auto simp: fr_ok_def)
    obtain rank where rank: "ranked fs rank" using ok by (auto simp: fr_ok_def)
    have "q \<notin> reach fs {i}"
    proof
      assume "q \<in> reach fs {i}"
      then have "rank i \<le> rank q" using rank_reach [OF rank] by (auto simp: reach_def)
      moreover have "rank q < rank i" using q rank by (auto simp: ranked_def)
      ultimately show False by simp
    qed
    then have qr: "q \<in> fids (AList.delete i fs)" "q \<notin> ?D" "q \<noteq> i" using q D edges_fids [OF q] by simp_all
    then obtain h where h: "map_of (AList.delete i fs) q = Some h" by (auto simp: fids_map_of)
    then have "i \<in> set (fr_children h)" using q qr(3) by (simp add: edges_def kids_def delete_conv')
    moreover have "i \<notin> ?D" using reach_subset [of "AList.delete i fs"] by auto
    moreover obtain h' where "map_of ?r q = Some h'" "set (fr_children h) - ?D \<subseteq> set (fr_children h')"
      using p(1) h qr(2) unfolding pruned_def by blast
    ultimately have "i \<in> set (kids ?r q)" "q \<in> fids ?r" by (auto simp: kids_def fids_map_of)
    then show ?thesis using qr(3) by (auto simp: kids_update)
  qed
  show ?thesis
  proof (rule fr_ok_add [OF r_ok new _ _ _ _ linked])
    show "keys_ok (AList.update i g ?r)" using p(2) g(1) by (rule keys_ok_update)
  qed (auto simp: kids_update g(2))
qed

lemma frame_navigated_simps [simp]:
  "fr_id (frame_navigated x f) = fr_id f" "fr_children (frame_navigated x f) = fr_children f"
  by (simp_all add: frame_navigated_def)

lemma navigated_ok:
  assumes "fm_ok fm"
  shows "\<exists>fm'. on_frame_navigated x fm = Some fm' \<and> fm_ok fm'"
proof (cases "fm_main fm")
  case None
  then have "fm_frames fm = []" using assms by (simp add: fr_ok_def)
  with None assms show ?thesis
    by (auto simp: on_frame_navigated_def frame_new_def intro: fr_ok_single)
next
  case (Some m)
  have ok: "fr_ok (Some m) (fm_frames fm)" using assms Some by simp
  then have "m \<in> fids (fm_frames fm)" by (simp add: fr_ok_def)
  then obtain f where f: "map_of (fm_frames fm) m = Some f" by (auto simp: fids_map_of)
  show ?thesis
  proof (cases "xf_parent_id x")
    case None
    then show ?thesis using Some f main_navigated_ok [OF ok f, of "frame_navigated x (f\<lparr>fr_children := [], fr_id := xf_id x\<rparr>)" "xf_id x"]
      by (simp add: on_frame_navigated_def Let_def)
  next
    case (Some p)
    show ?thesis
    proof (cases "map_of (fm_frames fm) (xf_id x)")
      case None
      then show ?thesis using Some assms by (simp add: on_frame_navigated_def)
    next
      case (Some h)
      have "fr_id h = xf_id x" using ok Some by (simp add: fr_ok_def keys_ok_def)
      then show ?thesis
        using main_navigated_ok [OF ok, of h "frame_navigated x (h\<lparr>fr_children := []\<rparr>)" m] child_navigated_ok [OF ok Some] Some \<open>fm_main fm = Some m\<close> \<open>xf_parent_id x = Some p\<close>
        by (cases "xf_id x = m") (simp_all add: on_frame_navigated_def Let_def)
    qed
  qed
qed

lemma frame_tree_ok:
  "fm_ok fm \<Longrightarrow> \<exists>fm'. on_frame_tree t fm = Some fm' \<and> fm_ok fm'"
  "fm_ok fm \<Longrightarrow> \<exists>fm'. on_frame_trees ts fm = Some fm' \<and> fm_ok fm'"
proof (induction t fm and ts fm rule: on_frame_tree_on_frame_trees.induct)
  case (1 x ts fm)
  obtain fm' where fm': "on_frame_navigated x (on_frame_attached (xf_id x) (xf_parent_id x) fm) = Some fm'" "fm_ok fm'"
    using navigated_ok [OF attached_ok [OF 1(2)]] by blast
  with 1(1) show ?case by auto
next
  case (3 t ts fm)
  then obtain fm' where "on_frame_tree t fm = Some fm'" "fm_ok fm'" by blast
  with 3(2) show ?case by auto
qed simp

section \<open>No event makes the manager panic\<close>

lemma update_frame_ok:
  "fm_ok fm \<Longrightarrow> (\<And>f. fr_id (g f) = fr_id f) \<Longrightarrow> (\<And>f. fr_children (g f) = fr_children f) \<Longrightarrow> fm_ok (update_frame i g fm)"
  by (simp add: update_frame_def fr_ok_map_entry)

lemma contexts_cleared_ok: "fm_ok fm \<Longrightarrow> fm_ok (fold (\<lambda>(u, i). update_frame i clear_contexts) cs fm)"
proof (induction cs arbitrary: fm)
  case (Cons c cs)
  have "fm_ok (update_frame (snd c) clear_contexts fm)"
    using Cons.prems by (rule update_frame_ok) (simp_all add: clear_contexts_def)
  with Cons.IH show ?case by (cases c) simp
qed simp

lemma frame_poll_ok:
  assumes "fm_ok fm"
  shows "\<exists>e fm'. frame_poll now clock fm = Some (e, fm') \<and> fm_ok fm'"
proof (cases "fm_navigation fm")
  case None
  with assms show ?thesis by (cases "fm_pending fm") (auto simp: frame_poll_def)
next
  case (Some n)
  then obtain w d where n: "fm_navigation fm = Some (w, d)" by (cases n) auto
  obtain rank where rank: "ranked (fm_frames fm) rank" "keys_ok (fm_frames fm)"
    using assms by (auto simp: fr_ok_def)
  show ?thesis
  proof (cases "map_of (fm_frames fm) (nw_frame_id w)")
    case None
    with n assms show ?thesis by (simp add: frame_poll_def Let_def)
  next
    case (Some f)
    then obtain b where "check_lifecycle (frame_depth (fm_frames fm)) (fm_frames fm) w f = Some b"
      using check_lifecycle_total [OF rank, of "nw_frame_id w" f w] by auto
    with n Some assms show ?thesis
      by (simp add: frame_poll_def Let_def check_lifecycle_complete_def split: option.split)
  qed
qed

lemma frame_step_ok:
  assumes "fm_ok fm" "\<And>j. i = FiDetached j \<Longrightarrow> fm_main fm \<noteq> Some j"
  shows "\<exists>e fm'. frame_step i fm = Some (e, fm') \<and> fm_ok fm'"
proof (cases i)
  case (FiDetached j)
  then show ?thesis using assms detached_ok by (simp add: on_frame_detached_def)
next
  case (FiNavigated x)
  then show ?thesis using navigated_ok [OF assms(1)] by auto
next
  case (FiTree t)
  then show ?thesis using frame_tree_ok(1) [OF assms(1)] by auto
next
  case (FiWithinDocument j u)
  have "fm_ok (update_frame j (\<lambda>f. f\<lparr>fr_url := Some u\<rparr>) fm)" by (rule update_frame_ok [OF assms(1)]) simp_all
  with FiWithinDocument show ?thesis by (simp add: on_navigated_within_document_def Let_def)
next
  case (FiStoppedLoading j)
  have "fm_ok (update_frame j on_loading_stopped fm)"
    by (rule update_frame_ok [OF assms(1)]) (simp_all add: on_loading_stopped_def)
  with FiStoppedLoading show ?thesis by simp
next
  case (FiStartedLoading j)
  have "fm_ok (update_frame j on_loading_started fm)"
    by (rule update_frame_ok [OF assms(1)]) (simp_all add: on_loading_started_def)
  with FiStartedLoading show ?thesis by simp
next
  case (FiRequestFinished r)
  have "fm_ok (update_frame j (\<lambda>f. f\<lparr>fr_http_request := Some r\<rparr>) fm)" for j
    by (rule update_frame_ok [OF assms(1)]) simp_all
  with FiRequestFinished assms(1) show ?thesis by (simp add: on_http_request_finished_def split: option.split)
next
  case (FiLifecycle j l n)
  have "fm_ok (on_page_lifecycle_event j l n fm)"
    unfolding on_page_lifecycle_event_def by (rule update_frame_ok [OF assms(1)]) (simp_all add: Let_def)
  with FiLifecycle show ?thesis by simp
next
  case (FiContextCreated ev)
  have "fm_ok (update_frame j (context_frame ev) fm)" for j
    by (rule update_frame_ok [OF assms(1)]) (simp_all add: context_frame_def)
  with FiContextCreated assms(1) show ?thesis by (simp add: on_context_created_def Let_def split: option.split)
next
  case (FiContextDestroyed u)
  have "fm_ok (update_frame j (destroy_context u) (fm\<lparr>fm_contexts := cs\<rparr>))" for j cs
    by (rule update_frame_ok) (use assms(1) in \<open>simp_all add: destroy_context_def\<close>)
  with FiContextDestroyed assms(1) show ?thesis by (simp add: on_context_destroyed_def split: option.split)
next
  case FiContextsCleared
  then show ?thesis using contexts_cleared_ok [OF assms(1)] by (simp add: on_contexts_cleared_def)
next
  case (FiGoto req)
  then show ?thesis using assms(1) by (cases "fm_main fm") (simp_all add: frame_goto_def navigate_frame_def Let_def)
next
  case (FiPoll now clock)
  then show ?thesis using frame_poll_ok [OF assms(1)] by auto
qed (use assms(1) attached_ok in auto)

lemma frame_run_ok:
  "fm_ok fm \<Longrightarrow> main_kept is fm \<Longrightarrow> \<exists>es fm'. frame_run is fm = Some (es, fm') \<and> fm_ok fm'"
proof (induction "is" arbitrary: fm)
  case (Cons i "is")
  have "fm_main fm \<noteq> Some j" if "i = FiDetached j" for j using Cons.prems(2) that by simp
  from frame_step_ok [OF Cons.prems(1) this] obtain e fm1 where s: "frame_step i fm = Some (e, fm1)" "fm_ok fm1"
    by blast
  then have "main_kept is fm1" using Cons.prems(2) by simp
  from Cons.IH [OF s(2) this] s(1) show ?case by auto
qed simp

lemma frame_manager_new_ok: "fm_ok (frame_manager_new t)"
  by (simp add: fr_ok_def frame_manager_new_def keys_ok_def ranked_def edges_def fids_def)

section \<open>The links\<close>

text \<open>
  Every child link leads to a tracked frame whose parent link leads back, and the main frame has no
  parent link. Only the two links of a frame matter here.
\<close>

definition parent_of :: "frames \<Rightarrow> string \<Rightarrow> string option" where
  "parent_of fs i = Option.bind (map_of fs i) fr_parent"

definition linked :: "string option \<Rightarrow> frames \<Rightarrow> bool" where
  "linked main fs \<longleftrightarrow>
     (\<forall>p. \<forall>c\<in>set (kids fs p). parent_of fs c = Some p) \<and> (\<forall>m. main = Some m \<longrightarrow> parent_of fs m = None)"

abbreviation fm_linked :: "frame_manager \<Rightarrow> bool" where
  "fm_linked fm \<equiv> linked (fm_main fm) (fm_frames fm)"

lemma linked_parent: "linked main fs \<Longrightarrow> c \<in> set (kids fs p) \<Longrightarrow> parent_of fs c = Some p"
  by (simp add: linked_def)

lemma parent_of_tracked: "parent_of fs c = Some p \<Longrightarrow> c \<in> fids fs"
  by (cases "map_of fs c") (simp_all add: parent_of_def fids_map_of)

lemma linked_map_entry:
  assumes "linked main fs" "\<And>f. fr_parent (g f) = fr_parent f" "\<And>f. fr_children (g f) = fr_children f"
  shows "linked main (AList.map_entry i g fs)"
proof -
  have "kids (AList.map_entry i g fs) j = kids fs j" "parent_of (AList.map_entry i g fs) j = parent_of fs j" for j
    using assms(2,3) by (auto simp: kids_def parent_of_def map_of_map_entry split: option.split)
  with assms(1) show ?thesis by (simp add: linked_def)
qed

text \<open>A link out of what is left, into what is taken out with a frame, is one to the frame itself.\<close>

lemma link_into_removed:
  assumes "linked main fs" "c \<in> set (kids fs q)" "q \<notin> reach fs {i}" "c \<in> reach fs {i}"
  shows "c = i"
proof (rule ccontr)
  assume "c \<noteq> i"
  moreover have "(i, c) \<in> (edges fs)\<^sup>*" "i \<in> fids fs" using assms(4) by (auto simp: reach_def)
  ultimately obtain a where a: "(i, a) \<in> (edges fs)\<^sup>*" "(a, c) \<in> edges fs" by (auto elim: rtranclE)
  have "a \<in> reach fs {i}" using a(1) \<open>i \<in> fids fs\<close> by (auto simp: reach_def)
  moreover have "a = q"
    using linked_parent [OF assms(1,2)] linked_parent [OF assms(1), of c a] a(2) by (simp add: edges_def)
  ultimately show False using assms(3) by simp
qed

lemma pruned_kids:
  assumes "pruned fs D r" "c \<in> set (kids r q)"
  shows "c \<in> set (kids fs q) \<and> q \<notin> D"
proof -
  have "q \<in> fids r" using assms(2) by (cases "map_of r q") (auto simp: kids_def fids_map_of)
  then have "q \<in> fids fs" and q: "q \<notin> D" using assms(1) by (simp_all add: pruned_def)
  then obtain f where f: "map_of fs q = Some f" by (auto simp: fids_map_of)
  with q obtain g where "map_of r q = Some g" "set (fr_children g) \<subseteq> set (fr_children f)"
    using assms(1) unfolding pruned_def by blast
  with f q assms(2) show ?thesis by (auto simp: kids_def)
qed

lemma pruned_parent:
  assumes "pruned fs D r" "j \<notin> D"
  shows "parent_of r j = parent_of fs j"
proof (cases "map_of fs j")
  case None
  then have "j \<notin> fids fs" by (simp add: fids_map_of)
  then have "j \<notin> fids r" using assms(1) by (simp add: pruned_def)
  with None show ?thesis by (simp add: fids_map_of parent_of_def)
next
  case (Some f)
  then obtain g where g: "map_of r j = Some g" "g = f\<lparr>fr_children := fr_children g\<rparr>"
    using assms unfolding pruned_def by blast
  have "fr_parent g = fr_parent f" by (subst g(2)) simp
  with Some g(1) show ?thesis by (simp add: parent_of_def)
qed

text \<open>
  After a removal, with or without a frame put back in place of the one that was removed, the links
  agree again: \<open>s\<close> is \<open>r\<close> but for the frame \<open>i\<close>, which its parent links to only when it is put back.
\<close>

lemma linked_removed:
  assumes ok: "linked main fs" and p: "pruned fs (reach fs {i}) r"
    and s: "\<And>j. j \<noteq> i \<Longrightarrow> map_of s j = map_of r j" "kids s i = []"
    and i: "\<And>q. i \<in> set (kids s q) \<Longrightarrow> parent_of fs i = Some q \<Longrightarrow> parent_of s i = Some q"
    and tracked: "i \<in> fids fs"
    and main: "\<And>m. main = Some m \<Longrightarrow> m \<noteq> i \<Longrightarrow> m \<notin> reach fs {i}" "main = Some i \<Longrightarrow> parent_of s i = None"
  shows "linked main s"
  unfolding linked_def
proof (intro conjI allI ballI impI)
  have i_in: "i \<in> reach fs {i}" using tracked by (auto simp: reach_def)
  have parent: "parent_of s j = parent_of fs j" if "j \<notin> reach fs {i}" for j
    using that pruned_parent [OF p that] s(1) [of j] i_in by (cases "j = i") (simp_all add: parent_of_def)
  fix q c assume c: "c \<in> set (kids s q)"
  then have q: "q \<noteq> i" using s(2) by auto
  then have "c \<in> set (kids r q)" using c s(1) by (simp add: kids_def)
  then have k: "c \<in> set (kids fs q)" "q \<notin> reach fs {i}" using pruned_kids [OF p] by blast+
  have f: "parent_of fs c = Some q" by (rule linked_parent [OF ok k(1)])
  show "parent_of s c = Some q"
  proof (cases "c \<in> reach fs {i}")
    case True
    then have "c = i" using link_into_removed [OF ok k] by blast
    with f i c show ?thesis by blast
  qed (use parent f in simp)
next
  fix m assume m: "main = Some m"
  have i_in: "i \<in> reach fs {i}" using tracked by (auto simp: reach_def)
  show "parent_of s m = None"
  proof (cases "m = i")
    case False
    then have "m \<notin> reach fs {i}" using main(1) m by blast
    with pruned_parent [OF p this] s(1) [OF False] ok m show ?thesis by (simp add: linked_def parent_of_def)
  next
    case True
    with main(2) m show ?thesis by simp
  qed
qed

lemma detached_linked:
  assumes "fr_ok main fs" "linked main fs" "main \<noteq> Some i"
  shows "linked main (remove_frames_recursively i fs)"
proof (cases "map_of fs i")
  case None
  then show ?thesis using assms(2) by (simp add: remove_frames_recursively_def frame_depth_def)
next
  case (Some f)
  let ?r = "remove_frames_recursively i fs"
  have k: "keys_ok fs" using assms(1) by (simp add: fr_ok_def)
  have p: "pruned fs (reach fs {i}) ?r"
    unfolding remove_frames_recursively_def
    by (rule conjunct1 [OF remove_frame_pruned(1) [OF k]]) (simp add: frame_depth_def)
  have i: "i \<in> reach fs {i}" "i \<in> fids fs" using Some by (auto simp: reach_def fids_map_of)
  then have "i \<notin> fids ?r" using p by (simp add: pruned_def)
  then have gone: "map_of ?r i = None" by (simp add: fids_map_of)
  have unlinked: "i \<notin> set (kids ?r q)" if "parent_of fs i = Some q" for q
  proof -
    have "fr_parent f = Some q" "fr_id f = i" using that Some k by (simp_all add: parent_of_def keys_ok_def)
    with Some show ?thesis
      by (auto simp: remove_frames_recursively_def frame_depth_def Let_def kids_def map_of_map_entry split: option.splits)
  qed
  show ?thesis
  proof (rule linked_removed [OF assms(2) p refl _ _ i(2)])
    show "kids ?r i = []" using gone by (simp add: kids_def)
    show "m \<notin> reach fs {i}" if "main = Some m" "m \<noteq> i" for m
      using main_not_below [of m fs "{i}"] assms(1) that by auto
  qed (use unlinked assms(3) in auto)
qed

lemma attached_linked:
  assumes "fm_ok fm" "fm_linked fm"
  shows "fm_linked (on_frame_attached i parent fm)"
proof (cases "map_of (fm_frames fm) i \<noteq> None \<or> Option.bind parent (map_of (fm_frames fm)) = None")
  case True
  with assms(2) show ?thesis by (auto simp: on_frame_attached_def split: option.splits)
next
  case False
  let ?fs = "fm_frames fm"
  from False obtain p f where p: "parent = Some p" "map_of ?fs p = Some f" and new: "map_of ?fs i = None"
    by (auto simp: bind_eq_Some_conv)
  have f: "fr_id f = p" using assms(1) p(2) by (simp add: fr_ok_def keys_ok_def)
  let ?fs' = "(i, (frame_new i)\<lparr>fr_parent := Some p\<rparr>) #
      AList.map_entry p (\<lambda>_. f\<lparr>fr_children := List.insert i (fr_children f)\<rparr>) ?fs"
  have kids: "c \<in> set (kids ?fs' q) \<longleftrightarrow> q \<noteq> i \<and> (c \<in> set (kids ?fs q) \<or> (q = p \<and> c = i))" for c q
    using p(2) new by (auto simp: kids_def map_of_map_entry frame_new_def split: option.split)
  have parents: "parent_of ?fs' c = (if c = i then Some p else parent_of ?fs c)" for c
    using p(2) by (auto simp: parent_of_def map_of_map_entry split: option.split)
  have "i \<notin> set (kids ?fs q)" for q
    using assms(2) new linked_parent [of "fm_main fm" ?fs i q] by (auto simp: parent_of_def)
  moreover have "fm_main fm \<noteq> Some i" using assms(1) new by (auto simp: fr_ok_def fids_map_of)
  ultimately have "linked (fm_main fm) ?fs'"
    using assms(2) unfolding linked_def kids parents by (auto simp: kids parents)
  then show ?thesis using p new f by (simp add: on_frame_attached_def frame_with_parent_def)
qed

lemma child_navigated_linked:
  assumes ok: "fr_ok (Some m) fs" "linked (Some m) fs" and f: "map_of fs i = Some f"
    and g: "fr_parent g = fr_parent f" "fr_children g = []"
  shows "linked (Some m) (AList.update i g (remove_frames (frame_depth fs) (fr_children f) (AList.delete i fs)))"
proof -
  have k: "keys_ok fs" using ok(1) by (simp add: fr_ok_def)
  let ?s = "AList.update i g (remove_frames (frame_depth fs) (fr_children f) (AList.delete i fs))"
  have parent: "parent_of ?s i = parent_of fs i" using f g(1) by (simp add: parent_of_def update_conv')
  show ?thesis
  proof (rule linked_removed [OF ok(2) below_pruned_frame [OF k f]])
    show "parent_of ?s i = None" if "Some m = Some i" using ok(2) that parent by (simp add: linked_def)
    show "n \<notin> reach fs {i}" if "Some m = Some n" "n \<noteq> i" for n
      using main_not_below [OF ok(1), of "{i}"] that by auto
  qed (use f g parent in \<open>auto simp: update_conv' kids_update fids_map_of\<close>)
qed

lemma navigated_linked:
  assumes "fm_ok fm" "fm_linked fm" "on_frame_navigated x fm = Some fm'"
  shows "fm_linked fm'"
proof -
  have single: "linked (Some i) [(i, g)]" if "fr_parent g = None" "fr_children g = []" for i g
    using that by (auto simp: linked_def kids_def parent_of_def)
  have nav: "fr_parent (frame_navigated x h) = fr_parent h" for h by (simp add: frame_navigated_def)
  show ?thesis
  proof (cases "fm_main fm")
    case None
    then have "fm_frames fm = []" using assms(1) by (simp add: fr_ok_def)
    with None assms(2,3) show ?thesis
      by (auto simp: on_frame_navigated_def nav frame_new_def intro!: single split: if_splits)
  next
    case (Some m)
    have ok: "fr_ok (Some m) (fm_frames fm)" "linked (Some m) (fm_frames fm)" using assms(1,2) Some by simp_all
    then have "m \<in> fids (fm_frames fm)" by (simp add: fr_ok_def)
    then obtain f where f: "map_of (fm_frames fm) m = Some f" by (auto simp: fids_map_of)
    then have root: "fr_parent f = None" using ok(2) by (simp add: linked_def parent_of_def)
    show ?thesis
    proof (cases "xf_parent_id x")
      case None
      with assms(3) Some f root show ?thesis
        by (auto simp: on_frame_navigated_def Let_def main_removed_all [OF ok(1) f] nav intro!: single)
    next
      case (Some p)
      with assms(2,3) \<open>fm_main fm = Some m\<close> show ?thesis
        by (auto simp: on_frame_navigated_def Let_def nav split: option.splits intro!: child_navigated_linked [OF ok])
    qed
  qed
qed

lemma frame_tree_linked:
  "on_frame_tree t fm = Some fm' \<Longrightarrow> fm_ok fm \<Longrightarrow> fm_linked fm \<Longrightarrow> fm_linked fm'"
  "on_frame_trees ts fm = Some fm' \<Longrightarrow> fm_ok fm \<Longrightarrow> fm_linked fm \<Longrightarrow> fm_linked fm'"
proof (induction t fm and ts fm arbitrary: fm' and fm' rule: on_frame_tree_on_frame_trees.induct)
  case (1 x ts fm)
  then obtain fm1 where fm1: "on_frame_navigated x (on_frame_attached (xf_id x) (xf_parent_id x) fm) = Some fm1"
      "on_frame_trees ts fm1 = Some fm'" by (auto simp: bind_eq_Some_conv)
  note ok = attached_ok [OF 1(3), of "xf_id x" "xf_parent_id x"] attached_linked [OF 1(3,4), of "xf_id x" "xf_parent_id x"]
  have "fm_ok fm1" using navigated_ok [OF ok(1), of x] fm1(1) by auto
  moreover have "fm_linked fm1" by (rule navigated_linked [OF ok fm1(1)])
  ultimately show ?case using 1(1) [OF fm1] by blast
next
  case (3 t ts fm)
  then obtain fm1 where fm1: "on_frame_tree t fm = Some fm1" "on_frame_trees ts fm1 = Some fm'"
    by (auto simp: bind_eq_Some_conv)
  have "fm_ok fm1" using frame_tree_ok(1) [OF 3(4), of t] fm1(1) by auto
  moreover have "fm_linked fm1" using 3(1) [OF fm1(1) 3(4,5)] .
  ultimately show ?case using 3(2) [OF fm1] by blast
qed simp

lemma update_frame_linked:
  "fm_linked fm \<Longrightarrow> (\<And>f. fr_parent (g f) = fr_parent f) \<Longrightarrow> (\<And>f. fr_children (g f) = fr_children f) \<Longrightarrow>
   fm_linked (update_frame i g fm)"
  by (simp add: update_frame_def linked_map_entry)

lemma contexts_cleared_linked: "fm_linked fm \<Longrightarrow> fm_linked (fold (\<lambda>(u, i). update_frame i clear_contexts) cs fm)"
proof (induction cs arbitrary: fm)
  case (Cons c cs)
  have "fm_linked (update_frame (snd c) clear_contexts fm)"
    using Cons.prems by (rule update_frame_linked) (simp_all add: clear_contexts_def)
  with Cons.IH show ?case by (cases c) simp
qed simp

lemma frame_poll_same: "frame_poll now clock fm = Some (e, fm') \<Longrightarrow> fm_main fm' = fm_main fm \<and> fm_frames fm' = fm_frames fm"
  by (auto simp: frame_poll_def Let_def split: option.splits list.splits if_splits)

lemma frame_step_linked:
  assumes "fm_ok fm" "fm_linked fm" "\<And>j. i = FiDetached j \<Longrightarrow> fm_main fm \<noteq> Some j" "frame_step i fm = Some (e, fm')"
  shows "fm_linked fm'"
proof (cases i)
  case (FiDetached j)
  then show ?thesis using assms detached_linked by (auto simp: on_frame_detached_def)
next
  case (FiNavigated x)
  then show ?thesis using navigated_linked [OF assms(1,2)] assms(4) by auto
next
  case (FiTree t)
  then show ?thesis using frame_tree_linked(1) [OF _ assms(1,2)] assms(4) by auto
next
  case (FiWithinDocument j u)
  have "fm_linked (update_frame j (\<lambda>f. f\<lparr>fr_url := Some u\<rparr>) fm)" by (rule update_frame_linked [OF assms(2)]) simp_all
  with FiWithinDocument assms(4) show ?thesis by (auto simp: on_navigated_within_document_def Let_def)
next
  case (FiRequestFinished r)
  have "fm_linked (update_frame j (\<lambda>f. f\<lparr>fr_http_request := Some r\<rparr>) fm)" for j
    by (rule update_frame_linked [OF assms(2)]) simp_all
  with FiRequestFinished assms(2,4) show ?thesis by (auto simp: on_http_request_finished_def split: option.splits)
next
  case (FiContextCreated ev)
  have "fm_linked (update_frame j (context_frame ev) fm)" for j
    by (rule update_frame_linked [OF assms(2)]) (simp_all add: context_frame_def)
  with FiContextCreated assms(2,4) show ?thesis by (auto simp: on_context_created_def Let_def split: option.splits)
next
  case (FiContextDestroyed u)
  have "fm_linked (update_frame j (destroy_context u) (fm\<lparr>fm_contexts := cs\<rparr>))" for j cs
    by (rule update_frame_linked) (use assms(2) in \<open>simp_all add: destroy_context_def\<close>)
  with FiContextDestroyed assms(2,4) show ?thesis by (auto simp: on_context_destroyed_def split: option.splits)
next
  case FiContextsCleared
  then show ?thesis using contexts_cleared_linked [OF assms(2)] assms(4) by (auto simp: on_contexts_cleared_def)
next
  case (FiGoto req)
  then show ?thesis using assms(2,4) by (cases "fm_main fm") (auto simp: frame_goto_def navigate_frame_def Let_def)
next
  case (FiPoll now clock)
  then show ?thesis using frame_poll_same [of now clock fm e fm'] assms(2,4) by simp
qed (use assms(2,4) attached_linked [OF assms(1,2)] in
    \<open>auto simp: on_page_lifecycle_event_def on_loading_stopped_def on_loading_started_def Let_def intro!: update_frame_linked\<close>)

lemma frame_run_linked:
  "fm_ok fm \<Longrightarrow> fm_linked fm \<Longrightarrow> main_kept is fm \<Longrightarrow> frame_run is fm = Some (es, fm') \<Longrightarrow> fm_linked fm'"
proof (induction "is" arbitrary: fm es)
  case (Cons i "is")
  then obtain e fm1 es1 where s: "frame_step i fm = Some (e, fm1)" "frame_run is fm1 = Some (es1, fm')"
    by (auto split: option.splits)
  have main: "fm_main fm \<noteq> Some j" if "i = FiDetached j" for j using Cons.prems(3) that by simp
  have "fm_ok fm1" using frame_step_ok [of fm i] Cons.prems(1) main s(1) by auto
  moreover have "fm_linked fm1" by (rule frame_step_linked [OF Cons.prems(1,2) main s(1)])
  ultimately show ?case using Cons s by simp
qed simp

text \<open>Together with the tree: the children of a frame are the frames whose parent link names it.\<close>

lemma children_are_linked:
  assumes "fm_ok fm" "fm_linked fm"
  shows "c \<in> set (kids (fm_frames fm) p) \<longleftrightarrow> parent_of (fm_frames fm) c = Some p"
proof
  assume c: "parent_of (fm_frames fm) c = Some p"
  then have "c \<in> fids (fm_frames fm)" by (rule parent_of_tracked)
  moreover have "fm_main fm \<noteq> Some c" using assms(2) c by (auto simp: linked_def)
  ultimately obtain q where "(q, c) \<in> edges (fm_frames fm)"
    using assms(1) by (cases "fm_main fm") (auto simp: fr_ok_def fids_def)
  then have q: "c \<in> set (kids (fm_frames fm) q)" by (simp add: edges_def)
  with linked_parent [OF assms(2) q] c show "c \<in> set (kids (fm_frames fm) p)" by simp
qed (rule linked_parent [OF assms(2)])

section \<open>Navigations in order\<close>

datatype nav_mark = Requested nat | Finished nat

fun mark_of :: "frame_event \<Rightarrow> nav_mark" where
  "mark_of (NavigationRequest i req) = Requested i"
| "mark_of (NavigationResult (Inr nav)) = Finished (nav_ok_id nav)"
| "mark_of (NavigationResult (Inl err)) = Finished (nav_error_id err)"

text \<open>What the manager still has to report: the navigation under way, then the pending ones.\<close>

definition owed :: "frame_manager \<Rightarrow> nav_mark list" where
  "owed fm =
     (case fm_navigation fm of None \<Rightarrow> [] | Some (w, d) \<Rightarrow> [Finished (nw_id w)]) @
     concat (map (\<lambda>(req, w). [Requested (nr_id req), Finished (nw_id w)]) (fm_pending fm))"

text \<open>The navigations that are taken on: those that find a main frame.\<close>

definition taken_on :: "frame_input \<Rightarrow> frame_manager \<Rightarrow> nat list" where
  "taken_on i fm = (case i of FiGoto req \<Rightarrow> if fm_main fm = None then [] else [nr_id req] | _ \<Rightarrow> [])"

fun taken_on_run :: "frame_input list \<Rightarrow> frame_manager \<Rightarrow> nat list" where
  "taken_on_run [] fm = []"
| "taken_on_run (i # is) fm =
     taken_on i fm @ (case frame_step i fm of None \<Rightarrow> [] | Some (e, fm') \<Rightarrow> taken_on_run is fm')"

definition both_marks :: "nat list \<Rightarrow> nav_mark list" where
  "both_marks is = concat (map (\<lambda>i. [Requested i, Finished i]) is)"

lemma owed_cong: "fm_navigation fm' = fm_navigation fm \<Longrightarrow> fm_pending fm' = fm_pending fm \<Longrightarrow> owed fm' = owed fm"
  by (simp add: owed_def)

lemma owed_update_frame [simp]: "owed (update_frame i g fm) = owed fm"
  by (rule owed_cong) (simp_all add: update_frame_def)

lemma owed_attached [simp]: "owed (on_frame_attached i p fm) = owed fm"
  by (auto simp: owed_def on_frame_attached_def frame_with_parent_def split: option.splits)

lemma owed_navigated: "on_frame_navigated x fm = Some fm' \<Longrightarrow> owed fm' = owed fm"
  by (auto simp: owed_def on_frame_navigated_def Let_def split: option.splits if_splits)

lemma owed_frame_tree:
  "on_frame_tree t fm = Some fm' \<Longrightarrow> owed fm' = owed fm"
  "on_frame_trees ts fm = Some fm' \<Longrightarrow> owed fm' = owed fm"
proof (induction t fm and ts fm arbitrary: fm' and fm' rule: on_frame_tree_on_frame_trees.induct)
  case (1 x ts fm)
  then obtain fm1 where "on_frame_navigated x (on_frame_attached (xf_id x) (xf_parent_id x) fm) = Some fm1"
    "on_frame_trees ts fm1 = Some fm'" by (auto simp: bind_eq_Some_conv)
  with 1(1) owed_navigated show ?case by fastforce
next
  case (3 t ts fm)
  then obtain fm1 where "on_frame_tree t fm = Some fm1" "on_frame_trees ts fm1 = Some fm'"
    by (auto simp: bind_eq_Some_conv)
  with 3(1,2) show ?case by fastforce
qed simp

lemma owed_contexts_cleared: "owed (fold (\<lambda>(u, i). update_frame i clear_contexts) cs fm) = owed fm"
proof (induction cs arbitrary: fm)
  case (Cons c cs)
  then show ?case by (cases c) simp
qed simp

lemma check_lifecycle_complete_id:
  "check_lifecycle_complete fs w f = Some (Some nav) \<Longrightarrow> nav_ok_id nav = nw_id w"
  by (auto simp: check_lifecycle_complete_def split: if_splits)

lemma owed_poll:
  assumes "frame_poll now clock fm = Some (e, fm')"
  shows "map mark_of (event_list e) @ owed fm' = owed fm"
proof (cases "fm_navigation fm")
  case None
  with assms show ?thesis
    by (cases "fm_pending fm") (auto simp: frame_poll_def owed_def event_list_def)
next
  case (Some n)
  then obtain w d where n: "fm_navigation fm = Some (w, d)" by (cases n) auto
  have gone: "owed fm = Finished (nw_id w) # owed (fm\<lparr>fm_navigation := None\<rparr>)" using n by (simp add: owed_def)
  show ?thesis
  proof (cases "map_of (fm_frames fm) (nw_frame_id w)")
    case None
    with assms n gone show ?thesis by (auto simp: frame_poll_def event_list_def Let_def split: if_splits)
  next
    case (Some f)
    with assms n gone show ?thesis
      by (auto simp: frame_poll_def event_list_def Let_def check_lifecycle_complete_id split: if_splits option.splits)
  qed
qed

lemma owed_step:
  "frame_step i fm = Some (e, fm') \<Longrightarrow>
   map mark_of (event_list e) @ owed fm' = owed fm @ both_marks (taken_on i fm)"
proof (cases i)
  case (FiGoto req)
  moreover assume "frame_step i fm = Some (e, fm')"
  ultimately show ?thesis
    by (cases "fm_main fm")
      (auto simp: frame_goto_def navigate_frame_def Let_def taken_on_def both_marks_def owed_def event_list_def
        set_frame_id_def until_page_load_def)
next
  case (FiWithinDocument j u)
  moreover assume "frame_step i fm = Some (e, fm')"
  ultimately show ?thesis
    by (auto simp: on_navigated_within_document_def update_frame_def Let_def taken_on_def both_marks_def owed_def
        event_list_def watcher_navigated_within_def split: option.split)
next
  case (FiPoll now clock)
  moreover assume "frame_step i fm = Some (e, fm')"
  ultimately show ?thesis using owed_poll by (simp add: taken_on_def both_marks_def)
next
  case FiContextsCleared
  moreover assume "frame_step i fm = Some (e, fm')"
  ultimately show ?thesis using owed_contexts_cleared [of "fm_contexts fm" fm]
    by (auto simp: on_contexts_cleared_def taken_on_def both_marks_def event_list_def owed_def)
next
  case (FiContextDestroyed u)
  have "owed (fm\<lparr>fm_contexts := cs\<rparr>) = owed fm" for cs by (rule owed_cong) simp_all
  moreover assume "frame_step i fm = Some (e, fm')"
  ultimately show ?thesis using FiContextDestroyed
    by (auto simp: on_context_destroyed_def taken_on_def both_marks_def event_list_def split: option.splits)
next
  case (FiContextCreated ev)
  have "owed (on_context_created ev fm) = owed fm"
    by (auto simp: on_context_created_def Let_def owed_def update_frame_def split: option.split)
  moreover assume "frame_step i fm = Some (e, fm')"
  ultimately show ?thesis using FiContextCreated by (auto simp: taken_on_def both_marks_def event_list_def)
next
  case (FiDetached j)
  have "owed (on_frame_detached j fm) = owed fm" by (simp add: on_frame_detached_def owed_def)
  moreover assume "frame_step i fm = Some (e, fm')"
  ultimately show ?thesis using FiDetached by (auto simp: taken_on_def both_marks_def event_list_def)
next
  case (FiRequestFinished r)
  moreover assume "frame_step i fm = Some (e, fm')"
  ultimately show ?thesis
    by (auto simp: on_http_request_finished_def taken_on_def both_marks_def event_list_def split: option.splits)
qed (auto simp: on_page_lifecycle_event_def taken_on_def both_marks_def event_list_def
      dest: owed_navigated owed_frame_tree(1))

lemma both_marks_append: "both_marks (xs @ ys) = both_marks xs @ both_marks ys"
  by (simp add: both_marks_def)

text \<open>
  The calls of \<open>goto\<close> that are not taken on are those before the first main frame: once there is one,
  there always is.
\<close>

definition goto_ids :: "frame_input list \<Rightarrow> nat list" where
  "goto_ids is = concat (map (\<lambda>i. case i of FiGoto req \<Rightarrow> [nr_id req] | _ \<Rightarrow> []) is)"

lemma attached_main [simp]: "fm_main (on_frame_attached i p fm) = fm_main fm"
  by (simp add: on_frame_attached_def split: option.split prod.split)

lemma navigated_main: "on_frame_navigated x fm = Some fm' \<Longrightarrow> fm_main fm \<noteq> None \<Longrightarrow> fm_main fm' \<noteq> None"
  by (auto simp: on_frame_navigated_def Let_def split: option.splits if_splits)

lemma frame_tree_main:
  "on_frame_tree t fm = Some fm' \<Longrightarrow> fm_main fm \<noteq> None \<Longrightarrow> fm_main fm' \<noteq> None"
  "on_frame_trees ts fm = Some fm' \<Longrightarrow> fm_main fm \<noteq> None \<Longrightarrow> fm_main fm' \<noteq> None"
proof (induction t fm and ts fm arbitrary: fm' and fm' rule: on_frame_tree_on_frame_trees.induct)
  case (1 x ts fm)
  then obtain fm1 where fm1: "on_frame_navigated x (on_frame_attached (xf_id x) (xf_parent_id x) fm) = Some fm1"
      "on_frame_trees ts fm1 = Some fm'" by (auto simp: bind_eq_Some_conv)
  have "fm_main fm1 \<noteq> None" using navigated_main [OF fm1(1)] 1(3) by simp
  with 1(1) fm1 show ?case by blast
next
  case (3 t ts fm)
  then obtain fm1 where fm1: "on_frame_tree t fm = Some fm1" "on_frame_trees ts fm1 = Some fm'"
    by (auto simp: bind_eq_Some_conv)
  have "fm_main fm1 \<noteq> None" by (rule 3(1) [OF fm1(1) 3(4)])
  with 3(2) fm1 show ?case by blast
qed simp

lemma update_frame_main [simp]: "fm_main (update_frame i g fm) = fm_main fm"
  by (simp add: update_frame_def)

lemma contexts_cleared_main [simp]: "fm_main (fold (\<lambda>(u, i). update_frame i clear_contexts) cs fm) = fm_main fm"
proof (induction cs arbitrary: fm)
  case (Cons c cs)
  then show ?case by (cases c) simp
qed simp

lemma main_stays: "frame_step i fm = Some (e, fm') \<Longrightarrow> fm_main fm \<noteq> None \<Longrightarrow> fm_main fm' \<noteq> None"
  by (cases i)
    (auto simp: on_frame_detached_def on_navigated_within_document_def Let_def on_http_request_finished_def
      on_page_lifecycle_event_def on_context_created_def on_context_destroyed_def on_contexts_cleared_def
      frame_goto_def navigate_frame_def dest: frame_poll_same navigated_main frame_tree_main split: option.splits)

lemma taken_on_later:
  "frame_run is fm = Some r \<Longrightarrow> fm_main fm \<noteq> None \<Longrightarrow> taken_on_run is fm = goto_ids is"
proof (induction "is" arbitrary: fm r)
  case (Cons i "is")
  then obtain e fm1 r1 where s: "frame_step i fm = Some (e, fm1)" "frame_run is fm1 = Some r1"
    by (auto split: option.splits)
  from Cons.IH [OF s(2) main_stays [OF s(1) Cons.prems(2)]] Cons.prems(2) s(1) show ?case
    by (cases i) (auto simp: goto_ids_def taken_on_def)
qed (simp add: goto_ids_def)

lemma taken_on_first_main:
  assumes "frame_run is fm = Some r"
  shows "\<exists>n. taken_on_run is fm = goto_ids (drop n is) \<and>
    (\<forall>k<n. \<exists>es g. frame_run (take k is) fm = Some (es, g) \<and> fm_main g = None)"
  using assms
proof (induction "is" arbitrary: fm r)
  case Nil
  then show ?case by (intro exI [of _ 0]) (simp add: goto_ids_def)
next
  case (Cons i "is")
  show ?case
  proof (cases "fm_main fm = None")
    case False
    with taken_on_later [OF Cons.prems] show ?thesis by (intro exI [of _ 0]) simp
  next
    case True
    from Cons.prems obtain e fm1 r1 where s: "frame_step i fm = Some (e, fm1)" "frame_run is fm1 = Some r1"
      by (auto split: option.splits)
    from Cons.IH [OF s(2)] obtain n where n: "taken_on_run is fm1 = goto_ids (drop n is)"
        "\<forall>k<n. \<exists>es g. frame_run (take k is) fm1 = Some (es, g) \<and> fm_main g = None" by blast
    have "\<exists>es g. frame_run (take k (i # is)) fm = Some (es, g) \<and> fm_main g = None" if "k < Suc n" for k
      using that True n(2) s(1) by (cases k) fastforce+
    moreover have "taken_on i fm = []" using True by (simp add: taken_on_def split: frame_input.split)
    ultimately show ?thesis using n(1) s(1) by (intro exI [of _ "Suc n"]) simp
  qed
qed

text \<open>C22: Of the calls of \<open>goto\<close>, those that come before the page has its first main frame are dropped without any report, and no other one is. The others are taken up in their order, one at a time: each navigation is requested once and then finished at most once, with its own id, before the next one is requested, and what has not been reported yet is exactly what the manager still owes.\<close>

theorem navigations_in_order:
  assumes "frame_run is fm = Some (es, fm')"
  shows "\<exists>n. map mark_of es @ owed fm' = owed fm @ both_marks (goto_ids (drop n is)) \<and>
    (\<forall>k<n. \<exists>ds g. frame_run (take k is) fm = Some (ds, g) \<and> fm_main g = None)"
proof -
  have "map mark_of es @ owed fm' = owed fm @ both_marks (taken_on_run is fm)"
    using assms
  proof (induction "is" arbitrary: fm es)
    case (Cons i "is")
    then obtain e fm1 es1 where s: "frame_step i fm = Some (e, fm1)" "frame_run is fm1 = Some (es1, fm')"
      "es = event_list e @ es1" by (auto split: option.splits)
    have "map mark_of es @ owed fm' = (map mark_of (event_list e) @ owed fm1) @ both_marks (taken_on_run is fm1)"
      using Cons.IH [OF s(2)] s(3) by simp
    then show ?case using owed_step [OF s(1)] s(1) by (simp add: both_marks_append)
  qed (simp add: both_marks_def)
  with taken_on_first_main [OF assms] show ?thesis by metis
qed

definition example_frame :: "string \<Rightarrow> string option \<Rightarrow> cdp_frame" where
  "example_frame i p =
     \<lparr>xf_id = i, xf_parent_id = p, xf_loader_id = ''L1'', xf_name = None, xf_url = ''https://x.test'',
      xf_url_fragment = None\<rparr>"

definition example_goto :: "nat \<Rightarrow> navigation_request" where
  "example_goto i =
     \<lparr>nr_id = i, nr_method = ''Page.navigate'', nr_session = None, nr_params = Some Map.empty, nr_timeout = 5\<rparr>"

definition example_inputs :: "frame_input list" where
  "example_inputs =
     [FiGoto (example_goto 0), FiNavigated (example_frame ''M'' None), FiGoto (example_goto 1), FiGoto (example_goto 2),
      FiPoll 0 0, FiLifecycle ''M'' ''L2'' ''init'', FiPoll 1 1, FiLifecycle ''M'' ''L2'' ''load'', FiPoll 2 2, FiPoll 3 3]"

definition example_marks :: "(frame_event list \<times> frame_manager) option \<Rightarrow> (nav_mark list \<times> nav_mark list) option" where
  "example_marks = map_option (\<lambda>(es, fm). (map mark_of es, owed fm))"

lemma example_run:
  "example_marks (frame_run example_inputs (frame_manager_new 0)) =
   Some ([Requested 1, Finished 1, Requested 2], [Finished 2])"
  by code_simp

theorem navigations_in_order_witness:
  "\<exists>es fm n. frame_run example_inputs (frame_manager_new 0) = Some (es, fm) \<and>
     map mark_of es = [Requested 1, Finished 1, Requested 2] \<and>
     map mark_of es @ owed fm = owed (frame_manager_new 0) @ both_marks (goto_ids (drop n example_inputs))"
proof -
  obtain es fm where r: "frame_run example_inputs (frame_manager_new 0) = Some (es, fm)"
      "map mark_of es = [Requested 1, Finished 1, Requested 2]"
    using example_run by (auto simp: example_marks_def)
  obtain n where "map mark_of es @ owed fm = owed (frame_manager_new 0) @ both_marks (goto_ids (drop n example_inputs))"
    using navigations_in_order [OF r(1)] by blast
  with r show ?thesis by (intro exI [of _ es] exI [of _ fm] exI [of _ n] conjI)
qed

section \<open>The properties of the tree\<close>

text \<open>No event makes the frame manager panic and every poll of it ends, as long as the browser does not detach the main frame: from the new manager on, every sequence of events, navigations and polls is handled.\<close>

theorem frame_manager_never_panics:
  assumes "main_kept is (frame_manager_new t)"
  shows "\<exists>es fm. frame_run is (frame_manager_new t) = Some (es, fm)"
  using frame_run_ok [OF frame_manager_new_ok assms] by blast

lemma example_main_kept: "main_kept (example_inputs @ [FiDetached ''C'']) (frame_manager_new 0)"
  by code_simp

theorem frame_manager_never_panics_witness:
  "\<exists>es fm. frame_run (example_inputs @ [FiDetached ''C'']) (frame_manager_new 0) = Some (es, fm)"
  by (rule frame_manager_never_panics [OF example_main_kept])

text \<open>C21: as long as the browser does not detach the main frame, the frames of a page are a tree below it: each is filed under its own id; the children of a frame are exactly the tracked frames whose parent link names it, so that no frame has two parents and no child link is stale; none is in a cycle of child links; the main frame is tracked and is the child of no frame; and every other frame is a descendant of it.\<close>

theorem frames_form_tree:
  assumes "main_kept is (frame_manager_new t)" "frame_run is (frame_manager_new t) = Some (es, fm)"
  shows "keys_ok (fm_frames fm) \<and>
    (\<forall>p c. c \<in> set (kids (fm_frames fm) p) \<longleftrightarrow> (\<exists>f. map_of (fm_frames fm) c = Some f \<and> fr_parent f = Some p)) \<and>
    acyclic (edges (fm_frames fm)) \<and>
    (case fm_main fm of
       None \<Rightarrow> fm_frames fm = []
     | Some m \<Rightarrow> m \<in> fids (fm_frames fm) \<and> (\<forall>p. m \<notin> set (kids (fm_frames fm) p)) \<and>
                 reach (fm_frames fm) {m} = fids (fm_frames fm))"
proof -
  have ok: "fm_ok fm" using frame_run_ok [OF frame_manager_new_ok assms(1)] assms(2) by auto
  have links: "fm_linked fm"
    by (rule frame_run_linked [OF frame_manager_new_ok _ assms]) (simp add: linked_def kids_def frame_manager_new_def)
  obtain rank where rank: "ranked (fm_frames fm) rank" using ok by (auto simp: fr_ok_def)
  have less: "rank a < rank b" if "(a, b) \<in> (edges (fm_frames fm))\<^sup>+" for a b
    using that
  proof (induction rule: trancl_induct)
    case (base b)
    then show ?case using rank by (auto simp: ranked_def)
  next
    case (step b c)
    then have "rank b < rank c" using rank by (auto simp: ranked_def)
    with step show ?case by simp
  qed
  have "acyclic (edges (fm_frames fm))" unfolding acyclic_def using less by blast
  moreover have "c \<in> set (kids (fm_frames fm) p) \<longleftrightarrow> (\<exists>f. map_of (fm_frames fm) c = Some f \<and> fr_parent f = Some p)" for p c
    using children_are_linked [OF ok links] by (simp add: parent_of_def bind_eq_Some_conv)
  ultimately show ?thesis using ok all_below_main by (auto simp: fr_ok_def split: option.splits)
qed

definition example_tree_inputs :: "frame_input list" where
  "example_tree_inputs =
     [FiNavigated (example_frame ''M'' None), FiAttached ''A'' (Some ''M''), FiAttached ''B'' (Some ''A''),
      FiDetached ''A'', FiAttached ''C'' (Some ''M''), FiAttached ''A'' (Some ''C'')]"

lemma example_tree_kept: "main_kept example_tree_inputs (frame_manager_new 0)"
  by code_simp

theorem frames_form_tree_witness:
  "\<exists>es fm. frame_run example_tree_inputs (frame_manager_new 0) = Some (es, fm) \<and>
     acyclic (edges (fm_frames fm)) \<and>
     (\<forall>p. ''A'' \<in> set (kids (fm_frames fm) p) \<longleftrightarrow> (\<exists>f. map_of (fm_frames fm) ''A'' = Some f \<and> fr_parent f = Some p))"
proof -
  obtain es fm where r: "frame_run example_tree_inputs (frame_manager_new 0) = Some (es, fm)"
    using frame_run_ok [OF frame_manager_new_ok example_tree_kept] by blast
  then show ?thesis using frames_form_tree [OF example_tree_kept r] by blast
qed

text \<open>A detached frame takes exactly its subtree with it: the tracked frames left are those not reachable from it, and each of them is as it was, except for links to removed frames.\<close>

theorem detached_subtree_removed:
  assumes "main_kept is (frame_manager_new t)" "frame_run is (frame_manager_new t) = Some (es, fm)"
  shows "fids (fm_frames (on_frame_detached i fm)) = fids (fm_frames fm) - reach (fm_frames fm) {i} \<and>
    (\<forall>j. j \<notin> reach (fm_frames fm) {i} \<longrightarrow>
       (\<exists>cs. map_of (fm_frames (on_frame_detached i fm)) j =
              map_option (\<lambda>f. f\<lparr>fr_children := cs\<rparr>) (map_of (fm_frames fm) j) \<and>
            set cs \<subseteq> set (kids (fm_frames fm) j) \<and> set (kids (fm_frames fm) j) - reach (fm_frames fm) {i} \<subseteq> set cs))"
proof -
  let ?fs = "fm_frames fm" and ?fs' = "fm_frames (on_frame_detached i fm)"
  have k: "keys_ok ?fs" using frame_run_ok [OF frame_manager_new_ok assms(1)] assms(2) by (auto simp: fr_ok_def)
  have p: "pruned ?fs (reach ?fs {i}) ?fs'"
    using remove_frame_pruned(1) [OF k, of "frame_depth ?fs" i]
    by (simp add: on_frame_detached_def remove_frames_recursively_def frame_depth_def)
  have "\<exists>cs. map_of ?fs' j = map_option (\<lambda>f. f\<lparr>fr_children := cs\<rparr>) (map_of ?fs j) \<and>
            set cs \<subseteq> set (kids ?fs j) \<and> set (kids ?fs j) - reach ?fs {i} \<subseteq> set cs" if j: "j \<notin> reach ?fs {i}" for j
  proof (cases "map_of ?fs j")
    case None
    then have "j \<notin> fids ?fs'" using p by (simp add: pruned_def fids_map_of)
    with None show ?thesis by (simp add: fids_map_of kids_def)
  next
    case (Some f)
    with p j obtain g where g: "map_of ?fs' j = Some g" "g = f\<lparr>fr_children := fr_children g\<rparr>"
      "set (fr_children g) \<subseteq> set (fr_children f)" "set (fr_children f) - reach ?fs {i} \<subseteq> set (fr_children g)"
      unfolding pruned_def by blast
    then show ?thesis using Some by (intro exI [of _ "fr_children g"]) (simp add: kids_def)
  qed
  moreover have "fids ?fs' = fids ?fs - reach ?fs {i}" using p by (simp add: pruned_def)
  ultimately show ?thesis by blast
qed

definition example_tree :: "frame_input list" where
  "example_tree =
     [FiTree (FrameTree (example_frame ''M'' None) [FrameTree (example_frame ''A'' (Some ''M'')) []]),
      FiAttached ''B'' (Some ''A''), FiAttached ''C'' (Some ''M'')]"

lemma example_tree_main_kept: "main_kept example_tree (frame_manager_new 0)"
  by code_simp

lemma example_tree_links:
  "map_option (\<lambda>(es, fm). map (\<lambda>(i, f). (i, fr_children f)) (fm_frames fm)) (frame_run example_tree (frame_manager_new 0)) =
   Some [(''C'', []), (''B'', []), (''M'', [''C'', ''A'']), (''A'', [''B''])]"
  by code_simp

theorem detached_subtree_removed_witness:
  "\<exists>es fm. frame_run example_tree (frame_manager_new 0) = Some (es, fm) \<and>
     fids (fm_frames (on_frame_detached ''A'' fm)) = {''M'', ''A'', ''B'', ''C''} - reach (fm_frames fm) {''A''}"
proof -
  obtain es fm where r: "frame_run example_tree (frame_manager_new 0) = Some (es, fm)"
    using frame_run_ok [OF frame_manager_new_ok example_tree_main_kept] by blast
  then have "map fst (map (\<lambda>(i, f). (i, fr_children f)) (fm_frames fm)) = [''C'', ''B'', ''M'', ''A'']"
    using example_tree_links by simp
  then have "map fst (fm_frames fm) = [''C'', ''B'', ''M'', ''A'']" by (simp add: split_def comp_def)
  then have "fids (fm_frames fm) = {''M'', ''A'', ''B'', ''C''}" by (metis fids_def list.set_map list.simps(15) empty_set insert_commute)
  with r detached_subtree_removed [OF example_tree_main_kept r, of "''A''"] show ?thesis by auto
qed

text \<open>When the browser detaches the main frame, the manager forgets the frame and not that it is the main one, so the next navigation of the page panics.\<close>

theorem main_detached_then_navigated_panics:
  "frame_run [FiNavigated (example_frame ''M'' None), FiDetached ''M''] (frame_manager_new t) \<noteq> None \<and>
   frame_run [FiNavigated (example_frame ''M'' None), FiDetached ''M'', FiNavigated (example_frame i None)]
     (frame_manager_new t) = None"
  by (simp add: on_frame_navigated_def frame_manager_new_def example_frame_def frame_navigated_def frame_new_def
      on_frame_detached_def remove_frames_recursively_def frame_depth_def Let_def)

end
