(* ===== verification/Cdp_Listeners.thy ===== *)
theory Cdp_Listeners
  imports Prelude "HOL-Library.AList" "HOL-Library.Multiset"
begin

text \<open>
  The event listeners of the patched browser driver (\<open>listeners.rs\<close>): subscriptions by method, each
  with a queue and the sending half of an unbounded channel, and the poll that empties the queues
  into the channels and drops the subscriptions whose receiver is gone. A channel is a number; what
  the receivers got and which of them still exist is a state of its own. The event type and the
  JSON of custom events are type variables.
\<close>

section \<open>A vector swept from its end\<close>

text \<open>\<open>Vec::swap_remove\<close>: the last element takes the place of the one removed.\<close>

definition swap_remove :: "nat \<Rightarrow> 'a list \<Rightarrow> 'a \<times> 'a list" where
  "swap_remove n xs =
     (xs ! n, if Suc n = length xs then butlast xs else (butlast xs)[n := last xs])"

definition opt_list :: "'a option \<Rightarrow> 'a list" where
  "opt_list r = (case r of None \<Rightarrow> [] | Some x \<Rightarrow> [x])"

text \<open>For \<open>n\<close> down to 0: take out the element at the index and put back what is left of it.\<close>

fun sweep :: "('a \<Rightarrow> 's \<Rightarrow> 'a option \<times> 's) \<Rightarrow> nat \<Rightarrow> 'a list \<Rightarrow> 's \<Rightarrow> 'a list \<times> 's" where
  "sweep f 0 xs s = (xs, s)"
| "sweep f (Suc n) xs s =
     (case swap_remove n xs of
        (x, ys) \<Rightarrow> (case f x s of (r, s') \<Rightarrow> sweep f n (ys @ opt_list r) s'))"

fun visit :: "('a \<Rightarrow> 's \<Rightarrow> 'a option \<times> 's) \<Rightarrow> 'a list \<Rightarrow> 's \<Rightarrow> 'a list \<times> 's" where
  "visit f [] s = ([], s)"
| "visit f (x # xs) s =
     (case f x s of (r, s') \<Rightarrow> (case visit f xs s' of (ys, s'') \<Rightarrow> (opt_list r @ ys, s'')))"

lemma swap_remove_facts:
  assumes "n < length xs"
  shows "fst (swap_remove n xs) = xs ! n" "take n (snd (swap_remove n xs)) = take n xs"
    "mset (drop n (snd (swap_remove n xs))) = mset (drop (Suc n) xs)"
    "length (snd (swap_remove n xs)) = length xs - 1"
proof -
  show "fst (swap_remove n xs) = xs ! n" by (simp add: swap_remove_def)
  show "length (snd (swap_remove n xs)) = length xs - 1" by (simp add: swap_remove_def)
  obtain zs z where xs: "xs = zs @ [z]" using assms by (cases xs rule: rev_cases) auto
  show "take n (snd (swap_remove n xs)) = take n xs" using assms xs by (simp add: swap_remove_def)
  show "mset (drop n (snd (swap_remove n xs))) = mset (drop (Suc n) xs)"
  proof (cases "Suc n = length xs")
    case False
    then have n: "n < length zs" using assms xs by simp
    then have "drop n (zs[n := z]) = z # drop (Suc n) zs"
      by (simp add: drop_update_swap Cons_nth_drop_Suc [symmetric])
    with False n xs show ?thesis by (simp add: swap_remove_def)
  qed (use xs in \<open>simp add: swap_remove_def\<close>)
qed

text \<open>The sweep visits every element once, from the last to the first, and keeps what is put back.\<close>

lemma sweep_visit:
  assumes "n \<le> length xs"
  shows "snd (sweep f n xs s) = snd (visit f (rev (take n xs)) s) \<and>
    mset (fst (sweep f n xs s)) = mset (drop n xs) + mset (fst (visit f (rev (take n xs)) s))"
  using assms
proof (induction n arbitrary: xs s)
  case (Suc n)
  obtain x ys where sr: "swap_remove n xs = (x, ys)" by fastforce
  obtain r s' where r: "f x s = (r, s')" by fastforce
  have n: "n < length xs" using Suc.prems by simp
  from swap_remove_facts [OF n] sr have
    x: "x = xs ! n" "take n ys = take n xs" "mset (drop n ys) = mset (drop (Suc n) xs)" "n \<le> length ys"
    using Suc.prems by simp_all
  from Suc.IH [of "ys @ opt_list r" s'] x
  have "snd (sweep f n (ys @ opt_list r) s') = snd (visit f (rev (take n xs)) s')"
    "mset (fst (sweep f n (ys @ opt_list r) s')) =
       mset (drop (Suc n) xs) + mset (opt_list r) + mset (fst (visit f (rev (take n xs)) s'))"
    by simp_all
  with sr r x(1) n show ?case
    by (simp add: take_Suc_conv_app_nth split: prod.split)
qed simp

section \<open>Subscriptions\<close>

datatype ('j, 'e) event_kind = EkBuiltIn | EkCustom "'j \<Rightarrow> string + 'e"

fun is_custom :: "('j, 'e) event_kind \<Rightarrow> bool" where
  "is_custom EkBuiltIn = False"
| "is_custom (EkCustom conv) = True"

record ('j, 'e) event_listener =
  el_channel :: nat
  el_queued :: "'e list"
  el_kind :: "('j, 'e) event_kind"

record ('j, 'e) listener_request =
  lr_channel :: nat
  lr_method :: string
  lr_kind :: "('j, 'e) event_kind"

type_synonym ('j, 'e) listeners = "(string \<times> ('j, 'e) event_listener list) list"

text \<open>The receiving halves: which still exist and what they have received.\<close>

record 'e channels =
  ch_open :: "nat \<Rightarrow> bool"
  ch_received :: "nat \<Rightarrow> 'e list"

definition add_listener :: "('j, 'e) listener_request \<Rightarrow> ('j, 'e) listeners \<Rightarrow> ('j, 'e) listeners" where
  "add_listener r ls =
     AList.update (lr_method r)
       ((case map_of ls (lr_method r) of None \<Rightarrow> [] | Some subs \<Rightarrow> subs) @
        [\<lparr>el_channel = lr_channel r, el_queued = [], el_kind = lr_kind r\<rparr>]) ls"

definition listener_start_send :: "'e \<Rightarrow> ('j, 'e) event_listener \<Rightarrow> ('j, 'e) event_listener" where
  "listener_start_send e l = l\<lparr>el_queued := el_queued l @ [e]\<rparr>"

definition start_send :: "string \<Rightarrow> 'e \<Rightarrow> ('j, 'e) listeners \<Rightarrow> ('j, 'e) listeners" where
  "start_send m e ls = AList.map_entry m (map (listener_start_send e)) ls"

fun conversion :: "('j, 'e) event_kind \<Rightarrow> ('j \<Rightarrow> string + 'e) option" where
  "conversion EkBuiltIn = None"
| "conversion (EkCustom conv) = Some conv"

definition try_send_custom :: "string \<Rightarrow> 'j \<Rightarrow> ('j, 'e) listeners \<Rightarrow> string + ('j, 'e) listeners" where
  "try_send_custom m j ls =
     (case map_of ls m of
        None \<Rightarrow> Inr ls
      | Some subs \<Rightarrow>
          (case List.map_filter (conversion \<circ> el_kind) subs of
             [] \<Rightarrow> Inr ls
           | conv # convs \<Rightarrow>
               (case conv j of
                  Inl err \<Rightarrow> Inl err
                | Inr e \<Rightarrow>
                    Inr (AList.map_entry m
                      (map (\<lambda>l. if is_custom (el_kind l) then listener_start_send e l else l)) ls))))"

section \<open>Delivery\<close>

datatype send_error = SendFull | SendDisconnected

definition push_channel :: "nat \<Rightarrow> 'e \<Rightarrow> 'e channels \<Rightarrow> 'e channels" where
  "push_channel c e ch = ch\<lparr>ch_received := (ch_received ch)(c := ch_received ch c @ [e])\<rparr>"

text \<open>An unbounded sender is ready as long as its receiver exists.\<close>

function listener_poll ::
  "('j, 'e) event_listener \<Rightarrow> 'e channels \<Rightarrow> (send_error + unit) \<times> ('j, 'e) event_listener \<times> 'e channels" where
  "listener_poll l ch =
     (if \<not> ch_open ch (el_channel l) then (Inl SendDisconnected, l, ch)
      else
        (case el_queued l of
           [] \<Rightarrow> (Inr (), l, ch)
         | e # es \<Rightarrow> listener_poll (l\<lparr>el_queued := es\<rparr>) (push_channel (el_channel l) e ch)))"
  by pat_completeness auto
termination
  by (relation "measure (\<lambda>(l, ch). length (el_queued l))") auto

declare listener_poll.simps [simp del]

definition poll_subscription ::
  "('j, 'e) event_listener \<Rightarrow> 'e channels \<Rightarrow> ('j, 'e) event_listener option \<times> 'e channels" where
  "poll_subscription l ch =
     (case listener_poll l ch of
        (Inl err, l', ch') \<Rightarrow> (if err \<noteq> SendDisconnected then Some l' else None, ch')
      | (Inr u, l', ch') \<Rightarrow> (Some l', ch'))"

fun listeners_poll :: "('j, 'e) listeners \<Rightarrow> 'e channels \<Rightarrow> ('j, 'e) listeners \<times> 'e channels" where
  "listeners_poll [] ch = ([], ch)"
| "listeners_poll ((m, subs) # ls) ch =
     (case sweep poll_subscription (length subs) subs ch of
        (subs', ch') \<Rightarrow> (case listeners_poll ls ch' of (ls', ch'') \<Rightarrow> ((m, subs') # ls', ch'')))"

text \<open>
  The receiving half of a subscription: an event of another type than the subscriber's is dropped,
  and the subscriber is told that there is nothing yet.
\<close>

datatype 't stream_next = SnReady 't | SnEnd | SnPending

definition event_stream_poll ::
  "('e \<Rightarrow> 't option) \<Rightarrow> bool \<Rightarrow> 'e list \<Rightarrow> 't stream_next \<times> 'e list" where
  "event_stream_poll downcast senders buffer =
     (case buffer of
        [] \<Rightarrow> (if senders then SnPending else SnEnd, [])
      | e # es \<Rightarrow> (case downcast e of Some t \<Rightarrow> SnReady t | None \<Rightarrow> SnPending, es))"

end
