(* ===== verification/Cdp_Target.thy ===== *)
theory Cdp_Target
  imports Complex_Main Cdp_Frame_Props Cdp_Listeners
begin

text \<open>
  A target of the patched browser driver (\<open>handler/target.rs\<close>, \<open>handler/emulation.rs\<close>,
  \<open>handler/viewport.rs\<close>, the errors of \<open>error.rs\<close>): its initialisation as a state machine over
  command chains, the dispatch of the browser's events to the frame manager, the network manager
  and the listeners, the requests of its page, and the poll that drives them. A oneshot sender is a
  number; what was sent into the senders is the second part of the state. Responses are JSON texts
  that the generated protocol types decode.
\<close>

section \<open>Errors\<close>

datatype cdp_error =
    CeWs string | CeIo string | CeSerde string | CeChrome int string | CeNoResponse
  | CeUnexpectedWsMessage string | CeChannelSend string | CeLaunchExit string | CeLaunchTimeout string
  | CeLaunchIo string | CeTimeout | CeFrameNotFound string | CeChromeMessage string | CeDecode string
  | CeScrollingFailed string | CeNotFound | CeJavascriptException string | CeUrl string
  | CeInvalidMessage string string

fun error_of_navigation :: "navigation_error \<Rightarrow> cdp_error" where
  "error_of_navigation (NavTimeout i now deadline) = CeTimeout"
| "error_of_navigation (NavFrameNotFound i frame) = CeFrameNotFound frame"

section \<open>Commands\<close>

text \<open>A device scale factor, an \<open>f64\<close>, is the rational number that it stands for.\<close>

record viewport =
  vp_width :: "32 word"
  vp_height :: "32 word"
  vp_scale :: "rat option"
  vp_emulating_mobile :: bool
  vp_landscape :: bool
  vp_touch :: bool

definition viewport_default :: viewport where
  "viewport_default =
     \<lparr>vp_width = 800, vp_height = 600, vp_scale = None, vp_emulating_mobile = False, vp_landscape = False,
      vp_touch = False\<rparr>"

datatype cdp_command =
    CdFrame frame_command
  | CdWorld world_command
  | CdNet net_command
  | CdAttach string bool
  | CdAutoAttach bool bool bool
  | CdPerformanceEnable
  | CdLogEnable
  | CdDeviceMetrics bool "32 word" "32 word" rat bool int
  | CdTouch bool
  | CdClose string
  | CdRunIfWaiting
  | CdDetach string

text \<open>The method identifiers of the protocol.\<close>

fun method_of :: "cdp_command \<Rightarrow> string" where
  "method_of (CdFrame PageEnable) = ''Page.enable''"
| "method_of (CdFrame GetFrameTree) = ''Page.getFrameTree''"
| "method_of (CdFrame (SetLifecycleEventsEnabled b)) = ''Page.setLifecycleEventsEnabled''"
| "method_of (CdFrame RuntimeEnable) = ''Runtime.enable''"
| "method_of (CdWorld (AddScriptToEvaluate source name)) = ''Page.addScriptToEvaluateOnNewDocument''"
| "method_of (CdWorld (CreateIsolatedWorld i name)) = ''Page.createIsolatedWorld''"
| "method_of (CdNet NetEnable) = ''Network.enable''"
| "method_of (CdNet (SetIgnoreCertificateErrors b)) = ''Security.setIgnoreCertificateErrors''"
| "method_of (CdNet (SetExtraHttpHeaders h)) = ''Network.setExtraHTTPHeaders''"
| "method_of (CdNet (SetCacheDisabled b)) = ''Network.setCacheDisabled''"
| "method_of (CdNet (FetchEnable b pattern)) = ''Fetch.enable''"
| "method_of (CdNet FetchDisable) = ''Fetch.disable''"
| "method_of (CdNet (ContinueRequest i)) = ''Fetch.continueRequest''"
| "method_of (CdNet (ContinueWithAuth i a u p)) = ''Fetch.continueWithAuth''"
| "method_of (CdNet (EmulateNetworkConditions b)) = ''Network.emulateNetworkConditions''"
| "method_of (CdAttach i f) = ''Target.attachToTarget''"
| "method_of (CdAutoAttach f a w) = ''Target.setAutoAttach''"
| "method_of CdPerformanceEnable = ''Performance.enable''"
| "method_of CdLogEnable = ''Log.enable''"
| "method_of (CdDeviceMetrics m w h s l a) = ''Emulation.setDeviceMetricsOverride''"
| "method_of (CdTouch b) = ''Emulation.setTouchEmulationEnabled''"
| "method_of (CdClose i) = ''Target.closeTarget''"
| "method_of CdRunIfWaiting = ''Runtime.runIfWaitingForDebugger''"
| "method_of (CdDetach s) = ''Target.detachFromTarget''"

type_synonym cdp_chain = "cdp_command command_chain"

definition chain_of :: "cdp_command list \<Rightarrow> duration \<Rightarrow> cdp_chain" where
  "chain_of cmds timeout = chain_new (map (\<lambda>c. (method_of c, c)) cmds) timeout"

record emulation_manager =
  eu_emulating_mobile :: bool
  eu_has_touch :: bool
  eu_needs_reload :: bool
  eu_request_timeout :: duration

definition emulation_manager_new :: "duration \<Rightarrow> emulation_manager" where
  "emulation_manager_new timeout =
     \<lparr>eu_emulating_mobile = False, eu_has_touch = False, eu_needs_reload = False, eu_request_timeout = timeout\<rparr>"

definition emulation_commands :: "viewport \<Rightarrow> cdp_command list" where
  "emulation_commands v =
     [CdDeviceMetrics (vp_emulating_mobile v) (vp_width v) (vp_height v)
        (case vp_scale v of None \<Rightarrow> 1 | Some s \<Rightarrow> s) (vp_landscape v) (if vp_landscape v then 90 else 0),
      CdTouch True]"

definition emulation_init_commands :: "viewport \<Rightarrow> emulation_manager \<Rightarrow> cdp_chain \<times> emulation_manager" where
  "emulation_init_commands v em =
     (chain_of (emulation_commands v) (eu_request_timeout em),
      em\<lparr>eu_needs_reload := eu_emulating_mobile em \<noteq> vp_emulating_mobile v \<or> eu_has_touch em \<noteq> vp_touch v\<rparr>)"

definition page_init_commands :: "cdp_command list" where
  "page_init_commands = [CdAutoAttach True True True, CdPerformanceEnable, CdLogEnable]"

section \<open>Messages\<close>

datatype target_type =
    TtPage | TtBackgroundPage | TtServiceWorker | TtSharedWorker | TtOther | TtBrowser | TtWebview
  | TtUnknown string

definition target_type_new :: "string \<Rightarrow> target_type" where
  "target_type_new s =
     (if s = ''page'' then TtPage else if s = ''background_page'' then TtBackgroundPage
      else if s = ''service_worker'' then TtServiceWorker else if s = ''shared_worker'' then TtSharedWorker
      else if s = ''other'' then TtOther else if s = ''browser'' then TtBrowser
      else if s = ''webview'' then TtWebview else TtUnknown s)"

record target_info =
  ti_id :: string
  ti_type :: string
  ti_opener :: "string option"
  ti_context :: "string option"

text \<open>A command that a page sends through its channel.\<close>

record command_message =
  cm_method :: string
  cm_session :: "string option"
  cm_params :: "(string \<rightharpoonup> string) option"
  cm_sender :: nat

definition is_navigation :: "command_message \<Rightarrow> bool" where
  "is_navigation m \<longleftrightarrow> cm_method m = ''Page.navigate''"

record response =
  rs_id :: "64 word"
  rs_result :: "string option"
  rs_error :: "(int \<times> string) option"

text \<open>The page that a caller gets, by what identifies it.\<close>

record page_ref =
  pr_target :: string
  pr_session :: string
  pr_opener :: "string option"

datatype reply =
    RpPage "cdp_error + page_ref"
  | RpPages "page_ref list"
  | RpMaybePage "page_ref option"
  | RpTargets "cdp_error + target_info list"
  | RpResponse "cdp_error + response"
  | RpClosed "cdp_error + unit"
  | RpFrame "string option"
  | RpFrames "string list"
  | RpText "string option"
  | RpContext "int option"
  | RpRequest "http_request option"

type_synonym sends = "(nat \<times> reply) list"

datatype dom_world_kind = WkMain | WkSecondary

datatype cdp_event =
    EvFrameAttached string string
  | EvFrameDetached string
  | EvFrameNavigated cdp_frame
  | EvNavigatedWithinDocument string string
  | EvContextCreated context_created
  | EvContextDestroyed string
  | EvContextsCleared
  | EvBindingCalled
  | EvLifecycle string string string
  | EvStartedLoading string
  | EvAttachedToTarget string target_info bool
  | EvRequestPaused request_paused
  | EvAuthRequired string
  | EvRequestWillBeSent request_will_be_sent
  | EvServedFromCache string
  | EvResponseReceived string string
  | EvLoadingFinished string
  | EvLoadingFailed string string
  | EvTargetCreated target_info
  | EvTargetDestroyed string
  | EvDetachedFromTarget string
  | EvTyped string
  | EvJson string

record event_message =
  ev_method :: string
  ev_session :: "string option"
  ev_params :: cdp_event

type_synonym cdp_listeners = "(string, cdp_event) listeners"

datatype target_message =
    TmCommand command_message
  | TmMainFrame nat
  | TmAllFrames nat
  | TmUrl "string option" nat
  | TmName "string option" nat
  | TmParent string nat
  | TmWaitForNavigation nat
  | TmAddEventListener "(string, cdp_event) listener_request"
  | TmGetExecutionContext dom_world_kind "string option" nat
  | TmAuthenticate net_credentials

section \<open>The target\<close>

datatype target_event =
    TeRequest "string option" cdp_command
  | TeNavigationRequest nat navigation_request
  | TeNavigationResult "navigation_error + navigation_ok"
  | TeCommand command_message

datatype target_init =
    TiAttachToTarget
  | TiInitializingFrame cdp_chain
  | TiInitializingNetwork cdp_chain
  | TiInitializingPage cdp_chain
  | TiInitializingEmulation cdp_chain
  | TiInitialized
  | TiClosing

record target_config =
  tc_ignore_https_errors :: bool
  tc_request_timeout :: duration
  tc_viewport :: "viewport option"
  tc_request_intercept :: bool
  tc_cache_enabled :: bool

definition target_config_default :: target_config where
  "target_config_default =
     \<lparr>tc_ignore_https_errors = True, tc_request_timeout = from_secs 30000, tc_viewport = None,
      tc_request_intercept = False, tc_cache_enabled = True\<rparr>"

text \<open>The page handle: the page and the receiving half of its channel.\<close>

record page_handle =
  ph_page :: page_ref
  ph_rx :: "target_message list"

record target =
  tg_info :: target_info
  tg_type :: target_type
  tg_config :: target_config
  tg_browser_context :: "string option"
  tg_frames :: frame_manager
  tg_network :: network_manager
  tg_emulation :: emulation_manager
  tg_session :: "string option"
  tg_page :: "page_handle option"
  tg_init :: target_init
  tg_queued :: "target_event list"
  tg_listeners :: cdp_listeners
  tg_waiting :: "nat list"
  tg_initiator :: "nat option"

definition target_new :: "target_info \<Rightarrow> target_config \<Rightarrow> string option \<Rightarrow> target" where
  "target_new info cfg ctx =
     \<lparr>tg_info = info, tg_type = target_type_new (ti_type info), tg_config = cfg, tg_browser_context = ctx,
      tg_frames = frame_manager_new (tc_request_timeout cfg),
      tg_network = set_request_interception (tc_request_intercept cfg)
        (set_cache_enabled (tc_cache_enabled cfg)
          (network_manager_new (tc_ignore_https_errors cfg) (tc_request_timeout cfg))),
      tg_emulation = emulation_manager_new (tc_request_timeout cfg), tg_session = None, tg_page = None,
      tg_init = TiAttachToTarget, tg_queued = [], tg_listeners = [], tg_waiting = [], tg_initiator = None\<rparr>"

definition is_page :: "target \<Rightarrow> bool" where
  "is_page tg \<longleftrightarrow> tg_type tg = TtPage"

definition is_initialized :: "target \<Rightarrow> bool" where
  "is_initialized tg \<longleftrightarrow> (case tg_init tg of TiInitialized \<Rightarrow> True | _ \<Rightarrow> False)"

lemma is_initialized_iff: "is_initialized tg \<longleftrightarrow> tg_init tg = TiInitialized"
  by (simp add: is_initialized_def split: target_init.split)

definition page_handle_new :: "string \<Rightarrow> string \<Rightarrow> string option \<Rightarrow> page_handle" where
  "page_handle_new target session opener =
     \<lparr>ph_page = \<lparr>pr_target = target, pr_session = session, pr_opener = opener\<rparr>, ph_rx = []\<rparr>"

definition create_page :: "target \<Rightarrow> target" where
  "create_page tg =
     (if tg_page tg = None then
        (case tg_session tg of
           None \<Rightarrow> tg
         | Some s \<Rightarrow> tg\<lparr>tg_page := Some (page_handle_new (ti_id (tg_info tg)) s (ti_opener (tg_info tg)))\<rparr>)
      else tg)"

definition get_or_create_page :: "target \<Rightarrow> page_ref option \<times> target" where
  "get_or_create_page tg = (let tg' = create_page tg in (map_option ph_page (tg_page tg'), tg'))"

definition queue_target_event :: "target_event \<Rightarrow> target \<Rightarrow> target" where
  "queue_target_event e tg = tg\<lparr>tg_queued := tg_queued tg @ [e]\<rparr>"

fun map_commands :: "(cdp_chain \<Rightarrow> cdp_chain) \<Rightarrow> target_init \<Rightarrow> target_init" where
  "map_commands f (TiInitializingFrame c) = TiInitializingFrame (f c)"
| "map_commands f (TiInitializingNetwork c) = TiInitializingNetwork (f c)"
| "map_commands f (TiInitializingPage c) = TiInitializingPage (f c)"
| "map_commands f (TiInitializingEmulation c) = TiInitializingEmulation (f c)"
| "map_commands f i = i"

text \<open>A response to a command of the target; \<open>decode\<close> reads the reply to \<open>Page.getFrameTree\<close>.\<close>

definition target_on_response ::
  "(string \<Rightarrow> frame_tree option) \<Rightarrow> response \<Rightarrow> string \<Rightarrow> target \<Rightarrow> target option" where
  "target_on_response decode resp m tg =
     (let tg' = tg\<lparr>tg_init := map_commands (\<lambda>c. snd (chain_received_response m c)) (tg_init tg)\<rparr> in
      if m = ''Page.getFrameTree'' then
        (case Option.bind (rs_result resp) decode of
           None \<Rightarrow> Some tg'
         | Some t \<Rightarrow> map_option (\<lambda>fm. tg'\<lparr>tg_frames := fm\<rparr>) (on_frame_tree t (tg_frames tg')))
      else Some tg')"

section \<open>Events\<close>

definition on_frames :: "(frame_manager \<Rightarrow> frame_manager) \<Rightarrow> target \<Rightarrow> target option" where
  "on_frames f tg = Some (tg\<lparr>tg_frames := f (tg_frames tg)\<rparr>)"

definition on_network :: "(network_manager \<Rightarrow> network_manager) \<Rightarrow> target \<Rightarrow> target option" where
  "on_network f tg = Some (tg\<lparr>tg_network := f (tg_network tg)\<rparr>)"

fun dispatch_event :: "cdp_event \<Rightarrow> target \<Rightarrow> target option" where
  "dispatch_event (EvFrameAttached i p) tg = on_frames (on_frame_attached i (Some p)) tg"
| "dispatch_event (EvFrameDetached i) tg = on_frames (on_frame_detached i) tg"
| "dispatch_event (EvFrameNavigated x) tg =
     map_option (\<lambda>fm. tg\<lparr>tg_frames := fm\<rparr>) (on_frame_navigated x (tg_frames tg))"
| "dispatch_event (EvNavigatedWithinDocument i u) tg = on_frames (on_navigated_within_document i u) tg"
| "dispatch_event (EvContextCreated ev) tg = on_frames (on_context_created ev) tg"
| "dispatch_event (EvContextDestroyed u) tg = on_frames (on_context_destroyed u) tg"
| "dispatch_event EvContextsCleared tg = on_frames on_contexts_cleared tg"
| "dispatch_event EvBindingCalled tg = Some tg"
| "dispatch_event (EvLifecycle i l n) tg = on_frames (on_page_lifecycle_event i l n) tg"
| "dispatch_event (EvStartedLoading i) tg = on_frames (update_frame i on_loading_started) tg"
| "dispatch_event (EvAttachedToTarget s info waiting) tg =
     (let tg1 = (if waiting then queue_target_event (TeRequest (Some s) CdRunIfWaiting) tg else tg) in
      Some (if ti_type info = ''service_worker''
            then queue_target_event (TeRequest (tg_session tg1) (CdDetach s)) tg1 else tg1))"
| "dispatch_event (EvRequestPaused ev) tg = on_network (on_fetch_request_paused ev) tg"
| "dispatch_event (EvAuthRequired i) tg = on_network (on_fetch_auth_required i) tg"
| "dispatch_event (EvRequestWillBeSent ev) tg = on_network (on_request_will_be_sent ev) tg"
| "dispatch_event (EvServedFromCache i) tg = on_network (on_request_served_from_cache i) tg"
| "dispatch_event (EvResponseReceived i r) tg = on_network (on_response_received i r) tg"
| "dispatch_event (EvLoadingFinished i) tg = on_network (on_network_loading_finished i) tg"
| "dispatch_event (EvLoadingFailed i e) tg = on_network (on_network_loading_failed i e) tg"
| "dispatch_event e tg = Some tg"

text \<open>Every event goes to the listeners, an unknown one as JSON.\<close>

definition consume_event :: "event_message \<Rightarrow> cdp_listeners \<Rightarrow> cdp_listeners" where
  "consume_event ev ls =
     (case ev_params ev of
        EvJson j \<Rightarrow> (case try_send_custom (ev_method ev) j ls of Inl err \<Rightarrow> ls | Inr ls' \<Rightarrow> ls')
      | e \<Rightarrow> start_send (ev_method ev) e ls)"

definition target_on_event :: "event_message \<Rightarrow> target \<Rightarrow> target option" where
  "target_on_event ev tg =
     map_option (\<lambda>tg'. tg'\<lparr>tg_listeners := consume_event ev (tg_listeners tg')\<rparr>)
       (dispatch_event (ev_params ev) tg)"

section \<open>Requests of the page\<close>

type_synonym target_state = "target \<times> sends"

definition main_frame :: "frame_manager \<Rightarrow> frame option" where
  "main_frame fm = Option.bind (fm_main fm) (map_of (fm_frames fm))"

definition frame_or_main :: "string option \<Rightarrow> frame_manager \<Rightarrow> frame option" where
  "frame_or_main i fm = (case i of Some j \<Rightarrow> map_of (fm_frames fm) j | None \<Rightarrow> main_frame fm)"

definition send :: "nat \<Rightarrow> reply \<Rightarrow> target_state \<Rightarrow> target_state" where
  "send tx r = (\<lambda>(tg, out). (tg, out @ [(tx, r)]))"

fun handle_message :: "target_message \<Rightarrow> target_state \<Rightarrow> target_state" where
  "handle_message (TmCommand cmd) (tg, out) = (queue_target_event (TeCommand cmd) tg, out)"
| "handle_message (TmMainFrame tx) (tg, out) =
     send tx (RpFrame (map_option fr_id (main_frame (tg_frames tg)))) (tg, out)"
| "handle_message (TmAllFrames tx) (tg, out) =
     send tx (RpFrames (map (fr_id \<circ> snd) (fm_frames (tg_frames tg)))) (tg, out)"
| "handle_message (TmUrl i tx) (tg, out) =
     send tx (RpText (Option.bind (frame_or_main i (tg_frames tg)) fr_url)) (tg, out)"
| "handle_message (TmName i tx) (tg, out) =
     send tx (RpText (Option.bind (frame_or_main i (tg_frames tg)) fr_name)) (tg, out)"
| "handle_message (TmParent i tx) (tg, out) =
     send tx (RpFrame (Option.bind (map_of (fm_frames (tg_frames tg)) i) fr_parent)) (tg, out)"
| "handle_message (TmWaitForNavigation tx) (tg, out) =
     (case main_frame (tg_frames tg) of
        None \<Rightarrow> (tg\<lparr>tg_waiting := tg_waiting tg @ [tx]\<rparr>, out)
      | Some f \<Rightarrow>
          if is_loaded f then send tx (RpRequest (fr_http_request f)) (tg, out)
          else (tg\<lparr>tg_waiting := tg_waiting tg @ [tx]\<rparr>, out))"
| "handle_message (TmAddEventListener r) (tg, out) = (tg\<lparr>tg_listeners := add_listener r (tg_listeners tg)\<rparr>, out)"
| "handle_message (TmGetExecutionContext w i tx) (tg, out) =
     send tx (RpContext (Option.bind (frame_or_main i (tg_frames tg))
       (\<lambda>f. dw_ctx (case w of WkMain \<Rightarrow> fr_main_world f | WkSecondary \<Rightarrow> fr_secondary_world f)))) (tg, out)"
| "handle_message (TmAuthenticate creds) (tg, out) =
     (tg\<lparr>tg_network := authenticate creds (tg_network tg)\<rparr>, out)"

section \<open>Initialisation\<close>

datatype init_result = IrReturn "target_event option" | IrAgain | IrFall

definition on_initialization_failed :: "target_state \<Rightarrow> target_event \<times> target_state" where
  "on_initialization_failed = (\<lambda>(tg, out).
     (TeRequest (tg_session tg) (CdClose (ti_id (tg_info tg))),
      (tg\<lparr>tg_initiator := None, tg_init := TiClosing\<rparr>,
       case tg_initiator tg of None \<Rightarrow> out | Some tx \<Rightarrow> out @ [(tx, RpPage (Inl CeTimeout))])))"

text \<open>The macro \<open>advance_state\<close>, with the constructor of the state and what follows it.\<close>

definition advance_state ::
  "duration \<Rightarrow> cdp_chain \<Rightarrow> (cdp_chain \<Rightarrow> target_init) \<Rightarrow> (target \<Rightarrow> target) \<Rightarrow> target_state \<Rightarrow> init_result \<times> target_state" where
  "advance_state now cmds stay continue = (\<lambda>(tg, out).
     (case chain_poll now cmds of
        (NcPending, c) \<Rightarrow> (IrReturn None, (tg\<lparr>tg_init := stay c\<rparr>, out))
      | (NcDone, c) \<Rightarrow> (IrAgain, (continue tg, out))
      | (NcCommand m v, c) \<Rightarrow> (IrReturn (Some (TeRequest (tg_session tg) v)), (tg\<lparr>tg_init := stay c\<rparr>, out))
      | (NcDeadline n d, c) \<Rightarrow>
          (case on_initialization_failed (tg\<lparr>tg_init := stay c\<rparr>, out) of (e, st) \<Rightarrow> (IrReturn (Some e), st))))"

definition chain_of_frames :: "duration \<Rightarrow> cdp_chain" where
  "chain_of_frames timeout = (case frame_init_commands timeout of (cmds, t) \<Rightarrow> chain_of (map CdFrame cmds) t)"

definition enter_network :: "target \<Rightarrow> target" where
  "enter_network tg =
     tg\<lparr>tg_init := TiInitializingNetwork
       (chain_of (map CdNet (net_init_commands (tg_network tg))) (nm_request_timeout (tg_network tg)))\<rparr>"

definition world_or_network :: "target \<Rightarrow> target" where
  "world_or_network tg =
     (case ensure_isolated_world utility_world_name (tg_frames tg) of
        (Some (cmds, t), fm) \<Rightarrow> tg\<lparr>tg_frames := fm, tg_init := TiInitializingFrame (chain_of (map CdWorld cmds) t)\<rparr>
      | (None, fm) \<Rightarrow> enter_network (tg\<lparr>tg_frames := fm\<rparr>))"

definition enter_page :: "target \<Rightarrow> target" where
  "enter_page tg =
     tg\<lparr>tg_init := TiInitializingPage (chain_of page_init_commands (tc_request_timeout (tg_config tg)))\<rparr>"

definition enter_emulation :: "target \<Rightarrow> target" where
  "enter_emulation tg =
     (case tc_viewport (tg_config tg) of
        None \<Rightarrow> tg\<lparr>tg_init := TiInitialized\<rparr>
      | Some v \<Rightarrow>
          (case emulation_init_commands v (tg_emulation tg) of
             (c, em) \<Rightarrow> tg\<lparr>tg_emulation := em, tg_init := TiInitializingEmulation c\<rparr>))"

definition answer_initiator :: "target_state \<Rightarrow> target_state" where
  "answer_initiator = (\<lambda>(tg, out).
     (case tg_initiator tg of
        None \<Rightarrow> (tg, out)
      | Some tx \<Rightarrow>
          (case main_frame (tg_frames tg) of
             None \<Rightarrow> (tg, out)
           | Some f \<Rightarrow>
               if \<not> is_loaded f then (tg, out)
               else
                 (case get_or_create_page tg of
                    (None, tg') \<Rightarrow> (tg', out)
                  | (Some p, tg') \<Rightarrow> (tg'\<lparr>tg_initiator := None\<rparr>, out @ [(tx, RpPage (Inr p))])))))"

definition init_step :: "duration \<Rightarrow> target_state \<Rightarrow> init_result \<times> target_state" where
  "init_step now = (\<lambda>(tg, out).
     (case tg_init tg of
        TiAttachToTarget \<Rightarrow>
          (IrReturn (Some (TeRequest None (CdAttach (ti_id (tg_info tg)) True))),
           (tg\<lparr>tg_init := TiInitializingFrame (chain_of_frames (tc_request_timeout (tg_config tg)))\<rparr>, out))
      | TiInitializingFrame c \<Rightarrow>
          if tg_session tg = None then (IrReturn None, (tg, out))
          else advance_state now c TiInitializingFrame world_or_network (tg, out)
      | TiInitializingNetwork c \<Rightarrow> advance_state now c TiInitializingNetwork enter_page (tg, out)
      | TiInitializingPage c \<Rightarrow> advance_state now c TiInitializingPage enter_emulation (tg, out)
      | TiInitializingEmulation c \<Rightarrow>
          advance_state now c TiInitializingEmulation (\<lambda>tg. tg\<lparr>tg_init := TiInitialized\<rparr>) (tg, out)
      | TiInitialized \<Rightarrow> (IrFall, answer_initiator (tg, out))
      | TiClosing \<Rightarrow> (IrReturn None, (tg, out))))"

section \<open>The poll\<close>

text \<open>Everyone who waits for the page is told once the main frame is loaded.\<close>

definition notify_waiting :: "target_state \<Rightarrow> target_state" where
  "notify_waiting = (\<lambda>(tg, out).
     (case main_frame (tg_frames tg) of
        None \<Rightarrow> (tg, out)
      | Some f \<Rightarrow>
          if is_loaded f then
            (tg\<lparr>tg_waiting := []\<rparr>, out @ map (\<lambda>tx. (tx, RpRequest (fr_http_request f))) (rev (tg_waiting tg)))
          else (tg, out)))"

definition drain_page :: "target_state \<Rightarrow> target_state" where
  "drain_page = (\<lambda>(tg, out).
     (case tg_page tg of
        None \<Rightarrow> (tg, out)
      | Some h \<Rightarrow> fold handle_message (ph_rx h) (tg\<lparr>tg_page := Some (h\<lparr>ph_rx := []\<rparr>)\<rparr>, out)))"

fun handle_network_event :: "network_event \<Rightarrow> target \<Rightarrow> target" where
  "handle_network_event (SendCdpRequest c) tg = queue_target_event (TeRequest (tg_session tg) (CdNet c)) tg"
| "handle_network_event (NeRequest i) tg = tg"
| "handle_network_event (NeResponse i) tg = tg"
| "handle_network_event (NeRequestFailed r) tg = tg\<lparr>tg_frames := on_http_request_finished r (tg_frames tg)\<rparr>"
| "handle_network_event (NeRequestFinished r) tg = tg\<lparr>tg_frames := on_http_request_finished r (tg_frames tg)\<rparr>"

lemma handle_network_event_network [simp]: "tg_network (handle_network_event e tg) = tg_network tg"
  by (cases e) (simp_all add: queue_target_event_def)

function drain_network :: "target \<Rightarrow> target" where
  "drain_network tg =
     (case net_poll (tg_network tg) of
        (None, nm) \<Rightarrow> tg
      | (Some e, nm) \<Rightarrow> drain_network (handle_network_event e (tg\<lparr>tg_network := nm\<rparr>)))"
  by pat_completeness auto
termination
  by (relation "measure (\<lambda>tg. length (nm_queued_events (tg_network tg)))")
    (auto simp: net_poll_def split: list.splits)

declare drain_network.simps [simp del]

fun event_of_frame :: "frame_event \<Rightarrow> target_event" where
  "event_of_frame (NavigationResult r) = TeNavigationResult r"
| "event_of_frame (NavigationRequest i req) = TeNavigationRequest i req"

text \<open>Each event of the frame manager is owed by it, so the loop ends.\<close>

lemma owed_poll_length: "frame_poll now clock fm = Some (Some e, fm') \<Longrightarrow> length (owed fm) = Suc (length (owed fm'))"
proof -
  assume "frame_poll now clock fm = Some (Some e, fm')"
  then have "mark_of e # owed fm' = owed fm" using owed_poll by (force simp: event_list_def)
  then show ?thesis by (metis length_Cons)
qed

function drain_frames :: "duration \<Rightarrow> duration \<Rightarrow> target \<Rightarrow> target option" where
  "drain_frames now clock tg =
     (case frame_poll now clock (tg_frames tg) of
        None \<Rightarrow> None
      | Some (None, fm) \<Rightarrow> Some (tg\<lparr>tg_frames := fm\<rparr>)
      | Some (Some e, fm) \<Rightarrow>
          drain_frames now clock (queue_target_event (event_of_frame e) (tg\<lparr>tg_frames := fm\<rparr>)))"
  by pat_completeness auto
termination
  by (relation "measure (\<lambda>(now, clock, tg). length (owed (tg_frames tg)))")
    (auto simp: queue_target_event_def dest!: owed_poll_length)

declare drain_frames.simps [simp del]

text \<open>The loop of the poll: its second round has an event to return.\<close>

function poll_loop :: "duration \<Rightarrow> duration \<Rightarrow> target_state \<Rightarrow> (target_event option \<times> target_state) option" where
  "poll_loop now clock st =
     (case notify_waiting st of
        (tg, out) \<Rightarrow>
          (case tg_queued tg of
             e # es \<Rightarrow> Some (Some e, (tg\<lparr>tg_queued := es\<rparr>, out))
           | [] \<Rightarrow>
               (case drain_page (tg, out) of
                  (tg1, out1) \<Rightarrow>
                    (case drain_frames now clock (drain_network tg1) of
                       None \<Rightarrow> None
                     | Some tg2 \<Rightarrow>
                         if tg_queued tg2 = [] then Some (None, (tg2, out1)) else poll_loop now clock (tg2, out1)))))"
  by pat_completeness auto
termination
  by (relation "measure (\<lambda>(now, clock, st). if tg_queued (fst st) = [] then 1 else 0)")
    (auto simp: notify_waiting_def split: option.splits if_splits)

declare poll_loop.simps [simp del]

definition init_rank :: "target \<Rightarrow> nat" where
  "init_rank tg =
     (case tg_init tg of
        TiInitializingFrame c \<Rightarrow> if utility_world_name \<in> fm_isolated_worlds (tg_frames tg) then 4 else 5
      | TiInitializingNetwork c \<Rightarrow> 3
      | TiInitializingPage c \<Rightarrow> 2
      | TiInitializingEmulation c \<Rightarrow> 1
      | _ \<Rightarrow> 0)"

lemma init_step_again: "init_step now (tg, out) = (IrAgain, (tg', out')) \<Longrightarrow> init_rank tg' < init_rank tg"
  by (auto simp: init_step_def advance_state_def on_initialization_failed_def world_or_network_def enter_network_def
      enter_page_def enter_emulation_def ensure_isolated_world_def emulation_init_commands_def init_rank_def
      split: target_init.splits next_command.splits prod.splits if_splits option.splits)

function target_poll :: "duration \<Rightarrow> duration \<Rightarrow> target_state \<Rightarrow> (target_event option \<times> target_state) option" where
  "target_poll now clock st =
     (if \<not> is_page (fst st) then Some (None, st)
      else
        (case init_step now st of
           (IrReturn e, st') \<Rightarrow> Some (e, st')
         | (IrAgain, st') \<Rightarrow> target_poll now clock st'
         | (IrFall, st') \<Rightarrow> poll_loop now clock st'))"
  by pat_completeness auto
termination
  by (relation "measure (\<lambda>(now, clock, st). init_rank (fst st))") (auto dest: sym [THEN init_step_again])

declare target_poll.simps [simp del]

end
