(* ===== verification/Cdp_Target_Props.thy ===== *)
theory Cdp_Target_Props
  imports Cdp_Target
begin

text \<open>
  The properties of a target: every event it returns uses up some of a weight, so that polling it
  until it is idle ends; its initialisation sends the commands of its phases in order; with its
  frame manager in a good state no poll gets stuck.
\<close>

section \<open>What a target can still do\<close>

fun event_weight :: "target_event \<Rightarrow> nat" where
  "event_weight (TeCommand m) = 5"
| "event_weight e = 1"

fun net_weight :: "network_event \<Rightarrow> nat" where
  "net_weight (SendCdpRequest c) = 2"
| "net_weight e = 0"

fun message_weight :: "target_message \<Rightarrow> nat" where
  "message_weight (TmCommand m) = 5"
| "message_weight (TmAuthenticate c) = 4"
| "message_weight m = 0"

definition chain_weight :: "cdp_chain \<Rightarrow> nat" where
  "chain_weight c = (if cc_waiting c = None then 2 else 1)"

fun init_weight :: "target_init \<Rightarrow> nat" where
  "init_weight TiAttachToTarget = 3"
| "init_weight (TiInitializingFrame c) = chain_weight c"
| "init_weight (TiInitializingNetwork c) = chain_weight c"
| "init_weight (TiInitializingPage c) = chain_weight c"
| "init_weight (TiInitializingEmulation c) = chain_weight c"
| "init_weight TiInitialized = 0"
| "init_weight TiClosing = 0"

definition page_weight :: "page_handle option \<Rightarrow> nat" where
  "page_weight p = (case p of None \<Rightarrow> 0 | Some h \<Rightarrow> sum_list (map message_weight (ph_rx h)))"

definition target_weight :: "target \<Rightarrow> nat" where
  "target_weight tg =
     init_weight (tg_init tg) + sum_list (map event_weight (tg_queued tg)) +
     sum_list (map net_weight (nm_queued_events (tg_network tg))) + page_weight (tg_page tg) +
     2 * length (owed (tg_frames tg))"

lemma chain_weight_fresh [simp]: "chain_weight (chain_of cs t) = 2"
  by (simp add: chain_weight_def chain_of_def chain_new_def)

lemma chain_weight_frames [simp]: "chain_weight (chain_of_frames t) = 2"
  by (simp add: chain_of_frames_def frame_init_commands_def)

lemma notify_waiting_keeps:
  "tg_queued (fst (notify_waiting st)) = tg_queued (fst st)"
  "target_weight (fst (notify_waiting st)) = target_weight (fst st)"
  by (auto simp: notify_waiting_def target_weight_def split: option.split prod.split)

lemma authenticate_weight:
  "sum_list (map net_weight (nm_queued_events (authenticate c nm))) \<le>
   sum_list (map net_weight (nm_queued_events nm)) + 4"
  by (simp add: authenticate_def update_protocol_request_interception_def update_protocol_cache_disabled_def
      push_cdp_request_def queue_event_def Let_def)

lemma handle_message_weight:
  "target_weight (fst (handle_message m st)) \<le> target_weight (fst st) + message_weight m"
proof (cases st)
  case (Pair tg out)
  show ?thesis
  proof (cases m)
    case (TmAuthenticate c)
    then show ?thesis using Pair authenticate_weight [of c "tg_network tg"] by (simp add: target_weight_def)
  next
    case (TmWaitForNavigation tx)
    then show ?thesis using Pair by (auto simp: target_weight_def send_def split: option.split)
  qed (use Pair in \<open>simp_all add: target_weight_def send_def queue_target_event_def\<close>)
qed

lemma handle_messages_weight:
  "target_weight (fst (fold handle_message ms st)) \<le> target_weight (fst st) + sum_list (map message_weight ms)"
proof (induction ms arbitrary: st)
  case (Cons m ms)
  from Cons.IH [of "handle_message m st"] handle_message_weight [of m st] show ?case by simp
qed simp

lemma drain_page_weight: "target_weight (fst (drain_page st)) \<le> target_weight (fst st)"
proof (cases st)
  case (Pair tg out)
  show ?thesis
  proof (cases "tg_page tg")
    case (Some h)
    have "target_weight (tg\<lparr>tg_page := Some (h\<lparr>ph_rx := []\<rparr>)\<rparr>) + sum_list (map message_weight (ph_rx h)) = target_weight tg"
      using Some by (simp add: target_weight_def page_weight_def)
    with handle_messages_weight [of "ph_rx h" "(tg\<lparr>tg_page := Some (h\<lparr>ph_rx := []\<rparr>)\<rparr>, out)"] Pair Some
    show ?thesis by (simp add: drain_page_def)
  qed (use Pair in \<open>simp add: drain_page_def\<close>)
qed

lemma owed_request_finished: "owed (on_http_request_finished r fm) = owed fm"
  by (simp add: on_http_request_finished_def split: option.split)

lemma handle_network_event_weight:
  "target_weight (handle_network_event e tg) \<le> target_weight tg + net_weight e"
  by (cases e) (simp_all add: target_weight_def queue_target_event_def owed_request_finished)

lemma drain_network_weight: "target_weight (drain_network tg) \<le> target_weight tg"
proof (induction tg rule: drain_network.induct)
  case (1 tg)
  show ?case
  proof (cases "nm_queued_events (tg_network tg)")
    case Nil
    then show ?thesis by (subst drain_network.simps) (simp add: net_poll_def)
  next
    case (Cons e es)
    let ?nm = "(tg_network tg)\<lparr>nm_queued_events := es\<rparr>"
    have poll: "net_poll (tg_network tg) = (Some e, ?nm)" using Cons by (simp add: net_poll_def)
    have "target_weight (tg\<lparr>tg_network := ?nm\<rparr>) + net_weight e = target_weight tg"
      using Cons by (simp add: target_weight_def)
    moreover have "target_weight (drain_network (handle_network_event e (tg\<lparr>tg_network := ?nm\<rparr>))) \<le>
        target_weight (handle_network_event e (tg\<lparr>tg_network := ?nm\<rparr>))"
      by (rule 1 [OF poll [symmetric]]) simp
    ultimately show ?thesis using handle_network_event_weight [of e "tg\<lparr>tg_network := ?nm\<rparr>"] poll
      by (subst drain_network.simps) simp
  qed
qed

lemma event_of_frame_weight [simp]: "event_weight (event_of_frame e) = 1"
  by (cases e) simp_all

lemma drain_frames_weight: "drain_frames now clock tg = Some tg' \<Longrightarrow> target_weight tg' \<le> target_weight tg"
proof (induction now clock tg rule: drain_frames.induct)
  case (1 now clock tg)
  obtain e fm where p: "frame_poll now clock (tg_frames tg) = Some (e, fm)"
    using 1(2) by (subst (asm) drain_frames.simps) (auto split: option.splits)
  show ?case
  proof (cases e)
    case None
    then have "owed fm = owed (tg_frames tg)" using owed_poll [OF p] by (simp add: event_list_def)
    with 1(2) p None show ?thesis by (subst (asm) drain_frames.simps) (auto simp: target_weight_def)
  next
    case (Some ev)
    let ?tg = "queue_target_event (event_of_frame ev) (tg\<lparr>tg_frames := fm\<rparr>)"
    have "target_weight ?tg < target_weight tg"
      using owed_poll_length [of now clock "tg_frames tg" ev fm] p Some
      by (simp add: target_weight_def queue_target_event_def)
    moreover have d: "drain_frames now clock ?tg = Some tg'"
      using 1(2) p Some by (subst (asm) drain_frames.simps) simp
    have "target_weight tg' \<le> target_weight ?tg" by (rule 1(1) [OF p _ _ d]) (simp_all add: Some)
    ultimately show ?thesis by simp
  qed
qed

lemma poll_loop_weight:
  "poll_loop now clock st = Some (r, st') \<Longrightarrow>
   target_weight (fst st') + (case r of None \<Rightarrow> 0 | Some e \<Rightarrow> event_weight e) \<le> target_weight (fst st)"
proof (induction now clock st rule: poll_loop.induct)
  case (1 now clock st)
  obtain tg out where n: "notify_waiting st = (tg, out)" by fastforce
  have w: "target_weight tg = target_weight (fst st)" using notify_waiting_keeps(2) [of st] n by simp
  show ?case
  proof (cases "tg_queued tg")
    case (Cons e es)
    then have "r = Some e" "st' = (tg\<lparr>tg_queued := es\<rparr>, out)"
      using 1(2) n by (subst (asm) poll_loop.simps, simp)+
    with w Cons show ?thesis by (simp add: target_weight_def)
  next
    case Nil
    obtain tg1 out1 where d: "drain_page (tg, out) = (tg1, out1)" by fastforce
    obtain tg2 where f: "drain_frames now clock (drain_network tg1) = Some tg2"
      using 1(2) n Nil d by (subst (asm) poll_loop.simps) (auto split: option.splits)
    have w2: "target_weight tg2 \<le> target_weight (fst st)"
      using drain_frames_weight [OF f] drain_network_weight [of tg1] drain_page_weight [of "(tg, out)"] d w by simp
    show ?thesis
    proof (cases "tg_queued tg2 = []")
      case True
      then have "r = None" "st' = (tg2, out1)"
        using 1(2) n Nil d f by (subst (asm) poll_loop.simps, simp)+
      with w2 show ?thesis by simp
    next
      case False
      then have "poll_loop now clock (tg2, out1) = Some (r, st')"
        using 1(2) n Nil d f by (subst (asm) poll_loop.simps) simp
      from 1(1) [OF n [symmetric] Nil d [symmetric] f False this] w2 show ?thesis by simp
    qed
  qed
qed

lemma owed_worlds [simp]: "owed (fm\<lparr>fm_isolated_worlds := ws\<rparr>) = owed fm"
  by (rule owed_cong) simp_all

definition result_weight :: "init_result \<Rightarrow> nat" where
  "result_weight r = (case r of IrReturn (Some e) \<Rightarrow> event_weight e | _ \<Rightarrow> 0)"

lemma continue_weight:
  "target_weight (world_or_network tg) + init_weight (tg_init tg) \<le> target_weight tg + 2"
  "target_weight (enter_page tg) + init_weight (tg_init tg) \<le> target_weight tg + 2"
  "target_weight (enter_emulation tg) + init_weight (tg_init tg) \<le> target_weight tg + 2"
  "target_weight (tg\<lparr>tg_init := TiInitialized\<rparr>) + init_weight (tg_init tg) \<le> target_weight tg + 2"
  by (auto simp: target_weight_def world_or_network_def enter_network_def enter_page_def enter_emulation_def
      ensure_isolated_world_def emulation_init_commands_def split: option.split)

lemma advance_state_weight:
  assumes "advance_state now c stay continue (tg, out) = (r, (tg', out'))"
    and "init_weight (tg_init tg) = chain_weight c" "\<And>c. init_weight (stay c) = chain_weight c"
    and "\<And>tg. target_weight (continue tg) + init_weight (tg_init tg) \<le> target_weight tg + 2"
  shows "target_weight tg' + result_weight r \<le> target_weight tg"
proof (cases "cc_waiting c")
  case None
  show ?thesis
  proof (cases "cc_cmds c")
    case Nil
    then show ?thesis using assms(1,2) assms(4) [of tg] None
      by (auto simp: advance_state_def chain_poll_def result_weight_def chain_weight_def)
  next
    case (Cons mv cs)
    obtain m v where "mv = (m, v)" by fastforce
    with Cons show ?thesis using assms(1-3) None
      by (auto simp: advance_state_def chain_poll_def result_weight_def chain_weight_def target_weight_def)
  qed
next
  case (Some w)
  then show ?thesis using assms(1-3)
    by (cases w)
      (auto simp: advance_state_def chain_poll_def result_weight_def chain_weight_def target_weight_def
        on_initialization_failed_def split: if_splits)
qed

lemma init_step_weight:
  assumes "init_step now (tg, out) = (r, (tg', out'))"
  shows "target_weight tg' + result_weight r \<le> target_weight tg"
proof (cases "tg_init tg")
  case TiAttachToTarget
  then show ?thesis using assms by (auto simp: init_step_def target_weight_def result_weight_def)
next
  case (TiInitializingFrame c)
  show ?thesis
  proof (cases "tg_session tg")
    case None
    with TiInitializingFrame assms show ?thesis by (auto simp: init_step_def result_weight_def)
  next
    case (Some s)
    with TiInitializingFrame assms have
      "advance_state now c TiInitializingFrame world_or_network (tg, out) = (r, (tg', out'))"
      by (simp add: init_step_def)
    then show ?thesis
      by (rule advance_state_weight) (use TiInitializingFrame continue_weight(1) in simp_all)
  qed
next
  case (TiInitializingNetwork c)
  with assms have "advance_state now c TiInitializingNetwork enter_page (tg, out) = (r, (tg', out'))"
    by (simp add: init_step_def)
  then show ?thesis by (rule advance_state_weight) (use TiInitializingNetwork continue_weight(2) in simp_all)
next
  case (TiInitializingPage c)
  with assms have "advance_state now c TiInitializingPage enter_emulation (tg, out) = (r, (tg', out'))"
    by (simp add: init_step_def)
  then show ?thesis by (rule advance_state_weight) (use TiInitializingPage continue_weight(3) in simp_all)
next
  case (TiInitializingEmulation c)
  with assms have "advance_state now c TiInitializingEmulation (\<lambda>tg. tg\<lparr>tg_init := TiInitialized\<rparr>) (tg, out) =
      (r, (tg', out'))"
    by (simp add: init_step_def)
  then show ?thesis by (rule advance_state_weight) (use TiInitializingEmulation continue_weight(4) in simp_all)
next
  case TiInitialized
  then show ?thesis using assms
    by (auto simp: init_step_def answer_initiator_def get_or_create_page_def create_page_def page_handle_new_def
        target_weight_def page_weight_def result_weight_def Let_def split: option.splits if_splits)
next
  case TiClosing
  then show ?thesis using assms by (auto simp: init_step_def result_weight_def)
qed

lemma target_poll_weight:
  "target_poll now clock st = Some (r, st') \<Longrightarrow>
   target_weight (fst st') + (case r of None \<Rightarrow> 0 | Some e \<Rightarrow> event_weight e) \<le> target_weight (fst st)"
proof (induction now clock st rule: target_poll.induct)
  case (1 now clock st)
  obtain tg out where st: "st = (tg, out)" by fastforce
  show ?case
  proof (cases "is_page tg")
    case False
    then show ?thesis using 1(2) st by (subst (asm) target_poll.simps) auto
  next
    case True
    obtain res tg1 out1 where i: "init_step now st = (res, (tg1, out1))" by (metis prod.exhaust)
    then have w: "target_weight tg1 + result_weight res \<le> target_weight tg" using init_step_weight st by simp
    show ?thesis
    proof (cases res)
      case (IrReturn e)
      then have "r = e" "st' = (tg1, out1)"
        using 1(2) i True st by (subst (asm) target_poll.simps, simp)+
      with w IrReturn st show ?thesis by (cases e) (simp_all add: result_weight_def)
    next
      case IrAgain
      then have "target_poll now clock (tg1, out1) = Some (r, st')"
        using 1(2) i True st by (subst (asm) target_poll.simps) simp
      then have "target_weight (fst st') + (case r of None \<Rightarrow> 0 | Some e \<Rightarrow> event_weight e) \<le> target_weight tg1"
        using 1(1) [of res "(tg1, out1)"] i IrAgain True st by simp
      with w st show ?thesis by simp
    next
      case IrFall
      then have "poll_loop now clock (tg1, out1) = Some (r, st')"
        using 1(2) i True st by (subst (asm) target_poll.simps) simp
      from poll_loop_weight [OF this] w st show ?thesis by simp
    qed
  qed
qed

section \<open>Polls do not get stuck\<close>

abbreviation tg_ok :: "target \<Rightarrow> bool" where
  "tg_ok tg \<equiv> fm_ok (tg_frames tg)"

lemma request_finished_ok: "fm_ok fm \<Longrightarrow> fm_ok (on_http_request_finished r fm)"
  using frame_step_ok [of fm "FiRequestFinished r"] by auto

lemma handle_message_ok: "tg_ok (fst st) \<Longrightarrow> tg_ok (fst (handle_message m st))"
  by (cases st; cases m) (auto simp: send_def queue_target_event_def split: option.split)

lemma drain_page_ok: "tg_ok (fst st) \<Longrightarrow> tg_ok (fst (drain_page st))"
proof -
  have fold: "tg_ok (fst st) \<Longrightarrow> tg_ok (fst (fold handle_message ms st))" for ms st
    by (induction ms arbitrary: st) (simp_all add: handle_message_ok)
  assume "tg_ok (fst st)"
  then show ?thesis by (auto simp: drain_page_def intro!: fold split: option.split prod.split)
qed

lemma handle_network_event_ok: "tg_ok tg \<Longrightarrow> tg_ok (handle_network_event e tg)"
  by (cases e) (simp_all add: queue_target_event_def request_finished_ok)

lemma drain_network_ok: "tg_ok tg \<Longrightarrow> tg_ok (drain_network tg)"
proof (induction tg rule: drain_network.induct)
  case (1 tg)
  then show ?case
    by (auto simp: drain_network.simps [of tg] handle_network_event_ok split: option.split prod.split)
qed

lemma drain_frames_ok: "tg_ok tg \<Longrightarrow> \<exists>tg'. drain_frames now clock tg = Some tg' \<and> tg_ok tg'"
proof (induction now clock tg rule: drain_frames.induct)
  case (1 now clock tg)
  obtain e fm where p: "frame_poll now clock (tg_frames tg) = Some (e, fm)" "fm_ok fm"
    using frame_poll_ok [OF 1(2)] by blast
  show ?case
  proof (cases e)
    case None
    with p show ?thesis by (subst drain_frames.simps) simp
  next
    case (Some ev)
    have "\<exists>tg'. drain_frames now clock (queue_target_event (event_of_frame ev) (tg\<lparr>tg_frames := fm\<rparr>)) = Some tg' \<and> tg_ok tg'"
      by (rule 1(1) [OF p(1) refl Some]) (simp add: queue_target_event_def p(2))
    with p Some show ?thesis by (subst drain_frames.simps) simp
  qed
qed

lemma notify_waiting_frames [simp]: "tg_frames (fst (notify_waiting st)) = tg_frames (fst st)"
  by (auto simp: notify_waiting_def split: option.split prod.split)

lemma poll_loop_ok: "tg_ok (fst st) \<Longrightarrow> \<exists>r st'. poll_loop now clock st = Some (r, st') \<and> tg_ok (fst st')"
proof (induction now clock st rule: poll_loop.induct)
  case (1 now clock st)
  obtain tg out where n: "notify_waiting st = (tg, out)" by fastforce
  have ok: "tg_ok tg" using 1(2) notify_waiting_frames [of st] n by simp
  show ?case
  proof (cases "tg_queued tg")
    case (Cons e es)
    with ok n show ?thesis by (subst poll_loop.simps) simp
  next
    case Nil
    obtain tg1 out1 where d: "drain_page (tg, out) = (tg1, out1)" by fastforce
    then have "tg_ok (drain_network tg1)" using drain_page_ok [of "(tg, out)"] drain_network_ok ok by simp
    then obtain tg2 where f: "drain_frames now clock (drain_network tg1) = Some tg2" "tg_ok tg2"
      using drain_frames_ok by blast
    show ?thesis
    proof (cases "tg_queued tg2 = []")
      case True
      with n Nil d f show ?thesis by (subst poll_loop.simps) simp
    next
      case False
      from 1(1) [OF n [symmetric] Nil d [symmetric] f(1) False] f(2) n Nil d f(1) False show ?thesis
        by (subst poll_loop.simps) simp
    qed
  qed
qed

lemma init_step_ok: "init_step now (tg, out) = (res, (tg', out')) \<Longrightarrow> tg_ok tg \<Longrightarrow> tg_ok tg'"
  by (auto simp: init_step_def advance_state_def on_initialization_failed_def world_or_network_def enter_network_def
      enter_page_def enter_emulation_def ensure_isolated_world_def emulation_init_commands_def answer_initiator_def
      get_or_create_page_def create_page_def Let_def
      split: target_init.splits next_command.splits prod.splits if_splits option.splits)

lemma target_poll_ok: "tg_ok (fst st) \<Longrightarrow> \<exists>r st'. target_poll now clock st = Some (r, st') \<and> tg_ok (fst st')"
proof (induction now clock st rule: target_poll.induct)
  case (1 now clock st)
  obtain tg out where st: "st = (tg, out)" by fastforce
  obtain res tg1 out1 where i: "init_step now st = (res, (tg1, out1))" by (metis prod.exhaust)
  then have ok: "tg_ok tg1" using init_step_ok st 1(2) by simp
  show ?case
  proof (cases "is_page tg")
    case False
    with st 1(2) show ?thesis by (subst target_poll.simps) simp
  next
    case True
    show ?thesis
    proof (cases res)
      case (IrReturn e)
      with st i True ok show ?thesis by (subst target_poll.simps) simp
    next
      case IrAgain
      with 1(1) [of res "(tg1, out1)"] st i True ok show ?thesis by (subst target_poll.simps) simp
    next
      case IrFall
      with poll_loop_ok [of "(tg1, out1)"] st i True ok show ?thesis by (subst target_poll.simps) simp
    qed
  qed
qed

section \<open>Runs of a target\<close>

datatype target_input =
    TnPoll duration duration
  | TnEvent event_message
  | TnResponse response string
  | TnSession "string option"
  | TnInitiator nat
  | TnMessage target_message
  | TnPage

definition receive_message :: "target_message \<Rightarrow> target \<Rightarrow> target" where
  "receive_message m tg = tg\<lparr>tg_page := map_option (\<lambda>h. h\<lparr>ph_rx := ph_rx h @ [m]\<rparr>) (tg_page tg)\<rparr>"

fun target_step ::
  "(string \<Rightarrow> frame_tree option) \<Rightarrow> target_input \<Rightarrow> target_state \<Rightarrow> (target_event option \<times> target_state) option" where
  "target_step decode (TnPoll now clock) st = target_poll now clock st"
| "target_step decode (TnEvent ev) (tg, out) = map_option (\<lambda>tg'. (None, (tg', out))) (target_on_event ev tg)"
| "target_step decode (TnResponse r m) (tg, out) =
     map_option (\<lambda>tg'. (None, (tg', out))) (target_on_response decode r m tg)"
| "target_step decode (TnSession s) (tg, out) = Some (None, (tg\<lparr>tg_session := s\<rparr>, out))"
| "target_step decode (TnInitiator tx) (tg, out) = Some (None, (tg\<lparr>tg_initiator := Some tx\<rparr>, out))"
| "target_step decode (TnMessage m) (tg, out) = Some (None, (receive_message m tg, out))"
| "target_step decode TnPage (tg, out) = Some (None, (snd (get_or_create_page tg), out))"

text \<open>A run, with the commands returned while the target is not yet initialised.\<close>

definition setup_log :: "target_event option \<Rightarrow> target \<Rightarrow> cdp_command list" where
  "setup_log e tg = (case e of Some (TeRequest s c) \<Rightarrow> if is_initialized tg then [] else [c] | _ \<Rightarrow> [])"

fun target_run ::
  "(string \<Rightarrow> frame_tree option) \<Rightarrow> target_input list \<Rightarrow> target_state \<Rightarrow> (cdp_command list \<times> target_state) option" where
  "target_run decode [] st = Some ([], st)"
| "target_run decode (i # is) st =
     (case target_step decode i st of
        None \<Rightarrow> None
      | Some (e, st') \<Rightarrow> map_option (\<lambda>(sent, st''). (setup_log e (fst st') @ sent, st'')) (target_run decode is st'))"

definition detaches_main :: "target_input \<Rightarrow> target \<Rightarrow> bool" where
  "detaches_main i tg =
     (case i of
        TnEvent ev \<Rightarrow> (case ev_params ev of EvFrameDetached j \<Rightarrow> fm_main (tg_frames tg) = Some j | _ \<Rightarrow> False)
      | _ \<Rightarrow> False)"

fun target_main_kept :: "(string \<Rightarrow> frame_tree option) \<Rightarrow> target_input list \<Rightarrow> target_state \<Rightarrow> bool" where
  "target_main_kept decode [] st = True"
| "target_main_kept decode (i # is) st =
     (\<not> detaches_main i (fst st) \<and>
      (case target_step decode i st of None \<Rightarrow> True | Some (e, st') \<Rightarrow> target_main_kept decode is st'))"

lemma frame_step_total:
  "fm_ok fm \<Longrightarrow> frame_step i fm = Some (e, fm') \<Longrightarrow> (\<And>j. i = FiDetached j \<Longrightarrow> fm_main fm \<noteq> Some j) \<Longrightarrow> fm_ok fm'"
  using frame_step_ok [of fm i] by fastforce

lemma dispatch_event_ok:
  assumes "tg_ok tg" "\<And>j. e = EvFrameDetached j \<Longrightarrow> fm_main (tg_frames tg) \<noteq> Some j"
  shows "\<exists>tg'. dispatch_event e tg = Some tg' \<and> tg_ok tg'"
proof (cases e)
  case (EvFrameAttached i p)
  then show ?thesis using assms attached_ok by (simp add: on_frames_def)
next
  case (EvFrameDetached i)
  then show ?thesis using frame_step_total [OF assms(1), of "FiDetached i"] assms(2) by (simp add: on_frames_def)
next
  case (EvFrameNavigated x)
  then show ?thesis using navigated_ok [OF assms(1), of x] by auto
next
  case (EvNavigatedWithinDocument i u)
  then show ?thesis using frame_step_total [OF assms(1), of "FiWithinDocument i u"] by (simp add: on_frames_def)
next
  case (EvContextCreated ev)
  then show ?thesis using frame_step_total [OF assms(1), of "FiContextCreated ev"] by (simp add: on_frames_def)
next
  case (EvContextDestroyed u)
  then show ?thesis using frame_step_total [OF assms(1), of "FiContextDestroyed u"] by (simp add: on_frames_def)
next
  case EvContextsCleared
  then show ?thesis using frame_step_total [OF assms(1), of "FiContextsCleared"] by (simp add: on_frames_def)
next
  case (EvLifecycle i l n)
  then show ?thesis using frame_step_total [OF assms(1), of "FiLifecycle i l n"] by (simp add: on_frames_def)
next
  case (EvStartedLoading i)
  then show ?thesis using frame_step_total [OF assms(1), of "FiStartedLoading i"] by (simp add: on_frames_def)
qed (use assms(1) in \<open>auto simp: on_network_def queue_target_event_def Let_def\<close>)

lemma target_step_ok:
  assumes "tg_ok (fst st)" "\<not> detaches_main i (fst st)"
  shows "\<exists>e st'. target_step decode i st = Some (e, st') \<and> tg_ok (fst st')"
proof -
  obtain tg out where st: "st = (tg, out)" by fastforce
  with assms have ok: "tg_ok tg" by simp
  show ?thesis
  proof (cases i)
    case (TnPoll now clock)
    then show ?thesis using target_poll_ok [OF assms(1)] by auto
  next
    case (TnEvent ev)
    have "\<exists>tg'. dispatch_event (ev_params ev) tg = Some tg' \<and> tg_ok tg'"
      using assms(2) TnEvent st by (intro dispatch_event_ok [OF ok]) (auto simp: detaches_main_def)
    then show ?thesis using TnEvent st by (auto simp: target_on_event_def)
  next
    case (TnResponse r m)
    show ?thesis
    proof (cases "if m = ''Page.getFrameTree'' then Option.bind (rs_result r) decode else None")
      case None
      then show ?thesis using TnResponse st ok by (auto simp: target_on_response_def Let_def split: if_splits)
    next
      case (Some t)
      obtain fm where "on_frame_tree t (tg_frames tg) = Some fm" "fm_ok fm" using frame_tree_ok(1) [OF ok] by blast
      then show ?thesis using TnResponse st Some by (simp add: target_on_response_def Let_def split: if_splits)
    qed
  qed (use st ok in \<open>auto simp: receive_message_def get_or_create_page_def create_page_def Let_def split: option.split\<close>)
qed

lemma target_new_ok: "tg_ok (target_new info cfg ctx)"
  using frame_manager_new_ok by (simp add: target_new_def)

text \<open>C14: No target gets stuck. From its creation on, whatever events and responses the browser sends, whatever
  its page asks for, and whenever it is polled, as long as the browser does not detach the main frame,
  no step of a target panics and every poll of it ends.\<close>

theorem target_never_stuck:
  assumes "target_main_kept decode is (target_new info cfg ctx, out)"
  shows "\<exists>sent st. target_run decode is (target_new info cfg ctx, out) = Some (sent, st)"
proof -
  have "tg_ok (fst st) \<Longrightarrow> target_main_kept decode is st \<Longrightarrow> \<exists>sent st'. target_run decode is st = Some (sent, st')" for st
  proof (induction "is" arbitrary: st)
    case (Cons i "is")
    then obtain e st1 where s: "target_step decode i st = Some (e, st1)" "tg_ok (fst st1)"
      using target_step_ok [of st i decode] by auto
    with Cons show ?case by fastforce
  qed simp
  with target_new_ok assms show ?thesis by simp
qed

section \<open>Initialisation in order\<close>

text \<open>What the steps outside of the initialisation leave as it is.\<close>

definition same_setup :: "target \<Rightarrow> target \<Rightarrow> bool" where
  "same_setup tg tg' \<longleftrightarrow>
     tg_init tg' = tg_init tg \<and> tg_type tg' = tg_type tg \<and> tg_info tg' = tg_info tg \<and> tg_config tg' = tg_config tg \<and>
     nm_ignore_httpserrors (tg_network tg') = nm_ignore_httpserrors (tg_network tg) \<and>
     fm_isolated_worlds (tg_frames tg) \<subseteq> fm_isolated_worlds (tg_frames tg')"

lemma same_setup_refl [simp]: "same_setup tg tg"
  by (simp add: same_setup_def)

lemma same_setup_trans: "same_setup a b \<Longrightarrow> same_setup b c \<Longrightarrow> same_setup a c"
  by (auto simp: same_setup_def)

lemma worlds_update_frame [simp]: "fm_isolated_worlds (update_frame i f fm) = fm_isolated_worlds fm"
  by (simp add: update_frame_def)

lemma worlds_navigated: "on_frame_navigated x fm = Some fm' \<Longrightarrow> fm_isolated_worlds fm' = fm_isolated_worlds fm"
  by (auto simp: on_frame_navigated_def Let_def split: option.splits if_splits)

lemma worlds_attached [simp]: "fm_isolated_worlds (on_frame_attached i p fm) = fm_isolated_worlds fm"
  by (auto simp: on_frame_attached_def frame_with_parent_def split: option.splits)

lemma worlds_frame_tree:
  "on_frame_tree t fm = Some fm' \<Longrightarrow> fm_isolated_worlds fm' = fm_isolated_worlds fm"
  "on_frame_trees ts fm = Some fm' \<Longrightarrow> fm_isolated_worlds fm' = fm_isolated_worlds fm"
proof (induction t fm and ts fm arbitrary: fm' and fm' rule: on_frame_tree_on_frame_trees.induct)
  case (1 x ts fm)
  from 1(2) obtain fm1 where fm1: "on_frame_navigated x (on_frame_attached (xf_id x) (xf_parent_id x) fm) = Some fm1"
    "on_frame_trees ts fm1 = Some fm'" by (auto simp: bind_eq_Some_conv)
  have "fm_isolated_worlds fm' = fm_isolated_worlds fm1" by (rule 1(1) [OF fm1])
  also have "\<dots> = fm_isolated_worlds fm" using worlds_navigated [OF fm1(1)] by simp
  finally show ?case .
next
  case (3 t ts fm)
  from 3(3) obtain fm1 where fm1: "on_frame_tree t fm = Some fm1" "on_frame_trees ts fm1 = Some fm'"
    by (auto simp: bind_eq_Some_conv)
  have "fm_isolated_worlds fm' = fm_isolated_worlds fm1" by (rule 3(2) [OF fm1])
  also have "\<dots> = fm_isolated_worlds fm" by (rule 3(1) [OF fm1(1)])
  finally show ?case .
qed simp

lemma worlds_cleared: "fm_isolated_worlds (fold (\<lambda>(u, i). update_frame i clear_contexts) cs fm) = fm_isolated_worlds fm"
proof (induction cs arbitrary: fm)
  case (Cons c cs)
  then show ?case by (cases c) simp
qed simp

lemma worlds_created: "fm_isolated_worlds fm \<subseteq> fm_isolated_worlds (on_context_created ev fm)"
  by (auto simp: on_context_created_def Let_def split: option.splits)

lemma worlds_poll:
  assumes "frame_poll now clock fm = Some (e, fm')"
  shows "fm_isolated_worlds fm' = fm_isolated_worlds fm"
proof (cases "fm_navigation fm")
  case None
  with assms show ?thesis by (cases "fm_pending fm") (auto simp: frame_poll_def)
next
  case (Some n)
  obtain w d where "n = (w, d)" by fastforce
  with Some assms show ?thesis
    by (cases "map_of (fm_frames fm) (nw_frame_id w)")
      (auto simp: frame_poll_def Let_def split: if_splits option.splits)
qed

lemma ignore_kept [simp]:
  "nm_ignore_httpserrors (on_fetch_request_paused p nm) = nm_ignore_httpserrors nm"
  "nm_ignore_httpserrors (on_fetch_auth_required i nm) = nm_ignore_httpserrors nm"
  "nm_ignore_httpserrors (on_request_will_be_sent ev nm) = nm_ignore_httpserrors nm"
  "nm_ignore_httpserrors (on_request_served_from_cache i nm) = nm_ignore_httpserrors nm"
  "nm_ignore_httpserrors (on_response_received i r nm) = nm_ignore_httpserrors nm"
  "nm_ignore_httpserrors (on_network_loading_finished i nm) = nm_ignore_httpserrors nm"
  "nm_ignore_httpserrors (on_network_loading_failed i err nm) = nm_ignore_httpserrors nm"
  "nm_ignore_httpserrors (authenticate c nm) = nm_ignore_httpserrors nm"
proof -
  have req: "nm_ignore_httpserrors (on_request ev x nm) = nm_ignore_httpserrors nm" for ev x nm
    by (auto simp: on_request_def handle_request_redirect_def forget_attempt_def queue_event_def Let_def
        split: option.split prod.split)
  show "nm_ignore_httpserrors (on_fetch_request_paused p nm) = nm_ignore_httpserrors nm"
    by (auto simp: on_fetch_request_paused_def req push_cdp_request_def queue_event_def Let_def split: option.split)
  show "nm_ignore_httpserrors (on_request_will_be_sent ev nm) = nm_ignore_httpserrors nm"
    by (auto simp: on_request_will_be_sent_def req split: option.split)
qed (auto simp: on_fetch_auth_required_def on_request_served_from_cache_def on_response_received_def
    on_network_loading_finished_def on_network_loading_failed_def authenticate_def forget_attempt_def
    update_protocol_request_interception_def update_protocol_cache_disabled_def push_cdp_request_def queue_event_def Let_def
    split: option.split)

lemma same_setup_dispatch: "dispatch_event e tg = Some tg' \<Longrightarrow> same_setup tg tg'"
proof (cases e)
  case (EvFrameNavigated x)
  moreover assume "dispatch_event e tg = Some tg'"
  ultimately show ?thesis using worlds_navigated by (auto simp: same_setup_def)
next
  case (EvContextCreated ev)
  moreover assume "dispatch_event e tg = Some tg'"
  ultimately show ?thesis using worlds_created [of "tg_frames tg" ev] by (auto simp: same_setup_def on_frames_def)
next
  case (EvAttachedToTarget s info w)
  have q: "same_setup tg (queue_target_event e' tg)" for e' tg by (simp add: same_setup_def queue_target_event_def)
  assume "dispatch_event e tg = Some tg'"
  then show ?thesis using EvAttachedToTarget q q [THEN same_setup_trans, OF q] by (auto simp: Let_def split: if_splits)
qed (auto simp: same_setup_def on_frames_def on_network_def queue_target_event_def Let_def on_frame_detached_def
    on_navigated_within_document_def on_context_destroyed_def on_contexts_cleared_def worlds_cleared
    on_page_lifecycle_event_def split: option.splits)

lemma same_setup_message: "same_setup (fst st) (fst (handle_message m st))"
  by (cases st; cases m) (auto simp: same_setup_def send_def queue_target_event_def split: option.split)

lemma same_setup_drain_page: "same_setup (fst st) (fst (drain_page st))"
proof -
  have fold: "same_setup (fst st) (fst (fold handle_message ms st))" for ms st
  proof (induction ms arbitrary: st)
    case (Cons m ms)
    show ?case using same_setup_trans [OF same_setup_message Cons [of "handle_message m st"]] by simp
  qed simp
  show ?thesis
  proof (cases "tg_page (fst st)")
    case (Some h)
    have "same_setup (fst st) ((fst st)\<lparr>tg_page := Some (h\<lparr>ph_rx := []\<rparr>)\<rparr>)" by (simp add: same_setup_def)
    with Some show ?thesis using fold [of "((fst st)\<lparr>tg_page := Some (h\<lparr>ph_rx := []\<rparr>)\<rparr>, snd st)" "ph_rx h"]
      by (cases st) (auto simp: drain_page_def intro: same_setup_trans)
  qed (cases st; simp add: drain_page_def)
qed

lemma same_setup_drain_network: "same_setup tg (drain_network tg)"
proof (induction tg rule: drain_network.induct)
  case (1 tg)
  show ?case
  proof (cases "net_poll (tg_network tg)")
    case (Pair e nm)
    then have nm: "nm_ignore_httpserrors nm = nm_ignore_httpserrors (tg_network tg)"
      by (auto simp: net_poll_def split: list.splits)
    have "same_setup tg (handle_network_event ev (tg\<lparr>tg_network := nm\<rparr>))" for ev
      using nm by (cases ev)
        (auto simp: same_setup_def queue_target_event_def on_http_request_finished_def split: option.split)
    with 1 Pair show ?thesis
      by (cases e) (auto simp: drain_network.simps [of tg] intro: same_setup_trans)
  qed
qed

lemma same_setup_drain_frames: "drain_frames now clock tg = Some tg' \<Longrightarrow> same_setup tg tg'"
proof (induction now clock tg rule: drain_frames.induct)
  case (1 now clock tg)
  obtain e fm where p: "frame_poll now clock (tg_frames tg) = Some (e, fm)"
    using 1(2) by (subst (asm) drain_frames.simps) (auto split: option.splits)
  then have w: "fm_isolated_worlds fm = fm_isolated_worlds (tg_frames tg)" by (rule worlds_poll)
  show ?case
  proof (cases e)
    case None
    with 1(2) p w show ?thesis by (subst (asm) drain_frames.simps) (auto simp: same_setup_def)
  next
    case (Some ev)
    let ?tg = "queue_target_event (event_of_frame ev) (tg\<lparr>tg_frames := fm\<rparr>)"
    have d: "drain_frames now clock ?tg = Some tg'"
      using 1(2) p Some by (subst (asm) drain_frames.simps) simp
    have "same_setup ?tg tg'" by (rule 1(1) [OF p refl Some d])
    moreover have "same_setup tg ?tg" using w by (simp add: same_setup_def queue_target_event_def)
    ultimately show ?thesis using same_setup_trans by blast
  qed
qed

lemma same_setup_notify: "same_setup (fst st) (fst (notify_waiting st))"
  by (auto simp: notify_waiting_def same_setup_def split: option.split prod.split)

lemma same_setup_poll_loop: "poll_loop now clock st = Some (r, st') \<Longrightarrow> same_setup (fst st) (fst st')"
proof (induction now clock st rule: poll_loop.induct)
  case (1 now clock st)
  obtain tg out where n: "notify_waiting st = (tg, out)" by fastforce
  have w: "same_setup (fst st) tg" using same_setup_notify [of st] n by simp
  show ?case
  proof (cases "tg_queued tg")
    case (Cons e es)
    then have "st' = (tg\<lparr>tg_queued := es\<rparr>, out)"
      using 1(2) n by (subst (asm) poll_loop.simps) simp
    with w show ?thesis by (simp add: same_setup_def)
  next
    case Nil
    obtain tg1 out1 where d: "drain_page (tg, out) = (tg1, out1)" by fastforce
    obtain tg2 where f: "drain_frames now clock (drain_network tg1) = Some tg2"
      using 1(2) n Nil d by (subst (asm) poll_loop.simps) (auto split: option.splits)
    have "same_setup tg tg1" using same_setup_drain_page [of "(tg, out)"] d by simp
    then have w2: "same_setup (fst st) tg2"
      using w same_setup_drain_network [of tg1] same_setup_drain_frames [OF f] same_setup_trans by blast
    show ?thesis
    proof (cases "tg_queued tg2 = []")
      case True
      then have "st' = (tg2, out1)"
        using 1(2) n Nil d f by (subst (asm) poll_loop.simps) simp
      with w2 show ?thesis by simp
    next
      case False
      then have "poll_loop now clock (tg2, out1) = Some (r, st')"
        using 1(2) n Nil d f by (subst (asm) poll_loop.simps) simp
      from 1(1) [OF n [symmetric] Nil d [symmetric] f False this] w2 show ?thesis
        using same_setup_trans by fastforce
    qed
  qed
qed

definition world_commands :: "string list \<Rightarrow> world_command list" where
  "world_commands ids =
     AddScriptToEvaluate (''//# sourceURL='' @ evaluation_script_url) utility_world_name #
     map (\<lambda>i. CreateIsolatedWorld i utility_world_name) ids"

definition frame_setup :: "target_info \<Rightarrow> cdp_command list" where
  "frame_setup info =
     [CdAttach (ti_id info) True, CdFrame PageEnable, CdFrame GetFrameTree, CdFrame (SetLifecycleEventsEnabled True),
      CdFrame RuntimeEnable]"

definition network_setup :: "target_config \<Rightarrow> cdp_command list" where
  "network_setup cfg =
     CdNet NetEnable # (if tc_ignore_https_errors cfg then [CdNet (SetIgnoreCertificateErrors True)] else [])"

definition emulation_setup :: "target_config \<Rightarrow> cdp_command list" where
  "emulation_setup cfg = (case tc_viewport cfg of None \<Rightarrow> [] | Some v \<Rightarrow> emulation_commands v)"

text \<open>
  All commands of the initialisation; \<open>w\<close> are those that create the utility world in the frames of
  that time, or none when the browser has announced such a world already.
\<close>

definition setup_commands :: "target_info \<Rightarrow> target_config \<Rightarrow> world_command list \<Rightarrow> cdp_command list" where
  "setup_commands info cfg w =
     frame_setup info @ map CdWorld w @ network_setup cfg @ page_init_commands @ emulation_setup cfg"

definition world_setup :: "world_command list \<Rightarrow> bool" where
  "world_setup w \<longleftrightarrow> w = [] \<or> (\<exists>ids. w = world_commands ids)"

definition unsent :: "cdp_chain \<Rightarrow> cdp_command list" where
  "unsent c = map snd (cc_cmds c)"

fun setup_phase :: "target_info \<Rightarrow> target_config \<Rightarrow> world_command list \<Rightarrow> bool \<Rightarrow> cdp_command list \<Rightarrow> target_init \<Rightarrow> bool" where
  "setup_phase info cfg w known sent TiAttachToTarget \<longleftrightarrow> sent = []"
| "setup_phase info cfg w known sent (TiInitializingFrame c) \<longleftrightarrow>
     sent @ unsent c = frame_setup info @ map CdWorld w \<and> (w = [] \<or> known)"
| "setup_phase info cfg w known sent (TiInitializingNetwork c) \<longleftrightarrow>
     sent @ unsent c = frame_setup info @ map CdWorld w @ network_setup cfg"
| "setup_phase info cfg w known sent (TiInitializingPage c) \<longleftrightarrow>
     sent @ unsent c = frame_setup info @ map CdWorld w @ network_setup cfg @ page_init_commands"
| "setup_phase info cfg w known sent (TiInitializingEmulation c) \<longleftrightarrow> sent @ unsent c = setup_commands info cfg w"
| "setup_phase info cfg w known sent TiInitialized \<longleftrightarrow> sent = setup_commands info cfg w"
| "setup_phase info cfg w known sent TiClosing \<longleftrightarrow>
     (\<exists>l r. sent = l @ [CdClose (ti_id info)] \<and> l @ r = setup_commands info cfg w)"

definition setup_ok :: "target_info \<Rightarrow> target_config \<Rightarrow> cdp_command list \<Rightarrow> target \<Rightarrow> bool" where
  "setup_ok info cfg sent tg \<longleftrightarrow>
     tg_info tg = info \<and> tg_config tg = cfg \<and>
     nm_ignore_httpserrors (tg_network tg) = tc_ignore_https_errors cfg \<and>
     (\<exists>w. world_setup w \<and> setup_phase info cfg w (utility_world_name \<in> fm_isolated_worlds (tg_frames tg)) sent (tg_init tg))"

lemma setup_phase_mono:
  "setup_phase info cfg w k sent i \<Longrightarrow> (k \<Longrightarrow> k') \<Longrightarrow> setup_phase info cfg w k' sent i"
  by (cases i) auto

lemma setup_ok_same: "setup_ok info cfg sent tg \<Longrightarrow> same_setup tg tg' \<Longrightarrow> setup_ok info cfg sent tg'"
  unfolding setup_ok_def same_setup_def using setup_phase_mono by (metis subsetD)

lemma unsent_chain_of [simp]: "unsent (chain_of cs t) = cs"
  by (simp add: unsent_def chain_of_def chain_new_def comp_def)

lemma unsent_frames [simp]: "unsent (chain_of_frames t) =
    [CdFrame PageEnable, CdFrame GetFrameTree, CdFrame (SetLifecycleEventsEnabled True), CdFrame RuntimeEnable]"
  by (simp add: chain_of_frames_def frame_init_commands_def)

text \<open>A phase with a chain: its commands go out, and then \<open>continue\<close>, or the target is closed.\<close>

lemma advance_state_cases:
  assumes "advance_state now c stay continue (tg, out) = (r, (tg', out'))"
  obtains (wait) c' where "r = IrReturn None" "tg' = tg\<lparr>tg_init := stay c'\<rparr>" "unsent c' = unsent c"
  | (again) "r = IrAgain" "tg' = continue tg" "unsent c = []"
  | (command) c' v where "r = IrReturn (Some (TeRequest (tg_session tg) v))" "tg' = tg\<lparr>tg_init := stay c'\<rparr>"
      "unsent c = v # unsent c'"
  | (fail) "r = IrReturn (Some (TeRequest (tg_session tg) (CdClose (ti_id (tg_info tg)))))"
      "tg' = tg\<lparr>tg_init := TiClosing, tg_initiator := None\<rparr>"
proof (cases "cc_waiting c")
  case None
  show thesis
  proof (cases "cc_cmds c")
    case Nil
    with None assms again show thesis by (auto simp: advance_state_def chain_poll_def unsent_def)
  next
    case (Cons mv cs)
    obtain m v where "mv = (m, v)" by fastforce
    with None Cons assms command [of v "c\<lparr>cc_cmds := cs, cc_waiting := Some (m, now + cc_timeout c)\<rparr>"] show thesis
      by (auto simp: advance_state_def chain_poll_def unsent_def)
  qed
next
  case (Some w)
  obtain m d where w: "w = (m, d)" by fastforce
  show thesis
  proof (cases "now > d")
    case True
    with Some w assms fail show thesis by (auto simp: advance_state_def chain_poll_def on_initialization_failed_def)
  next
    case False
    with Some w assms wait [of c] show thesis by (auto simp: advance_state_def chain_poll_def)
  qed
qed

definition returned :: "init_result \<Rightarrow> cdp_command list" where
  "returned r = (case r of IrReturn (Some (TeRequest s c)) \<Rightarrow> [c] | _ \<Rightarrow> [])"

lemma setup_advance:
  assumes step: "advance_state now c stay continue (tg, out) = (r, (tg', out'))"
    and ok: "setup_ok info cfg sent tg" "tg_init tg = stay c"
    and stay: "\<And>w k sent c. setup_phase info cfg w k sent (stay c) \<longleftrightarrow> sent @ unsent c = part w \<and> (free \<or> w = [] \<or> k)"
    and within: "\<And>w. \<exists>r. part w @ r = setup_commands info cfg w"
    and continue: "\<And>w. world_setup w \<Longrightarrow> sent = part w \<Longrightarrow> free \<or> w = [] \<or> utility_world_name \<in> fm_isolated_worlds (tg_frames tg) \<Longrightarrow>
      setup_ok info cfg sent (continue tg)"
  shows "setup_ok info cfg (sent @ returned r) tg'"
proof -
  let ?k = "utility_world_name \<in> fm_isolated_worlds (tg_frames tg)"
  obtain w where w: "world_setup w" "sent @ unsent c = part w" "free \<or> w = [] \<or> ?k"
    using ok stay by (auto simp: setup_ok_def)
  from step show ?thesis
  proof (cases rule: advance_state_cases)
    case (wait c')
    with w ok stay show ?thesis by (auto simp: setup_ok_def returned_def)
  next
    case again
    with w continue [of w] show ?thesis by (simp add: returned_def)
  next
    case (command c' v)
    with w ok stay show ?thesis by (auto simp: setup_ok_def returned_def)
  next
    case fail
    obtain r' where "part w @ r' = setup_commands info cfg w" using within by blast
    then have "sent @ (unsent c @ r') = setup_commands info cfg w" using w(2) by (metis append_assoc)
    with fail w ok show ?thesis unfolding setup_ok_def returned_def by (simp, blast)
  qed
qed

lemma setup_world_or_network:
  assumes "world_setup w" "sent = frame_setup info @ map CdWorld w"
    "w = [] \<or> utility_world_name \<in> fm_isolated_worlds (tg_frames tg)" "setup_ok info cfg sent tg"
  shows "setup_ok info cfg sent (world_or_network tg)"
proof (cases "utility_world_name \<in> fm_isolated_worlds (tg_frames tg)")
  case True
  with assms show ?thesis
    by (auto simp: setup_ok_def world_or_network_def ensure_isolated_world_def enter_network_def network_setup_def
        net_init_commands_def intro!: exI [of _ w])
next
  case False
  let ?ids = "map fst (fm_frames (tg_frames tg))"
  have "world_setup (world_commands ?ids)" by (auto simp: world_setup_def)
  with False assms show ?thesis
    by (auto simp: setup_ok_def world_or_network_def ensure_isolated_world_def world_commands_def
        intro!: exI [of _ "world_commands ?ids"])
qed

lemma setup_init_step:
  assumes step: "init_step now (tg, out) = (r, (tg', out'))" and ok: "setup_ok info cfg sent tg"
  shows "setup_ok info cfg (sent @ returned r) tg'"
proof (cases "tg_init tg")
  case TiAttachToTarget
  have "world_setup []" by (simp add: world_setup_def)
  with TiAttachToTarget step ok show ?thesis
    by (auto simp: init_step_def setup_ok_def returned_def frame_setup_def intro!: exI [of _ "[]"])
next
  case (TiInitializingFrame c)
  show ?thesis
  proof (cases "tg_session tg")
    case None
    with TiInitializingFrame step ok show ?thesis by (auto simp: init_step_def returned_def)
  next
    case (Some s)
    with TiInitializingFrame step have a: "advance_state now c TiInitializingFrame world_or_network (tg, out) = (r, (tg', out'))"
      by (simp add: init_step_def)
    have next_ok: "setup_ok info cfg sent (world_or_network tg)"
      if "world_setup w" "sent = frame_setup info @ map CdWorld w"
        "w = [] \<or> utility_world_name \<in> fm_isolated_worlds (tg_frames tg)" for w
      using that ok by (rule setup_world_or_network)
    show ?thesis
      by (rule setup_advance [OF a ok TiInitializingFrame, where free = False and
            part = "\<lambda>w. frame_setup info @ map CdWorld w"])
        (use next_ok in \<open>auto simp: setup_commands_def\<close>)
  qed
next
  case (TiInitializingNetwork c)
  with step have a: "advance_state now c TiInitializingNetwork enter_page (tg, out) = (r, (tg', out'))"
    by (simp add: init_step_def)
  show ?thesis
    by (rule setup_advance [OF a ok TiInitializingNetwork, where free = True and
          part = "\<lambda>w. frame_setup info @ map CdWorld w @ network_setup cfg"])
      (use ok in \<open>auto simp: setup_commands_def setup_ok_def enter_page_def\<close>)
next
  case (TiInitializingPage c)
  with step have a: "advance_state now c TiInitializingPage enter_emulation (tg, out) = (r, (tg', out'))"
    by (simp add: init_step_def)
  show ?thesis
    by (rule setup_advance [OF a ok TiInitializingPage, where free = True and
          part = "\<lambda>w. frame_setup info @ map CdWorld w @ network_setup cfg @ page_init_commands"])
      (use ok in \<open>auto simp: setup_commands_def setup_ok_def enter_emulation_def emulation_init_commands_def
        emulation_setup_def split: option.split\<close>)
next
  case (TiInitializingEmulation c)
  with step have a: "advance_state now c TiInitializingEmulation (\<lambda>tg. tg\<lparr>tg_init := TiInitialized\<rparr>) (tg, out) =
      (r, (tg', out'))"
    by (simp add: init_step_def)
  show ?thesis
    by (rule setup_advance [OF a ok TiInitializingEmulation, where free = True and part = "setup_commands info cfg"])
      (use ok in \<open>auto simp: setup_ok_def\<close>)
next
  case TiInitialized
  have "same_setup tg tg'"
    using TiInitialized step
    by (auto simp: init_step_def answer_initiator_def get_or_create_page_def create_page_def same_setup_def Let_def
        split: option.splits if_splits)
  moreover have "returned r = []" using TiInitialized step by (auto simp: init_step_def returned_def)
  ultimately show ?thesis using setup_ok_same [OF ok] by simp
next
  case TiClosing
  with step ok show ?thesis by (auto simp: init_step_def returned_def)
qed

lemma init_step_not_initialized:
  "init_step now (tg, out) = (IrReturn (Some e), (tg', out')) \<Longrightarrow> \<not> is_initialized tg'"
  by (auto simp: init_step_def advance_state_def on_initialization_failed_def is_initialized_iff
      split: target_init.splits next_command.splits prod.splits if_splits option.splits)

lemma init_step_fall: "init_step now (tg, out) = (IrFall, (tg', out')) \<Longrightarrow> is_initialized tg'"
  by (auto simp: init_step_def advance_state_def on_initialization_failed_def is_initialized_iff answer_initiator_def
      get_or_create_page_def create_page_def Let_def
      split: target_init.splits next_command.splits prod.splits if_splits option.splits)

lemma setup_poll:
  "target_poll now clock st = Some (e, st') \<Longrightarrow> setup_ok info cfg sent (fst st) \<Longrightarrow>
   setup_ok info cfg (sent @ setup_log e (fst st')) (fst st')"
proof (induction now clock st arbitrary: sent rule: target_poll.induct)
  case (1 now clock st)
  obtain tg out where st: "st = (tg, out)" by fastforce
  obtain res tg1 out1 where i: "init_step now st = (res, (tg1, out1))" by (metis prod.exhaust)
  then have ok: "setup_ok info cfg (sent @ returned res) tg1" using setup_init_step st 1(3) by simp
  show ?case
  proof (cases "is_page tg")
    case False
    then show ?thesis using 1(2,3) st by (auto simp: target_poll.simps [of now clock "(tg, out)"] setup_log_def)
  next
    case True
    show ?thesis
    proof (cases res)
      case (IrReturn e')
      then have e: "e = e'" "st' = (tg1, out1)"
        using 1(2) i True st by (auto simp: target_poll.simps [of now clock "(tg, out)"])
      have "setup_log e' tg1 = returned res"
        using init_step_not_initialized [of now tg out _ tg1 out1] i st IrReturn
        by (auto simp: setup_log_def returned_def split: option.split target_event.split)
      with ok e show ?thesis by simp
    next
      case IrAgain
      then have "target_poll now clock (tg1, out1) = Some (e, st')"
        using 1(2) i True st by (auto simp: target_poll.simps [of now clock "(tg, out)"])
      moreover have "setup_ok info cfg sent (fst (tg1, out1))" using ok IrAgain by (simp add: returned_def)
      ultimately show ?thesis using 1(1) [of res "(tg1, out1)" sent] i IrAgain True st by simp
    next
      case IrFall
      then have p: "poll_loop now clock (tg1, out1) = Some (e, st')"
        using 1(2) i True st by (auto simp: target_poll.simps [of now clock "(tg, out)"])
      have same: "same_setup tg1 (fst st')" using same_setup_poll_loop [OF p] by simp
      have "is_initialized tg1" using init_step_fall i st IrFall by simp
      then have "setup_log e (fst st') = []"
        using same by (auto simp: setup_log_def is_initialized_iff same_setup_def split: option.split target_event.split)
      moreover have "setup_ok info cfg sent tg1" using ok IrFall by (simp add: returned_def)
      ultimately show ?thesis using setup_ok_same [OF _ same] by simp
    qed
  qed
qed

lemma setup_map_commands:
  "setup_phase info cfg w k sent i \<Longrightarrow> (\<And>c. unsent (f c) = unsent c) \<Longrightarrow> setup_phase info cfg w k sent (map_commands f i)"
  by (cases i) auto

lemma setup_response:
  assumes "setup_ok info cfg sent tg" "target_on_response decode r m tg = Some tg'"
  shows "setup_ok info cfg sent tg'"
proof -
  let ?f = "\<lambda>c. snd (chain_received_response m c)"
  have "unsent (?f c) = unsent c" for c by (simp add: chain_received_response_def unsent_def)
  then have "setup_ok info cfg sent (tg\<lparr>tg_init := map_commands ?f (tg_init tg)\<rparr>)"
    using assms(1) setup_map_commands [where f = ?f] by (auto simp: setup_ok_def)
  moreover have "same_setup (tg\<lparr>tg_init := map_commands ?f (tg_init tg)\<rparr>) tg'"
    using assms(2) worlds_frame_tree(1)
    by (auto simp: target_on_response_def Let_def same_setup_def split: if_splits option.splits)
  ultimately show ?thesis by (rule setup_ok_same)
qed

lemma setup_step:
  assumes "target_step decode i st = Some (e, st')" "setup_ok info cfg sent (fst st)"
  shows "setup_ok info cfg (sent @ setup_log e (fst st')) (fst st')"
proof -
  obtain tg out where st: "st = (tg, out)" by fastforce
  show ?thesis
  proof (cases i)
    case (TnPoll now clock)
    with assms setup_poll show ?thesis by simp
  next
    case (TnEvent ev)
    with assms(1) st obtain tg1 where tg1: "dispatch_event (ev_params ev) tg = Some tg1"
      "st' = (tg1\<lparr>tg_listeners := consume_event ev (tg_listeners tg1)\<rparr>, out)" "e = None"
      by (auto simp: target_on_event_def)
    have "same_setup tg (fst st')" using same_setup_dispatch [OF tg1(1)] tg1(2) by (simp add: same_setup_def)
    with assms(2) st tg1(3) setup_ok_same show ?thesis by (auto simp: setup_log_def)
  next
    case (TnResponse r m)
    with assms st setup_response show ?thesis by (auto simp: setup_log_def)
  next
    case TnPage
    have "same_setup tg (create_page tg)" by (auto simp: create_page_def same_setup_def split: option.split)
    with assms st TnPage setup_ok_same show ?thesis by (auto simp: setup_log_def get_or_create_page_def Let_def)
  qed (use assms st in \<open>auto simp: setup_log_def setup_ok_def receive_message_def\<close>)
qed

lemma setup_run:
  "target_run decode is st = Some (sent, st') \<Longrightarrow> setup_ok info cfg before (fst st) \<Longrightarrow>
   setup_ok info cfg (before @ sent) (fst st')"
proof (induction "is" arbitrary: st before sent)
  case (Cons i "is")
  then obtain e st1 sent1 where s: "target_step decode i st = Some (e, st1)" "target_run decode is st1 = Some (sent1, st')"
    "sent = setup_log e (fst st1) @ sent1" by (auto split: option.splits)
  from Cons.IH [OF s(2) setup_step [OF s(1) Cons.prems(2)]] s(3) show ?case by simp
qed simp

lemma setup_phase_prefix:
  assumes "setup_phase info cfg w k sent i"
  shows "if i = TiClosing then \<exists>l r. sent = l @ [CdClose (ti_id info)] \<and> l @ r = setup_commands info cfg w
    else \<exists>r. sent @ r = setup_commands info cfg w \<and> (i = TiInitialized \<longrightarrow> r = [])"
proof -
  have more: "sent @ u = x \<Longrightarrow> sent @ (u @ y) = x @ y" for u x y :: "cdp_command list"
    by (metis append_assoc)
  show ?thesis
  proof (cases i)
    case (TiInitializingFrame c)
    with assms more [of "unsent c" _ "network_setup cfg @ page_init_commands @ emulation_setup cfg"]
    have "sent @ (unsent c @ network_setup cfg @ page_init_commands @ emulation_setup cfg) = setup_commands info cfg w"
      by (simp add: setup_commands_def)
    with TiInitializingFrame show ?thesis by auto
  next
    case (TiInitializingNetwork c)
    with assms more [of "unsent c" _ "page_init_commands @ emulation_setup cfg"]
    have "sent @ (unsent c @ page_init_commands @ emulation_setup cfg) = setup_commands info cfg w"
      by (simp add: setup_commands_def)
    with TiInitializingNetwork show ?thesis by auto
  next
    case (TiInitializingPage c)
    with assms more [of "unsent c" _ "emulation_setup cfg"]
    have "sent @ (unsent c @ emulation_setup cfg) = setup_commands info cfg w"
      by (simp add: setup_commands_def)
    with TiInitializingPage show ?thesis by auto
  qed (use assms in auto)
qed

text \<open>C15: A target is set up in order. Whatever the browser sends and whenever the target is polled, it attaches
  to the browser's target, enables its page, network and emulation commands in one fixed order, each once,
  and counts as initialised only when all of them are out; when a command is not answered in time it
  sends no further one but the request to close the browser's target.\<close>

theorem initialization_in_order:
  assumes "target_run decode is (target_new info cfg ctx, out) = Some (sent, (tg, out'))"
  shows "\<exists>w. world_setup w \<and>
    (if tg_init tg = TiClosing then \<exists>l r. sent = l @ [CdClose (ti_id info)] \<and> l @ r = setup_commands info cfg w
     else \<exists>r. sent @ r = setup_commands info cfg w \<and> (is_initialized tg \<longrightarrow> r = []))"
proof -
  have "world_setup []" by (simp add: world_setup_def)
  then have "setup_ok info cfg [] (target_new info cfg ctx)"
    by (auto simp: setup_ok_def target_new_def set_cache_enabled_def set_request_interception_def network_manager_new_def
        update_protocol_request_interception_def update_protocol_cache_disabled_def push_cdp_request_def queue_event_def Let_def)
  with setup_run [OF assms] have "setup_ok info cfg sent tg" by fastforce
  then obtain w where w: "world_setup w"
    "setup_phase info cfg w (utility_world_name \<in> fm_isolated_worlds (tg_frames tg)) sent (tg_init tg)"
    by (auto simp: setup_ok_def)
  from w(1) setup_phase_prefix [OF w(2)] show ?thesis by (auto simp: is_initialized_iff)
qed

definition example_info :: target_info where
  "example_info = \<lparr>ti_id = ''T'', ti_type = ''page'', ti_opener = None, ti_context = None\<rparr>"

definition example_config :: target_config where
  "example_config =
     \<lparr>tc_ignore_https_errors = False, tc_request_timeout = 5, tc_viewport = None, tc_request_intercept = False,
      tc_cache_enabled = True\<rparr>"

definition answered_by :: "string \<Rightarrow> target_input list" where
  "answered_by m = [TnPoll 0 0, TnResponse \<lparr>rs_id = 0, rs_result = None, rs_error = None\<rparr> m]"

definition example_target_inputs :: "target_input list" where
  "example_target_inputs =
     [TnPoll 0 0, TnSession (Some ''S''), TnEvent \<lparr>ev_method = ''Page.frameNavigated'', ev_session = None,
        ev_params = EvFrameNavigated (example_frame ''M'' None)\<rparr>] @
     concat (map answered_by
       [''Page.enable'', ''Page.getFrameTree'', ''Page.setLifecycleEventsEnabled'', ''Runtime.enable'',
        ''Page.addScriptToEvaluateOnNewDocument'', ''Page.createIsolatedWorld'', ''Network.enable'',
        ''Target.setAutoAttach'', ''Performance.enable'', ''Log.enable'']) @
     [TnPoll 1 1]"

definition example_decode :: "string \<Rightarrow> frame_tree option" where
  "example_decode s = None"

abbreviation example_target :: target_state where
  "example_target \<equiv> (target_new example_info example_config None, [])"

lemma example_target_run:
  "map_option (\<lambda>(sent, tg, out). (map method_of sent, is_initialized tg))
     (target_run example_decode example_target_inputs example_target) =
   Some ([''Target.attachToTarget'', ''Page.enable'', ''Page.getFrameTree'', ''Page.setLifecycleEventsEnabled'',
      ''Runtime.enable'', ''Page.addScriptToEvaluateOnNewDocument'', ''Page.createIsolatedWorld'', ''Network.enable'',
      ''Target.setAutoAttach'', ''Performance.enable'', ''Log.enable''], True)"
  by code_simp

theorem initialization_in_order_witness:
  "\<exists>sent tg out w. target_run example_decode example_target_inputs example_target = Some (sent, (tg, out)) \<and>
     length sent = 11 \<and> world_setup w \<and> sent = setup_commands example_info example_config w"
proof -
  obtain sent tg out where r: "target_run example_decode example_target_inputs example_target = Some (sent, (tg, out))"
    using example_target_run by fastforce
  then have i: "is_initialized tg" "length (map method_of sent) = 11" using example_target_run by simp_all
  from initialization_in_order [OF r] i(1) obtain w where
    "world_setup w" "sent = setup_commands example_info example_config w"
    by (auto simp: is_initialized_iff)
  with r i show ?thesis by auto
qed

lemma example_target_main_kept: "target_main_kept example_decode example_target_inputs example_target"
  by code_simp

theorem target_never_stuck_witness:
  "\<exists>sent st. target_run example_decode example_target_inputs example_target = Some (sent, st)"
  by (rule target_never_stuck [OF example_target_main_kept])

end
