(* ===== verification/Cdp_Handler.thy ===== *)
theory Cdp_Handler
  imports Cdp_Target_Props
begin

text \<open>
  The handler of the patched browser driver (\<open>handler/mod.rs\<close>, \<open>handler/session.rs\<close>,
  \<open>handler/browser.rs\<close>, \<open>conn.rs\<close>): the table of commands that wait for a response, the navigations in
  progress, targets and sessions, and one round of its poll, which takes the messages of its
  clients, drives every target, reads the connection and evicts what has timed out. What is sent
  into oneshot channels is collected in \<open>hd_out\<close>; the websocket's answers are arguments.
\<close>

section \<open>The connection\<close>

datatype call_params =
    CpCommand cdp_command
  | CpObject "(string \<rightharpoonup> string) option"
  | CpDiscoverTargets bool
  | CpGetTargets
  | CpCreateTarget string
  | CpCloseBrowser

record method_call =
  mc_id :: "64 word"
  mc_method :: string
  mc_session :: "string option"
  mc_params :: call_params

text \<open>\<open>cn_written\<close> is what was handed to the socket.\<close>

record connection =
  cn_pending :: "method_call list"
  cn_next_id :: "64 word"
  cn_needs_flush :: bool
  cn_pending_flush :: "method_call option"
  cn_written :: "method_call list"

definition connection_new :: connection where
  "connection_new =
     \<lparr>cn_pending = [], cn_next_id = 0, cn_needs_flush = False, cn_pending_flush = None, cn_written = []\<rparr>"

text \<open>What the socket answers to a flush, to a send and to the question whether it is ready.\<close>

record socket =
  so_flushed :: bool
  so_error :: "string option"
  so_ready :: bool

definition next_call_id :: "connection \<Rightarrow> 64 word \<times> connection" where
  "next_call_id cn = (cn_next_id cn, cn\<lparr>cn_next_id := cn_next_id cn + 1\<rparr>)"

definition submit_command ::
  "string \<Rightarrow> string option \<Rightarrow> call_params \<Rightarrow> connection \<Rightarrow> 64 word \<times> connection" where
  "submit_command m s p cn =
     (case next_call_id cn of
        (i, cn1) \<Rightarrow>
          (i, cn1\<lparr>cn_pending := cn_pending cn1 @
                 [\<lparr>mc_id = i, mc_method = m, mc_session = s, mc_params = p\<rparr>]\<rparr>))"

definition start_send_next :: "socket \<Rightarrow> connection \<Rightarrow> string option \<times> connection" where
  "start_send_next so cn =
     (let cn1 = (if cn_needs_flush cn \<and> so_flushed so then cn\<lparr>cn_needs_flush := False\<rparr> else cn) in
      if cn_pending_flush cn1 = None \<and> \<not> cn_needs_flush cn1 then
        (case cn_pending cn1 of
           [] \<Rightarrow> (None, cn1)
         | c # cs \<Rightarrow>
             (case so_error so of
                Some e \<Rightarrow> (Some e, cn1\<lparr>cn_pending := cs\<rparr>)
              | None \<Rightarrow>
                  (None, cn1\<lparr>cn_pending := cs, cn_written := cn_written cn1 @ [c], cn_pending_flush := Some c\<rparr>)))
      else (None, cn1))"

text \<open>The writing loop; \<open>so k\<close> is the socket in its round \<open>k\<close>.\<close>

definition conn_work :: "connection \<Rightarrow> nat" where
  "conn_work cn = 2 * length (cn_pending cn) + (if cn_pending_flush cn = None then 0 else 1)"

lemma start_send_work:
  "start_send_next so cn = (e, cn') \<Longrightarrow> conn_work cn' \<le> conn_work cn"
  by (auto simp: start_send_next_def Let_def conn_work_def split: if_splits list.splits option.splits)

function conn_write :: "(nat \<Rightarrow> socket) \<Rightarrow> nat \<Rightarrow> connection \<Rightarrow> string option \<times> connection" where
  "conn_write so k cn =
     (case start_send_next (so k) cn of
        (Some e, cn1) \<Rightarrow> (Some e, cn1)
      | (None, cn1) \<Rightarrow>
          (case cn_pending_flush cn1 of
             None \<Rightarrow> (None, cn1)
           | Some c \<Rightarrow>
               if so_ready (so k)
               then conn_write so (Suc k) (cn1\<lparr>cn_pending_flush := None, cn_needs_flush := True\<rparr>)
               else (None, cn1)))"
  by pat_completeness auto
termination
  by (relation "measure (\<lambda>(so, k, cn). conn_work cn)")
    (auto simp: conn_work_def dest!: sym [THEN start_send_work])

declare conn_write.simps [simp del]

datatype message = MsgResponse response | MsgEvent event_message | MsgIgnored

text \<open>What the socket gives, a text with its parse.\<close>

datatype ws_item =
    WsText string "string + message"
  | WsClose
  | WsPingPong
  | WsOther string
  | WsError string
  | WsEnd
  | WsPending

datatype conn_item = CiReady "cdp_error + message" | CiEnd | CiPending

fun conn_read :: "ws_item \<Rightarrow> conn_item" where
  "conn_read (WsText s (Inr m)) = CiReady (Inr m)"
| "conn_read (WsText s (Inl err)) = CiReady (Inl (CeInvalidMessage s err))"
| "conn_read WsClose = CiEnd"
| "conn_read WsPingPong = CiPending"
| "conn_read (WsOther m) = CiReady (Inl (CeUnexpectedWsMessage m))"
| "conn_read (WsError e) = CiReady (Inl (CeWs e))"
| "conn_read WsEnd = CiEnd"
| "conn_read WsPending = CiPending"

definition conn_poll :: "(nat \<Rightarrow> socket) \<Rightarrow> ws_item \<Rightarrow> connection \<Rightarrow> conn_item \<times> connection" where
  "conn_poll so item cn =
     (case conn_write so 0 cn of
        (Some e, cn1) \<Rightarrow> (CiReady (Inl (CeWs e)), cn1)
      | (None, cn1) \<Rightarrow> (conn_read item, cn1))"

section \<open>State\<close>

record nav_in_progress =
  ng_navigated :: bool
  ng_response :: "response option"
  ng_tx :: nat

definition nav_in_progress_new :: "nat \<Rightarrow> nav_in_progress" where
  "nav_in_progress_new tx = \<lparr>ng_navigated = False, ng_response = None, ng_tx = tx\<rparr>"

datatype pending_request =
    PqCreateTarget nat
  | PqGetTargets nat
  | PqNavigate nat
  | PqExternalCommand nat
  | PqInternalCommand string
  | PqCloseBrowser nat

datatype handler_message =
    HmCreatePage string nat
  | HmFetchTargets nat
  | HmInsertContext "string option"
  | HmDisposeContext "string option"
  | HmGetPages nat
  | HmCommand command_message
  | HmGetPage string nat
  | HmAddEventListener "(string, cdp_event) listener_request"
  | HmCloseBrowser nat

record handler_config =
  hc_ignore_https_errors :: bool
  hc_ignore_invalid_messages :: bool
  hc_viewport :: "viewport option"
  hc_context_ids :: "string list"
  hc_request_timeout :: duration
  hc_request_intercept :: bool
  hc_cache_enabled :: bool

definition handler_config_default :: handler_config where
  "handler_config_default =
     \<lparr>hc_ignore_https_errors = True, hc_ignore_invalid_messages = True, hc_viewport = None, hc_context_ids = [],
      hc_request_timeout = request_timeout, hc_request_intercept = False, hc_cache_enabled = True\<rparr>"

record session_entry =
  se_id :: string
  se_target :: string

record handler =
  hd_pending :: "(64 word \<times> pending_request \<times> string \<times> duration) list"
  hd_default_context :: "string option"
  hd_contexts :: "string option set"
  hd_target_ids :: "string list"
  hd_targets :: "(string \<times> target) list"
  hd_navigations :: "nat \<rightharpoonup> nav_in_progress"
  hd_sessions :: "string \<rightharpoonup> session_entry"
  hd_conn :: connection
  hd_next_navigation :: "64 word"
  hd_config :: handler_config
  hd_listeners :: cdp_listeners
  hd_closing :: bool
  hd_channels :: "cdp_event channels"
  hd_out :: sends

definition handler_new :: "handler_config \<Rightarrow> connection \<Rightarrow> handler" where
  "handler_new cfg conn =
     \<lparr>hd_pending = [], hd_default_context = None, hd_contexts = Some ` set (hc_context_ids cfg),
      hd_target_ids = [], hd_targets = [], hd_navigations = Map.empty, hd_sessions = Map.empty,
      hd_conn = snd (submit_command ''Target.setDiscoverTargets'' None (CpDiscoverTargets True) conn),
      hd_next_navigation = 0, hd_config = cfg, hd_listeners = [], hd_closing = False,
      hd_channels = \<lparr>ch_open = \<lambda>c. True, ch_received = \<lambda>c. []\<rparr>, hd_out = []\<rparr>"

definition reply_to :: "nat \<Rightarrow> reply \<Rightarrow> handler \<Rightarrow> handler" where
  "reply_to tx r h = h\<lparr>hd_out := hd_out h @ [(tx, r)]\<rparr>"

section \<open>Navigations\<close>

definition on_navigation_response :: "nat \<Rightarrow> response \<Rightarrow> handler \<Rightarrow> handler" where
  "on_navigation_response i resp h =
     (case hd_navigations h i of
        None \<Rightarrow> h
      | Some nav \<Rightarrow>
          if ng_navigated nav
          then reply_to (ng_tx nav) (RpResponse (Inr resp)) (h\<lparr>hd_navigations := (hd_navigations h)(i := None)\<rparr>)
          else h\<lparr>hd_navigations := (hd_navigations h)(i \<mapsto> nav\<lparr>ng_response := Some resp\<rparr>)\<rparr>)"

definition on_navigation_lifecycle_completed :: "navigation_error + navigation_ok \<Rightarrow> handler \<Rightarrow> handler" where
  "on_navigation_lifecycle_completed res h =
     (case res of
        Inr ok \<Rightarrow>
          (case hd_navigations h (nav_ok_id ok) of
             None \<Rightarrow> h
           | Some nav \<Rightarrow>
               (case ng_response nav of
                  Some resp \<Rightarrow>
                    reply_to (ng_tx nav) (RpResponse (Inr resp))
                      (h\<lparr>hd_navigations := (hd_navigations h)(nav_ok_id ok := None)\<rparr>)
                | None \<Rightarrow>
                    h\<lparr>hd_navigations := (hd_navigations h)(nav_ok_id ok \<mapsto> nav\<lparr>ng_navigated := True\<rparr>)\<rparr>))
      | Inl err \<Rightarrow>
          (case hd_navigations h (nav_error_id err) of
             None \<Rightarrow> h
           | Some nav \<Rightarrow>
               reply_to (ng_tx nav) (RpResponse (Inl (error_of_navigation err)))
                 (h\<lparr>hd_navigations := (hd_navigations h)(nav_error_id err := None)\<rparr>)))"

definition next_navigation_id :: "handler \<Rightarrow> nat \<times> handler" where
  "next_navigation_id h = (unat (hd_next_navigation h), h\<lparr>hd_next_navigation := hd_next_navigation h + 1\<rparr>)"

section \<open>Submitting commands\<close>

definition submit ::
  "string \<Rightarrow> string option \<Rightarrow> call_params \<Rightarrow> pending_request \<Rightarrow> duration \<Rightarrow> handler \<Rightarrow> handler" where
  "submit m s p req now h =
     (case submit_command m s p (hd_conn h) of
        (i, cn) \<Rightarrow> h\<lparr>hd_conn := cn, hd_pending := AList.update i (req, m, now) (hd_pending h)\<rparr>)"

definition submit_external_command :: "command_message \<Rightarrow> duration \<Rightarrow> handler \<Rightarrow> handler" where
  "submit_external_command msg now h =
     submit (cm_method msg) (cm_session msg) (CpObject (cm_params msg)) (PqExternalCommand (cm_sender msg)) now h"

definition submit_internal_command ::
  "string \<Rightarrow> string option \<Rightarrow> cdp_command \<Rightarrow> duration \<Rightarrow> handler \<Rightarrow> handler" where
  "submit_internal_command i s c now h = submit (method_of c) s (CpCommand c) (PqInternalCommand i) now h"

definition submit_fetch_targets :: "nat \<Rightarrow> duration \<Rightarrow> handler \<Rightarrow> handler" where
  "submit_fetch_targets tx now h = submit ''Target.getTargets'' None CpGetTargets (PqGetTargets tx) now h"

definition submit_navigation :: "nat \<Rightarrow> navigation_request \<Rightarrow> duration \<Rightarrow> handler \<Rightarrow> handler" where
  "submit_navigation i req now h =
     submit (nr_method req) (nr_session req) (CpObject (nr_params req)) (PqNavigate i) now h"

definition submit_close :: "nat \<Rightarrow> duration \<Rightarrow> handler \<Rightarrow> handler" where
  "submit_close tx now h = submit ''Browser.close'' None CpCloseBrowser (PqCloseBrowser tx) now h"

definition on_target_message :: "command_message \<Rightarrow> duration \<Rightarrow> target \<Rightarrow> handler \<Rightarrow> target \<times> handler" where
  "on_target_message msg now tg h =
     (if is_navigation msg then
        (case next_navigation_id h of
           (i, h1) \<Rightarrow>
             (tg\<lparr>tg_frames := frame_goto (navigation_request_new i (cm_method msg) (cm_session msg) (cm_params msg))
                  (tg_frames tg)\<rparr>,
              h1\<lparr>hd_navigations := (hd_navigations h1)(i \<mapsto> nav_in_progress_new (cm_sender msg))\<rparr>))
      else (tg, submit_external_command msg now h))"

text \<open>\<open>create_page\<close>; \<open>url_error\<close> is the error of parsing the address.\<close>

definition handler_create_page :: "(string \<Rightarrow> string option) \<Rightarrow> string \<Rightarrow> nat \<Rightarrow> duration \<Rightarrow> handler \<Rightarrow> handler" where
  "handler_create_page url_error url tx clock h =
     (case url_error url of
        None \<Rightarrow> submit ''Target.createTarget'' None (CpCreateTarget url) (PqCreateTarget tx) clock h
      | Some e \<Rightarrow> reply_to tx (RpPage (Inl (CeUrl e))) h)"

section \<open>Targets and sessions\<close>

definition target_config_of :: "handler_config \<Rightarrow> target_config" where
  "target_config_of cfg =
     \<lparr>tc_ignore_https_errors = hc_ignore_https_errors cfg, tc_request_timeout = hc_request_timeout cfg,
      tc_viewport = hc_viewport cfg, tc_request_intercept = hc_request_intercept cfg,
      tc_cache_enabled = hc_cache_enabled cfg\<rparr>"

definition on_target_created :: "target_info \<Rightarrow> handler \<Rightarrow> handler" where
  "on_target_created info h =
     (let ctx = (case ti_context info of
                   None \<Rightarrow> hd_default_context h
                 | Some c \<Rightarrow> if Some c \<in> hd_contexts h then Some c else hd_default_context h);
          tg = target_new info (target_config_of (hd_config h)) ctx
      in h\<lparr>hd_target_ids := hd_target_ids h @ [ti_id info],
           hd_targets := AList.update (ti_id info) tg (hd_targets h)\<rparr>)"

definition on_attached_to_target :: "string \<Rightarrow> target_info \<Rightarrow> handler \<Rightarrow> handler" where
  "on_attached_to_target s info h =
     h\<lparr>hd_targets := AList.map_entry (ti_id info) (\<lambda>tg. tg\<lparr>tg_session := Some s\<rparr>) (hd_targets h),
       hd_sessions := (hd_sessions h)(s \<mapsto> \<lparr>se_id = s, se_target = ti_id info\<rparr>)\<rparr>"

definition on_detached_from_target :: "string \<Rightarrow> handler \<Rightarrow> handler" where
  "on_detached_from_target s h =
     (case hd_sessions h s of
        None \<Rightarrow> h
      | Some se \<Rightarrow>
          h\<lparr>hd_sessions := (hd_sessions h)(s := None),
            hd_targets := AList.map_entry (se_target se) (\<lambda>tg. tg\<lparr>tg_session := None\<rparr>) (hd_targets h)\<rparr>)"

definition on_target_destroyed :: "string \<Rightarrow> handler \<Rightarrow> handler" where
  "on_target_destroyed i h =
     (case map_of (hd_targets h) i of
        None \<Rightarrow> h
      | Some tg \<Rightarrow>
          h\<lparr>hd_targets := AList.delete i (hd_targets h),
            hd_sessions := (case tg_session tg of None \<Rightarrow> hd_sessions h | Some s \<Rightarrow> (hd_sessions h)(s := None))\<rparr>)"

text \<open>The target of the session that an event names; without one the event is the handler's.\<close>

definition event_target :: "event_message \<Rightarrow> handler \<Rightarrow> target option" where
  "event_target ev h =
     Option.bind (ev_session ev) (\<lambda>s. Option.bind (hd_sessions h s) (\<lambda>se. map_of (hd_targets h) (se_target se)))"

definition handler_on_event :: "event_message \<Rightarrow> handler \<Rightarrow> handler option" where
  "handler_on_event ev h =
     (case event_target ev h of
        Some tg \<Rightarrow>
          map_option (\<lambda>tg'. h\<lparr>hd_targets :=
              AList.update (se_target (the (hd_sessions h (the (ev_session ev))))) tg' (hd_targets h)\<rparr>)
            (target_on_event ev tg)
      | None \<Rightarrow>
          (let h1 = (case ev_params ev of
                       EvTargetCreated info \<Rightarrow> on_target_created info h
                     | EvAttachedToTarget s info waiting \<Rightarrow> on_attached_to_target s info h
                     | EvTargetDestroyed i \<Rightarrow> on_target_destroyed i h
                     | EvDetachedFromTarget s \<Rightarrow> on_detached_from_target s h
                     | _ \<Rightarrow> h)
           in Some (h1\<lparr>hd_listeners := consume_event ev (hd_listeners h1)\<rparr>)))"

section \<open>Responses\<close>

text \<open>How the generated protocol types read the result of a response.\<close>

record cdp_codec =
  cd_frame_tree :: "string \<Rightarrow> frame_tree option"
  cd_create_target :: "string \<Rightarrow> string + string"
  cd_get_targets :: "string \<Rightarrow> string + target_info list"

definition to_command_response :: "(string \<Rightarrow> string + 'a) \<Rightarrow> response \<Rightarrow> cdp_error + 'a" where
  "to_command_response decode resp =
     (case rs_result resp of
        Some text \<Rightarrow> (case decode text of Inl e \<Rightarrow> Inl (CeSerde e) | Inr x \<Rightarrow> Inr x)
      | None \<Rightarrow> (case rs_error resp of Some (code, msg) \<Rightarrow> Inl (CeChrome code msg) | None \<Rightarrow> Inl CeNoResponse))"

definition fetched_target :: "target_info \<Rightarrow> handler \<Rightarrow> handler" where
  "fetched_target info h =
     (let h1 = on_target_created info h in
      h1\<lparr>hd_conn := snd (submit_command ''Target.attachToTarget'' None (CpCommand (CdAttach (ti_id info) False))
        (hd_conn h1))\<rparr>)"

fun answer_request :: "cdp_codec \<Rightarrow> response \<Rightarrow> string \<Rightarrow> pending_request \<Rightarrow> handler \<Rightarrow> handler option" where
  "answer_request cd resp m (PqCreateTarget tx) h =
     (case to_command_response (cd_create_target cd) resp of
        Inl e \<Rightarrow> Some (reply_to tx (RpPage (Inl e)) h)
      | Inr i \<Rightarrow>
          (case map_of (hd_targets h) i of
             None \<Rightarrow> None
           | Some tg \<Rightarrow> Some (h\<lparr>hd_targets := AList.update i (tg\<lparr>tg_initiator := Some tx\<rparr>) (hd_targets h)\<rparr>)))"
| "answer_request cd resp m (PqGetTargets tx) h =
     Some (case to_command_response (cd_get_targets cd) resp of
        Inl e \<Rightarrow> reply_to tx (RpTargets (Inl e)) h
      | Inr infos \<Rightarrow> reply_to tx (RpTargets (Inr infos)) (fold fetched_target infos h))"
| "answer_request cd resp m (PqNavigate i) h = Some (on_navigation_response i resp h)"
| "answer_request cd resp m (PqExternalCommand tx) h = Some (reply_to tx (RpResponse (Inr resp)) h)"
| "answer_request cd resp m (PqInternalCommand i) h =
     (case map_of (hd_targets h) i of
        None \<Rightarrow> Some h
      | Some tg \<Rightarrow>
          map_option (\<lambda>tg'. h\<lparr>hd_targets := AList.update i tg' (hd_targets h)\<rparr>)
            (target_on_response (cd_frame_tree cd) resp m tg))"
| "answer_request cd resp m (PqCloseBrowser tx) h =
     Some (reply_to tx (RpClosed (Inr ())) (h\<lparr>hd_closing := True\<rparr>))"

definition handler_on_response :: "cdp_codec \<Rightarrow> response \<Rightarrow> handler \<Rightarrow> handler option" where
  "handler_on_response cd resp h =
     (case map_of (hd_pending h) (rs_id resp) of
        None \<Rightarrow> Some h
      | Some (req, m, t) \<Rightarrow>
          answer_request cd resp m req (h\<lparr>hd_pending := AList.delete (rs_id resp) (hd_pending h)\<rparr>))"

section \<open>Timeouts\<close>

fun time_out_request :: "pending_request \<Rightarrow> handler \<Rightarrow> handler" where
  "time_out_request (PqCreateTarget tx) h = reply_to tx (RpPage (Inl CeTimeout)) h"
| "time_out_request (PqGetTargets tx) h = reply_to tx (RpTargets (Inl CeTimeout)) h"
| "time_out_request (PqNavigate i) h =
     (case hd_navigations h i of
        None \<Rightarrow> h
      | Some nav \<Rightarrow>
          reply_to (ng_tx nav) (RpResponse (Inl CeTimeout)) (h\<lparr>hd_navigations := (hd_navigations h)(i := None)\<rparr>))"
| "time_out_request (PqExternalCommand tx) h = reply_to tx (RpResponse (Inl CeTimeout)) h"
| "time_out_request (PqInternalCommand i) h = h"
| "time_out_request (PqCloseBrowser tx) h = reply_to tx (RpClosed (Inl CeTimeout)) h"

definition timed_out :: "duration \<Rightarrow> duration \<Rightarrow> pending_request \<times> string \<times> duration \<Rightarrow> bool" where
  "timed_out now timeout = (\<lambda>(req, m, t). now > t + timeout)"

definition evict_timed_out_commands :: "duration \<Rightarrow> handler \<Rightarrow> handler" where
  "evict_timed_out_commands now h =
     (let ids = map fst (filter (\<lambda>(i, e). timed_out now (hc_request_timeout (hd_config h)) e) (hd_pending h)) in
      fold (\<lambda>i h.
        case map_of (hd_pending h) i of
          None \<Rightarrow> h
        | Some (req, m, t) \<Rightarrow> time_out_request req (h\<lparr>hd_pending := AList.delete i (hd_pending h)\<rparr>)) ids h)"

section \<open>One round of the poll\<close>

fun collect_pages :: "(string \<times> target) list \<Rightarrow> page_ref list \<times> (string \<times> target) list" where
  "collect_pages [] = ([], [])"
| "collect_pages ((i, tg) # tgs) =
     (case collect_pages tgs of
        (ps, tgs') \<Rightarrow>
          if is_page tg then
            (case get_or_create_page tg of
               (None, tg') \<Rightarrow> (ps, (i, tg') # tgs')
             | (Some p, tg') \<Rightarrow> (p # ps, (i, tg') # tgs'))
          else (ps, (i, tg) # tgs'))"

fun handle_handler_message ::
  "(string \<Rightarrow> string option) \<Rightarrow> duration \<Rightarrow> duration \<Rightarrow> handler_message \<Rightarrow> handler \<Rightarrow> handler" where
  "handle_handler_message url_error now clock (HmCommand cmd) h = submit_external_command cmd now h"
| "handle_handler_message url_error now clock (HmFetchTargets tx) h = submit_fetch_targets tx now h"
| "handle_handler_message url_error now clock (HmCloseBrowser tx) h = submit_close tx now h"
| "handle_handler_message url_error now clock (HmCreatePage url tx) h = handler_create_page url_error url tx clock h"
| "handle_handler_message url_error now clock (HmGetPages tx) h =
     (case collect_pages (hd_targets h) of
        (ps, tgs) \<Rightarrow> reply_to tx (RpPages ps) (h\<lparr>hd_targets := tgs\<rparr>))"
| "handle_handler_message url_error now clock (HmInsertContext c) h = h\<lparr>hd_contexts := insert c (hd_contexts h)\<rparr>"
| "handle_handler_message url_error now clock (HmDisposeContext c) h = h\<lparr>hd_contexts := hd_contexts h - {c}\<rparr>"
| "handle_handler_message url_error now clock (HmGetPage i tx) h =
     (case map_of (hd_targets h) i of
        None \<Rightarrow> reply_to tx (RpMaybePage None) h
      | Some tg \<Rightarrow>
          (case get_or_create_page tg of
             (p, tg') \<Rightarrow> reply_to tx (RpMaybePage p) (h\<lparr>hd_targets := AList.update i tg' (hd_targets h)\<rparr>)))"
| "handle_handler_message url_error now clock (HmAddEventListener r) h =
     h\<lparr>hd_listeners := add_listener r (hd_listeners h)\<rparr>"

definition handle_target_event :: "duration \<Rightarrow> target_event \<Rightarrow> target \<Rightarrow> handler \<Rightarrow> target \<times> handler" where
  "handle_target_event now e tg h =
     (case e of
        TeRequest s c \<Rightarrow> (tg, submit_internal_command (ti_id (tg_info tg)) s c now h)
      | TeCommand msg \<Rightarrow> on_target_message msg now tg h
      | TeNavigationRequest i req \<Rightarrow> (tg, submit_navigation i req now h)
      | TeNavigationResult res \<Rightarrow> (tg, on_navigation_lifecycle_completed res h))"

text \<open>A target is polled until it has nothing to tell; each event costs it weight.\<close>

lemma owed_goto: "length (owed (frame_goto req fm)) \<le> length (owed fm) + 2"
  by (auto simp: frame_goto_def navigate_frame_def owed_def Let_def split: option.splits)

lemma handle_target_event_weight:
  assumes "handle_target_event now e tg h = (tg', h')"
  shows "target_weight tg' < target_weight tg + event_weight e"
proof (cases e)
  case (TeCommand msg)
  have "length (owed (frame_goto (navigation_request_new (unat (hd_next_navigation h)) (cm_method msg)
      (cm_session msg) (cm_params msg)) (tg_frames tg))) \<le> length (owed (tg_frames tg)) + 2"
    by (rule owed_goto)
  with assms TeCommand show ?thesis
    by (auto simp: handle_target_event_def on_target_message_def next_navigation_id_def target_weight_def
        split: if_splits)
qed (use assms in \<open>auto simp: handle_target_event_def\<close>)

function drain_target :: "duration \<Rightarrow> duration \<Rightarrow> target \<Rightarrow> handler \<Rightarrow> (target \<times> handler) option" where
  "drain_target now clock tg h =
     (case target_poll now clock (tg, hd_out h) of
        None \<Rightarrow> None
      | Some (None, (tg1, out)) \<Rightarrow> Some (tg1, h\<lparr>hd_out := out\<rparr>)
      | Some (Some e, (tg1, out)) \<Rightarrow>
          (case handle_target_event now e tg1 (h\<lparr>hd_out := out\<rparr>) of
             (tg2, h2) \<Rightarrow> drain_target now clock tg2 h2))"
  by pat_completeness auto
termination
proof (relation "measure (\<lambda>(now, clock, tg, h). target_weight tg)", goal_cases)
  case (2 now clock tg h p r st e tg1 out tg2 h2)
  then show ?case
    using target_poll_weight [of now clock "(tg, hd_out h)" "Some e" "(tg1, out)"]
      handle_target_event_weight [of now e tg1 "h\<lparr>hd_out := out\<rparr>" tg2 h2]
    by (auto simp: 2(5) [symmetric])
qed simp

declare drain_target.simps [simp del]

definition poll_target ::
  "duration \<Rightarrow> duration \<Rightarrow> string \<Rightarrow> handler option \<Rightarrow> string option \<times> handler option" where
  "poll_target now clock i s =
     (case s of
        None \<Rightarrow> (None, None)
      | Some h \<Rightarrow>
          (case map_of (hd_targets h) i of
             None \<Rightarrow> (None, Some h)
           | Some tg \<Rightarrow>
               (case drain_target now clock tg (h\<lparr>hd_targets := AList.delete i (hd_targets h)\<rparr>) of
                  None \<Rightarrow> (None, None)
                | Some (tg1, h1) \<Rightarrow>
                    (case listeners_poll (tg_listeners tg1) (hd_channels h1) of
                       (ls, ch) \<Rightarrow>
                         (case listeners_poll (hd_listeners h1) ch of
                            (hls, ch') \<Rightarrow>
                              (Some i,
                               Some (h1\<lparr>hd_channels := ch', hd_listeners := hls,
                                 hd_targets := AList.update i (tg1\<lparr>tg_listeners := ls\<rparr>) (hd_targets h1)\<rparr>)))))))"

definition poll_targets :: "duration \<Rightarrow> duration \<Rightarrow> handler \<Rightarrow> handler option" where
  "poll_targets now clock h =
     (case sweep (poll_target now clock) (length (hd_target_ids h)) (hd_target_ids h) (Some h) of
        (ids, s) \<Rightarrow> map_option (\<lambda>h'. h'\<lparr>hd_target_ids := ids\<rparr>) s)"

text \<open>What reading the connection comes to: drained (with whether nothing was read), or an early return.\<close>

datatype read_end = ReDrained bool | ReClosed | ReFailed cdp_error

definition on_item ::
  "cdp_codec \<Rightarrow> cdp_error + message \<Rightarrow> handler \<Rightarrow> (read_end option \<times> handler) option" where
  "on_item cd item h =
     (case item of
        Inr (MsgResponse resp) \<Rightarrow>
          map_option (\<lambda>h'. (if hd_closing h' then Some ReClosed else None, h')) (handler_on_response cd resp h)
      | Inr (MsgEvent ev) \<Rightarrow> map_option (\<lambda>h'. (None, h')) (handler_on_event ev h)
      | Inr MsgIgnored \<Rightarrow> Some (None, h)
      | Inl err \<Rightarrow>
          (case err of
             CeInvalidMessage text e \<Rightarrow>
               Some (if hc_ignore_invalid_messages (hd_config h) then None else Some (ReFailed err), h)
           | _ \<Rightarrow> Some (Some (ReFailed err), h)))"

text \<open>
  The reading loop; \<open>so n\<close> is the socket in the poll before which \<open>n\<close> items are left. After the last
  of them the socket has nothing to read.
\<close>

fun read_conn ::
  "cdp_codec \<Rightarrow> (nat \<Rightarrow> nat \<Rightarrow> socket) \<Rightarrow> ws_item list \<Rightarrow> bool \<Rightarrow> handler \<Rightarrow> (read_end \<times> handler) option" where
  "read_conn cd so [] idle h =
     (case conn_poll (so 0) WsPending (hd_conn h) of
        (CiReady (Inl err), cn) \<Rightarrow> Some (ReFailed err, h\<lparr>hd_conn := cn\<rparr>)
      | (_, cn) \<Rightarrow> Some (ReDrained idle, h\<lparr>hd_conn := cn\<rparr>))"
| "read_conn cd so (w # ws) idle h =
     (case conn_poll (so (length (w # ws))) w (hd_conn h) of
        (CiReady item, cn) \<Rightarrow>
          (case on_item cd item (h\<lparr>hd_conn := cn\<rparr>) of
             None \<Rightarrow> None
           | Some (Some r, h1) \<Rightarrow> Some (r, h1)
           | Some (None, h1) \<Rightarrow> read_conn cd so ws False h1)
      | (_, cn) \<Rightarrow> Some (ReDrained idle, h\<lparr>hd_conn := cn\<rparr>))"

record round_input =
  ri_now :: duration
  ri_clock :: duration
  ri_messages :: "handler_message list"
  ri_page_messages :: "(string \<times> target_message) list"
  ri_socket :: "nat \<Rightarrow> nat \<Rightarrow> socket"
  ri_items :: "ws_item list"
  ri_evict :: bool

datatype round_end = RePending | ReAgain | ReEnd | ReError cdp_error

text \<open>What the pages of a target have sent to it waits in the mailbox of its page; without a page there is no sender.\<close>

definition deliver_message :: "string \<times> target_message \<Rightarrow> handler \<Rightarrow> handler" where
  "deliver_message = (\<lambda>(i, m) h. h\<lparr>hd_targets := AList.map_entry i (receive_message m) (hd_targets h)\<rparr>)"

definition round_messages :: "(string \<Rightarrow> string option) \<Rightarrow> round_input \<Rightarrow> handler \<Rightarrow> handler" where
  "round_messages url_error ri h =
     fold deliver_message (ri_page_messages ri)
       (fold (handle_handler_message url_error (ri_now ri) (ri_clock ri)) (ri_messages ri) h)"

text \<open>One round of the loop; \<open>None\<close> is a panic.\<close>

definition handler_round ::
  "cdp_codec \<Rightarrow> (string \<Rightarrow> string option) \<Rightarrow> round_input \<Rightarrow> handler \<Rightarrow> (round_end \<times> handler) option" where
  "handler_round cd url_error ri h =
     (case poll_targets (ri_now ri) (ri_clock ri) (round_messages url_error ri h) of
        None \<Rightarrow> None
      | Some h1 \<Rightarrow>
          (case read_conn cd (ri_socket ri) (ri_items ri) True h1 of
             None \<Rightarrow> None
           | Some (ReClosed, h2) \<Rightarrow> Some (ReEnd, h2)
           | Some (ReFailed err, h2) \<Rightarrow> Some (ReError err, h2)
           | Some (ReDrained idle, h2) \<Rightarrow>
               Some (if idle then RePending else ReAgain,
                 if ri_evict ri then evict_timed_out_commands (ri_now ri) h2 else h2)))"

text \<open>The rounds of one poll, and of the polls that follow it.\<close>

fun handler_rounds ::
  "cdp_codec \<Rightarrow> (string \<Rightarrow> string option) \<Rightarrow> round_input list \<Rightarrow> handler \<Rightarrow> (round_end list \<times> handler) option" where
  "handler_rounds cd url_error [] h = Some ([], h)"
| "handler_rounds cd url_error (ri # ris) h =
     (case handler_round cd url_error ri h of
        None \<Rightarrow> None
      | Some (e, h1) \<Rightarrow>
          (case handler_rounds cd url_error ris h1 of
             None \<Rightarrow> None
           | Some (es, h2) \<Rightarrow> Some (e # es, h2)))"

end
