(* ===== verification/Cdp_Handler_Props.thy ===== *)
theory Cdp_Handler_Props
  imports Cdp_Handler
begin

text \<open>
  The properties of the handler: its connection keeps the order of the commands; its tables stay
  consistent through every round; a navigation is answered once; the eviction answers the overdue
  callers and leaves the others; the polling of the targets ends with all of them idle.
\<close>

section \<open>The connection\<close>

lemma start_send_order:
  "start_send_next so cn = (e, cn') \<Longrightarrow>
   (case e of
      None \<Rightarrow> cn_written cn' @ cn_pending cn' = cn_written cn @ cn_pending cn
    | Some err \<Rightarrow> \<exists>c. cn_written cn' = cn_written cn \<and> cn_pending cn = c # cn_pending cn') \<and>
   cn_next_id cn' = cn_next_id cn"
  by (auto simp: start_send_next_def Let_def split: if_splits list.splits option.splits)

lemma conn_write_order:
  "conn_write so k cn = (e, cn') \<Longrightarrow>
   cn_next_id cn' = cn_next_id cn \<and>
   (case e of
      None \<Rightarrow> cn_written cn' @ cn_pending cn' = cn_written cn @ cn_pending cn \<and>
        (cn_pending cn' = [] \<or> cn_pending_flush cn' \<noteq> None \<or> cn_needs_flush cn')
    | Some err \<Rightarrow> \<exists>c. cn_written cn' @ c # cn_pending cn' = cn_written cn @ cn_pending cn)"
proof (induction so k cn rule: conn_write.induct)
  case (1 so k cn)
  obtain e1 cn1 where s: "start_send_next (so k) cn = (e1, cn1)" by fastforce
  note o = start_send_order [OF s]
  have i: "cn_next_id cn1 = cn_next_id cn"
    using s by (auto simp: start_send_next_def Let_def split: if_splits list.splits option.splits)
  show ?case
  proof (cases e1)
    case (Some err)
    with 1(2) s have "e = Some err" "cn' = cn1" by (simp_all add: conn_write.simps [of so k cn])
    with o i Some show ?thesis by auto
  next
    case None
    show ?thesis
    proof (cases "cn_pending_flush cn1 = None \<or> \<not> so_ready (so k)")
      case True
      with 1(2) s None have "e = None" "cn' = cn1"
        by (auto simp: conn_write.simps [of so k cn] split: option.splits)
      moreover have "cn_pending cn1 = [] \<or> cn_pending_flush cn1 \<noteq> None \<or> cn_needs_flush cn1"
        using s None by (auto simp: start_send_next_def Let_def split: if_splits list.splits option.splits)
      ultimately show ?thesis using o i None by simp
    next
      case False
      then obtain c where c: "cn_pending_flush cn1 = Some c" by auto
      let ?cn = "cn1\<lparr>cn_pending_flush := None, cn_needs_flush := True\<rparr>"
      have w: "conn_write so (Suc k) ?cn = (e, cn')"
        using 1(2) s None c False by (simp add: conn_write.simps [of so k cn])
      have r: "so_ready (so k)" using False by simp
      show ?thesis using 1(1) [OF s [symmetric] None c r w] o i None by (auto split: option.splits)
    qed
  qed
qed

text \<open>C19: The connection writes the commands in the order of their submission, each one once: with what is
  written and what is still queued put together, the writing loop changes nothing, except that a
  command on which the socket fails is lost, as the only one. Without a failure it stops only when
  nothing is queued any more or the socket has not yet taken or flushed the last command.\<close>

theorem commands_written_in_order:
  assumes "conn_write so k cn = (e, cn')"
  shows "case e of
      None \<Rightarrow> cn_written cn' @ cn_pending cn' = cn_written cn @ cn_pending cn \<and>
        (cn_pending cn' = [] \<or> cn_pending_flush cn' \<noteq> None \<or> cn_needs_flush cn')
    | Some err \<Rightarrow> \<exists>c. cn_written cn' @ c # cn_pending cn' = cn_written cn @ cn_pending cn"
  using conn_write_order [OF assms] by blast

definition example_socket :: "nat \<Rightarrow> socket" where
  "example_socket k = \<lparr>so_flushed = True, so_error = None, so_ready = (k < 2)\<rparr>"

definition example_connection :: connection where
  "example_connection =
     snd (submit_command ''B'' None CpGetTargets (snd (submit_command ''A'' None CpGetTargets
       (snd (submit_command ''Z'' None CpGetTargets connection_new)))))"

lemma example_write:
  "map_prod id (\<lambda>cn. (map mc_method (cn_written cn), map mc_method (cn_pending cn), map_option mc_method (cn_pending_flush cn)))
     (conn_write example_socket 0 example_connection) = (None, [''Z'', ''A'', ''B''], [], Some ''B'')"
  by code_simp

theorem commands_written_in_order_witness:
  "\<exists>cn'. conn_write example_socket 0 example_connection = (None, cn') \<and> cn_pending cn' = [] \<and>
     cn_written cn' = cn_pending example_connection"
proof -
  obtain e cn' where w: "conn_write example_socket 0 example_connection = (e, cn')" by fastforce
  with example_write have e: "e = None" "cn_pending cn' = []" by simp_all
  with commands_written_in_order [OF w] show ?thesis
    using w by (simp add: example_connection_def submit_command_def next_call_id_def connection_new_def)
qed

section \<open>The tables\<close>

definition targets_ok :: "(string \<times> target) list \<Rightarrow> bool" where
  "targets_ok tgs \<longleftrightarrow> distinct (map fst tgs) \<and> (\<forall>i tg. map_of tgs i = Some tg \<longrightarrow> ti_id (tg_info tg) = i)"

definition handler_ok :: "handler \<Rightarrow> bool" where
  "handler_ok h \<longleftrightarrow>
     targets_ok (hd_targets h) \<and> fst ` set (hd_targets h) \<subseteq> set (hd_target_ids h) \<and>
     (\<forall>s se. hd_sessions h s = Some se \<longrightarrow> se_id se = s) \<and> distinct (map fst (hd_pending h))"

lemma targets_ok_empty [simp]: "targets_ok []"
  by (simp add: targets_ok_def)

lemma targets_ok_update: "targets_ok tgs \<Longrightarrow> ti_id (tg_info tg) = i \<Longrightarrow> targets_ok (AList.update i tg tgs)"
  by (simp add: targets_ok_def distinct_update update_conv')

lemma targets_ok_delete: "targets_ok tgs \<Longrightarrow> targets_ok (AList.delete i tgs)"
  by (simp add: targets_ok_def distinct_delete delete_conv')

lemma targets_ok_entry:
  "targets_ok tgs \<Longrightarrow> (\<And>tg. tg_info (f tg) = tg_info tg) \<Longrightarrow> targets_ok (AList.map_entry i f tgs)"
  by (auto simp: targets_ok_def distinct_map_entry map_of_map_entry split: option.splits if_splits)

lemma targets_ok_id: "targets_ok tgs \<Longrightarrow> map_of tgs i = Some tg \<Longrightarrow> ti_id (tg_info tg) = i"
  by (simp add: targets_ok_def)

lemma update_known_keys: "map_of tgs i = Some tg \<Longrightarrow> fst ` set (AList.update i tg' tgs) = fst ` set tgs"
  by (force simp: dom_update dest: map_of_SomeD)

lemma keys_put_back: "fst ` set (AList.update i x (AList.delete i tgs)) = insert i (fst ` set tgs)"
proof -
  have "fst ` set (AList.delete i tgs) = set (map fst (AList.delete i tgs))" by simp
  also have "\<dots> = fst ` set tgs - {i}" by (simp only: delete_keys) auto
  finally show ?thesis by (simp add: dom_update)
qed

text \<open>No operation changes the identity of a target.\<close>

lemma get_or_create_page_info [simp]: "tg_info (snd (get_or_create_page tg)) = tg_info tg"
  by (simp add: get_or_create_page_def create_page_def Let_def split: option.split)

lemma target_on_event_info: "target_on_event ev tg = Some tg' \<Longrightarrow> tg_info tg' = tg_info tg"
  by (auto simp: target_on_event_def same_setup_def dest!: same_setup_dispatch)

lemma target_on_response_info: "target_on_response decode r m tg = Some tg' \<Longrightarrow> tg_info tg' = tg_info tg"
  by (auto simp: target_on_response_def Let_def split: if_splits option.splits)

lemma init_step_info: "init_step now (tg, out) = (r, (tg', out')) \<Longrightarrow> tg_info tg' = tg_info tg"
  by (auto simp: init_step_def advance_state_def on_initialization_failed_def world_or_network_def enter_network_def
      enter_page_def enter_emulation_def answer_initiator_def get_or_create_page_def create_page_def Let_def
      split: target_init.splits next_command.splits prod.splits if_splits option.splits)

lemma target_poll_info: "target_poll now clock st = Some (r, st') \<Longrightarrow> tg_info (fst st') = tg_info (fst st)"
proof (induction now clock st rule: target_poll.induct)
  case (1 now clock st)
  obtain tg out where st: "st = (tg, out)" by fastforce
  obtain res tg1 out1 where i: "init_step now st = (res, (tg1, out1))" by (metis prod.exhaust)
  then have info: "tg_info tg1 = tg_info tg" using init_step_info st by simp
  show ?case
  proof (cases "is_page tg")
    case False
    with st 1(2) show ?thesis by (subst (asm) target_poll.simps) auto
  next
    case True
    show ?thesis
    proof (cases res)
      case (IrReturn e)
      with st i True 1(2) info show ?thesis by (subst (asm) target_poll.simps) auto
    next
      case IrAgain
      then have "target_poll now clock (tg1, out1) = Some (r, st')"
        using 1(2) i True st by (subst (asm) target_poll.simps) simp
      with 1(1) [of res "(tg1, out1)"] st i True info IrAgain show ?thesis by simp
    next
      case IrFall
      then have "poll_loop now clock (tg1, out1) = Some (r, st')"
        using 1(2) i True st by (subst (asm) target_poll.simps) simp
      from same_setup_poll_loop [OF this] st info show ?thesis by (simp add: same_setup_def)
    qed
  qed
qed

lemma collect_pages_keeps:
  "collect_pages tgs = (ps, tgs') \<Longrightarrow>
   map fst tgs' = map fst tgs \<and> (map_of tgs' i = Some tg' \<longrightarrow> (\<exists>tg. map_of tgs i = Some tg \<and> tg_info tg' = tg_info tg))"
proof (induction tgs arbitrary: ps tgs' rule: collect_pages.induct)
  case (2 j tg tgs)
  obtain qs tgs1 where c: "collect_pages tgs = (qs, tgs1)" by fastforce
  obtain p tg1 where g: "get_or_create_page tg = (p, tg1)" by fastforce
  have "tg_info tg1 = tg_info tg" using get_or_create_page_info [of tg] g by simp
  with 2(1) [OF c] 2(2) c g show ?case by (auto split: if_splits option.splits)
qed simp

lemma collect_pages_ok:
  assumes "targets_ok tgs" "collect_pages tgs = (ps, tgs')"
  shows "targets_ok tgs'" "fst ` set tgs' = fst ` set tgs"
proof -
  from collect_pages_keeps [OF assms(2)] have m: "map fst tgs' = map fst tgs" by blast
  show "fst ` set tgs' = fst ` set tgs" using m by (metis list.set_map)
  show "targets_ok tgs'"
    using assms(1) collect_pages_keeps [OF assms(2)] m by (fastforce simp: targets_ok_def)
qed

text \<open>What driving a target leaves alone.\<close>

definition same_tables :: "handler \<Rightarrow> handler \<Rightarrow> bool" where
  "same_tables h h' \<longleftrightarrow>
     hd_targets h' = hd_targets h \<and> hd_target_ids h' = hd_target_ids h \<and> hd_sessions h' = hd_sessions h \<and>
     (distinct (map fst (hd_pending h)) \<longrightarrow> distinct (map fst (hd_pending h')))"

lemma same_tables_refl [simp]: "same_tables h h"
  by (simp add: same_tables_def)

lemma same_tables_trans: "same_tables a b \<Longrightarrow> same_tables b c \<Longrightarrow> same_tables a c"
  by (simp add: same_tables_def)

lemma same_tables_ok: "same_tables h h' \<Longrightarrow> handler_ok h \<Longrightarrow> handler_ok h'"
  by (simp add: same_tables_def handler_ok_def)

lemma reply_to_same [simp]: "same_tables h (reply_to tx r h)"
  by (simp add: same_tables_def reply_to_def)

lemma submit_same [simp]: "same_tables h (submit m s p req now h)"
  by (simp add: same_tables_def submit_def submit_command_def next_call_id_def distinct_update)

lemmas submissions =
  submit_external_command_def submit_internal_command_def submit_fetch_targets_def submit_navigation_def
  submit_close_def

lemma navigations_same [simp]: "same_tables h (h\<lparr>hd_navigations := n\<rparr>)" "same_tables h (h\<lparr>hd_out := out\<rparr>)"
  by (simp_all add: same_tables_def)

lemma reply_navigations_same [simp]: "same_tables h (reply_to tx r (h\<lparr>hd_navigations := n\<rparr>))"
  by (simp add: same_tables_def reply_to_def)

lemma navigation_response_same: "same_tables h (on_navigation_response i r h)"
  by (simp add: on_navigation_response_def split: option.split)

lemma lifecycle_completed_same: "same_tables h (on_navigation_lifecycle_completed res h)"
  by (simp add: on_navigation_lifecycle_completed_def split: option.split sum.split)

lemma handle_target_event_same:
  assumes "handle_target_event now e tg h = (tg', h')"
  shows "same_tables h h' \<and> tg_info tg' = tg_info tg"
proof (cases e)
  case (TeCommand msg)
  show ?thesis
  proof (cases "is_navigation msg")
    case True
    with assms TeCommand show ?thesis
      by (auto simp: handle_target_event_def on_target_message_def next_navigation_id_def same_tables_def)
  next
    case False
    with assms TeCommand show ?thesis
      by (auto simp: handle_target_event_def on_target_message_def submissions)
  qed
qed (use assms in \<open>auto simp: handle_target_event_def submissions lifecycle_completed_same\<close>)

lemma drain_target_same:
  "drain_target now clock tg h = Some (tg', h') \<Longrightarrow> same_tables h h' \<and> tg_info tg' = tg_info tg"
proof (induction now clock tg h rule: drain_target.induct)
  case (1 now clock tg h)
  obtain e tg1 out where p: "target_poll now clock (tg, hd_out h) = Some (e, (tg1, out))"
    using 1(2) by (auto simp: drain_target.simps [of now clock tg h] split: option.splits)
  have i: "tg_info tg1 = tg_info tg" using target_poll_info [OF p] by simp
  show ?case
  proof (cases e)
    case None
    with 1(2) p i show ?thesis by (auto simp: drain_target.simps [of now clock tg h])
  next
    case (Some ev)
    obtain tg2 h2 where e: "handle_target_event now ev tg1 (h\<lparr>hd_out := out\<rparr>) = (tg2, h2)" by fastforce
    have d: "drain_target now clock tg2 h2 = Some (tg', h')"
      using 1(2) p Some e by (simp add: drain_target.simps [of now clock tg h])
    have "same_tables h2 h' \<and> tg_info tg' = tg_info tg2"
      by (rule 1(1) [OF p refl Some refl e [symmetric] d])
    moreover have "same_tables h h2" "tg_info tg2 = tg_info tg1"
      using handle_target_event_same [OF e] same_tables_trans [OF navigations_same(2)] by blast+
    ultimately show ?thesis using i same_tables_trans by auto
  qed
qed

text \<open>Polling one target by its identity keeps the table's keys and drops an identity that is unknown.\<close>

lemma poll_target_keeps:
  assumes "targets_ok (hd_targets h)" "poll_target now clock i (Some h) = (r, Some h')"
  shows "targets_ok (hd_targets h') \<and> fst ` set (hd_targets h') = fst ` set (hd_targets h) \<and>
    hd_sessions h' = hd_sessions h \<and> (distinct (map fst (hd_pending h)) \<longrightarrow> distinct (map fst (hd_pending h'))) \<and>
    r = (if i \<in> fst ` set (hd_targets h) then Some i else None)"
proof (cases "map_of (hd_targets h) i")
  case None
  with assms show ?thesis by (auto simp: poll_target_def map_of_eq_None_iff)
next
  case (Some tg)
  then obtain tg1 h1 where d: "drain_target now clock tg (h\<lparr>hd_targets := AList.delete i (hd_targets h)\<rparr>) = Some (tg1, h1)"
    using assms(2) by (auto simp: poll_target_def split: option.splits)
  obtain ls ch where l: "listeners_poll (tg_listeners tg1) (hd_channels h1) = (ls, ch)" by fastforce
  obtain hls ch' where hl: "listeners_poll (hd_listeners h1) ch = (hls, ch')" by fastforce
  have s: "same_tables (h\<lparr>hd_targets := AList.delete i (hd_targets h)\<rparr>) h1" "tg_info tg1 = tg_info tg"
    using drain_target_same [OF d] by auto
  have id: "ti_id (tg_info tg1) = i" using s(2) targets_ok_id [OF assms(1) Some] by simp
  have in_keys: "i \<in> fst ` set (hd_targets h)" using map_of_SomeD [OF Some] by force
  have "targets_ok (AList.update i (tg1\<lparr>tg_listeners := ls\<rparr>) (hd_targets h1))"
    using s(1) id assms(1) by (intro targets_ok_update) (simp_all add: same_tables_def targets_ok_delete)
  moreover have "fst ` set (AList.update i (tg1\<lparr>tg_listeners := ls\<rparr>) (hd_targets h1)) = fst ` set (hd_targets h)"
    using s(1) in_keys by (auto simp: same_tables_def keys_put_back)
  moreover have "r = Some i" "h' = h1\<lparr>hd_channels := ch', hd_listeners := hls,
      hd_targets := AList.update i (tg1\<lparr>tg_listeners := ls\<rparr>) (hd_targets h1)\<rparr>"
    using assms(2) Some d l hl by (simp_all add: poll_target_def)
  ultimately show ?thesis using s(1) in_keys by (simp add: same_tables_def)
qed

lemma visit_targets:
  assumes "visit (poll_target now clock) ids (Some h) = (ids', Some h')" "targets_ok (hd_targets h)"
  shows "targets_ok (hd_targets h') \<and> fst ` set (hd_targets h') = fst ` set (hd_targets h) \<and>
    hd_sessions h' = hd_sessions h \<and> (distinct (map fst (hd_pending h)) \<longrightarrow> distinct (map fst (hd_pending h'))) \<and>
    set ids' = set ids \<inter> fst ` set (hd_targets h)"
  using assms
proof (induction ids arbitrary: h ids')
  case (Cons i ids)
  obtain r s where p: "poll_target now clock i (Some h) = (r, s)" by fastforce
  obtain ids1 s' where v: "visit (poll_target now clock) ids s = (ids1, s')" by fastforce
  have fin: "visit (poll_target now clock) ids None = (ids1, s') \<Longrightarrow> s' = None" for ids ids1 s'
    by (induction ids arbitrary: ids1 s') (auto simp: poll_target_def split: prod.splits)
  have s': "s' = Some h'" "ids' = opt_list r @ ids1" using Cons.prems(1) p v by auto
  then obtain h1 where h1: "s = Some h1" using fin [of ids ids1 s'] v by (cases s) auto
  note k = poll_target_keeps [OF Cons.prems(2) p [unfolded h1]]
  from Cons.IH [of h1 ids1] v h1 s' k
  have v': "targets_ok (hd_targets h') \<and> fst ` set (hd_targets h') = fst ` set (hd_targets h1) \<and>
    hd_sessions h' = hd_sessions h1 \<and> (distinct (map fst (hd_pending h1)) \<longrightarrow> distinct (map fst (hd_pending h'))) \<and>
    set ids1 = set ids \<inter> fst ` set (hd_targets h1)" by blast
  have "set (opt_list r) = (if i \<in> fst ` set (hd_targets h) then {i} else {})"
    using k by (simp add: opt_list_def)
  moreover have "set ids' = set (opt_list r) \<union> set ids1" using s'(2) by simp
  ultimately have "set ids' = set (i # ids) \<inter> fst ` set (hd_targets h)" using k v' by (simp add: Int_insert_left)
  with k show ?case using v' by simp
qed simp

lemma poll_targets_keeps:
  assumes "handler_ok h" "poll_targets now clock h = Some h'"
  shows "handler_ok h' \<and> set (hd_target_ids h') = fst ` set (hd_targets h')"
proof -
  obtain ids s where w: "sweep (poll_target now clock) (length (hd_target_ids h)) (hd_target_ids h) (Some h) = (ids, s)"
    by fastforce
  then obtain h1 where h1: "s = Some h1" "h' = h1\<lparr>hd_target_ids := ids\<rparr>"
    using assms(2) by (auto simp: poll_targets_def)
  obtain ids1 s1 where v: "visit (poll_target now clock) (rev (hd_target_ids h)) (Some h) = (ids1, s1)" by fastforce
  have "s1 = s \<and> mset ids = mset ids1"
    using sweep_visit [of "length (hd_target_ids h)" "hd_target_ids h" "poll_target now clock" "Some h"] w v by simp
  then have s1: "s1 = Some h1" "set ids = set ids1" using h1 mset_eq_setD by blast+
  have "targets_ok (hd_targets h)" using assms(1) by (simp add: handler_ok_def)
  from visit_targets [OF v [unfolded s1(1)] this] s1(2) h1 assms(1) show ?thesis
    by (auto simp: handler_ok_def)
qed

section \<open>Messages of the clients\<close>

lemma submit_ok [simp]: "handler_ok h \<Longrightarrow> handler_ok (submit m s p req now h)"
  by (rule same_tables_ok [OF submit_same])

lemma reply_ok [simp]: "handler_ok (reply_to tx r h) = handler_ok h"
  by (simp add: handler_ok_def reply_to_def)

lemma conn_ok [simp]:
  "handler_ok (h\<lparr>hd_conn := cn\<rparr>) = handler_ok h" "handler_ok (h\<lparr>hd_closing := c\<rparr>) = handler_ok h"
  by (simp_all add: handler_ok_def)

lemma handler_message_ok:
  assumes "handler_ok h"
  shows "handler_ok (handle_handler_message url_error now clock m h)"
proof (cases m)
  case (HmGetPages tx)
  obtain ps tgs where c: "collect_pages (hd_targets h) = (ps, tgs)" by fastforce
  then show ?thesis using HmGetPages assms collect_pages_ok [of "hd_targets h" ps tgs]
    by (simp add: handler_ok_def reply_to_def)
next
  case (HmGetPage i tx)
  show ?thesis
  proof (cases "map_of (hd_targets h) i")
    case None
    then show ?thesis using HmGetPage assms by (simp add: handler_ok_def reply_to_def)
  next
    case (Some tg)
    obtain p tg' where g: "get_or_create_page tg = (p, tg')" by fastforce
    have "tg_info tg' = tg_info tg" using get_or_create_page_info [of tg] g by simp
    with HmGetPage Some g assms targets_ok_id [OF _ Some] show ?thesis
      by (simp add: handler_ok_def reply_to_def targets_ok_update update_known_keys)
  qed
next
  case (HmCreatePage u tx)
  then show ?thesis using assms by (simp add: handler_create_page_def split: option.split)
next
  case (HmInsertContext c)
  then show ?thesis using assms by (simp add: handler_ok_def)
next
  case (HmDisposeContext c)
  then show ?thesis using assms by (simp add: handler_ok_def)
next
  case (HmAddEventListener r)
  then show ?thesis using assms by (simp add: handler_ok_def)
qed (use assms in \<open>simp_all add: submissions\<close>)

lemma handler_messages_ok: "handler_ok h \<Longrightarrow> handler_ok (fold (handle_handler_message url_error now clock) ms h)"
  by (induction ms arbitrary: h) (simp_all add: handler_message_ok)

section \<open>Events and responses\<close>

lemma target_created_ok: "handler_ok h \<Longrightarrow> handler_ok (on_target_created info h)"
  by (auto simp: on_target_created_def handler_ok_def dom_update target_new_def intro!: targets_ok_update)

lemma map_entry_ok:
  "handler_ok h \<Longrightarrow> (\<And>tg. tg_info (f tg) = tg_info tg) \<Longrightarrow>
   handler_ok (h\<lparr>hd_targets := AList.map_entry i f (hd_targets h)\<rparr>)"
  by (simp add: handler_ok_def targets_ok_entry dom_map_entry)

lemma deliver_message_ok: "handler_ok h \<Longrightarrow> handler_ok (deliver_message m h)"
  by (cases m) (simp add: deliver_message_def map_entry_ok receive_message_def)

lemma round_messages_ok: "handler_ok h \<Longrightarrow> handler_ok (round_messages url_error ri h)"
proof -
  have "handler_ok h \<Longrightarrow> handler_ok (fold deliver_message ms h)" for ms h
    by (induction ms arbitrary: h) (simp_all add: deliver_message_ok)
  then show "handler_ok h \<Longrightarrow> handler_ok (round_messages url_error ri h)"
    by (simp add: round_messages_def handler_messages_ok)
qed

lemma sessions_ok:
  assumes "handler_ok h" "\<And>s se. m s = Some se \<Longrightarrow> se_id se = s"
  shows "handler_ok (h\<lparr>hd_sessions := m\<rparr>)"
  using assms by (simp add: handler_ok_def)

lemma handler_on_event_ok:
  assumes "handler_ok h" "handler_on_event ev h = Some h'"
  shows "handler_ok h'"
proof (cases "event_target ev h")
  case (Some tg)
  then obtain s se where s: "ev_session ev = Some s" "hd_sessions h s = Some se" "map_of (hd_targets h) (se_target se) = Some tg"
    by (auto simp: event_target_def bind_eq_Some_conv)
  then obtain tg' where t: "target_on_event ev tg = Some tg'" "h' = h\<lparr>hd_targets := AList.update (se_target se) tg' (hd_targets h)\<rparr>"
    using assms(2) Some by (auto simp: handler_on_event_def)
  have "ti_id (tg_info tg') = se_target se"
    using target_on_event_info [OF t(1)] targets_ok_id [OF _ s(3)] assms(1) by (simp add: handler_ok_def)
  with t(2) s(3) assms(1) show ?thesis by (simp add: handler_ok_def targets_ok_update update_known_keys)
next
  case None
  have l: "handler_ok (h\<lparr>hd_listeners := ls\<rparr>) = handler_ok h" for h ls by (simp add: handler_ok_def)
  have created: "handler_ok (on_target_created info h)" for info using target_created_ok assms(1) .
  have attached: "handler_ok (on_attached_to_target s info h)" for s info
  proof -
    have "handler_ok (h\<lparr>hd_targets := AList.map_entry (ti_id info) (\<lambda>tg. tg\<lparr>tg_session := Some s\<rparr>) (hd_targets h)\<rparr>)"
      by (rule map_entry_ok [OF assms(1)]) simp
    then have "handler_ok (h\<lparr>hd_targets := AList.map_entry (ti_id info) (\<lambda>tg. tg\<lparr>tg_session := Some s\<rparr>) (hd_targets h)\<rparr>
      \<lparr>hd_sessions := (hd_sessions h)(s \<mapsto> \<lparr>se_id = s, se_target = ti_id info\<rparr>)\<rparr>)"
      by (rule sessions_ok) (use assms(1) in \<open>auto simp: handler_ok_def split: if_splits\<close>)
    then show ?thesis by (simp add: on_attached_to_target_def)
  qed
  have destroyed: "handler_ok (on_target_destroyed i h)" for i
  proof (cases "map_of (hd_targets h) i")
    case (Some tg)
    have "fst ` set (AList.delete i (hd_targets h)) \<subseteq> fst ` set (hd_targets h)"
      using delete_keys [of i "hd_targets h"] by (metis list.set_map set_removeAll Diff_subset)
    with Some assms(1) show ?thesis
      by (auto simp: on_target_destroyed_def handler_ok_def targets_ok_delete split: option.split if_splits)
  qed (use assms(1) in \<open>simp add: on_target_destroyed_def\<close>)
  have detached: "handler_ok (on_detached_from_target s h)" for s
    using assms(1)
    by (auto simp: on_detached_from_target_def handler_ok_def targets_ok_entry dom_map_entry split: option.split if_splits)
  from None assms show ?thesis
    by (auto simp: handler_on_event_def Let_def l created attached destroyed detached split: cdp_event.splits)
qed

lemma forget_pending_ok: "handler_ok h \<Longrightarrow> handler_ok (h\<lparr>hd_pending := AList.delete i (hd_pending h)\<rparr>)"
  by (simp add: handler_ok_def distinct_delete)

lemma put_target_ok:
  assumes "handler_ok h" "map_of (hd_targets h) i = Some tg" "tg_info tg' = tg_info tg"
  shows "handler_ok (h\<lparr>hd_targets := AList.update i tg' (hd_targets h)\<rparr>)"
  using assms targets_ok_id [OF _ assms(2)] by (simp add: handler_ok_def targets_ok_update update_known_keys)

lemma fetched_targets_ok: "handler_ok h \<Longrightarrow> handler_ok (fold fetched_target infos h)"
proof (induction infos arbitrary: h)
  case (Cons info infos)
  have "handler_ok (fetched_target info h)"
    using target_created_ok [OF Cons.prems] by (simp add: fetched_target_def Let_def handler_ok_def)
  then show ?case using Cons.IH by simp
qed simp

lemma answer_request_ok:
  assumes "handler_ok h" "answer_request cd resp m req h = Some h'"
  shows "handler_ok h'"
proof (cases req)
  case (PqCreateTarget tx)
  show ?thesis
  proof (cases "to_command_response (cd_create_target cd) resp")
    case (Inl e)
    with PqCreateTarget assms show ?thesis by auto
  next
    case (Inr i)
    with PqCreateTarget assms put_target_ok show ?thesis by (auto split: option.splits)
  qed
next
  case (PqGetTargets tx)
  with assms fetched_targets_ok show ?thesis by (auto split: sum.splits)
next
  case (PqNavigate i)
  with assms same_tables_ok [OF navigation_response_same] show ?thesis by auto
next
  case (PqInternalCommand i)
  with assms put_target_ok target_on_response_info show ?thesis by (auto split: option.splits)
next
  case (PqCloseBrowser tx)
  with assms show ?thesis by auto
qed (use assms in auto)

lemma handler_on_response_ok: "handler_ok h \<Longrightarrow> handler_on_response cd resp h = Some h' \<Longrightarrow> handler_ok h'"
  by (auto simp: handler_on_response_def intro: answer_request_ok [OF forget_pending_ok] split: option.splits)

lemma on_item_ok:
  assumes "handler_ok h" "on_item cd item h = Some (e, h')"
  shows "handler_ok h'"
proof (cases item)
  case (Inl err)
  with assms show ?thesis by (cases err) (auto simp: on_item_def)
next
  case (Inr m)
  show ?thesis
  proof (cases m)
    case (MsgResponse resp)
    then obtain h1 where "handler_on_response cd resp h = Some h1" "h' = h1"
      using assms(2) Inr by (auto simp: on_item_def)
    with assms(1) handler_on_response_ok show ?thesis by blast
  next
    case (MsgEvent ev)
    then have "handler_on_event ev h = Some h'" using assms(2) Inr by (auto simp: on_item_def)
    with assms(1) show ?thesis by (rule handler_on_event_ok)
  qed (use assms Inr in \<open>auto simp: on_item_def\<close>)
qed

lemma read_conn_ok:
  "handler_ok h \<Longrightarrow> read_conn cd so ws idle h = Some (r, h') \<Longrightarrow> handler_ok h'"
proof (induction ws arbitrary: idle h)
  case Nil
  then show ?case by (auto split: prod.splits conn_item.splits sum.splits)
next
  case (Cons w ws)
  obtain c cn where c: "conn_poll (so (length (w # ws))) w (hd_conn h) = (c, cn)" by fastforce
  have ok: "handler_ok (h\<lparr>hd_conn := cn\<rparr>)" using Cons.prems(1) by simp
  show ?case
  proof (cases c)
    case (CiReady item)
    then obtain e h1 where i: "on_item cd item (h\<lparr>hd_conn := cn\<rparr>) = Some (e, h1)"
      using Cons.prems(2) c by (auto split: option.splits)
    with ok have "handler_ok h1" by (rule on_item_ok)
    with Cons.prems(2) c CiReady i Cons.IH [of h1] show ?thesis by (cases e) auto
  qed (use Cons.prems(2) c ok in auto)
qed

section \<open>Timeouts\<close>

lemma time_out_same: "same_tables h (time_out_request req h)"
  by (cases req) (auto split: option.split)

definition evict_one :: "64 word \<Rightarrow> handler \<Rightarrow> handler" where
  "evict_one i h =
     (case map_of (hd_pending h) i of
        None \<Rightarrow> h
      | Some (req, m, t) \<Rightarrow> time_out_request req (h\<lparr>hd_pending := AList.delete i (hd_pending h)\<rparr>))"

definition overdue :: "duration \<Rightarrow> handler \<Rightarrow> (64 word \<times> pending_request \<times> string \<times> duration) list" where
  "overdue now h = filter (\<lambda>(i, e). timed_out now (hc_request_timeout (hd_config h)) e) (hd_pending h)"

lemma evict_fold: "evict_timed_out_commands now h = fold evict_one (map fst (overdue now h)) h"
  by (simp add: evict_timed_out_commands_def overdue_def evict_one_def [abs_def])

lemma evict_one_ok: "handler_ok h \<Longrightarrow> handler_ok (evict_one i h)"
  using same_tables_ok [OF time_out_same forget_pending_ok]
  by (auto simp: evict_one_def split: option.split)

lemma evict_ok: "handler_ok h \<Longrightarrow> handler_ok (evict_timed_out_commands now h)"
proof -
  have "handler_ok h \<Longrightarrow> handler_ok (fold evict_one is h)" for "is"
    by (induction "is" arbitrary: h) (simp_all add: evict_one_ok)
  then show "handler_ok h \<Longrightarrow> handler_ok (evict_timed_out_commands now h)" by (simp add: evict_fold)
qed

section \<open>The rounds\<close>

lemma handler_round_ok:
  assumes "handler_ok h" "handler_round cd url_error ri h = Some (e, h')"
  shows "handler_ok h'"
proof -
  obtain h1 where h1: "poll_targets (ri_now ri) (ri_clock ri) (round_messages url_error ri h) = Some h1"
    using assms(2) by (auto simp: handler_round_def split: option.splits)
  then obtain r h2 where h2: "read_conn cd (ri_socket ri) (ri_items ri) True h1 = Some (r, h2)"
    using assms(2) by (auto simp: handler_round_def split: option.splits)
  have "handler_ok h1" using poll_targets_keeps [OF round_messages_ok [OF assms(1)] h1] by blast
  then have "handler_ok h2" using h2 by (rule read_conn_ok)
  with assms(2) h1 h2 evict_ok show ?thesis
    by (auto simp: handler_round_def split: read_end.splits if_splits)
qed

lemma handler_new_ok: "handler_ok (handler_new cfg conn)"
  by (simp add: handler_ok_def handler_new_def)

text \<open>C13: The handler's tables stay consistent. Through any rounds of its poll, whatever the clients ask, the
  browser sends and the socket does: every target is kept once, under its own identity, and is in the
  list from which the targets are driven; every session is kept under its own identity; no two waiting
  commands share a call id. The commands that a target submits are booked under the target's identity,
  so their responses find their way back to it.\<close>

theorem handler_tables_consistent:
  assumes "handler_rounds cd url_error ris (handler_new cfg conn) = Some (es, h)"
  shows "distinct (map fst (hd_targets h)) \<and> distinct (map fst (hd_pending h)) \<and>
    (\<forall>i tg. map_of (hd_targets h) i = Some tg \<longrightarrow> ti_id (tg_info tg) = i \<and> i \<in> set (hd_target_ids h)) \<and>
    (\<forall>s se. hd_sessions h s = Some se \<longrightarrow> se_id se = s)"
proof -
  have "handler_rounds cd url_error ris h0 = Some (es, h) \<Longrightarrow> handler_ok h0 \<Longrightarrow> handler_ok h" for h0 es
  proof (induction ris arbitrary: h0 es)
    case (Cons ri ris)
    then show ?case using handler_round_ok by (fastforce split: option.splits)
  qed simp
  then have "handler_ok h" using assms handler_new_ok by blast
  then show ?thesis by (force simp: handler_ok_def targets_ok_def dest: map_of_SomeD)
qed

definition example_codec :: cdp_codec where
  "example_codec = \<lparr>cd_frame_tree = \<lambda>t. None, cd_create_target = \<lambda>t. Inr t, cd_get_targets = \<lambda>t. Inl t\<rparr>"

definition example_handler_config :: handler_config where
  "example_handler_config =
     \<lparr>hc_ignore_https_errors = True, hc_ignore_invalid_messages = True, hc_viewport = None, hc_context_ids = [],
      hc_request_timeout = 5, hc_request_intercept = False, hc_cache_enabled = True\<rparr>"

definition handler_event :: "cdp_event \<Rightarrow> ws_item" where
  "handler_event e = WsText ''e'' (Inr (MsgEvent \<lparr>ev_method = ''e'', ev_session = None, ev_params = e\<rparr>))"

definition example_round :: "duration \<Rightarrow> handler_message list \<Rightarrow> ws_item list \<Rightarrow> bool \<Rightarrow> round_input" where
  "example_round t ms ws evict =
     \<lparr>ri_now = t, ri_clock = t, ri_messages = ms, ri_page_messages = [],
      ri_socket = \<lambda>n k. \<lparr>so_flushed = True, so_error = None, so_ready = True\<rparr>, ri_items = ws, ri_evict = evict\<rparr>"

definition example_rounds :: "round_input list" where
  "example_rounds =
     [example_round 0 [HmFetchTargets 7] [handler_event (EvTargetCreated example_info), WsText ''?'' (Inl ''bad'')] False,
      example_round 1 [] [handler_event (EvAttachedToTarget ''S'' example_info False), WsPending] False,
      example_round 9 [] [] True]"

lemma example_rounds_run:
  "map_option (\<lambda>(es, h). (es, hd_target_ids h, map fst (hd_targets h),
       map (\<lambda>c. (mc_id c, mc_method c)) (cn_written (hd_conn h)),
       map (\<lambda>(tx, r). (tx, case r of RpTargets (Inl CeTimeout) \<Rightarrow> True | _ \<Rightarrow> False)) (hd_out h)))
     (handler_rounds example_codec (\<lambda>u. None) example_rounds (handler_new example_handler_config connection_new)) =
   Some ([ReAgain, ReAgain, RePending], [''T''], [''T''],
     [(0, ''Target.setDiscoverTargets''), (1, ''Target.getTargets''), (2, ''Target.attachToTarget''), (3, ''Page.enable'')],
     [(7, True)])"
  by code_simp

theorem handler_tables_consistent_witness:
  "\<exists>h. handler_rounds example_codec (\<lambda>u. None) example_rounds (handler_new example_handler_config connection_new) =
       Some ([ReAgain, ReAgain, RePending], h) \<and>
     map fst (hd_targets h) = [''T''] \<and>
     (\<forall>i tg. map_of (hd_targets h) i = Some tg \<longrightarrow> ti_id (tg_info tg) = i \<and> i \<in> set (hd_target_ids h))"
proof -
  obtain es h where r: "handler_rounds example_codec (\<lambda>u. None) example_rounds
      (handler_new example_handler_config connection_new) = Some (es, h)"
    using example_rounds_run by fastforce
  from handler_tables_consistent [OF r] r example_rounds_run show ?thesis by simp
qed

section \<open>Polling the targets\<close>

lemma goto_ok: "fm_ok fm \<Longrightarrow> fm_ok (frame_goto req fm)"
  using frame_step_ok [of fm "FiGoto req"] by auto

lemma handle_target_event_tg_ok:
  "handle_target_event now e tg h = (tg', h') \<Longrightarrow> tg_ok tg \<Longrightarrow> tg_ok tg'"
  by (cases e) (auto simp: handle_target_event_def on_target_message_def next_navigation_id_def goto_ok split: if_splits)

text \<open>A drained target is idle: polled once more it has nothing to tell.\<close>

lemma drain_target_total:
  "tg_ok tg \<Longrightarrow> \<exists>tg' h'. drain_target now clock tg h = Some (tg', h') \<and> tg_ok tg' \<and>
     (\<exists>tg0 out. target_poll now clock (tg0, out) = Some (None, (tg', hd_out h')))"
proof (induction now clock tg h rule: drain_target.induct)
  case (1 now clock tg h)
  obtain e tg1 out where p: "target_poll now clock (tg, hd_out h) = Some (e, (tg1, out))" "tg_ok tg1"
    using target_poll_ok [of "(tg, hd_out h)" now clock] 1(2) by auto
  show ?case
  proof (cases e)
    case None
    with p show ?thesis by (auto simp: drain_target.simps [of now clock tg h])
  next
    case (Some ev)
    obtain tg2 h2 where e: "handle_target_event now ev tg1 (h\<lparr>hd_out := out\<rparr>) = (tg2, h2)" by fastforce
    then have "tg_ok tg2" using handle_target_event_tg_ok p(2) by blast
    from 1(1) [OF p(1) refl Some refl e [symmetric] this] p Some e show ?thesis
      by (simp add: drain_target.simps [of now clock tg h])
  qed
qed

definition all_tg_ok :: "handler \<Rightarrow> bool" where
  "all_tg_ok h \<longleftrightarrow> (\<forall>i tg. map_of (hd_targets h) i = Some tg \<longrightarrow> tg_ok tg)"

lemma poll_target_total:
  assumes "all_tg_ok h"
  shows "\<exists>r h'. poll_target now clock i (Some h) = (r, Some h') \<and> all_tg_ok h'"
proof (cases "map_of (hd_targets h) i")
  case None
  with assms show ?thesis by (simp add: poll_target_def)
next
  case (Some tg)
  let ?h = "h\<lparr>hd_targets := AList.delete i (hd_targets h)\<rparr>"
  obtain tg1 h1 where d: "drain_target now clock tg ?h = Some (tg1, h1)" "tg_ok tg1"
    using drain_target_total [of tg now clock ?h] assms Some by (auto simp: all_tg_ok_def)
  have t: "hd_targets h1 = AList.delete i (hd_targets h)"
    using drain_target_same [OF d(1)] by (simp add: same_tables_def)
  obtain ls ch where l: "listeners_poll (tg_listeners tg1) (hd_channels h1) = (ls, ch)" by fastforce
  obtain hls ch' where hl: "listeners_poll (hd_listeners h1) ch = (hls, ch')" by fastforce
  from assms d Some t l hl show ?thesis
    by (simp add: poll_target_def all_tg_ok_def update_conv' delete_conv')
qed

lemma visit_targets_total:
  "all_tg_ok h \<Longrightarrow> \<exists>ids' h'. visit (poll_target now clock) ids (Some h) = (ids', Some h') \<and> all_tg_ok h'"
proof (induction ids arbitrary: h)
  case (Cons i ids)
  obtain r h1 where p: "poll_target now clock i (Some h) = (r, Some h1)" "all_tg_ok h1"
    using poll_target_total [OF Cons.prems] by blast
  from Cons.IH [OF p(2)] p(1) show ?case by auto
qed simp

lemma poll_targets_total: "all_tg_ok h \<Longrightarrow> \<exists>h'. poll_targets now clock h = Some h' \<and> all_tg_ok h'"
proof -
  assume ok: "all_tg_ok h"
  obtain ids' h1 where v: "visit (poll_target now clock) (rev (hd_target_ids h)) (Some h) = (ids', Some h1)" "all_tg_ok h1"
    using visit_targets_total [OF ok] by blast
  then show ?thesis
    using sweep_visit [of "length (hd_target_ids h)" "hd_target_ids h" "poll_target now clock" "Some h"]
    by (auto simp: poll_targets_def all_tg_ok_def split: prod.split)
qed

section \<open>Navigations are answered once\<close>

datatype nav_input =
    NvResponse nat response
  | NvLifecycle "navigation_error + navigation_ok"
  | NvTimeout nat

fun nav_step :: "nav_input \<Rightarrow> handler \<Rightarrow> handler" where
  "nav_step (NvResponse i resp) h = on_navigation_response i resp h"
| "nav_step (NvLifecycle res) h = on_navigation_lifecycle_completed res h"
| "nav_step (NvTimeout i) h = time_out_request (PqNavigate i) h"

definition responded :: "nat \<Rightarrow> nav_input list \<Rightarrow> bool" where
  "responded i is \<longleftrightarrow> (\<exists>resp. NvResponse i resp \<in> set is)"

definition completed :: "nat \<Rightarrow> nav_input list \<Rightarrow> bool" where
  "completed i is \<longleftrightarrow> (\<exists>ok. NvLifecycle (Inr ok) \<in> set is \<and> nav_ok_id ok = i)"

definition failures :: "nat \<Rightarrow> nav_input list \<Rightarrow> cdp_error set" where
  "failures i is =
     {e. NvTimeout i \<in> set is \<and> e = CeTimeout \<or>
         (\<exists>err. NvLifecycle (Inl err) \<in> set is \<and> nav_error_id err = i \<and> e = error_of_navigation err)}"

definition settled :: "nat \<Rightarrow> nav_input list \<Rightarrow> bool" where
  "settled i is \<longleftrightarrow> (responded i is \<and> completed i is) \<or> failures i is \<noteq> {}"

definition replies_to :: "nat \<Rightarrow> handler \<Rightarrow> reply list" where
  "replies_to tx h = map snd (filter (\<lambda>p. fst p = tx) (hd_out h))"

fun justified :: "nat \<Rightarrow> nav_input list \<Rightarrow> reply \<Rightarrow> bool" where
  "justified i is (RpResponse (Inr resp)) \<longleftrightarrow> NvResponse i resp \<in> set is \<and> completed i is"
| "justified i is (RpResponse (Inl e)) \<longleftrightarrow> e \<in> failures i is"
| "justified i is r \<longleftrightarrow> False"

definition nav_state :: "nat \<Rightarrow> nat \<Rightarrow> reply list \<Rightarrow> nav_input list \<Rightarrow> handler \<Rightarrow> bool" where
  "nav_state i tx rs0 is h \<longleftrightarrow>
     (\<forall>j nav. j \<noteq> i \<longrightarrow> hd_navigations h j = Some nav \<longrightarrow> ng_tx nav \<noteq> tx) \<and>
     (case hd_navigations h i of
        None \<Rightarrow> settled i is \<and> (\<exists>r. replies_to tx h = rs0 @ [r] \<and> justified i is r)
      | Some nav \<Rightarrow>
          \<not> settled i is \<and> replies_to tx h = rs0 \<and> ng_tx nav = tx \<and>
          ng_navigated nav = completed i is \<and> (ng_response nav \<noteq> None \<longleftrightarrow> responded i is) \<and>
          (\<forall>resp. ng_response nav = Some resp \<longrightarrow> NvResponse i resp \<in> set is))"

lemma responded_snoc [simp]:
  "responded i (is @ [NvResponse j r]) \<longleftrightarrow> responded i is \<or> j = i"
  "responded i (is @ [NvLifecycle res]) \<longleftrightarrow> responded i is"
  "responded i (is @ [NvTimeout j]) \<longleftrightarrow> responded i is"
  by (auto simp: responded_def)

lemma completed_snoc [simp]:
  "completed i (is @ [NvResponse j r]) \<longleftrightarrow> completed i is"
  "completed i (is @ [NvLifecycle (Inr ok)]) \<longleftrightarrow> completed i is \<or> nav_ok_id ok = i"
  "completed i (is @ [NvLifecycle (Inl err)]) \<longleftrightarrow> completed i is"
  "completed i (is @ [NvTimeout j]) \<longleftrightarrow> completed i is"
  by (auto simp: completed_def)

lemma failures_snoc [simp]:
  "failures i (is @ [NvResponse j r]) = failures i is"
  "failures i (is @ [NvLifecycle (Inr ok)]) = failures i is"
  "failures i (is @ [NvLifecycle (Inl err)]) =
     failures i is \<union> (if nav_error_id err = i then {error_of_navigation err} else {})"
  "failures i (is @ [NvTimeout j]) = failures i is \<union> (if j = i then {CeTimeout} else {})"
  by (auto simp: failures_def)

lemma justified_snoc: "justified i is r \<Longrightarrow> justified i (is @ [x]) r"
  by (cases "(i, is, r)" rule: justified.cases) (auto simp: failures_def completed_def)

lemma settled_snoc: "settled i is \<Longrightarrow> settled i (is @ [x])"
  by (auto simp: settled_def responded_def completed_def failures_def)

lemma replies_to_reply [simp]: "replies_to tx (reply_to t r h) = replies_to tx h @ (if t = tx then [r] else [])"
  by (simp add: replies_to_def reply_to_def)

lemma replies_to_navigations [simp]: "replies_to tx (h\<lparr>hd_navigations := n\<rparr>) = replies_to tx h"
  by (simp add: replies_to_def)

lemma navigations_reply [simp]: "hd_navigations (reply_to t r h) = hd_navigations h"
  by (simp add: reply_to_def)

lemma nav_state_step:
  assumes "nav_state i tx rs0 is h"
  shows "nav_state i tx rs0 (is @ [x]) (nav_step x h)"
proof (cases "hd_navigations h i")
  case None
  have o: "\<forall>j nav. j \<noteq> i \<longrightarrow> hd_navigations h j = Some nav \<longrightarrow> ng_tx nav \<noteq> tx" using assms by (simp add: nav_state_def)
  have s: "settled i is" "\<forall>j nav. hd_navigations h j = Some nav \<longrightarrow> ng_tx nav \<noteq> tx"
    using assms None by (simp add: nav_state_def) (metis o None option.distinct(1))
  from assms None obtain r where r: "replies_to tx h = rs0 @ [r]" "justified i is r" by (auto simp: nav_state_def)
  have "hd_navigations (nav_step x h) i = None \<and> replies_to tx (nav_step x h) = replies_to tx h \<and>
    (\<forall>j nav. j \<noteq> i \<longrightarrow> hd_navigations (nav_step x h) j = Some nav \<longrightarrow> ng_tx nav \<noteq> tx)"
    using None s(2) by (cases "(x, h)" rule: nav_step.cases)
      (auto simp: on_navigation_response_def on_navigation_lifecycle_completed_def split: option.split sum.split)
  with r s(1) show ?thesis using justified_snoc settled_snoc by (auto simp: nav_state_def)
next
  case (Some nav)
  from assms Some have s: "\<not> settled i is" "replies_to tx h = rs0" "ng_tx nav = tx"
      "ng_navigated nav = completed i is" "ng_response nav \<noteq> None \<longleftrightarrow> responded i is"
      "\<forall>resp. ng_response nav = Some resp \<longrightarrow> NvResponse i resp \<in> set is"
      "\<forall>j nav. j \<noteq> i \<longrightarrow> hd_navigations h j = Some nav \<longrightarrow> ng_tx nav \<noteq> tx"
    by (simp_all add: nav_state_def)
  show ?thesis
  proof (cases x)
    case (NvResponse j resp)
    with Some s show ?thesis
      by (auto simp: nav_state_def on_navigation_response_def settled_def split: option.split)
  next
    case (NvLifecycle res)
    with Some s show ?thesis
      by (auto simp: nav_state_def on_navigation_lifecycle_completed_def settled_def split: option.split sum.split)
  next
    case (NvTimeout j)
    with Some s show ?thesis
      by (auto simp: nav_state_def settled_def failures_def split: option.split)
  qed
qed

text \<open>C11: A navigation is answered exactly once. Whatever responses, completions, failures and timeouts arrive,
  in whatever order and mixed with those of other navigations: the caller gets one reply, and the
  navigation leaves the table, exactly if both the response and the completion have arrived or it has
  failed. A successful reply is a response that the browser has sent for this navigation; an error is one
  of its failures.\<close>

theorem navigation_answered_once:
  assumes "hd_navigations h i = Some (nav_in_progress_new tx)"
    and "\<And>j nav. j \<noteq> i \<Longrightarrow> hd_navigations h j = Some nav \<Longrightarrow> ng_tx nav \<noteq> tx"
  shows "if settled i is
    then hd_navigations (fold nav_step is h) i = None \<and>
      (\<exists>r. replies_to tx (fold nav_step is h) = replies_to tx h @ [r] \<and> justified i is r)
    else hd_navigations (fold nav_step is h) i \<noteq> None \<and> replies_to tx (fold nav_step is h) = replies_to tx h"
proof -
  have "nav_state i tx (replies_to tx h) is (fold nav_step is h)"
  proof (induction "is" rule: rev_induct)
    case Nil
    show ?case using assms
      by (auto simp: nav_state_def nav_in_progress_new_def settled_def responded_def completed_def failures_def)
  next
    case (snoc x xs)
    then show ?case using nav_state_step by simp
  qed
  then show ?thesis by (auto simp: nav_state_def split: option.splits)
qed

definition example_response :: response where
  "example_response = \<lparr>rs_id = 4, rs_result = Some ''ok'', rs_error = None\<rparr>"

definition example_navigating :: handler where
  "example_navigating =
     (handler_new example_handler_config connection_new)\<lparr>hd_navigations := [0 \<mapsto> nav_in_progress_new 8, 1 \<mapsto> nav_in_progress_new 9]\<rparr>"

definition example_nav_inputs :: "nav_input list" where
  "example_nav_inputs = [NvLifecycle (Inr (NewDocumentNavigation 0)), NvTimeout 1, NvResponse 0 example_response]"

theorem navigation_answered_once_witness:
  "hd_navigations (fold nav_step example_nav_inputs example_navigating) 0 = None \<and>
   (\<exists>r. replies_to 8 (fold nav_step example_nav_inputs example_navigating) = replies_to 8 example_navigating @ [r] \<and>
     justified 0 example_nav_inputs r)"
proof -
  have s: "settled 0 example_nav_inputs"
    by (force simp: settled_def responded_def completed_def example_nav_inputs_def)
  have n: "hd_navigations example_navigating 0 = Some (nav_in_progress_new 8)" by (simp add: example_navigating_def)
  have o: "ng_tx nav \<noteq> 8" if "j \<noteq> 0" "hd_navigations example_navigating j = Some nav" for j nav
    using that by (auto simp: example_navigating_def nav_in_progress_new_def split: if_splits)
  have "if settled 0 example_nav_inputs then ?thesis else
      hd_navigations (fold nav_step example_nav_inputs example_navigating) 0 \<noteq> None \<and>
      replies_to 8 (fold nav_step example_nav_inputs example_navigating) = replies_to 8 example_navigating"
    by (rule navigation_answered_once [OF n o])
  with s show ?thesis by simp
qed

section \<open>The eviction answers the overdue callers\<close>

fun callers :: "(nat \<rightharpoonup> nav_in_progress) \<Rightarrow> pending_request \<Rightarrow> nat set" where
  "callers ns (PqCreateTarget tx) = {tx}"
| "callers ns (PqGetTargets tx) = {tx}"
| "callers ns (PqNavigate i) = ng_tx ` set_option (ns i)"
| "callers ns (PqExternalCommand tx) = {tx}"
| "callers ns (PqInternalCommand i) = {}"
| "callers ns (PqCloseBrowser tx) = {tx}"

fun is_timeout :: "reply \<Rightarrow> bool" where
  "is_timeout (RpPage (Inl CeTimeout)) = True"
| "is_timeout (RpTargets (Inl CeTimeout)) = True"
| "is_timeout (RpResponse (Inl CeTimeout)) = True"
| "is_timeout (RpClosed (Inl CeTimeout)) = True"
| "is_timeout r = False"

text \<open>What was sent from one state to a later one, all of it timeouts to the callers in the set.\<close>

definition timeouts_sent :: "nat set \<Rightarrow> handler \<Rightarrow> handler \<Rightarrow> bool" where
  "timeouts_sent txs h h' \<longleftrightarrow>
     (\<exists>ts. hd_out h' = hd_out h @ ts \<and> fst ` set ts = txs \<and> (\<forall>p \<in> set ts. is_timeout (snd p)))"

lemma timeouts_sent_trans: "timeouts_sent a h1 h2 \<Longrightarrow> timeouts_sent b h2 h3 \<Longrightarrow> timeouts_sent (a \<union> b) h1 h3"
proof -
  assume "timeouts_sent a h1 h2" "timeouts_sent b h2 h3"
  then obtain ts us where "hd_out h2 = hd_out h1 @ ts" "fst ` set ts = a" "\<forall>p \<in> set ts. is_timeout (snd p)"
      "hd_out h3 = hd_out h2 @ us" "fst ` set us = b" "\<forall>p \<in> set us. is_timeout (snd p)"
    unfolding timeouts_sent_def by blast
  then have "hd_out h3 = hd_out h1 @ (ts @ us)" "fst ` set (ts @ us) = a \<union> b"
    "\<forall>p \<in> set (ts @ us). is_timeout (snd p)" by auto
  then show ?thesis unfolding timeouts_sent_def by blast
qed

lemma callers_without: "callers (ns(i := None)) q \<union> ng_tx ` set_option (ns i) = callers ns q \<union> ng_tx ` set_option (ns i)"
  by (cases q) auto

lemma time_out_sends:
  "timeouts_sent (callers (hd_navigations h) req) h (time_out_request req h)"
  "hd_pending (time_out_request req h) = hd_pending h"
  "callers (hd_navigations (time_out_request req h)) q \<union> callers (hd_navigations h) req =
   callers (hd_navigations h) q \<union> callers (hd_navigations h) req"
proof -
  show "timeouts_sent (callers (hd_navigations h) req) h (time_out_request req h)"
    by (cases req) (auto simp: timeouts_sent_def reply_to_def split: option.split)
  show "hd_pending (time_out_request req h) = hd_pending h"
    by (cases req) (auto simp: reply_to_def split: option.split)
  show "callers (hd_navigations (time_out_request req h)) q \<union> callers (hd_navigations h) req =
      callers (hd_navigations h) q \<union> callers (hd_navigations h) req"
  proof (cases req)
    case (PqNavigate i)
    then show ?thesis using callers_without [of "hd_navigations h" i q] by (cases "hd_navigations h i") auto
  qed (simp_all add: reply_to_def)
qed

text \<open>Evicting the commands of a list of distinct call ids.\<close>

definition callers_of :: "(nat \<rightharpoonup> nav_in_progress) \<Rightarrow> (64 word \<times> pending_request \<times> string \<times> duration) list \<Rightarrow> nat set" where
  "callers_of ns es = (\<Union>(i, req, m, t) \<in> set es. callers ns req)"

lemma evict_list:
  "distinct (map fst (hd_pending h)) \<Longrightarrow> distinct (map fst es) \<Longrightarrow> set es \<subseteq> set (hd_pending h) \<Longrightarrow>
   timeouts_sent (callers_of (hd_navigations h) es) h (fold evict_one (map fst es) h) \<and>
   hd_pending (fold evict_one (map fst es) h) = filter (\<lambda>p. fst p \<notin> fst ` set es) (hd_pending h)"
proof (induction es arbitrary: h)
  case Nil
  show ?case by (simp add: timeouts_sent_def callers_of_def)
next
  case (Cons e es)
  obtain i req m t where e: "e = (i, req, m, t)" by (metis prod.exhaust)
  have found: "map_of (hd_pending h) i = Some (req, m, t)" using Cons.prems e by simp
  let ?h = "h\<lparr>hd_pending := AList.delete i (hd_pending h)\<rparr>"
  let ?h1 = "evict_one i h"
  have h1: "?h1 = time_out_request req ?h" using found by (simp add: evict_one_def)
  have pend: "hd_pending ?h1 = filter (\<lambda>p. fst p \<noteq> i) (hd_pending h)"
    using time_out_sends(2) [of req ?h] h1 by (auto simp: AList.delete_eq intro!: filter_cong)
  have sent: "timeouts_sent (callers (hd_navigations h) req) h ?h1"
    using time_out_sends(1) [of ?h req] h1 by (simp add: timeouts_sent_def)
  have cs: "callers_of (hd_navigations ?h1) es \<union> callers (hd_navigations h) req = callers_of (hd_navigations h) (e # es)"
    using time_out_sends(3) [of req ?h] h1 e by (auto simp: callers_of_def)
  have sub: "set es \<subseteq> set (hd_pending ?h1)" "distinct (map fst (hd_pending ?h1))"
    using Cons.prems pend e by (force, simp add: distinct_map_filter)
  from Cons.IH [OF sub(2) _ sub(1)] Cons.prems(2)
  have ih: "timeouts_sent (callers_of (hd_navigations ?h1) es) ?h1 (fold evict_one (map fst es) ?h1)"
    "hd_pending (fold evict_one (map fst es) ?h1) = filter (\<lambda>p. fst p \<notin> fst ` set es) (hd_pending ?h1)" by simp_all
  from timeouts_sent_trans [OF sent ih(1)] cs ih(2) pend e show ?case
    by (simp add: Un_commute conj_commute)
qed

lemma evicted:
  assumes "distinct (map fst (hd_pending h))"
  shows "timeouts_sent (callers_of (hd_navigations h) (overdue now h)) h (evict_timed_out_commands now h)"
    and "hd_pending (evict_timed_out_commands now h) =
      filter (\<lambda>(i, e). \<not> timed_out now (hc_request_timeout (hd_config h)) e) (hd_pending h)"
proof -
  have d: "distinct (map fst (overdue now h))" "set (overdue now h) \<subseteq> set (hd_pending h)"
    using assms by (auto simp: overdue_def distinct_map_filter)
  have "filter (\<lambda>p. fst p \<notin> fst ` set (overdue now h)) (hd_pending h) =
      filter (\<lambda>(i, e). \<not> timed_out now (hc_request_timeout (hd_config h)) e) (hd_pending h)"
  proof (rule filter_cong [OF refl])
    fix p assume p: "p \<in> set (hd_pending h)"
    obtain i e where "p = (i, e)" by (cases p)
    with p assms show "fst p \<notin> fst ` set (overdue now h) \<longleftrightarrow>
        (case p of (i, e) \<Rightarrow> \<not> timed_out now (hc_request_timeout (hd_config h)) e)"
      by (force simp: overdue_def dest: eq_key_imp_eq_value)
  qed
  with evict_list [OF assms d]
  show "timeouts_sent (callers_of (hd_navigations h) (overdue now h)) h (evict_timed_out_commands now h)"
    "hd_pending (evict_timed_out_commands now h) =
      filter (\<lambda>(i, e). \<not> timed_out now (hc_request_timeout (hd_config h)) e) (hd_pending h)"
    by (simp_all add: evict_fold)
qed

text \<open>C18: The eviction is exact. Afterwards the commands that wait are those that waited before and are not
  older than the request timeout, in their order; a timeout is sent to each caller of a command that was
  dropped, for a navigation to the caller of the navigation, and nothing is sent to anyone else.\<close>

theorem eviction_answers_overdue:
  assumes "distinct (map fst (hd_pending h))"
  shows "hd_pending (evict_timed_out_commands now h) =
      filter (\<lambda>(i, e). \<not> timed_out now (hc_request_timeout (hd_config h)) e) (hd_pending h) \<and>
    (\<exists>ts. hd_out (evict_timed_out_commands now h) = hd_out h @ ts \<and> (\<forall>p \<in> set ts. is_timeout (snd p)) \<and>
      fst ` set ts = callers_of (hd_navigations h) (overdue now h))"
  using evicted [OF assms, of now] by (auto simp: timeouts_sent_def)

definition example_waiting :: handler where
  "example_waiting =
     submit_navigation 0 (navigation_request_new 0 ''Page.navigate'' None None) 1
       (submit_fetch_targets 7 9 (submit_close 5 1 example_navigating))"

theorem eviction_answers_overdue_witness:
  "\<exists>ts. hd_out (evict_timed_out_commands 10 example_waiting) = ts \<and> fst ` set ts = {5, 8} \<and> (\<forall>p \<in> set ts. is_timeout (snd p)) \<and>
     map fst (hd_pending (evict_timed_out_commands 10 example_waiting)) = [2]"
proof -
  note ex = example_waiting_def submit_navigation_def submit_fetch_targets_def submit_close_def submit_def
    submit_command_def next_call_id_def example_navigating_def handler_new_def connection_new_def example_handler_config_def
  have d: "distinct (map fst (hd_pending example_waiting))" by (simp add: ex)
  have "fst ` set ts = callers_of (hd_navigations example_waiting) (overdue 10 example_waiting) \<Longrightarrow> fst ` set ts = {5, 8}" for ts :: sends
    by (simp add: ex overdue_def timed_out_def callers_of_def nav_in_progress_new_def insert_commute)
  moreover have "hd_out example_waiting = []" by (simp add: ex)
  moreover have "map fst (filter (\<lambda>(i, e). \<not> timed_out 10 (hc_request_timeout (hd_config example_waiting)) e)
      (hd_pending example_waiting)) = [2]" by (simp add: ex timed_out_def)
  ultimately show ?thesis using eviction_answers_overdue [OF d, of 10] by auto
qed

section \<open>No panics\<close>

text \<open>
  The two ways in which the browser can make the handler panic: it answers the creation of a target that
  it has not announced, or it detaches the main frame of a page.
\<close>

definition item_safe :: "cdp_codec \<Rightarrow> cdp_error + message \<Rightarrow> handler \<Rightarrow> bool" where
  "item_safe cd item h =
     (case item of
        Inr (MsgResponse resp) \<Rightarrow>
          (case map_of (hd_pending h) (rs_id resp) of
             Some (PqCreateTarget tx, m, t) \<Rightarrow>
               (case to_command_response (cd_create_target cd) resp of
                  Inr i \<Rightarrow> map_of (hd_targets h) i \<noteq> None
                | Inl e \<Rightarrow> True)
           | _ \<Rightarrow> True)
      | Inr (MsgEvent ev) \<Rightarrow>
          (case event_target ev h of Some tg \<Rightarrow> \<not> detaches_main (TnEvent ev) tg | None \<Rightarrow> True)
      | _ \<Rightarrow> True)"

fun reads_safe :: "cdp_codec \<Rightarrow> (nat \<Rightarrow> nat \<Rightarrow> socket) \<Rightarrow> ws_item list \<Rightarrow> handler \<Rightarrow> bool" where
  "reads_safe cd so [] h = True"
| "reads_safe cd so (w # ws) h =
     (case conn_poll (so (length (w # ws))) w (hd_conn h) of
        (CiReady item, cn) \<Rightarrow>
          item_safe cd item (h\<lparr>hd_conn := cn\<rparr>) \<and>
          (case on_item cd item (h\<lparr>hd_conn := cn\<rparr>) of
             Some (None, h1) \<Rightarrow> reads_safe cd so ws h1
           | _ \<Rightarrow> True)
      | _ \<Rightarrow> True)"

definition round_safe :: "cdp_codec \<Rightarrow> (string \<Rightarrow> string option) \<Rightarrow> round_input \<Rightarrow> handler \<Rightarrow> bool" where
  "round_safe cd url_error ri h =
     (case poll_targets (ri_now ri) (ri_clock ri) (round_messages url_error ri h) of
        None \<Rightarrow> True
      | Some h1 \<Rightarrow> reads_safe cd (ri_socket ri) (ri_items ri) h1)"

fun rounds_safe :: "cdp_codec \<Rightarrow> (string \<Rightarrow> string option) \<Rightarrow> round_input list \<Rightarrow> handler \<Rightarrow> bool" where
  "rounds_safe cd url_error [] h = True"
| "rounds_safe cd url_error (ri # ris) h =
     (round_safe cd url_error ri h \<and>
      (case handler_round cd url_error ri h of None \<Rightarrow> True | Some (e, h1) \<Rightarrow> rounds_safe cd url_error ris h1))"

lemma all_tg_ok_cong: "hd_targets h' = hd_targets h \<Longrightarrow> all_tg_ok h \<Longrightarrow> all_tg_ok h'"
  by (simp add: all_tg_ok_def)

lemma all_tg_ok_update: "all_tg_ok h \<Longrightarrow> tg_ok tg \<Longrightarrow> all_tg_ok (h\<lparr>hd_targets := AList.update i tg (hd_targets h)\<rparr>)"
  by (simp add: all_tg_ok_def update_conv')

lemma all_tg_ok_entry:
  "all_tg_ok h \<Longrightarrow> (\<And>tg. tg_frames (f tg) = tg_frames tg) \<Longrightarrow>
   all_tg_ok (h\<lparr>hd_targets := AList.map_entry i f (hd_targets h)\<rparr>)"
  by (auto simp: all_tg_ok_def map_of_map_entry split: if_splits option.splits)

lemma all_tg_ok_same: "same_tables h h' \<Longrightarrow> all_tg_ok h \<Longrightarrow> all_tg_ok h'"
  by (simp add: all_tg_ok_def same_tables_def)

lemma get_or_create_page_frames [simp]: "tg_frames (snd (get_or_create_page tg)) = tg_frames tg"
  by (simp add: get_or_create_page_def create_page_def Let_def split: option.split)

lemma collect_pages_frames:
  "collect_pages tgs = (ps, tgs') \<Longrightarrow> map_of tgs' i = Some tg' \<Longrightarrow>
   \<exists>tg. map_of tgs i = Some tg \<and> tg_frames tg' = tg_frames tg"
proof (induction tgs arbitrary: ps tgs' rule: collect_pages.induct)
  case (2 j tg tgs)
  obtain qs tgs1 where c: "collect_pages tgs = (qs, tgs1)" by fastforce
  obtain p tg1 where g: "get_or_create_page tg = (p, tg1)" by fastforce
  have "tg_frames tg1 = tg_frames tg" using get_or_create_page_frames [of tg] g by simp
  with 2(1) [OF c] 2(2,3) c g show ?case by (auto split: if_splits option.splits)
qed simp

lemma handler_message_tg_ok:
  assumes "all_tg_ok h"
  shows "all_tg_ok (handle_handler_message url_error now clock m h)"
proof (cases m)
  case (HmGetPages tx)
  obtain ps tgs where c: "collect_pages (hd_targets h) = (ps, tgs)" by fastforce
  with HmGetPages assms collect_pages_frames [OF c] show ?thesis
    by (fastforce simp: all_tg_ok_def reply_to_def)
next
  case (HmGetPage i tx)
  show ?thesis
  proof (cases "map_of (hd_targets h) i")
    case (Some tg)
    obtain p tg' where g: "get_or_create_page tg = (p, tg')" by fastforce
    have "tg_frames tg' = tg_frames tg" using get_or_create_page_frames [of tg] g by simp
    with HmGetPage Some g assms show ?thesis by (simp add: all_tg_ok_def reply_to_def update_conv')
  qed (use HmGetPage assms in \<open>simp add: all_tg_ok_def reply_to_def\<close>)
next
  case (HmCreatePage u tx)
  then show ?thesis using all_tg_ok_same [OF submit_same assms] all_tg_ok_same [OF reply_to_same assms]
    by (simp add: handler_create_page_def split: option.split)
qed (use assms all_tg_ok_same [OF submit_same assms] in \<open>simp_all add: submissions all_tg_ok_def\<close>)

lemma handler_messages_tg_ok:
  "all_tg_ok h \<Longrightarrow> all_tg_ok (fold (handle_handler_message url_error now clock) ms h)"
  by (induction ms arbitrary: h) (simp_all add: handler_message_tg_ok)

lemma round_messages_tg_ok: "all_tg_ok h \<Longrightarrow> all_tg_ok (round_messages url_error ri h)"
proof -
  have d: "all_tg_ok h \<Longrightarrow> all_tg_ok (deliver_message m h)" for m h
    by (cases m) (simp add: deliver_message_def all_tg_ok_entry receive_message_def)
  have "all_tg_ok h \<Longrightarrow> all_tg_ok (fold deliver_message ms h)" for ms h
    by (induction ms arbitrary: h) (simp_all add: d)
  then show "all_tg_ok h \<Longrightarrow> all_tg_ok (round_messages url_error ri h)"
    by (simp add: round_messages_def handler_messages_tg_ok)
qed

lemma target_created_tg_ok: "all_tg_ok h \<Longrightarrow> all_tg_ok (on_target_created info h)"
  using all_tg_ok_update [OF _ target_new_ok] by (simp add: on_target_created_def all_tg_ok_def update_conv')

lemma on_event_tg_ok:
  assumes "all_tg_ok h" "item_safe cd (Inr (MsgEvent ev)) h"
  shows "\<exists>h'. handler_on_event ev h = Some h' \<and> all_tg_ok h'"
proof (cases "event_target ev h")
  case (Some tg)
  then obtain s se where s: "ev_session ev = Some s" "hd_sessions h s = Some se" "map_of (hd_targets h) (se_target se) = Some tg"
    by (auto simp: event_target_def bind_eq_Some_conv)
  have "tg_ok tg" using assms(1) s(3) by (simp add: all_tg_ok_def)
  moreover have "\<not> detaches_main (TnEvent ev) tg" using assms(2) Some by (simp add: item_safe_def)
  ultimately obtain tg' where "target_on_event ev tg = Some tg'" "tg_ok tg'"
    using target_step_ok [of "(tg, [])" "TnEvent ev"] by auto
  then show ?thesis using Some s assms(1) by (simp add: handler_on_event_def all_tg_ok_update)
next
  case None
  have l: "all_tg_ok (h\<lparr>hd_listeners := ls\<rparr>) = all_tg_ok h" for h ls by (simp add: all_tg_ok_def)
  have e: "all_tg_ok (h\<lparr>hd_targets := AList.map_entry i f (hd_targets h), hd_sessions := m\<rparr>)"
    if "\<And>tg. tg_frames (f tg) = tg_frames tg" for i f m
    using all_tg_ok_entry [OF assms(1) that] by (simp add: all_tg_ok_def)
  have attached: "all_tg_ok (on_attached_to_target s info h)" for s info
    using e by (simp add: on_attached_to_target_def)
  have detached: "all_tg_ok (on_detached_from_target s h)" for s
    using e [where f = "\<lambda>tg. tg\<lparr>tg_session := None\<rparr>"] assms(1)
    by (auto simp: on_detached_from_target_def all_tg_ok_def split: option.split)
  have destroyed: "all_tg_ok (on_target_destroyed i h)" for i
    using assms(1) by (auto simp: on_target_destroyed_def all_tg_ok_def delete_conv' split: option.split)
  from None show ?thesis
    using attached detached destroyed target_created_tg_ok [OF assms(1)] assms(1)
    by (cases "ev_params ev") (auto simp: handler_on_event_def Let_def l)
qed

lemma fetched_targets_tg_ok: "all_tg_ok h \<Longrightarrow> all_tg_ok (fold fetched_target infos h)"
proof (induction infos arbitrary: h)
  case (Cons info infos)
  have "all_tg_ok (fetched_target info h)"
    using target_created_tg_ok [OF Cons.prems] by (simp add: fetched_target_def Let_def all_tg_ok_def)
  then show ?case using Cons.IH by simp
qed simp

lemma on_response_tg_ok:
  assumes "all_tg_ok h" "item_safe cd (Inr (MsgResponse resp)) h"
  shows "\<exists>h'. handler_on_response cd resp h = Some h' \<and> all_tg_ok h'"
proof (cases "map_of (hd_pending h) (rs_id resp)")
  case None
  with assms(1) show ?thesis by (simp add: handler_on_response_def)
next
  case (Some e)
  obtain req m t where e: "e = (req, m, t)" by (metis prod.exhaust)
  let ?h = "h\<lparr>hd_pending := AList.delete (rs_id resp) (hd_pending h)\<rparr>"
  have ok: "all_tg_ok ?h" using assms(1) by (simp add: all_tg_ok_def)
  have "\<exists>h'. answer_request cd resp m req ?h = Some h' \<and> all_tg_ok h'"
  proof (cases req)
    case (PqCreateTarget tx)
    show ?thesis
    proof (cases "to_command_response (cd_create_target cd) resp")
      case (Inr i)
      then obtain tg where tg: "map_of (hd_targets h) i = Some tg"
        using assms(2) Some e PqCreateTarget by (auto simp: item_safe_def)
      then have "tg_ok (tg\<lparr>tg_initiator := Some tx\<rparr>)" using assms(1) by (simp add: all_tg_ok_def)
      with tg Inr PqCreateTarget all_tg_ok_update [OF ok] show ?thesis by simp
    qed (use PqCreateTarget ok in \<open>simp add: all_tg_ok_def reply_to_def\<close>)
  next
    case (PqGetTargets tx)
    then show ?thesis using ok fetched_targets_tg_ok [OF ok] all_tg_ok_same [OF reply_to_same]
      by (auto split: sum.split)
  next
    case (PqNavigate i)
    then show ?thesis using all_tg_ok_same [OF navigation_response_same ok] by simp
  next
    case (PqInternalCommand i)
    show ?thesis
    proof (cases "map_of (hd_targets ?h) i")
      case (Some tg)
      then have "tg_ok tg" using ok by (simp add: all_tg_ok_def)
      then obtain tg' where "target_on_response (cd_frame_tree cd) resp m tg = Some tg'" "tg_ok tg'"
        using target_step_ok [of "(tg, [])" "TnResponse resp m" "cd_frame_tree cd"] by (auto simp: detaches_main_def)
      with Some PqInternalCommand all_tg_ok_update [OF ok] show ?thesis by simp
    qed (use PqInternalCommand ok in simp)
  qed (use ok in \<open>simp_all add: all_tg_ok_def reply_to_def\<close>)
  with Some e show ?thesis by (simp add: handler_on_response_def)
qed

lemma on_item_tg_ok:
  assumes "all_tg_ok h" "item_safe cd item h"
  shows "\<exists>e h'. on_item cd item h = Some (e, h') \<and> all_tg_ok h'"
proof (cases item)
  case (Inl err)
  with assms(1) show ?thesis by (cases err) (auto simp: on_item_def)
next
  case (Inr m)
  show ?thesis
  proof (cases m)
    case (MsgResponse resp)
    then show ?thesis using on_response_tg_ok [of h cd resp] assms Inr by (auto simp: on_item_def)
  next
    case (MsgEvent ev)
    then show ?thesis using on_event_tg_ok [of h cd ev] assms Inr by (auto simp: on_item_def)
  qed (use Inr assms in \<open>auto simp: on_item_def\<close>)
qed

lemma read_conn_tg_ok:
  "all_tg_ok h \<Longrightarrow> reads_safe cd so ws h \<Longrightarrow> \<exists>r h'. read_conn cd so ws idle h = Some (r, h') \<and> all_tg_ok h'"
proof (induction ws arbitrary: idle h)
  case Nil
  then show ?case by (auto simp: all_tg_ok_def split: prod.split conn_item.split sum.split)
next
  case (Cons w ws)
  obtain c cn where c: "conn_poll (so (length (w # ws))) w (hd_conn h) = (c, cn)" by fastforce
  have ok: "all_tg_ok (h\<lparr>hd_conn := cn\<rparr>)" using Cons.prems(1) by (simp add: all_tg_ok_def)
  show ?case
  proof (cases c)
    case (CiReady item)
    then have "item_safe cd item (h\<lparr>hd_conn := cn\<rparr>)" using Cons.prems(2) c by simp
    then obtain e h1 where i: "on_item cd item (h\<lparr>hd_conn := cn\<rparr>) = Some (e, h1)" "all_tg_ok h1"
      using on_item_tg_ok [OF ok] by blast
    with Cons.prems(2) c CiReady Cons.IH [of h1] show ?thesis by (cases e) auto
  qed (use c ok in auto)
qed

lemma evict_tg_ok:
  assumes "all_tg_ok h"
  shows "all_tg_ok (evict_timed_out_commands now h)"
proof -
  have one: "all_tg_ok (evict_one i h)" if "all_tg_ok h" for i h
  proof -
    have "all_tg_ok (h\<lparr>hd_pending := AList.delete i (hd_pending h)\<rparr>)" using that by (simp add: all_tg_ok_def)
    then show ?thesis using all_tg_ok_same [OF time_out_same] that
      by (auto simp: evict_one_def split: option.split)
  qed
  have "all_tg_ok h \<Longrightarrow> all_tg_ok (fold evict_one is h)" for "is" h
    by (induction "is" arbitrary: h) (simp_all add: one)
  then show ?thesis using assms by (simp add: evict_fold)
qed

text \<open>C12: The handler survives. Through any rounds of its poll, whatever the clients ask, the browser sends
  and the socket does, it does not panic, and every round of it ends, as long as the browser does not
  detach the main frame of a page and does not answer the creation of a target that is not known.\<close>

theorem handler_never_panics:
  assumes "rounds_safe cd url_error ris (handler_new cfg conn)"
  shows "\<exists>es h. handler_rounds cd url_error ris (handler_new cfg conn) = Some (es, h)"
proof -
  have "all_tg_ok h \<Longrightarrow> rounds_safe cd url_error ris h \<Longrightarrow> \<exists>es h'. handler_rounds cd url_error ris h = Some (es, h')" for h
  proof (induction ris arbitrary: h)
    case (Cons ri ris)
    let ?h = "round_messages url_error ri h"
    obtain h1 where h1: "poll_targets (ri_now ri) (ri_clock ri) ?h = Some h1" "all_tg_ok h1"
      using poll_targets_total [OF round_messages_tg_ok [OF Cons.prems(1)]] by blast
    then obtain r h2 where h2: "read_conn cd (ri_socket ri) (ri_items ri) True h1 = Some (r, h2)" "all_tg_ok h2"
      using read_conn_tg_ok [of h1 cd "ri_socket ri" "ri_items ri" True] Cons.prems(2) by (auto simp: round_safe_def)
    have "\<exists>e h3. handler_round cd url_error ri h = Some (e, h3) \<and> all_tg_ok h3"
      using h1 h2 evict_tg_ok [OF h2(2)] by (cases r) (auto simp: handler_round_def)
    then obtain e h3 where "handler_round cd url_error ri h = Some (e, h3)" "all_tg_ok h3" by blast
    with Cons show ?case by fastforce
  qed simp
  moreover have "all_tg_ok (handler_new cfg conn)" by (simp add: all_tg_ok_def handler_new_def)
  ultimately show ?thesis using assms by blast
qed

lemma example_rounds_safe:
  "rounds_safe example_codec (\<lambda>u. None) example_rounds (handler_new example_handler_config connection_new)"
  by code_simp

theorem handler_never_panics_witness:
  "\<exists>es h. handler_rounds example_codec (\<lambda>u. None) example_rounds (handler_new example_handler_config connection_new) = Some (es, h)"
  by (rule handler_never_panics [OF example_rounds_safe])

text \<open>The response to the creation of a target that is gone ends the handler.\<close>

lemma created_target_gone_panics:
  "handler_rounds example_codec (\<lambda>u. None)
     [example_round 0 [HmCreatePage ''u'' 7] [] False,
      example_round 0 [] [WsText ''r'' (Inr (MsgResponse \<lparr>rs_id = 1, rs_result = Some ''T'', rs_error = None\<rparr>))] False]
     (handler_new example_handler_config connection_new) = None"
  by code_simp

end
