(* ===== verification/Cdp_Listeners_Props.thy ===== *)
theory Cdp_Listeners_Props
  imports Cdp_Listeners
begin

text \<open>
  What a subscription promises: after a poll every subscriber whose receiver still exists has
  received exactly the events of its method since it subscribed, once and in order. The
  specification is a log per channel.
\<close>

section \<open>Polling\<close>

definition deliver :: "('j, 'e) event_listener \<Rightarrow> 'e channels \<Rightarrow> 'e channels" where
  "deliver l ch =
     (if ch_open ch (el_channel l)
      then ch\<lparr>ch_received := (ch_received ch)(el_channel l := ch_received ch (el_channel l) @ el_queued l)\<rparr> else ch)"

lemma listener_poll_eq:
  "listener_poll l ch =
     (if ch_open ch (el_channel l) then (Inr (), l\<lparr>el_queued := []\<rparr>, deliver l ch)
      else (Inl SendDisconnected, l, ch))"
proof (induction l ch rule: listener_poll.induct)
  case (1 l ch)
  show ?case
  proof (cases "ch_open ch (el_channel l) \<and> el_queued l \<noteq> []")
    case True
    then obtain e es where q: "el_queued l = e # es" by (cases "el_queued l") auto
    with True 1 [OF _ q] show ?thesis
      by (subst listener_poll.simps) (simp add: deliver_def push_channel_def)
  next
    case False
    have "el_queued l = [] \<Longrightarrow> l\<lparr>el_queued := []\<rparr> = l" by (cases l) simp
    with False show ?thesis by (subst listener_poll.simps) (auto simp: deliver_def)
  qed
qed

lemma poll_subscription_eq:
  "poll_subscription l ch =
     (if ch_open ch (el_channel l) then (Some (l\<lparr>el_queued := []\<rparr>), deliver l ch) else (None, ch))"
  by (simp add: poll_subscription_def listener_poll_eq)

lemma deliver_open [simp]: "ch_open (deliver l ch) = ch_open ch"
  by (simp add: deliver_def)

definition pending_for :: "nat \<Rightarrow> ('j, 'e) event_listener list \<Rightarrow> 'e list" where
  "pending_for c ls = concat (map el_queued (filter (\<lambda>l. el_channel l = c) ls))"

lemma visit_poll:
  "fst (visit poll_subscription ls ch) = map (\<lambda>l. l\<lparr>el_queued := []\<rparr>) (filter (\<lambda>l. ch_open ch (el_channel l)) ls)"
  "ch_open (snd (visit poll_subscription ls ch)) = ch_open ch"
  "ch_received (snd (visit poll_subscription ls ch)) c =
     ch_received ch c @ (if ch_open ch c then pending_for c ls else [])"
proof (induction ls arbitrary: ch)
  case (Cons l ls)
  { case 1 show ?case using Cons(1) [of "deliver l ch"] Cons(1) [of ch]
      by (cases "ch_open ch (el_channel l)") (simp_all add: poll_subscription_eq [of l ch] opt_list_def split_def) }
  { case 2 show ?case using Cons(2) [of "deliver l ch"] Cons(2) [of ch]
      by (cases "ch_open ch (el_channel l)") (simp_all add: poll_subscription_eq [of l ch] split_def) }
  { case 3 show ?case using Cons(3) [of "deliver l ch"] Cons(3) [of ch]
      by (cases "ch_open ch (el_channel l)") (simp_all add: poll_subscription_eq [of l ch] split_def pending_for_def, auto simp: deliver_def) }
qed (simp_all add: pending_for_def)

definition all_subs :: "('j, 'e) listeners \<Rightarrow> (string \<times> ('j, 'e) event_listener) list" where
  "all_subs ls = concat (map (\<lambda>(m, subs). map (Pair m) subs) ls)"

lemma all_subs_simps [simp]:
  "all_subs [] = []" "all_subs ((m, subs) # ls) = map (Pair m) subs @ all_subs ls"
  by (simp_all add: all_subs_def)

lemma pending_for_rev_distinct:
  "distinct (map el_channel ls) \<Longrightarrow> pending_for c (rev ls) = pending_for c ls"
proof -
  assume "distinct (map el_channel ls)"
  then have "length (filter (\<lambda>l. el_channel l = c) ls) \<le> 1"
  proof (induction ls)
    case (Cons l ls)
    then show ?case by (cases "el_channel l = c") (auto simp: filter_empty_conv image_iff dest: sym)
  qed simp
  then show ?thesis unfolding pending_for_def rev_filter [symmetric]
    by (cases "filter (\<lambda>l. el_channel l = c) ls") auto
qed

lemma listeners_poll_spec:
  assumes "distinct (map (el_channel \<circ> snd) (all_subs ls))"
  shows "mset (all_subs (fst (listeners_poll ls ch))) =
      mset (map (\<lambda>(m, l). (m, l\<lparr>el_queued := []\<rparr>)) (filter (\<lambda>(m, l). ch_open ch (el_channel l)) (all_subs ls))) \<and>
    ch_open (snd (listeners_poll ls ch)) = ch_open ch \<and>
    ch_received (snd (listeners_poll ls ch)) c =
      ch_received ch c @ (if ch_open ch c then pending_for c (map snd (all_subs ls)) else []) \<and>
    map fst (fst (listeners_poll ls ch)) = map fst ls"
  using assms
proof (induction ls arbitrary: ch)
  case (Cons a ls)
  obtain m subs where a: "a = (m, subs)" by fastforce
  obtain subs' ch' where s: "sweep poll_subscription (length subs) subs ch = (subs', ch')" by fastforce
  obtain ls' ch'' where p: "listeners_poll ls ch' = (ls', ch'')" by fastforce
  have d: "distinct (map el_channel subs)" "distinct (map (el_channel \<circ> snd) (all_subs ls))"
    using Cons.prems a by (simp_all add: comp_def)
  have v: "ch' = snd (visit poll_subscription (rev subs) ch)"
    "mset subs' = mset (map (\<lambda>l. l\<lparr>el_queued := []\<rparr>) (filter (\<lambda>l. ch_open ch (el_channel l)) subs))"
    using sweep_visit [of "length subs" subs poll_subscription ch] s
    by (simp_all add: visit_poll(1) rev_filter [symmetric] rev_map [symmetric])
  have o: "ch_open ch' = ch_open ch"
    "ch_received ch' c = ch_received ch c @ (if ch_open ch c then pending_for c subs else [])"
    using v(1) visit_poll(2,3) [of "rev subs" ch] pending_for_rev_distinct [OF d(1), of c] by simp_all
  have "mset (map (Pair m) subs') = image_mset (Pair m) (mset subs')" by simp
  also have "\<dots> = mset (map (\<lambda>(m, l). (m, l\<lparr>el_queued := []\<rparr>)) (filter (\<lambda>(m, l). ch_open ch (el_channel l)) (map (Pair m) subs)))"
    unfolding v(2) by (simp add: filter_map comp_def multiset.map_comp)
  finally show ?case using Cons.IH [OF d(2), of ch'] p s a o
    by (simp add: pending_for_def comp_def)
qed (simp add: pending_for_def)

section \<open>Runs\<close>

datatype ('j, 'e) listener_input =
    LiAdd "('j, 'e) listener_request"
  | LiSend string 'e
  | LiCustom string 'j
  | LiPoll
  | LiClose nat

type_synonym ('j, 'e) listener_state = "('j, 'e) listeners \<times> 'e channels"

fun listener_step :: "('j, 'e) listener_input \<Rightarrow> ('j, 'e) listener_state \<Rightarrow> ('j, 'e) listener_state" where
  "listener_step (LiAdd r) (ls, ch) = (add_listener r ls, ch)"
| "listener_step (LiSend m e) (ls, ch) = (start_send m e ls, ch)"
| "listener_step (LiCustom m j) (ls, ch) = (case try_send_custom m j ls of Inl err \<Rightarrow> ls | Inr ls' \<Rightarrow> ls', ch)"
| "listener_step LiPoll (ls, ch) = listeners_poll ls ch"
| "listener_step (LiClose c) (ls, ch) = (ls, ch\<lparr>ch_open := (ch_open ch)(c := False)\<rparr>)"

definition listeners_new :: "('j, 'e) listener_state" where
  "listeners_new = ([], \<lparr>ch_open = \<lambda>c. True, ch_received = \<lambda>c. []\<rparr>)"

text \<open>
  The specification: for every channel the method and kind it was subscribed with and the events
  sent to them since. Custom events of a method have one type, so one conversion.
\<close>

type_synonym 'e subscription_log = "nat \<rightharpoonup> string \<times> bool \<times> 'e list"

definition log_event :: "(string \<Rightarrow> bool \<Rightarrow> bool) \<Rightarrow> 'e \<Rightarrow> 'e subscription_log \<Rightarrow> 'e subscription_log" where
  "log_event p e g = (\<lambda>c. map_option (\<lambda>(m, k, es). (m, k, if p m k then es @ [e] else es)) (g c))"

fun log_step :: "(string \<Rightarrow> 'j \<Rightarrow> string + 'e) \<Rightarrow> ('j, 'e) listener_input \<Rightarrow> 'e subscription_log \<Rightarrow> 'e subscription_log" where
  "log_step conv (LiAdd r) g = g(lr_channel r \<mapsto> (lr_method r, is_custom (lr_kind r), []))"
| "log_step conv (LiSend m e) g = log_event (\<lambda>m' k. m' = m) e g"
| "log_step conv (LiCustom m j) g =
     (case conv m j of Inl err \<Rightarrow> g | Inr e \<Rightarrow> log_event (\<lambda>m' k. m' = m \<and> k) e g)"
| "log_step conv LiPoll g = g"
| "log_step conv (LiClose c) g = g"

fun subscribes :: "('j, 'e) listener_input \<Rightarrow> ('j, 'e) listener_request option" where
  "subscribes (LiAdd r) = Some r"
| "subscribes i = None"

definition subscriptions_wf :: "(string \<Rightarrow> 'j \<Rightarrow> string + 'e) \<Rightarrow> ('j, 'e) listener_input list \<Rightarrow> bool" where
  "subscriptions_wf conv is \<longleftrightarrow>
     distinct (map lr_channel (List.map_filter subscribes is)) \<and>
     (\<forall>r\<in>set (List.map_filter subscribes is). lr_kind r = EkBuiltIn \<or> lr_kind r = EkCustom (conv (lr_method r)))"

definition sub_ok ::
  "(string \<Rightarrow> 'j \<Rightarrow> string + 'e) \<Rightarrow> 'e subscription_log \<Rightarrow> 'e channels \<Rightarrow> string \<times> ('j, 'e) event_listener \<Rightarrow> bool" where
  "sub_ok conv g ch = (\<lambda>(m, l).
     (el_kind l = EkBuiltIn \<or> el_kind l = EkCustom (conv m)) \<and>
     g (el_channel l) = Some (m, is_custom (el_kind l), ch_received ch (el_channel l) @ el_queued l))"

definition listeners_ok ::
  "(string \<Rightarrow> 'j \<Rightarrow> string + 'e) \<Rightarrow> 'e subscription_log \<Rightarrow> ('j, 'e) listener_state \<Rightarrow> bool" where
  "listeners_ok conv g = (\<lambda>(ls, ch).
     distinct (map fst ls) \<and> distinct (map (el_channel \<circ> snd) (all_subs ls)) \<and>
     (\<forall>s\<in>set (all_subs ls). sub_ok conv g ch s) \<and>
     (\<forall>c. ch_open ch c \<and> g c \<noteq> None \<longrightarrow> c \<in> (el_channel \<circ> snd) ` set (all_subs ls)) \<and>
     (\<forall>c. g c = None \<longrightarrow> ch_received ch c = []))"

lemma all_subs_update:
  "map_of ls m = None \<Longrightarrow> mset (all_subs (AList.update m [x] ls)) = add_mset (m, x) (mset (all_subs ls))"
  "map_of ls m = Some subs \<Longrightarrow> mset (all_subs (AList.update m (subs @ [x]) ls)) = add_mset (m, x) (mset (all_subs ls))"
  by (induction ls) (auto split: if_splits)

lemma all_subs_add:
  "mset (all_subs (add_listener r ls)) =
   add_mset (lr_method r, \<lparr>el_channel = lr_channel r, el_queued = [], el_kind = lr_kind r\<rparr>) (mset (all_subs ls))"
  by (cases "map_of ls (lr_method r)") (simp_all add: add_listener_def all_subs_update del: mset_append)

lemma all_subs_map_entry:
  "distinct (map fst ls) \<Longrightarrow>
   all_subs (AList.map_entry m (map f) ls) = map (\<lambda>(m', l). (m', if m' = m then f l else l)) (all_subs ls)"
proof (induction ls)
  case (Cons a ls)
  have "m \<notin> fst ` set ls \<Longrightarrow> map (\<lambda>(m', l). (m', if m' = m then f l else l)) (all_subs ls) = all_subs ls"
    by (induction ls) auto
  with Cons show ?case by (cases a) (auto simp: comp_def)
qed simp

lemma distinct_mset_cong: "mset xs = mset ys \<Longrightarrow> distinct (map f xs) = distinct (map f ys)"
  by (metis mset_eq_imp_distinct_iff mset_map)

text \<open>An event that is queued for the subscriptions that \<open>p\<close> names.\<close>

lemma listeners_ok_log:
  assumes ok: "listeners_ok conv g (ls, ch)"
    and ls': "distinct (map fst ls')"
      "all_subs ls' = map (\<lambda>(m', l). (m', if p m' (is_custom (el_kind l)) then listener_start_send e l else l)) (all_subs ls)"
  shows "listeners_ok conv (log_event p e g) (ls', ch)"
proof -
  have chan: "(el_channel \<circ> snd) ((\<lambda>(m', l). (m', if p m' (is_custom (el_kind l)) then listener_start_send e l else l)) s) =
      (el_channel \<circ> snd) s" for s :: "string \<times> ('a, 'b) event_listener"
    by (cases s) (simp add: listener_start_send_def)
  have d: "map (el_channel \<circ> snd) (all_subs ls') = map (el_channel \<circ> snd) (all_subs ls)"
    unfolding ls'(2) map_map using chan by (intro map_cong) auto
  then have s: "(el_channel \<circ> snd) ` set (all_subs ls') = (el_channel \<circ> snd) ` set (all_subs ls)"
    by (metis list.set_map)
  show ?thesis
    using ok ls'(1) unfolding listeners_ok_def prod.case d s
    by (auto simp: ls'(2) sub_ok_def log_event_def listener_start_send_def split: if_splits)
qed

lemma listeners_ok_add:
  assumes ok: "listeners_ok conv g (ls, ch)" and r: "g (lr_channel r) = None"
    "lr_kind r = EkBuiltIn \<or> lr_kind r = EkCustom (conv (lr_method r))"
  shows "listeners_ok conv (log_step conv (LiAdd r) g) (add_listener r ls, ch)"
proof -
  let ?x = "(lr_method r, \<lparr>el_channel = lr_channel r, el_queued = [], el_kind = lr_kind r\<rparr>)"
  let ?ls = "add_listener r ls"
  have m: "mset (all_subs ?ls) = mset (?x # all_subs ls)" by (simp add: all_subs_add)
  then have s: "set (all_subs ?ls) = insert ?x (set (all_subs ls))" by (metis list.simps(15) mset_eq_setD)
  have fresh: "lr_channel r \<notin> (el_channel \<circ> snd) ` set (all_subs ls)"
    using ok r(1) by (fastforce simp: listeners_ok_def sub_ok_def)
  have d: "distinct (map (el_channel \<circ> snd) (all_subs ?ls))"
    using ok fresh distinct_mset_cong [OF m, of "el_channel \<circ> snd"] by (auto simp: listeners_ok_def)
  have other: "sub_ok conv (g(lr_channel r \<mapsto> v)) ch x" if "x \<in> set (all_subs ls)" for x v
    using ok that fresh by (fastforce simp: listeners_ok_def sub_ok_def image_iff)
  have "sub_ok conv (g(lr_channel r \<mapsto> (lr_method r, is_custom (lr_kind r), []))) ch ?x"
    using ok r by (auto simp: listeners_ok_def sub_ok_def)
  moreover have "distinct (map fst ?ls)" using ok by (simp add: listeners_ok_def add_listener_def distinct_update)
  ultimately show ?thesis
    unfolding listeners_ok_def prod.case s using ok d other by (auto simp: listeners_ok_def)
qed

lemma listeners_ok_custom:
  assumes ok: "listeners_ok conv g (ls, ch)"
  shows "listeners_ok conv (log_step conv (LiCustom m j) g) (listener_step (LiCustom m j) (ls, ch))"
proof -
  have d: "distinct (map fst ls)" using ok by (simp add: listeners_ok_def)
  have kinds: "el_kind l = EkBuiltIn \<or> el_kind l = EkCustom (conv m)" if "(m, l) \<in> set (all_subs ls)" for l
    using ok that by (auto simp: listeners_ok_def sub_ok_def)
  have subs: "map_of ls m = Some subs \<Longrightarrow> l \<in> set subs \<Longrightarrow> (m, l) \<in> set (all_subs ls)" for subs l
    by (auto simp: all_subs_def dest: map_of_SomeD)
  have subs': "(m, l) \<in> set (all_subs ls) \<Longrightarrow> \<exists>subs. map_of ls m = Some subs \<and> l \<in> set subs" for l
    using d by (auto simp: all_subs_def)
  let ?convs = "\<lambda>subs. List.map_filter (conversion \<circ> el_kind) subs"
  have quiet: "listeners_ok conv (log_event (\<lambda>m' k. m' = m \<and> k) e g) (ls, ch)"
    if "\<And>l. (m, l) \<in> set (all_subs ls) \<Longrightarrow> \<not> is_custom (el_kind l)" for e
  proof (rule listeners_ok_log [OF ok d])
    show "all_subs ls = map (\<lambda>(m', l). (m', if m' = m \<and> is_custom (el_kind l) then listener_start_send e l else l)) (all_subs ls)"
      using that by (intro map_idI [symmetric]) auto
  qed
  show ?thesis
  proof (cases "\<exists>l. (m, l) \<in> set (all_subs ls) \<and> is_custom (el_kind l)")
    case False
    have "?convs subs = []" if "map_of ls m = Some subs" for subs
    proof -
      have "conversion (el_kind l) = None" if "l \<in> set subs" for l
        using False subs [OF \<open>map_of ls m = Some subs\<close> that] by (cases "el_kind l") auto
      then show ?thesis by (simp add: List.map_filter_def filter_empty_conv)
    qed
    then have "try_send_custom m j ls = Inr ls" by (simp add: try_send_custom_def split: option.split)
    with False quiet ok show ?thesis by (auto split: sum.split)
  next
    case True
    then obtain l subs where l: "map_of ls m = Some subs" "l \<in> set subs" "is_custom (el_kind l)" using subs' by blast
    then have ck: "el_kind l = EkCustom (conv m)" using kinds [OF subs [OF l(1,2)]] by auto
    have all: "set (?convs subs) \<subseteq> {conv m}" using kinds subs [OF l(1)] by (fastforce simp: List.map_filter_def)
    have "conv m \<in> set (?convs subs)" using l(2) ck by (force simp: List.map_filter_def)
    with all obtain rest where rest: "?convs subs = conv m # rest" by (cases "?convs subs") auto
    show ?thesis
    proof (cases "conv m j")
      case (Inl err)
      with rest l(1) ok show ?thesis by (simp add: try_send_custom_def)
    next
      case (Inr e)
      let ?ls = "AList.map_entry m (map (\<lambda>l. if is_custom (el_kind l) then listener_start_send e l else l)) ls"
      have "listeners_ok conv (log_event (\<lambda>m' k. m' = m \<and> k) e g) (?ls, ch)"
        using d by (intro listeners_ok_log [OF ok]) (auto simp: all_subs_map_entry distinct_map_entry)
      with Inr rest l(1) show ?thesis by (simp add: try_send_custom_def)
    qed
  qed
qed

lemma listeners_ok_send:
  assumes ok: "listeners_ok conv g (ls, ch)"
  shows "listeners_ok conv (log_event (\<lambda>m' k. m' = m) e g) (start_send m e ls, ch)"
proof (rule listeners_ok_log [OF ok])
  have d: "distinct (map fst ls)" using ok by (simp add: listeners_ok_def)
  then show "distinct (map fst (start_send m e ls))" by (simp add: start_send_def distinct_map_entry)
  show "all_subs (start_send m e ls) =
      map (\<lambda>(m', l). (m', if m' = m then listener_start_send e l else l)) (all_subs ls)"
    using d by (simp add: start_send_def all_subs_map_entry)
qed

lemma pending_for_member:
  "distinct (map el_channel ls) \<Longrightarrow> l \<in> set ls \<Longrightarrow> pending_for (el_channel l) ls = el_queued l"
proof (induction ls)
  case (Cons x ls)
  show ?case
  proof (cases "l = x")
    case True
    then have "filter (\<lambda>y. el_channel y = el_channel l) ls = []"
      using Cons.prems(1) by (auto simp: filter_empty_conv image_iff dest: sym)
    with True show ?thesis by (simp add: pending_for_def)
  next
    case False
    then have "l \<in> set ls" using Cons.prems(2) by simp
    then have "el_channel x \<noteq> el_channel l" using Cons.prems(1) by (auto simp: image_iff)
    with Cons \<open>l \<in> set ls\<close> show ?thesis by (simp add: pending_for_def)
  qed
qed simp

lemma listeners_ok_poll:
  assumes ok: "listeners_ok conv g (ls, ch)"
  shows "listeners_ok conv g (listeners_poll ls ch)"
proof -
  obtain ls' ch' where p: "listeners_poll ls ch = (ls', ch')" by fastforce
  have d: "distinct (map (el_channel \<circ> snd) (all_subs ls))" using ok by (simp add: listeners_ok_def)
  let ?clear = "\<lambda>(m, l). (m, l\<lparr>el_queued := []\<rparr>)" and ?open = "\<lambda>(m, l). ch_open ch (el_channel l)"
  have spec: "mset (all_subs ls') = mset (map ?clear (filter ?open (all_subs ls)))" "ch_open ch' = ch_open ch"
      "ch_received ch' c = ch_received ch c @ (if ch_open ch c then pending_for c (map snd (all_subs ls)) else [])"
      "map fst ls' = map fst ls" for c
    using listeners_poll_spec [OF d, of ch c] p by simp_all
  have set: "set (all_subs ls') = ?clear ` set (filter ?open (all_subs ls))"
    using mset_eq_setD [OF spec(1)] by simp
  have eq: "map (el_channel \<circ> snd \<circ> ?clear) (filter ?open (all_subs ls)) = map (el_channel \<circ> snd) (filter ?open (all_subs ls))"
    by (intro map_cong) auto
  have d': "distinct (map (el_channel \<circ> snd) (all_subs ls'))"
    unfolding distinct_mset_cong [OF spec(1)] map_map eq by (rule distinct_map_filter [OF d])
  have got: "ch_received ch' (el_channel l) = ch_received ch (el_channel l) @ el_queued l"
    if "(m, l) \<in> set (all_subs ls)" "ch_open ch (el_channel l)" for m l
  proof -
    have "pending_for (el_channel l) (map snd (all_subs ls)) = el_queued l"
      using that(1) d by (intro pending_for_member) (force simp: comp_def)+
    with spec(3) that(2) show ?thesis by simp
  qed
  have "sub_ok conv g ch' s" if s: "s \<in> set (all_subs ls')" for s
  proof -
    obtain m l where "s = (m, l\<lparr>el_queued := []\<rparr>)" "(m, l) \<in> set (all_subs ls)" "ch_open ch (el_channel l)"
      using s unfolding set by auto
    with ok got show ?thesis by (fastforce simp: listeners_ok_def sub_ok_def)
  qed
  moreover have "c \<in> (el_channel \<circ> snd) ` set (all_subs ls')" if c: "ch_open ch' c" "g c \<noteq> None" for c
  proof -
    obtain s where s: "s \<in> set (all_subs ls)" "c = el_channel (snd s)"
      using ok c spec(2) by (auto simp: listeners_ok_def)
    then have "?clear s \<in> set (all_subs ls')" "(el_channel \<circ> snd) (?clear s) = c"
      using c(1) spec(2) unfolding set by (auto simp: split_def)
    then show ?thesis by blast
  qed
  moreover have "ch_received ch' c = []" if "g c = None" for c
  proof -
    have "c \<notin> (el_channel \<circ> snd) ` set (all_subs ls)" using ok that by (fastforce simp: listeners_ok_def sub_ok_def)
    then have "pending_for c (map snd (all_subs ls)) = []" by (force simp: pending_for_def filter_empty_conv)
    with ok that spec(3) show ?thesis by (simp add: listeners_ok_def)
  qed
  ultimately show ?thesis using ok d' spec(4) p by (simp add: listeners_ok_def)
qed

lemma map_filter_append: "List.map_filter f (xs @ ys) = List.map_filter f xs @ List.map_filter f ys"
  by (simp add: List.map_filter_def)

lemma logged_channels:
  "fold (log_step conv) is Map.empty c \<noteq> None \<longleftrightarrow> c \<in> lr_channel ` set (List.map_filter subscribes is)"
proof (induction "is" rule: rev_induct)
  case (snoc i "is")
  then show ?case by (cases i) (auto simp: map_filter_append List.map_filter_def log_event_def split: sum.split)
qed (simp add: List.map_filter_def)

lemma listeners_ok_run:
  "subscriptions_wf conv is \<Longrightarrow> listeners_ok conv (fold (log_step conv) is Map.empty) (fold listener_step is listeners_new)"
proof (induction "is" rule: rev_induct)
  case (snoc i "is")
  obtain ls ch where s: "fold listener_step is listeners_new = (ls, ch)" by fastforce
  let ?g = "fold (log_step conv) is Map.empty"
  have wf: "subscriptions_wf conv is"
    using snoc.prems by (auto simp: subscriptions_wf_def map_filter_append)
  with snoc.IH s have ok: "listeners_ok conv ?g (ls, ch)" by simp
  have "listeners_ok conv (log_step conv i ?g) (listener_step i (ls, ch))"
  proof (cases i)
    case (LiAdd r)
    have "?g (lr_channel r) = None" "lr_kind r = EkBuiltIn \<or> lr_kind r = EkCustom (conv (lr_method r))"
      using snoc.prems LiAdd logged_channels [of conv "is" "lr_channel r"]
      by (auto simp: subscriptions_wf_def map_filter_append List.map_filter_def)
    then show ?thesis using listeners_ok_add [OF ok] LiAdd by simp
  next
    case (LiCustom m j)
    then show ?thesis using listeners_ok_custom [OF ok] by simp
  next
    case (LiClose d)
    then show ?thesis using ok by (auto simp: listeners_ok_def sub_ok_def)
  qed (use listeners_ok_send [OF ok] listeners_ok_poll [OF ok] in simp_all)
  with s show ?case by simp
qed (simp add: listeners_ok_def listeners_new_def)

text \<open>C20: Every subscriber gets exactly the events it subscribed to, and the dropped ones are forgotten.
  Whatever listeners are added, events sent and receivers dropped, after a poll each receiver that still
  exists has received the events of its method since its subscription, each once and in the order they
  were sent, and a receiver that was dropped has received nothing more. The subscriptions that are left
  are those of the receivers that still exist, each once, under its method, with nothing queued; the
  removals and insertions of the poll itself neither skip nor repeat a subscription.\<close>

theorem events_reach_subscribers:
  assumes "subscriptions_wf conv is" "fold listener_step is listeners_new = (ls, ch)"
    and "listeners_poll ls ch = (ls', ch')" "log = fold (log_step conv) is Map.empty"
  shows "(\<forall>c m k es. ch_open ch c \<and> log c = Some (m, k, es) \<longrightarrow> ch_received ch' c = es) \<and>
    (\<forall>c. \<not> ch_open ch c \<longrightarrow> ch_received ch' c = ch_received ch c) \<and>
    distinct (map (el_channel \<circ> snd) (all_subs ls')) \<and>
    (el_channel \<circ> snd) ` set (all_subs ls') = {c. ch_open ch c \<and> log c \<noteq> None} \<and>
    (\<forall>(m, l)\<in>set (all_subs ls'). el_queued l = [] \<and> (\<exists>k es. log (el_channel l) = Some (m, k, es)))"
proof -
  have ok: "listeners_ok conv log (ls, ch)" using listeners_ok_run [OF assms(1)] assms(2,4) by simp
  then have d: "distinct (map (el_channel \<circ> snd) (all_subs ls))" by (simp add: listeners_ok_def)
  note spec = listeners_poll_spec [OF d, of ch, unfolded assms(3) fst_conv snd_conv]
  let ?clear = "\<lambda>(m, l). (m, l\<lparr>el_queued := []\<rparr>)" and ?open = "\<lambda>(m, l). ch_open ch (el_channel l)"
  have ok': "listeners_ok conv log (ls', ch')" using listeners_ok_poll [OF ok] assms(3) by simp
  have set: "set (all_subs ls') = ?clear ` set (filter ?open (all_subs ls))"
    using mset_eq_setD [OF conjunct1 [OF spec]] by simp
  have left: "el_queued l = [] \<and> ch_open ch (el_channel l) \<and> (\<exists>k. log (el_channel l) = Some (m, k, ch_received ch' (el_channel l)))"
    if "(m, l) \<in> set (all_subs ls')" for m l
  proof -
    have "el_queued l = [] \<and> ch_open ch (el_channel l)" using that unfolding set by auto
    moreover have "sub_ok conv log ch' (m, l)" using ok' that by (simp add: listeners_ok_def)
    ultimately show ?thesis using spec by (auto simp: sub_ok_def)
  qed
  have stays: "c \<in> (el_channel \<circ> snd) ` set (all_subs ls')" if "ch_open ch c" "log c \<noteq> None" for c
    using ok' that spec by (auto simp: listeners_ok_def)
  have got: "ch_received ch' c = es" if "ch_open ch c" "log c = Some (m, k, es)" for c m k es
    using stays [OF that(1)] that(2) left by fastforce
  have "ch_received ch' c = ch_received ch c" if "\<not> ch_open ch c" for c using spec that by simp
  moreover have "distinct (map (el_channel \<circ> snd) (all_subs ls'))" using ok' by (simp add: listeners_ok_def)
  moreover have "(el_channel \<circ> snd) ` set (all_subs ls') = {c. ch_open ch c \<and> log c \<noteq> None}"
    using stays left by fastforce
  ultimately show ?thesis using got left by fast
qed

definition toy_listener_inputs :: "(nat, nat) listener_input list" where
  "toy_listener_inputs =
     [LiAdd \<lparr>lr_channel = 0, lr_method = ''a'', lr_kind = EkBuiltIn\<rparr>, LiSend ''a'' 1,
      LiAdd \<lparr>lr_channel = 1, lr_method = ''a'', lr_kind = EkBuiltIn\<rparr>, LiPoll, LiSend ''a'' 2, LiSend ''b'' 3, LiClose 0]"

theorem events_reach_subscribers_witness:
  "ch_received (snd (case_prod listeners_poll (fold listener_step toy_listener_inputs listeners_new))) 1 = [2] \<and>
   0 \<notin> (el_channel \<circ> snd) ` set (all_subs (fst (case_prod listeners_poll (fold listener_step toy_listener_inputs listeners_new))))"
proof -
  let ?log = "fold (log_step (\<lambda>m j. Inr 0)) toy_listener_inputs Map.empty"
  obtain ls ch where s: "fold listener_step toy_listener_inputs listeners_new = (ls, ch)" by fastforce
  obtain ls' ch' where p: "listeners_poll ls ch = (ls', ch')" by fastforce
  have wf: "subscriptions_wf (\<lambda>m j. Inr 0) toy_listener_inputs"
    by (simp add: subscriptions_wf_def toy_listener_inputs_def List.map_filter_def)
  have "ch_open (snd (fold listener_step toy_listener_inputs (listeners_new :: (nat, nat) listener_state))) 1"
    "\<not> ch_open (snd (fold listener_step toy_listener_inputs (listeners_new :: (nat, nat) listener_state))) 0"
    by (simp_all add: toy_listener_inputs_def listeners_new_def add_listener_def start_send_def sweep.simps
        swap_remove_def poll_subscription_eq opt_list_def deliver_def eval_nat_numeral)
  then have o: "ch_open ch 1" "\<not> ch_open ch 0" using s by simp_all
  have log: "?log 1 = Some (''a'', False, [2])" by (simp add: toy_listener_inputs_def log_event_def)
  note reach = events_reach_subscribers [OF wf s p refl]
  have "ch_received ch' 1 = [2]" using conjunct1 [OF reach] o(1) log by blast
  moreover have "0 \<notin> (el_channel \<circ> snd) ` set (all_subs ls')" using reach o(2) by auto
  ultimately show ?thesis using s p by simp
qed

end
