(* ===== verification/Cdp_Futures.thy ===== *)
theory Cdp_Futures
  imports Cdp_Handler
begin

text \<open>
  The futures behind the methods of a page (\<open>handler/commandfuture.rs\<close>, \<open>handler/target_message_future.rs\<close>,
  \<open>handler/httpfuture.rs\<close>): a message is sent once the channel is ready, then the answer is waited for,
  and an HTTP future waits for the navigation once its command has been answered. One poll sees the
  state of the channels and of the timer in a \<open>poll_view\<close>.
\<close>

datatype 'a polled = Pending | Ready 'a

datatype 'a receiver = RxEmpty | RxCanceled | RxValue 'a

record 'r poll_view =
  pv_sink :: "(cdp_error + unit) polled"
  pv_send :: "cdp_error + unit"
  pv_delay :: bool
  pv_rx :: "'r receiver"

text \<open>The error of a canceled channel.\<close>

definition canceled :: cdp_error where
  "canceled = CeChannelSend ''oneshot canceled''"

section \<open>Messages to the target\<close>

text \<open>The message of a \<open>TargetMessageFuture\<close> that is still to be sent; a poll gives the messages it sends.\<close>

record 'm message_future =
  mf_message :: "'m option"

definition message_future_poll ::
    "'r poll_view \<Rightarrow> 'm message_future \<Rightarrow> (cdp_error + 'r) polled \<times> 'm message_future \<times> 'm list" where
  "message_future_poll v f =
     (case mf_message f of
        Some m \<Rightarrow>
          (case pv_sink v of
             Ready (Inl e) \<Rightarrow> (Ready (Inl e), f, [])
           | Ready (Inr _) \<Rightarrow>
               (case pv_send v of
                  Inl e \<Rightarrow> (Ready (Inl e), f\<lparr>mf_message := None\<rparr>, [])
                | Inr _ \<Rightarrow> (Pending, f\<lparr>mf_message := None\<rparr>, [m]))
           | Pending \<Rightarrow> (Pending, f, []))
      | None \<Rightarrow>
          (case pv_rx v of
             RxEmpty \<Rightarrow> (Pending, f, [])
           | RxCanceled \<Rightarrow> (Ready (Inl canceled), f, [])
           | RxValue x \<Rightarrow> (Ready (Inr x), f, [])))"

definition wait_for_navigation_future :: "'m \<Rightarrow> 'm message_future" where
  "wait_for_navigation_future m = \<lparr>mf_message = Some m\<rparr>"

section \<open>Commands\<close>

text \<open>The answer of a command is itself a result; \<open>conv\<close> is the conversion of a response to the type of the command.\<close>

definition command_future_poll ::
    "('r \<Rightarrow> cdp_error + 'a) \<Rightarrow> (cdp_error + 'r) poll_view \<Rightarrow> 'm message_future \<Rightarrow>
     (cdp_error + 'a) polled \<times> 'm message_future \<times> 'm list" where
  "command_future_poll conv v f =
     (case mf_message f of
        Some m \<Rightarrow>
          (case pv_sink v of
             Ready (Inl e) \<Rightarrow> (Ready (Inl e), f, [])
           | Ready (Inr _) \<Rightarrow>
               (case pv_send v of
                  Inl e \<Rightarrow> (Ready (Inl e), f\<lparr>mf_message := None\<rparr>, [])
                | Inr _ \<Rightarrow> (Pending, f\<lparr>mf_message := None\<rparr>, [m]))
           | Pending \<Rightarrow> (Pending, f, []))
      | None \<Rightarrow>
          if pv_delay v then (Ready (Inl CeTimeout), f, [])
          else (case pv_rx v of
             RxValue (Inr r) \<Rightarrow> (Ready (conv r), f, [])
           | RxValue (Inl e) \<Rightarrow> (Ready (Inl e), f, [])
           | RxCanceled \<Rightarrow> (Ready (Inl canceled), f, [])
           | RxEmpty \<Rightarrow> (Pending, f, [])))"

section \<open>Navigations\<close>

text \<open>The command is fused: \<open>None\<close> once it has given its result.\<close>

record 'm http_future =
  hf_command :: "'m message_future option"
  hf_navigation :: "'m message_future"

definition http_future_new :: "'m \<Rightarrow> 'm \<Rightarrow> 'm http_future" where
  "http_future_new cmd nav = \<lparr>hf_command = Some \<lparr>mf_message = Some cmd\<rparr>, hf_navigation = wait_for_navigation_future nav\<rparr>"

definition http_future_poll ::
    "('r \<Rightarrow> cdp_error + 'a) \<Rightarrow> (cdp_error + 'r) poll_view \<Rightarrow> 'n poll_view \<Rightarrow> 'm http_future \<Rightarrow>
     (cdp_error + 'n) polled \<times> 'm http_future \<times> 'm list" where
  "http_future_poll conv vc vn f =
     (case hf_command f of
        None \<Rightarrow>
          (case message_future_poll vn (hf_navigation f) of
             (r, n, sent) \<Rightarrow> (r, f\<lparr>hf_navigation := n\<rparr>, sent))
      | Some c \<Rightarrow>
          (case command_future_poll conv vc c of
             (Pending, c', sent) \<Rightarrow> (Pending, f\<lparr>hf_command := Some c'\<rparr>, sent)
           | (Ready (Inr _), c', sent) \<Rightarrow> (Pending, f\<lparr>hf_command := None\<rparr>, sent)
           | (Ready (Inl e), c', sent) \<Rightarrow> (Ready (Inl e), f\<lparr>hf_command := None\<rparr>, sent)))"

text \<open>The polls of an HTTP future until it is ready: the messages sent and the result.\<close>

fun http_future_run ::
    "('r \<Rightarrow> cdp_error + 'a) \<Rightarrow> ((cdp_error + 'r) poll_view \<times> 'n poll_view) list \<Rightarrow> 'm http_future \<Rightarrow>
     'm list \<times> (cdp_error + 'n) option" where
  "http_future_run conv [] f = ([], None)"
| "http_future_run conv ((vc, vn) # vs) f =
     (case http_future_poll conv vc vn f of
        (Ready r, f', sent) \<Rightarrow> (sent, Some r)
      | (Pending, f', sent) \<Rightarrow> (case http_future_run conv vs f' of (sent', r) \<Rightarrow> (sent @ sent', r)))"

section \<open>Facts\<close>

text \<open>What is still to be sent, in order.\<close>

definition unsent :: "'m http_future \<Rightarrow> 'm list" where
  "unsent f =
     (case hf_command f of Some c \<Rightarrow> (case mf_message c of Some m \<Rightarrow> [m] | None \<Rightarrow> []) | None \<Rightarrow> []) @
     (case mf_message (hf_navigation f) of Some m \<Rightarrow> [m] | None \<Rightarrow> [])"

lemma http_poll_pending:
  "http_future_poll conv vc vn f = (Pending, f', sent) \<Longrightarrow> sent @ unsent f' = unsent f"
  by (auto simp: http_future_poll_def command_future_poll_def message_future_poll_def unsent_def
      split: option.splits polled.splits sum.splits receiver.splits if_splits)

lemma http_poll_ready:
  "http_future_poll conv vc vn f = (Ready r, f', sent) \<Longrightarrow> sent = [] \<and>
     (\<forall>x. r = Inr x \<longrightarrow> hf_command f = None \<and> mf_message (hf_navigation f) = None \<and> pv_rx vn = RxValue x)"
  by (auto simp: http_future_poll_def command_future_poll_def message_future_poll_def
      split: option.splits polled.splits sum.splits receiver.splits if_splits)

lemma http_poll_answered:
  "http_future_poll conv vc vn f = (p, f', sent) \<Longrightarrow> hf_command f \<noteq> None \<Longrightarrow>
     hf_navigation f' = hf_navigation f \<and>
     (hf_command f' = None \<and> p = Pending \<longrightarrow> (\<exists>y a. pv_rx vc = RxValue (Inr y) \<and> conv y = Inr a))"
  by (auto simp: http_future_poll_def command_future_poll_def
      split: option.splits polled.splits sum.splits receiver.splits if_splits)

lemma http_run_step:
  assumes "http_future_run conv ((vc, vn) # vs) f = (sent, r)"
  obtains (ready) q f' where "http_future_poll conv vc vn f = (Ready q, f', sent)" "r = Some q"
  | (pending) f' s s' where "http_future_poll conv vc vn f = (Pending, f', s)" "http_future_run conv vs f' = (s', r)"
      "sent = s @ s'"
  using assms by (auto split: prod.splits polled.splits)

lemma http_run_sent:
  "http_future_run conv vs f = (sent, r) \<Longrightarrow>
     (\<exists>rest. sent @ rest = unsent f \<and> (\<forall>x. r = Some (Inr x) \<longrightarrow> rest = [])) \<and>
     (\<forall>x. r = Some (Inr x) \<longrightarrow> (\<exists>v\<in>set vs. pv_rx (snd v) = RxValue x))"
proof (induction vs arbitrary: f sent r)
  case Nil
  then show ?case by simp
next
  case (Cons v vs)
  obtain vc vn where v: "v = (vc, vn)" by (cases v)
  from Cons.prems [unfolded v] show ?case
  proof (cases rule: http_run_step)
    case (ready q f')
    then show ?thesis using http_poll_ready [of conv vc vn f q f' sent] v by (auto simp: unsent_def)
  next
    case (pending f' s s')
    from Cons.IH [OF pending(2)] obtain rest where rest: "s' @ rest = unsent f'" "\<forall>x. r = Some (Inr x) \<longrightarrow> rest = []"
        and x: "\<forall>x. r = Some (Inr x) \<longrightarrow> (\<exists>v\<in>set vs. pv_rx (snd v) = RxValue x)" by blast
    have "sent @ rest = unsent f" using http_poll_pending [OF pending(1)] pending(3) rest(1) by simp
    then show ?thesis using rest(2) x by auto
  qed
qed

lemma http_run_answered:
  "http_future_run conv vs f = (sent, r) \<Longrightarrow> hf_command f \<noteq> None \<Longrightarrow> mf_message (hf_navigation f) \<noteq> None \<Longrightarrow>
     sent = unsent f \<Longrightarrow> \<exists>v\<in>set vs. \<exists>y a. pv_rx (fst v) = RxValue (Inr y) \<and> conv y = Inr a"
proof (induction vs arbitrary: f sent r)
  case Nil
  then show ?case by (auto simp: unsent_def)
next
  case (Cons v vs)
  obtain vc vn where v: "v = (vc, vn)" by (cases v)
  from Cons.prems(1) [unfolded v] show ?case
  proof (cases rule: http_run_step)
    case (ready q f')
    then have "sent = []" using http_poll_ready [of conv vc vn f q f' sent] by blast
    then show ?thesis using Cons.prems(3,4) by (auto simp: unsent_def)
  next
    case (pending f' s s')
    have n: "hf_navigation f' = hf_navigation f" using http_poll_answered [OF pending(1) Cons.prems(2)] by simp
    show ?thesis
    proof (cases "hf_command f' = None")
      case True
      then show ?thesis using http_poll_answered [OF pending(1) Cons.prems(2)] v by auto
    next
      case False
      have "s' = unsent f'" using http_poll_pending [OF pending(1)] pending(3) Cons.prems(4) by simp
      then show ?thesis using Cons.IH [OF pending(2) False] n Cons.prems(3) by auto
    qed
  qed
qed

text \<open>
  A navigating command sends its command and then, only after a successful answer to it, the wait for
  the navigation, each at most once and in this order; it succeeds only after both have been sent,
  and with the request that the target reported.
\<close>

theorem http_future_order:
  assumes "http_future_run conv vs (http_future_new cmd nav) = (sent, r)"
  shows "sent \<in> {[], [cmd], [cmd, nav]} \<and>
    (sent = [cmd, nav] \<longrightarrow> (\<exists>v\<in>set vs. \<exists>y a. pv_rx (fst v) = RxValue (Inr y) \<and> conv y = Inr a)) \<and>
    (\<forall>x. r = Some (Inr x) \<longrightarrow> sent = [cmd, nav] \<and> (\<exists>v\<in>set vs. pv_rx (snd v) = RxValue x))"
proof -
  have u: "unsent (http_future_new cmd nav) = [cmd, nav]"
    by (simp add: unsent_def http_future_new_def wait_for_navigation_future_def)
  obtain rest where rest: "sent @ rest = [cmd, nav]" "\<forall>x. r = Some (Inr x) \<longrightarrow> rest = []"
      and x: "\<forall>x. r = Some (Inr x) \<longrightarrow> (\<exists>v\<in>set vs. pv_rx (snd v) = RxValue x)"
    using http_run_sent [OF assms] u by auto
  have "sent = [cmd, nav] \<longrightarrow> (\<exists>v\<in>set vs. \<exists>y a. pv_rx (fst v) = RxValue (Inr y) \<and> conv y = Inr a)"
    using http_run_answered [OF assms] u by (simp add: http_future_new_def wait_for_navigation_future_def)
  then show ?thesis using rest x by (auto simp: append_eq_Cons_conv)
qed

definition view_of :: "'r receiver \<Rightarrow> 'r poll_view" where
  "view_of rx = \<lparr>pv_sink = Ready (Inr ()), pv_send = Inr (), pv_delay = False, pv_rx = rx\<rparr>"

theorem http_future_order_witness:
  "http_future_run Inr [(view_of RxEmpty, view_of RxEmpty), (view_of (RxValue (Inr ())), view_of RxEmpty),
      (view_of RxEmpty, view_of RxEmpty), (view_of RxEmpty, view_of (RxValue ''page''))] (http_future_new ''c'' ''w'') =
     ([''c'', ''w''], Some (Inr ''page'')) \<and>
   (\<exists>v\<in>{(view_of RxEmpty, view_of RxEmpty), (view_of (RxValue (Inr ())), view_of RxEmpty),
      (view_of RxEmpty, view_of RxEmpty), (view_of RxEmpty, view_of (RxValue ''page''))}. pv_rx (snd v) = RxValue ''page'')"
proof -
  have run: "http_future_run Inr [(view_of RxEmpty, view_of RxEmpty), (view_of (RxValue (Inr ())), view_of RxEmpty),
      (view_of RxEmpty, view_of RxEmpty), (view_of RxEmpty, view_of (RxValue ''page''))] (http_future_new ''c'' ''w'') =
     ([''c'', ''w''], Some (Inr ''page''))"
    by (simp add: http_future_new_def wait_for_navigation_future_def http_future_poll_def command_future_poll_def
        message_future_poll_def view_of_def)
  from http_future_order [OF run] run show ?thesis by simp
qed

text \<open>A command that cannot be sent does not time out; one that has been sent does.\<close>

lemma command_timeout_after_send:
  "command_future_poll conv v f = (Ready (Inl CeTimeout), f', sent) \<Longrightarrow>
     (mf_message f = None \<and> pv_delay v) \<or> pv_sink v = Ready (Inl CeTimeout) \<or> pv_send v = Inl CeTimeout \<or>
     (\<exists>r. pv_rx v = RxValue (Inr r) \<and> conv r = Inl CeTimeout) \<or> pv_rx v = RxValue (Inl CeTimeout)"
  by (auto simp: command_future_poll_def canceled_def split: option.splits polled.splits sum.splits receiver.splits if_splits)

end
