(* ===== verification/Cdp_Layout.thy ===== *)
theory Cdp_Layout
  imports Prelude Complex_Main
begin

text \<open>
  The geometry of elements (\<open>layout.rs\<close>): points, quads and box models. A coordinate, an \<open>f64\<close> that
  the browser reports in pixels, is the rational number that it stands for and arithmetic is exact;
  a quotient by zero, which \<open>f64\<close> makes an infinity or NaN, is \<open>None\<close>.
\<close>

type_synonym coord = rat

record point =
  pt_x :: coord
  pt_y :: coord

definition point_new :: "coord \<Rightarrow> coord \<Rightarrow> point" where
  "point_new x y = \<lparr>pt_x = x, pt_y = y\<rparr>"

text \<open>The signed area of the triangle of two points and the origin.\<close>

definition point_area :: "point \<Rightarrow> point \<Rightarrow> coord" where
  "point_area p q = (pt_x p * pt_y q - pt_x q * pt_y p) / 2"

definition point_add :: "point \<Rightarrow> point \<Rightarrow> point" where
  "point_add p q = \<lparr>pt_x = pt_x p + pt_x q, pt_y = pt_y p + pt_y q\<rparr>"

definition point_sub :: "point \<Rightarrow> point \<Rightarrow> point" where
  "point_sub p q = \<lparr>pt_x = pt_x p - pt_x q, pt_y = pt_y p - pt_y q\<rparr>"

definition quotient :: "coord \<Rightarrow> coord \<Rightarrow> coord option" where
  "quotient a b = (if b = 0 then None else Some (a / b))"

definition point_div :: "point \<Rightarrow> coord \<Rightarrow> point option" where
  "point_div p d = (if d = 0 then None else Some \<lparr>pt_x = pt_x p / d, pt_y = pt_y p / d\<rparr>)"

section \<open>Quads\<close>

record element_quad =
  q_top_left :: point
  q_top_right :: point
  q_bottom_right :: point
  q_bottom_left :: point

text \<open>\<open>None\<close> is the failed assertion that a quad has eight coordinates.\<close>

definition from_quad :: "coord list \<Rightarrow> element_quad option" where
  "from_quad cs =
     (case cs of
        [x0, y0, x1, y1, x2, y2, x3, y3] \<Rightarrow>
          Some \<lparr>q_top_left = point_new x0 y0, q_top_right = point_new x1 y1,
                q_bottom_right = point_new x2 y2, q_bottom_left = point_new x3 y3\<rparr>
      | _ \<Rightarrow> None)"

definition quad_center :: "element_quad \<Rightarrow> point" where
  "quad_center q =
     \<lparr>pt_x = (pt_x (q_top_left q) + pt_x (q_top_right q) + pt_x (q_bottom_right q) + pt_x (q_bottom_left q)) / 4,
      pt_y = (pt_y (q_top_left q) + pt_y (q_top_right q) + pt_y (q_bottom_right q) + pt_y (q_bottom_left q)) / 4\<rparr>"

definition quad_area :: "element_quad \<Rightarrow> coord" where
  "quad_area q =
     \<bar>point_area (q_top_left q) (q_top_right q) + point_area (q_top_right q) (q_bottom_right q) +
      point_area (q_bottom_right q) (q_bottom_left q) + point_area (q_bottom_left q) (q_top_left q)\<bar>"

definition quad_height :: "element_quad \<Rightarrow> coord" where
  "quad_height q = pt_y (q_bottom_left q) - pt_y (q_top_left q)"

definition quad_width :: "element_quad \<Rightarrow> coord" where
  "quad_width q = pt_x (q_top_right q) - pt_x (q_top_left q)"

definition aspect_ratio :: "element_quad \<Rightarrow> coord option" where
  "aspect_ratio q = quotient (quad_width q) (quad_height q)"

definition most_left :: "element_quad \<Rightarrow> coord" where
  "most_left q =
     min (min (min (pt_x (q_top_right q)) (pt_x (q_top_left q))) (pt_x (q_bottom_right q))) (pt_x (q_bottom_left q))"

definition most_right :: "element_quad \<Rightarrow> coord" where
  "most_right q =
     max (max (max (pt_x (q_top_right q)) (pt_x (q_top_left q))) (pt_x (q_bottom_right q))) (pt_x (q_bottom_left q))"

definition most_top :: "element_quad \<Rightarrow> coord" where
  "most_top q =
     min (min (min (pt_y (q_top_right q)) (pt_y (q_top_left q))) (pt_y (q_bottom_right q))) (pt_y (q_bottom_left q))"

definition most_bottom :: "element_quad \<Rightarrow> coord" where
  "most_bottom q =
     max (max (max (pt_y (q_top_right q)) (pt_y (q_top_left q))) (pt_y (q_bottom_right q))) (pt_y (q_bottom_left q))"

definition strictly_above :: "element_quad \<Rightarrow> element_quad \<Rightarrow> bool" where
  "strictly_above a b \<longleftrightarrow> most_bottom a < most_top b"

definition quad_above :: "element_quad \<Rightarrow> element_quad \<Rightarrow> bool" where
  "quad_above a b \<longleftrightarrow> most_bottom a \<le> most_top b"

definition strictly_below :: "element_quad \<Rightarrow> element_quad \<Rightarrow> bool" where
  "strictly_below a b \<longleftrightarrow> most_top a > most_bottom b"

definition quad_below :: "element_quad \<Rightarrow> element_quad \<Rightarrow> bool" where
  "quad_below a b \<longleftrightarrow> most_top a \<ge> most_bottom b"

definition strictly_left_of :: "element_quad \<Rightarrow> element_quad \<Rightarrow> bool" where
  "strictly_left_of a b \<longleftrightarrow> most_right a < most_left b"

definition left_of :: "element_quad \<Rightarrow> element_quad \<Rightarrow> bool" where
  "left_of a b \<longleftrightarrow> most_right a \<le> most_left b"

definition strictly_right_of :: "element_quad \<Rightarrow> element_quad \<Rightarrow> bool" where
  "strictly_right_of a b \<longleftrightarrow> most_left a > most_right b"

definition right_of :: "element_quad \<Rightarrow> element_quad \<Rightarrow> bool" where
  "right_of a b \<longleftrightarrow> most_left a \<ge> most_right b"

definition within_horizontal_bounds_of :: "element_quad \<Rightarrow> element_quad \<Rightarrow> bool" where
  "within_horizontal_bounds_of a b \<longleftrightarrow> most_left a \<ge> most_left b \<and> most_right a \<le> most_right b"

definition within_vertical_bounds_of :: "element_quad \<Rightarrow> element_quad \<Rightarrow> bool" where
  "within_vertical_bounds_of a b \<longleftrightarrow> most_top a \<ge> most_top b \<and> most_bottom a \<le> most_bottom b"

definition within_bounds_of :: "element_quad \<Rightarrow> element_quad \<Rightarrow> bool" where
  "within_bounds_of a b \<longleftrightarrow> within_horizontal_bounds_of a b \<and> within_vertical_bounds_of a b"

section \<open>Boxes\<close>

record box_model =
  bm_content :: element_quad
  bm_padding :: element_quad
  bm_border :: element_quad
  bm_margin :: element_quad
  bm_width :: "32 word"
  bm_height :: "32 word"

record clip_viewport =
  cv_x :: coord
  cv_y :: coord
  cv_width :: coord
  cv_height :: coord
  cv_scale :: coord

definition quad_viewport :: "element_quad \<Rightarrow> clip_viewport" where
  "quad_viewport q =
     \<lparr>cv_x = pt_x (q_top_left q), cv_y = pt_y (q_top_left q), cv_width = quad_width q, cv_height = quad_height q,
      cv_scale = 1\<rparr>"

definition content_viewport :: "box_model \<Rightarrow> clip_viewport" where
  "content_viewport b = quad_viewport (bm_content b)"

definition padding_viewport :: "box_model \<Rightarrow> clip_viewport" where
  "padding_viewport b = quad_viewport (bm_padding b)"

definition border_viewport :: "box_model \<Rightarrow> clip_viewport" where
  "border_viewport b = quad_viewport (bm_border b)"

definition margin_viewport :: "box_model \<Rightarrow> clip_viewport" where
  "margin_viewport b = quad_viewport (bm_margin b)"

record bounding_box =
  bx_x :: coord
  bx_y :: coord
  bx_width :: coord
  bx_height :: coord

section \<open>Facts\<close>

lemmas extents = most_left_def most_right_def most_top_def most_bottom_def

text \<open>The points of the smallest box with sides along the axes.\<close>

definition inside :: "point \<Rightarrow> element_quad \<Rightarrow> bool" where
  "inside p q \<longleftrightarrow> most_left q \<le> pt_x p \<and> pt_x p \<le> most_right q \<and> most_top q \<le> pt_y p \<and> pt_y p \<le> most_bottom q"

lemma mean_between:
  fixes m a b c d :: rat
  shows "\<lbrakk>m \<le> a; m \<le> b; m \<le> c; m \<le> d\<rbrakk> \<Longrightarrow> m \<le> (a + b + c + d) / 4"
    and "\<lbrakk>a \<le> m; b \<le> m; c \<le> m; d \<le> m\<rbrakk> \<Longrightarrow> (a + b + c + d) / 4 \<le> m"
  by auto

lemma extents_le:
  "most_left q \<le> pt_x (q_top_left q)" "most_left q \<le> pt_x (q_top_right q)"
  "most_left q \<le> pt_x (q_bottom_right q)" "most_left q \<le> pt_x (q_bottom_left q)"
  "most_top q \<le> pt_y (q_top_left q)" "most_top q \<le> pt_y (q_top_right q)"
  "most_top q \<le> pt_y (q_bottom_right q)" "most_top q \<le> pt_y (q_bottom_left q)"
  by (auto simp: extents)

lemma extents_ge:
  "pt_x (q_top_left q) \<le> most_right q" "pt_x (q_top_right q) \<le> most_right q"
  "pt_x (q_bottom_right q) \<le> most_right q" "pt_x (q_bottom_left q) \<le> most_right q"
  "pt_y (q_top_left q) \<le> most_bottom q" "pt_y (q_top_right q) \<le> most_bottom q"
  "pt_y (q_bottom_right q) \<le> most_bottom q" "pt_y (q_bottom_left q) \<le> most_bottom q"
  by (auto simp: extents)

lemma center_inside: "inside (quad_center q) q"
  unfolding inside_def quad_center_def point.select_convs
  by (intro conjI mean_between extents_le extents_ge)

lemma corners_inside:
  "inside (q_top_left q) q" "inside (q_top_right q) q" "inside (q_bottom_right q) q" "inside (q_bottom_left q) q"
  by (simp_all add: inside_def extents_le extents_ge)

lemma inside_mono: "within_bounds_of a b \<Longrightarrow> inside p a \<Longrightarrow> inside p b"
  by (auto simp: within_bounds_of_def within_horizontal_bounds_of_def within_vertical_bounds_of_def inside_def)

text \<open>
  The points strictly inside the quad itself, which may be rotated: averages of its four corners in
  which every corner has a positive weight.
\<close>

definition strictly_within :: "point \<Rightarrow> element_quad \<Rightarrow> bool" where
  "strictly_within p q \<longleftrightarrow>
     (\<exists>a b c d. 0 < a \<and> 0 < b \<and> 0 < c \<and> 0 < d \<and> a + b + c + d = 1 \<and>
        pt_x p = a * pt_x (q_top_left q) + b * pt_x (q_top_right q) + c * pt_x (q_bottom_right q) + d * pt_x (q_bottom_left q) \<and>
        pt_y p = a * pt_y (q_top_left q) + b * pt_y (q_top_right q) + c * pt_y (q_bottom_right q) + d * pt_y (q_bottom_left q))"

lemma center_strictly_within: "strictly_within (quad_center q) q"
  unfolding strictly_within_def quad_center_def point.select_convs
  by (rule exI [of _ "1 / 4"])+ simp

text \<open>Such a point is in the box around the quad too, but not the other way round: a corner of the box of a diamond is outside.\<close>

lemma box_corner_outside:
  "\<exists>q p. inside p q \<and> \<not> strictly_within p q \<and> quad_area q = 2"
proof -
  let ?q = "\<lparr>q_top_left = point_new 0 1, q_top_right = point_new 1 0, q_bottom_right = point_new 2 1, q_bottom_left = point_new 1 2\<rparr>"
  have "a + b * 0 + c * 1 + d * 2 \<noteq> 0 \<or> \<not> (0 < a \<and> 0 < c \<and> 0 < d)" for a b c d :: rat by auto
  then have "\<not> strictly_within (point_new 0 0) ?q"
    by (fastforce simp: strictly_within_def point_new_def)
  moreover have "inside (point_new 0 0) ?q" "quad_area ?q = 2"
    by (simp_all add: inside_def extents point_new_def quad_area_def point_area_def)
  ultimately show ?thesis by blast
qed

text \<open>The area of a quad does not change with a shift, and that of an upright rectangle is width times height.\<close>

definition shift_quad :: "point \<Rightarrow> element_quad \<Rightarrow> element_quad" where
  "shift_quad d q =
     \<lparr>q_top_left = point_add (q_top_left q) d, q_top_right = point_add (q_top_right q) d,
      q_bottom_right = point_add (q_bottom_right q) d, q_bottom_left = point_add (q_bottom_left q) d\<rparr>"

lemma area_shift: "quad_area (shift_quad d q) = quad_area q"
proof -
  have "point_area (point_add a d) (point_add b d) + point_area (point_add b d) (point_add c d) +
      point_area (point_add c d) (point_add e d) + point_area (point_add e d) (point_add a d) =
      point_area a b + point_area b c + point_area c e + point_area e a" for a b c e
    by (simp add: point_area_def point_add_def field_simps)
  then show ?thesis by (simp add: quad_area_def shift_quad_def)
qed

lemma area_rectangle:
  assumes "pt_y (q_top_right q) = pt_y (q_top_left q)" "pt_y (q_bottom_right q) = pt_y (q_bottom_left q)"
    and "pt_x (q_bottom_left q) = pt_x (q_top_left q)" "pt_x (q_bottom_right q) = pt_x (q_top_right q)"
  shows "quad_area q = \<bar>quad_width q * quad_height q\<bar>"
proof -
  have "(a * t - b * t) / 2 + (b * u - b * t) / 2 + (b * u - a * u) / 2 + (a * t - a * u) / 2 = (b - a) * (u - t)"
    for a b t u :: rat by (simp add: field_simps)
  then show ?thesis using assms by (simp add: quad_area_def point_area_def quad_width_def quad_height_def)
qed

end
