(* ===== verification/Cdp_Keys.thy ===== *)
theory Cdp_Keys
  imports Prelude
begin

text \<open>
  The keyboard of the browser driver (\<open>keys.rs\<close>): the definitions of the US layout in the order of
  the table, of which the first one with a name counts. The table is cut into pieces of 25 keys.
\<close>

record key_definition =
  kd_key :: string
  kd_code_number :: int
  kd_code :: string
  kd_text :: "string option"

definition key_def :: "string \<Rightarrow> int \<Rightarrow> string \<Rightarrow> string option \<Rightarrow> key_definition" where
  "key_def k n c t = \<lparr>kd_key = k, kd_code_number = n, kd_code = c, kd_text = t\<rparr>"

definition keys_1 :: "key_definition list" where
  "keys_1 =
    [key_def ''0'' 48 ''Digit0'' None, key_def ''1'' 49 ''Digit1'' None, key_def ''2'' 50 ''Digit2'' None,
     key_def ''3'' 51 ''Digit3'' None, key_def ''4'' 52 ''Digit4'' None, key_def ''5'' 53 ''Digit5'' None,
     key_def ''6'' 54 ''Digit6'' None, key_def ''7'' 55 ''Digit7'' None, key_def ''8'' 56 ''Digit8'' None,
     key_def ''9'' 57 ''Digit9'' None, key_def ''Power'' 0 ''Power'' None,
     key_def ''Eject'' 0 ''Eject'' None, key_def ''Cancel'' 3 ''Abort'' None,
     key_def ''Help'' 6 ''Help'' None, key_def ''Backspace'' 8 ''Backspace'' None,
     key_def ''Tab'' 9 ''Tab'' None, key_def ''Clear'' 12 ''Numpad5'' None,
     key_def ''Enter'' 13 ''Enter'' (Some [CHR 0x0D]), key_def ''Shift'' 16 ''ShiftLeft'' None,
     key_def ''Shift'' 16 ''ShiftRight'' None, key_def ''Control'' 17 ''ControlLeft'' None,
     key_def ''Control'' 17 ''ControlRight'' None, key_def ''Alt'' 18 ''AltLeft'' None,
     key_def ''Alt'' 18 ''AltRight'' None, key_def ''Pause'' 19 ''Pause'' None]"

definition keys_2 :: "key_definition list" where
  "keys_2 =
    [key_def ''CapsLock'' 20 ''CapsLock'' None, key_def ''Escape'' 27 ''Escape'' None,
     key_def ''Convert'' 28 ''Convert'' None, key_def ''NonConvert'' 29 ''NonConvert'' None,
     key_def '' '' 32 ''Space'' None, key_def ''PageUp'' 33 ''Numpad9'' None,
     key_def ''PageUp'' 33 ''PageUp'' None, key_def ''PageDown'' 34 ''Numpad3'' None,
     key_def ''PageDown'' 34 ''PageDown'' None, key_def ''End'' 35 ''End'' None,
     key_def ''End'' 35 ''Numpad1'' None, key_def ''Home'' 36 ''Home'' None,
     key_def ''Home'' 36 ''Numpad7'' None, key_def ''ArrowLeft'' 37 ''ArrowLeft'' None,
     key_def ''ArrowLeft'' 37 ''Numpad4'' None, key_def ''ArrowUp'' 38 ''Numpad8'' None,
     key_def ''ArrowUp'' 38 ''ArrowUp'' None, key_def ''ArrowRight'' 39 ''ArrowRight'' None,
     key_def ''ArrowRight'' 39 ''Numpad6'' None, key_def ''ArrowDown'' 40 ''Numpad2'' None,
     key_def ''ArrowDown'' 40 ''ArrowDown'' None, key_def ''Select'' 41 ''Select'' None,
     key_def ''Execute'' 43 ''Open'' None, key_def ''PrintScreen'' 44 ''PrintScreen'' None,
     key_def ''Insert'' 45 ''Insert'' None]"

definition keys_3 :: "key_definition list" where
  "keys_3 =
    [key_def ''Insert'' 45 ''Numpad0'' None, key_def ''Delete'' 46 ''Delete'' None,
     key_def [CHR 0x00] 46 ''NumpadDecimal'' None, key_def ''0'' 48 ''Digit0'' None,
     key_def ''1'' 49 ''Digit1'' None, key_def ''2'' 50 ''Digit2'' None, key_def ''3'' 51 ''Digit3'' None,
     key_def ''4'' 52 ''Digit4'' None, key_def ''5'' 53 ''Digit5'' None, key_def ''6'' 54 ''Digit6'' None,
     key_def ''7'' 55 ''Digit7'' None, key_def ''8'' 56 ''Digit8'' None, key_def ''9'' 57 ''Digit9'' None,
     key_def ''a'' 65 ''KeyA'' None, key_def ''b'' 66 ''KeyB'' None, key_def ''c'' 67 ''KeyC'' None,
     key_def ''d'' 68 ''KeyD'' None, key_def ''e'' 69 ''KeyE'' None, key_def ''f'' 70 ''KeyF'' None,
     key_def ''g'' 71 ''KeyG'' None, key_def ''h'' 72 ''KeyH'' None, key_def ''i'' 73 ''KeyI'' None,
     key_def ''j'' 74 ''KeyJ'' None, key_def ''k'' 75 ''KeyK'' None, key_def ''l'' 76 ''KeyL'' None]"

definition keys_4 :: "key_definition list" where
  "keys_4 =
    [key_def ''m'' 77 ''KeyM'' None, key_def ''n'' 78 ''KeyN'' None, key_def ''o'' 79 ''KeyO'' None,
     key_def ''p'' 80 ''KeyP'' None, key_def ''q'' 81 ''KeyQ'' None, key_def ''r'' 82 ''KeyR'' None,
     key_def ''s'' 83 ''KeyS'' None, key_def ''t'' 84 ''KeyT'' None, key_def ''u'' 85 ''KeyU'' None,
     key_def ''v'' 86 ''KeyV'' None, key_def ''w'' 87 ''KeyW'' None, key_def ''x'' 88 ''KeyX'' None,
     key_def ''y'' 89 ''KeyY'' None, key_def ''z'' 90 ''KeyZ'' None, key_def ''Meta'' 91 ''MetaLeft'' None,
     key_def ''Meta'' 92 ''MetaRight'' None, key_def ''ContextMenu'' 93 ''ContextMenu'' None,
     key_def ''*'' 106 ''NumpadMultiply'' None, key_def ''+'' 107 ''NumpadAdd'' None,
     key_def ''-'' 109 ''NumpadSubtract'' None, key_def ''/'' 111 ''NumpadDivide'' None,
     key_def ''F1'' 112 ''F1'' None, key_def ''F2'' 113 ''F2'' None, key_def ''F3'' 114 ''F3'' None,
     key_def ''F4'' 115 ''F4'' None]"

definition keys_5 :: "key_definition list" where
  "keys_5 =
    [key_def ''F5'' 116 ''F5'' None, key_def ''F6'' 117 ''F6'' None, key_def ''F7'' 118 ''F7'' None,
     key_def ''F8'' 119 ''F8'' None, key_def ''F9'' 120 ''F9'' None, key_def ''F10'' 121 ''F10'' None,
     key_def ''F11'' 122 ''F11'' None, key_def ''F12'' 123 ''F12'' None, key_def ''F13'' 124 ''F13'' None,
     key_def ''F14'' 125 ''F14'' None, key_def ''F15'' 126 ''F15'' None, key_def ''F16'' 127 ''F16'' None,
     key_def ''F17'' 128 ''F17'' None, key_def ''F18'' 129 ''F18'' None, key_def ''F19'' 130 ''F19'' None,
     key_def ''F20'' 131 ''F20'' None, key_def ''F21'' 132 ''F21'' None, key_def ''F22'' 133 ''F22'' None,
     key_def ''F23'' 134 ''F23'' None, key_def ''F24'' 135 ''F24'' None,
     key_def ''NumLock'' 144 ''NumLock'' None, key_def ''ScrollLock'' 145 ''ScrollLock'' None,
     key_def ''AudioVolumeMute'' 173 ''AudioVolumeMute'' None,
     key_def ''AudioVolumeDown'' 174 ''AudioVolumeDown'' None,
     key_def ''AudioVolumeUp'' 175 ''AudioVolumeUp'' None]"

definition keys_6 :: "key_definition list" where
  "keys_6 =
    [key_def ''MediaTrackNext'' 176 ''MediaTrackNext'' None,
     key_def ''MediaTrackPrevious'' 177 ''MediaTrackPrevious'' None,
     key_def ''MediaStop'' 178 ''MediaStop'' None, key_def ''MediaPlayPause'' 179 ''MediaPlayPause'' None,
     key_def '';'' 186 ''Semicolon'' None, key_def ''='' 187 ''Equal'' None,
     key_def ''='' 187 ''NumpadEqual'' None, key_def '','' 188 ''Comma'' None,
     key_def ''-'' 189 ''Minus'' None, key_def ''.'' 190 ''Period'' None, key_def ''/'' 191 ''Slash'' None,
     key_def ''`'' 192 ''Backquote'' None, key_def ''['' 219 ''BracketLeft'' None,
     key_def [CHR 0x5C] 220 ''Backslash'' None, key_def '']'' 221 ''BracketRight'' None,
     key_def [CHR 0x27] 222 ''Quote'' None, key_def ''AltGraph'' 225 ''AltGraph'' None,
     key_def ''CrSel'' 247 ''Props'' None, key_def ''Cancel'' 3 ''Abort'' None,
     key_def ''Clear'' 12 ''Numpad5'' None, key_def ''Shift'' 16 ''ShiftLeft'' None,
     key_def ''Control'' 17 ''ControlLeft'' None, key_def ''Alt'' 18 ''AltLeft'' None,
     key_def ''Accept'' 30 ''undefined'' None, key_def ''ModeChange'' 31 ''undefined'' None]"

definition keys_7 :: "key_definition list" where
  "keys_7 =
    [key_def '' '' 32 ''Space'' None, key_def ''Print'' 42 ''undefined'' None,
     key_def ''Execute'' 43 ''Open'' None, key_def [CHR 0x00] 46 ''NumpadDecimal'' None,
     key_def ''a'' 65 ''KeyA'' None, key_def ''b'' 66 ''KeyB'' None, key_def ''c'' 67 ''KeyC'' None,
     key_def ''d'' 68 ''KeyD'' None, key_def ''e'' 69 ''KeyE'' None, key_def ''f'' 70 ''KeyF'' None,
     key_def ''g'' 71 ''KeyG'' None, key_def ''h'' 72 ''KeyH'' None, key_def ''i'' 73 ''KeyI'' None,
     key_def ''j'' 74 ''KeyJ'' None, key_def ''k'' 75 ''KeyK'' None, key_def ''l'' 76 ''KeyL'' None,
     key_def ''m'' 77 ''KeyM'' None, key_def ''n'' 78 ''KeyN'' None, key_def ''o'' 79 ''KeyO'' None,
     key_def ''p'' 80 ''KeyP'' None, key_def ''q'' 81 ''KeyQ'' None, key_def ''r'' 82 ''KeyR'' None,
     key_def ''s'' 83 ''KeyS'' None, key_def ''t'' 84 ''KeyT'' None, key_def ''u'' 85 ''KeyU'' None]"

definition keys_8 :: "key_definition list" where
  "keys_8 =
    [key_def ''v'' 86 ''KeyV'' None, key_def ''w'' 87 ''KeyW'' None, key_def ''x'' 88 ''KeyX'' None,
     key_def ''y'' 89 ''KeyY'' None, key_def ''z'' 90 ''KeyZ'' None, key_def ''Meta'' 91 ''MetaLeft'' None,
     key_def ''*'' 106 ''NumpadMultiply'' None, key_def ''+'' 107 ''NumpadAdd'' None,
     key_def ''-'' 109 ''NumpadSubtract'' None, key_def ''/'' 111 ''NumpadDivide'' None,
     key_def '';'' 186 ''Semicolon'' None, key_def ''='' 187 ''Equal'' None,
     key_def '','' 188 ''Comma'' None, key_def ''.'' 190 ''Period'' None,
     key_def ''`'' 192 ''Backquote'' None, key_def ''['' 219 ''BracketLeft'' None,
     key_def '']'' 221 ''BracketRight'' None, key_def [CHR 0x27] 222 ''Quote'' None,
     key_def ''Attn'' 246 ''undefined'' None, key_def ''CrSel'' 247 ''Props'' None,
     key_def ''ExSel'' 248 ''undefined'' None, key_def ''EraseEof'' 249 ''undefined'' None,
     key_def ''Play'' 250 ''undefined'' None, key_def ''ZoomOut'' 251 ''undefined'' None,
     key_def '')'' 48 ''Digit0'' None]"

definition keys_9 :: "key_definition list" where
  "keys_9 =
    [key_def ''!'' 49 ''Digit1'' None, key_def ''@'' 50 ''Digit2'' None, key_def ''#'' 51 ''Digit3'' None,
     key_def ''$'' 52 ''Digit4'' None, key_def ''%'' 53 ''Digit5'' None, key_def ''^'' 54 ''Digit6'' None,
     key_def ''&'' 55 ''Digit7'' None, key_def ''('' 57 ''Digit9'' None, key_def ''A'' 65 ''KeyA'' None,
     key_def ''B'' 66 ''KeyB'' None, key_def ''C'' 67 ''KeyC'' None, key_def ''D'' 68 ''KeyD'' None,
     key_def ''E'' 69 ''KeyE'' None, key_def ''F'' 70 ''KeyF'' None, key_def ''G'' 71 ''KeyG'' None,
     key_def ''H'' 72 ''KeyH'' None, key_def ''I'' 73 ''KeyI'' None, key_def ''J'' 74 ''KeyJ'' None,
     key_def ''K'' 75 ''KeyK'' None, key_def ''L'' 76 ''KeyL'' None, key_def ''M'' 77 ''KeyM'' None,
     key_def ''N'' 78 ''KeyN'' None, key_def ''O'' 79 ''KeyO'' None, key_def ''P'' 80 ''KeyP'' None,
     key_def ''Q'' 81 ''KeyQ'' None]"

definition keys_10 :: "key_definition list" where
  "keys_10 =
    [key_def ''R'' 82 ''KeyR'' None, key_def ''S'' 83 ''KeyS'' None, key_def ''T'' 84 ''KeyT'' None,
     key_def ''U'' 85 ''KeyU'' None, key_def ''V'' 86 ''KeyV'' None, key_def ''W'' 87 ''KeyW'' None,
     key_def ''X'' 88 ''KeyX'' None, key_def ''Y'' 89 ''KeyY'' None, key_def ''Z'' 90 ''KeyZ'' None,
     key_def '':'' 186 ''Semicolon'' None, key_def ''<'' 188 ''Comma'' None,
     key_def ''_'' 189 ''Minus'' None, key_def ''>'' 190 ''Period'' None, key_def ''?'' 191 ''Slash'' None,
     key_def ''~'' 192 ''Backquote'' None, key_def ''{'' 219 ''BracketLeft'' None,
     key_def ''|'' 220 ''Backslash'' None, key_def ''}'' 221 ''BracketRight'' None,
     key_def [CHR 0x22] 222 ''Quote'' None]"

definition us_keyboard_layout :: "key_definition list" where
  "us_keyboard_layout =
     keys_1 @ keys_2 @ keys_3 @ keys_4 @ keys_5 @ keys_6 @ keys_7 @ keys_8 @ keys_9 @ keys_10"

text \<open>\<open>get_key_definition\<close> finds the first definition of the name.\<close>

definition get_key_definition :: "string \<Rightarrow> key_definition option" where
  "get_key_definition k = List.find (\<lambda>d. kd_key d = k) us_keyboard_layout"

lemmas keyboard_defs =
  us_keyboard_layout_def keys_1_def keys_2_def keys_3_def keys_4_def keys_5_def keys_6_def keys_7_def keys_8_def keys_9_def keys_10_def

end
