(* ===== verification/Cdp_Ops.thy ===== *)
theory Cdp_Ops
  imports Cdp_Target Cdp_Layout Cdp_Keys
begin

text \<open>
  What the methods of a page and of its elements are made of. A method is a program that sends one
  operation at a time to the browser, waits for the answer and goes on with it: an interaction tree.
  \<open>pg_run\<close> plays a program against a browser, a function of the operations so far. The concurrent
  combinators of the sources, \<open>join_all\<close> and \<open>buffer_unordered\<close>, take a schedule that stands for
  the order in which the answers arrive. Of the generated parameter types of the protocol only the
  fields that the sources set or read are kept.
\<close>

section \<open>Operations\<close>

text \<open>A JSON value: strings, booleans and null are told apart, the others are their text.\<close>

datatype js_value = JNull | JBool bool | JText string | JOther string

text \<open>Scripts of the sources; the ones that only the browser interprets go by their name.\<close>

datatype script =
    ScText string
  | ScHideWebdriver
  | ScHidePermissions
  | ScHidePlugins
  | ScHideWebglVendor
  | ScHideChrome
  | ScScrollIntoView
  | ScSetContent

record add_script =
  as_source :: script
  as_world :: "string option"
  as_command_line :: "bool option"
  as_run :: "bool option"

datatype mouse_kind = MouseMoved | MousePressed | MouseReleased

record mouse_event =
  me_kind :: mouse_kind
  me_at :: point
  me_left :: bool
  me_clicks :: "int option"

datatype key_kind = KeyDown | RawKeyDown | KeyUp

record key_event =
  ke_kind :: key_kind
  ke_text :: "string option"
  ke_key :: string
  ke_code :: string
  ke_number :: int

record evaluate_params =
  ep_expression :: script
  ep_context :: "int option"
  ep_await :: "bool option"
  ep_by_value :: "bool option"
  ep_fallback :: "bool option"

record call_params =
  cf_declaration :: script
  cf_object :: "string option"
  cf_arguments :: "js_value list"
  cf_await :: "bool option"
  cf_by_value :: "bool option"
  cf_preview :: "bool option"
  cf_context :: "int option"

datatype image_format = FmJpeg | FmPng | FmWebp

record capture =
  ca_format :: "image_format option"
  ca_quality :: "int option"
  ca_clip :: "clip_viewport option"
  ca_surface :: "bool option"
  ca_beyond :: "bool option"

record cookie_param =
  cp_name :: string
  cp_value :: string
  cp_url :: "string option"
  cp_domain :: "string option"
  cp_path :: "string option"

record delete_cookie =
  dc_name :: string
  dc_url :: "string option"
  dc_domain :: "string option"
  dc_path :: "string option"

datatype cdp_domain = DmLog | DmRuntime | DmDebugger | DmDom | DmCss

datatype page_cmd =
    PcAddScript add_script
  | PcAddBinding string
  | PcNavigate string
  | PcSetUserAgent string
  | PcGetVersion
  | PcGetDocument
  | PcQuerySelector int string
  | PcQuerySelectorAll int string
  | PcPerformSearch string bool
  | PcSearchResults string int int
  | PcDiscardSearch string
  | PcDescribeNode "int option" "int option" int
  | PcResolveNode int
  | PcBoxModel int
  | PcContentQuads int
  | PcClose
  | PcActivate string
  | PcMouse mouse_event
  | PcKey key_event
  | PcCallFunction call_params
  | PcEvaluate evaluate_params
  | PcGetProperties string bool
  | PcLayoutMetrics
  | PcDeviceMetrics int int rat bool
  | PcClearDeviceMetrics
  | PcBackground "(nat \<times> nat \<times> nat \<times> rat) option"
  | PcScreenshot capture
  | PcPrintToPdf string
  | PcBringToFront
  | PcEmulatedMedia "string option" "(string \<times> string) list option"
  | PcTimezone string
  | PcLocale string
  | PcGeolocation string
  | PcReload
  | PcEnable cdp_domain
  | PcDisable cdp_domain
  | PcGetCookies
  | PcDeleteCookies delete_cookie
  | PcSetCookies "cookie_param list"
  | PcGetMetrics
  | PcScriptSource string
  | PcCreateContext
  | PcDisposeContext string
  | PcClearCookies
  | PcStorageCookies
  | PcStorageSetCookies "cookie_param list"

text \<open>The messages to the target and to the handler of the browser, and the writing of a file.\<close>

datatype page_op =
    PoCommand page_cmd
  | PoContext "string option" dom_world_kind
  | PoUrl "string option"
  | PoName "string option"
  | PoParent string
  | PoMainFrame
  | PoAllFrames
  | PoAuthenticate net_credentials
  | PoAddListener string
  | PoWaitForNavigation
  | PoWrite string bytes
  | PoFetchTargets
  | PoCloseBrowser
  | PoInsertContext "string option"
  | PoDisposeContext "string option"
  | PoCreatePage string "string option"
  | PoGetPages
  | PoGetPage string

section \<open>Answers\<close>

record node =
  nd_id :: int
  nd_backend :: int
  nd_attributes :: "string list option"

datatype remote_type =
  RtObject | RtFunction | RtUndefined | RtString | RtNumber | RtBoolean | RtSymbol | RtBigint

record remote_object =
  ro_type :: remote_type
  ro_value :: "js_value option"
  ro_id :: "string option"

record raw_box =
  rb_content :: "coord list"
  rb_padding :: "coord list"
  rb_border :: "coord list"
  rb_margin :: "coord list"
  rb_width :: int
  rb_height :: int

record layout_metrics =
  lm_page_x :: int
  lm_page_y :: int
  lm_content_width :: coord
  lm_content_height :: coord

record page_cookie =
  pk_name :: string
  pk_value :: string
  pk_domain :: string

datatype page_answer =
    PaUnit
  | PaScript string
  | PaNavigated "string option"
  | PaVersion string
  | PaNode node
  | PaNodeId int
  | PaNodeIds "int list"
  | PaSearch string int
  | PaObject remote_object
  | PaEvaluation remote_object "string option"
  | PaBox raw_box
  | PaQuads "coord list list"
  | PaProperties "(string \<times> js_value) list"
  | PaMetrics layout_metrics
  | PaData string
  | PaCookies "page_cookie list"
  | PaPerformance "(string \<times> coord) list"
  | PaText "string option"
  | PaTexts "string list"
  | PaContext "int option"
  | PaRequest "http_request option"
  | PaTargets "target_info list"
  | PaPage page_ref
  | PaPages "page_ref list"
  | PaMaybePage "page_ref option"

type_synonym reply_of = "cdp_error + page_answer"

section \<open>Programs\<close>

text \<open>\<open>PgPanic\<close> is a panic of the calling task.\<close>

datatype 'a pg =
    PgDone "cdp_error + 'a"
  | PgPanic
  | PgDo page_op "reply_of \<Rightarrow> 'a pg"

primrec pg_bind :: "'a pg \<Rightarrow> ('a \<Rightarrow> 'b pg) \<Rightarrow> 'b pg" where
  "pg_bind (PgDone r) f = (case r of Inl e \<Rightarrow> PgDone (Inl e) | Inr x \<Rightarrow> f x)"
| "pg_bind PgPanic f = PgPanic"
| "pg_bind (PgDo a k) f = PgDo a (\<lambda>r. pg_bind (k r) f)"

abbreviation pg_return :: "'a \<Rightarrow> 'a pg" where
  "pg_return x \<equiv> PgDone (Inr x)"

abbreviation pg_fail :: "cdp_error \<Rightarrow> 'a pg" where
  "pg_fail e \<equiv> PgDone (Inl e)"

definition pg_then :: "'a pg \<Rightarrow> 'b pg \<Rightarrow> 'b pg" where
  "pg_then p q = pg_bind p (\<lambda>_. q)"

definition pg_map :: "('a \<Rightarrow> 'b) \<Rightarrow> 'a pg \<Rightarrow> 'b pg" where
  "pg_map f p = pg_bind p (\<lambda>x. pg_return (f x))"

text \<open>The result of a program as a value, errors included.\<close>

primrec pg_attempt :: "'a pg \<Rightarrow> (cdp_error + 'a) pg" where
  "pg_attempt (PgDone r) = pg_return r"
| "pg_attempt PgPanic = PgPanic"
| "pg_attempt (PgDo a k) = PgDo a (\<lambda>r. pg_attempt (k r))"

text \<open>
  An operation with the decoder of its answer. An answer of another shape is the error of
  \<open>serde_json\<close>, whose text is left out.
\<close>

definition decode :: "(page_answer \<Rightarrow> 'a option) \<Rightarrow> reply_of \<Rightarrow> cdp_error + 'a" where
  "decode d r = res_bind r (\<lambda>a. case d a of None \<Rightarrow> Inl (CeSerde '''') | Some x \<Rightarrow> Inr x)"

definition ask :: "(page_answer \<Rightarrow> 'a option) \<Rightarrow> page_op \<Rightarrow> 'a pg" where
  "ask d a = PgDo a (\<lambda>r. PgDone (decode d r))"

definition an_unit :: "page_answer \<Rightarrow> unit option" where
  "an_unit a = (case a of PaUnit \<Rightarrow> Some () | _ \<Rightarrow> None)"

definition an_script :: "page_answer \<Rightarrow> string option" where
  "an_script a = (case a of PaScript s \<Rightarrow> Some s | _ \<Rightarrow> None)"

definition an_navigated :: "page_answer \<Rightarrow> string option option" where
  "an_navigated a = (case a of PaNavigated e \<Rightarrow> Some e | _ \<Rightarrow> None)"

definition an_version :: "page_answer \<Rightarrow> string option" where
  "an_version a = (case a of PaVersion s \<Rightarrow> Some s | _ \<Rightarrow> None)"

definition an_node :: "page_answer \<Rightarrow> node option" where
  "an_node a = (case a of PaNode n \<Rightarrow> Some n | _ \<Rightarrow> None)"

definition an_node_id :: "page_answer \<Rightarrow> int option" where
  "an_node_id a = (case a of PaNodeId n \<Rightarrow> Some n | _ \<Rightarrow> None)"

definition an_node_ids :: "page_answer \<Rightarrow> int list option" where
  "an_node_ids a = (case a of PaNodeIds ns \<Rightarrow> Some ns | _ \<Rightarrow> None)"

definition an_search :: "page_answer \<Rightarrow> (string \<times> int) option" where
  "an_search a = (case a of PaSearch s n \<Rightarrow> Some (s, n) | _ \<Rightarrow> None)"

definition an_object :: "page_answer \<Rightarrow> remote_object option" where
  "an_object a = (case a of PaObject n \<Rightarrow> Some n | _ \<Rightarrow> None)"

definition an_evaluation :: "page_answer \<Rightarrow> (remote_object \<times> string option) option" where
  "an_evaluation a = (case a of PaEvaluation x e \<Rightarrow> Some (x, e) | _ \<Rightarrow> None)"

definition an_box :: "page_answer \<Rightarrow> raw_box option" where
  "an_box a = (case a of PaBox b \<Rightarrow> Some b | _ \<Rightarrow> None)"

definition an_quads :: "page_answer \<Rightarrow> coord list list option" where
  "an_quads a = (case a of PaQuads q \<Rightarrow> Some q | _ \<Rightarrow> None)"

definition an_properties :: "page_answer \<Rightarrow> (string \<times> js_value) list option" where
  "an_properties a = (case a of PaProperties p \<Rightarrow> Some p | _ \<Rightarrow> None)"

definition an_metrics :: "page_answer \<Rightarrow> layout_metrics option" where
  "an_metrics a = (case a of PaMetrics m \<Rightarrow> Some m | _ \<Rightarrow> None)"

definition an_data :: "page_answer \<Rightarrow> string option" where
  "an_data a = (case a of PaData s \<Rightarrow> Some s | _ \<Rightarrow> None)"

definition an_cookies :: "page_answer \<Rightarrow> page_cookie list option" where
  "an_cookies a = (case a of PaCookies c \<Rightarrow> Some c | _ \<Rightarrow> None)"

definition an_performance :: "page_answer \<Rightarrow> (string \<times> coord) list option" where
  "an_performance a = (case a of PaPerformance m \<Rightarrow> Some m | _ \<Rightarrow> None)"

definition an_text :: "page_answer \<Rightarrow> string option option" where
  "an_text a = (case a of PaText s \<Rightarrow> Some s | _ \<Rightarrow> None)"

definition an_texts :: "page_answer \<Rightarrow> string list option" where
  "an_texts a = (case a of PaTexts s \<Rightarrow> Some s | _ \<Rightarrow> None)"

definition an_context :: "page_answer \<Rightarrow> int option option" where
  "an_context a = (case a of PaContext c \<Rightarrow> Some c | _ \<Rightarrow> None)"

definition an_request :: "page_answer \<Rightarrow> http_request option option" where
  "an_request a = (case a of PaRequest r \<Rightarrow> Some r | _ \<Rightarrow> None)"

definition an_targets :: "page_answer \<Rightarrow> target_info list option" where
  "an_targets a = (case a of PaTargets t \<Rightarrow> Some t | _ \<Rightarrow> None)"

definition an_page :: "page_answer \<Rightarrow> page_ref option" where
  "an_page a = (case a of PaPage p \<Rightarrow> Some p | _ \<Rightarrow> None)"

definition an_pages :: "page_answer \<Rightarrow> page_ref list option" where
  "an_pages a = (case a of PaPages p \<Rightarrow> Some p | _ \<Rightarrow> None)"

definition an_maybe_page :: "page_answer \<Rightarrow> page_ref option option" where
  "an_maybe_page a = (case a of PaMaybePage p \<Rightarrow> Some p | _ \<Rightarrow> None)"

lemmas answers_def =
  an_targets_def an_page_def an_pages_def an_maybe_page_def
  an_unit_def an_script_def an_navigated_def an_version_def an_node_def an_node_id_def an_node_ids_def
  an_search_def an_object_def an_evaluation_def an_box_def an_quads_def an_properties_def an_metrics_def
  an_data_def an_cookies_def an_performance_def an_text_def an_texts_def an_context_def an_request_def

text \<open>Loops that stop at the first error.\<close>

fun pg_each :: "('a \<Rightarrow> unit pg) \<Rightarrow> 'a list \<Rightarrow> unit pg" where
  "pg_each f [] = pg_return ()"
| "pg_each f (x # xs) = pg_then (f x) (pg_each f xs)"

section \<open>Concurrency\<close>

text \<open>
  \<open>join_all\<close> drives all its futures and gives their results in the order of the futures. A number
  of the schedule names the future that makes the next step; what the schedule leaves is run from
  first to last.
\<close>

fun pg_results :: "'a pg list \<Rightarrow> (cdp_error + 'a) list pg" where
  "pg_results [] = pg_return []"
| "pg_results (p # ps) = pg_bind (pg_attempt p) (\<lambda>r. pg_map (\<lambda>rs. r # rs) (pg_results ps))"

fun join_all :: "nat list \<Rightarrow> 'a pg list \<Rightarrow> (cdp_error + 'a) list pg" where
  "join_all [] ps = pg_results ps"
| "join_all (i # sched) ps =
     (if i < length ps
      then (case ps ! i of
              PgDo a k \<Rightarrow> PgDo a (\<lambda>r. join_all sched (ps[i := k r]))
            | PgPanic \<Rightarrow> PgPanic
            | PgDone r \<Rightarrow> join_all sched ps)
      else join_all sched ps)"

text \<open>\<open>collect\<close> of results into one result: the first error wins.\<close>

fun collect_results :: "('e + 'a) list \<Rightarrow> 'e + 'a list" where
  "collect_results [] = Inr []"
| "collect_results (r # rs) = res_bind r (\<lambda>x. res_bind (collect_results rs) (\<lambda>xs. Inr (x # xs)))"

text \<open>
  \<open>buffer_unordered\<close> keeps up to \<open>n\<close> commands in flight and hands out their results in the order in
  which they arrive; the loop around it stops at the first error and drops the rest.
\<close>

function buffer_unordered ::
    "nat \<Rightarrow> nat list \<Rightarrow> (cdp_error + unit) list \<Rightarrow> page_cmd list \<Rightarrow> unit pg" where
  "buffer_unordered n sched flight cmds =
     (if length flight < n \<and> cmds \<noteq> []
      then PgDo (PoCommand (hd cmds)) (\<lambda>r. buffer_unordered n sched (flight @ [decode an_unit r]) (tl cmds))
      else if flight = [] then pg_return ()
      else (let i = (case sched of [] \<Rightarrow> 0 | s # _ \<Rightarrow> s mod length flight) in
        case flight ! i of
          Inl e \<Rightarrow> pg_fail e
        | Inr _ \<Rightarrow> buffer_unordered n (tl sched) (take i flight @ drop (Suc i) flight) cmds))"
  by pat_completeness auto
termination
  by (relation "measure (\<lambda>(n, sched, flight, cmds). 2 * length cmds + length flight)")
    (auto simp: neq_Nil_conv split: list.splits)

declare buffer_unordered.simps [simp del]

section \<open>Running\<close>

type_synonym browser = "page_op list \<Rightarrow> page_op \<Rightarrow> reply_of"

text \<open>The operations so far and the result; \<open>None\<close> is a panic.\<close>

primrec pg_run :: "'a pg \<Rightarrow> browser \<Rightarrow> page_op list \<Rightarrow> page_op list \<times> (cdp_error + 'a) option" where
  "pg_run (PgDone r) env h = (h, Some r)"
| "pg_run PgPanic env h = (h, None)"
| "pg_run (PgDo a k) env h = pg_run (k (env h a)) env (h @ [a])"

text \<open>What holds of every operation that a program can send, whatever the answers.\<close>

primrec pg_all :: "(page_op \<Rightarrow> bool) \<Rightarrow> 'a pg \<Rightarrow> bool" where
  "pg_all P (PgDone r) = True"
| "pg_all P PgPanic = True"
| "pg_all P (PgDo a k) = (P a \<and> (\<forall>r. pg_all P (k r)))"

primrec never_panics :: "'a pg \<Rightarrow> bool" where
  "never_panics (PgDone r) = True"
| "never_panics PgPanic = False"
| "never_panics (PgDo a k) = (\<forall>r. never_panics (k r))"

end
