(* ===== verification/Cdp_Js.thy ===== *)
theory Cdp_Js
  imports Cdp_Ops
begin

text \<open>
  The helpers on JavaScript texts of the browser driver (\<open>utils.rs\<close>, \<open>js.rs\<close>): the call string of an
  exposed function, the guess whether a text is a function, and the results of evaluations.
\<close>

section \<open>Texts\<close>

definition evaluation_string :: "string \<Rightarrow> string list \<Rightarrow> string" where
  "evaluation_string f params =
     ''('' @ f @ '')('' @ join '','' (map (\<lambda>s. [CHR 0x22] @ s @ [CHR 0x22]) params) @ '')''"

definition is_paren :: "char \<Rightarrow> bool" where
  "is_paren c \<longleftrightarrow> c = CHR ''('' \<or> c = CHR '')''"

text \<open>The loop of \<open>skip_args\<close>: whether the parentheses are closed, and the rest of the text.\<close>

function skip_loop :: "nat \<Rightarrow> nat \<Rightarrow> string \<Rightarrow> bool \<times> string" where
  "skip_loop opened shut s =
     (if s \<noteq> [] \<and> opened \<noteq> shut
      then (case dropWhile (\<lambda>c. \<not> is_paren c) s of
              [] \<Rightarrow> (False, s)
            | c # r \<Rightarrow> (if c = CHR '')'' then skip_loop opened (Suc shut) r else skip_loop (Suc opened) shut r))
      else (opened = shut, s))"
  by pat_completeness auto
termination
proof (relation "measure (\<lambda>(a, b, s). length s)", goal_cases)
  case 1
  show ?case by simp
next
  case (2 a b s c r)
  then show ?case using length_dropWhile_le [of "\<lambda>c. \<not> is_paren c" s] by simp
next
  case (3 a b s c r)
  then show ?case using length_dropWhile_le [of "\<lambda>c. \<not> is_paren c" s] by simp
qed

declare skip_loop.simps [simp del]

definition skip_args :: "string \<Rightarrow> bool \<times> string" where
  "skip_args s = (if starts_with s ''('' then skip_loop 1 0 (tl s) else (False, s))"

definition is_likely_js_function :: "string \<Rightarrow> bool" where
  "is_likely_js_function text =
     (let f = trim_start text in
        if f = [] then False
        else let offset = (if starts_with f ''async '' then 5 else 0) in
          if starts_with (trim_start (drop offset f)) ''function '' then True
          else (case skip_args f of (ok, r) \<Rightarrow> ok \<and> starts_with (trim_start r) ''=>''))"

section \<open>Evaluations\<close>

datatype evaluation = EvExpression evaluate_params | EvFunction call_params

text \<open>The parameters made of a text alone: every other field is empty.\<close>

definition evaluate_new :: "string \<Rightarrow> evaluate_params" where
  "evaluate_new s =
     \<lparr>ep_expression = ScText s, ep_context = None, ep_await = None, ep_by_value = None, ep_fallback = None\<rparr>"

definition call_new :: "script \<Rightarrow> call_params" where
  "call_new s =
     \<lparr>cf_declaration = s, cf_object = None, cf_arguments = [], cf_await = None, cf_by_value = None,
      cf_preview = None, cf_context = None\<rparr>"

definition evaluation_of_text :: "string \<Rightarrow> evaluation" where
  "evaluation_of_text s =
     (if is_likely_js_function s then EvFunction (call_new (ScText s)) else EvExpression (evaluate_new s))"

text \<open>\<open>from_value\<close> into a \<open>String\<close>; \<open>err\<close> is the text of the error that \<open>serde_json\<close> gives for another value.\<close>

definition string_of_value :: "(js_value \<Rightarrow> string) \<Rightarrow> js_value \<Rightarrow> cdp_error + string" where
  "string_of_value err v = (case v of JText s \<Rightarrow> Inr s | _ \<Rightarrow> Inl (CeSerde (err v)))"

definition maybe_string_of_value :: "(js_value \<Rightarrow> string) \<Rightarrow> js_value \<Rightarrow> cdp_error + string option" where
  "maybe_string_of_value err v =
     (case v of JNull \<Rightarrow> Inr None | JText s \<Rightarrow> Inr (Some s) | _ \<Rightarrow> Inl (CeSerde (err v)))"

definition into_value :: "(js_value \<Rightarrow> cdp_error + 'a) \<Rightarrow> remote_object \<Rightarrow> cdp_error + 'a" where
  "into_value conv r = (case ro_value r of None \<Rightarrow> Inl (CeSerde ''No value found'') | Some v \<Rightarrow> conv v)"

section \<open>Facts on the guess\<close>

text \<open>The depth of parentheses after a text, from a depth of \<open>d\<close>; \<open>None\<close> once it has reached zero.\<close>

fun depth_after :: "nat \<Rightarrow> string \<Rightarrow> nat option" where
  "depth_after d [] = Some d"
| "depth_after d (c # s) =
     (if d = 0 then None
      else depth_after (if c = CHR ''('' then Suc d else if c = CHR '')'' then d - 1 else d) s)"

text \<open>One character of the text at a time.\<close>

lemma skip_loop_nil: "skip_loop a b [] = (a = b, [])"
  by (simp add: skip_loop.simps)

lemma skip_loop_closed: "skip_loop a a s = (True, s)"
  by (simp add: skip_loop.simps)

lemma skip_loop_open: "a \<noteq> b \<Longrightarrow> skip_loop a b (CHR ''('' # s) = skip_loop (Suc a) b s"
  by (subst skip_loop.simps) (simp add: is_paren_def)

lemma skip_loop_close: "a \<noteq> b \<Longrightarrow> skip_loop a b (CHR '')'' # s) = skip_loop a (Suc b) s"
  by (subst skip_loop.simps) (simp add: is_paren_def)

lemma skip_loop_other:
  assumes "a \<noteq> b" "\<not> is_paren c"
  shows "skip_loop a b (c # s) = (True, r) \<longleftrightarrow> skip_loop a b s = (True, r)"
proof (cases "s = []")
  case True
  then show ?thesis using assms by (subst (1 2) skip_loop.simps) simp
next
  case False
  show ?thesis
    by (cases "dropWhile (\<lambda>c. \<not> is_paren c) s")
      (subst (1 2) skip_loop.simps, simp add: assms False del: dropWhile_eq_Nil_conv)+
qed

text \<open>The loop skips the shortest text that brings the depth to zero, and nothing of what follows it.\<close>

lemma skip_loop_iff: "skip_loop (b + d) b s = (True, r) \<longleftrightarrow> (\<exists>p. s = p @ r \<and> depth_after d p = Some 0)"
proof (induction s arbitrary: b d)
  case Nil
  show ?case by (auto simp: skip_loop_nil)
next
  case (Cons c s)
  show ?case
  proof (cases d)
    case 0
    have "p = []" if "depth_after 0 p = Some 0" for p using that by (cases p) auto
    then show ?thesis using 0 by (auto simp: skip_loop_closed intro: exI [of _ "[]"])
  next
    case (Suc k)
    let ?d = "if c = CHR ''('' then Suc d else if c = CHR '')'' then k else d"
    have "skip_loop (b + d) b (c # s) = (True, r) \<longleftrightarrow> (\<exists>p. s = p @ r \<and> depth_after ?d p = Some 0)"
    proof -
      consider (o) "c = CHR ''(''" | (c) "c = CHR '')''" | (n) "\<not> is_paren c" by (auto simp: is_paren_def)
      then show ?thesis
      proof cases
        case o
        then show ?thesis using Cons.IH [of b "Suc d"] Suc by (simp add: skip_loop_open)
      next
        case c
        then show ?thesis using Cons.IH [of "Suc b" k] Suc by (simp add: skip_loop_close)
      next
        case n
        then show ?thesis using Cons.IH [of b d] Suc skip_loop_other [of "b + d" b c s r] by (auto simp: is_paren_def)
      qed
    qed
    also have "\<dots> \<longleftrightarrow> (\<exists>p. c # s = p @ r \<and> depth_after d p = Some 0)"
    proof -
      have "depth_after d (c # p) = depth_after ?d p" for p using Suc by simp
      moreover have "depth_after d [] \<noteq> Some 0" using Suc by simp
      ultimately show ?thesis by (metis append_Cons append_eq_Cons_conv)
    qed
    finally show ?thesis .
  qed
qed

lemma skip_args_iff:
  "skip_args s = (True, r) \<longleftrightarrow> (\<exists>p. s = CHR ''('' # p @ r \<and> depth_after 1 p = Some 0)"
proof (cases s)
  case Nil
  then show ?thesis by (simp add: skip_args_def starts_with_def)
next
  case (Cons c t)
  then show ?thesis using skip_loop_iff [of 0 1 t r] by (auto simp: skip_args_def starts_with_def)
qed

text \<open>
  What is taken for a function: a text that begins with the keyword, after \<open>async\<close> or not, or with a
  closed pair of parentheses and an arrow.
\<close>

lemma is_likely_js_function_iff:
  "is_likely_js_function s \<longleftrightarrow>
     starts_with (trim_start s) ''function '' \<or>
     (\<exists>r. trim_start s = ''async '' @ r \<and> starts_with (trim_start r) ''function '') \<or>
     (\<exists>p r. trim_start s = CHR ''('' # p @ r \<and> depth_after 1 p = Some 0 \<and> starts_with (trim_start r) ''=>'')"
proof -
  let ?f = "trim_start s"
  have idem: "trim_start (trim_start t) = trim_start t" for t
    by (simp add: trim_start_def strip_front_id strip_front_None)
  have space: "trim_start (CHR '' '' # r) = trim_start r" for r
    unfolding trim_start_def
    by (subst strip_front.simps) (simp add: starts_with_any_def unicode_ws_def starts_with_def)
  have args: "(case skip_args ?f of (ok, r) \<Rightarrow> ok \<and> starts_with (trim_start r) ''=>'') \<longleftrightarrow>
      (\<exists>p r. ?f = CHR ''('' # p @ r \<and> depth_after 1 p = Some 0 \<and> starts_with (trim_start r) ''=>'')"
  proof -
    have "(case skip_args ?f of (ok, r) \<Rightarrow> ok \<and> starts_with (trim_start r) ''=>'') \<longleftrightarrow>
        (\<exists>r. skip_args ?f = (True, r) \<and> starts_with (trim_start r) ''=>'')"
      by (cases "skip_args ?f") simp
    also have "\<dots> \<longleftrightarrow>
        (\<exists>p r. ?f = CHR ''('' # p @ r \<and> depth_after 1 p = Some 0 \<and> starts_with (trim_start r) ''=>'')"
      unfolding skip_args_iff by blast
    finally show ?thesis .
  qed
  show ?thesis
  proof (cases "starts_with ?f ''async ''")
    case True
    then obtain r where r: "?f = ''async '' @ r" by (auto simp: starts_with_iff)
    then have "trim_start (drop 5 ?f) = trim_start r" by (simp add: space)
    then show ?thesis using r args by (auto simp: is_likely_js_function_def Let_def idem starts_with_def)
  next
    case False
    then have "\<nexists>r. ?f = ''async '' @ r" by (auto simp: starts_with_iff)
    then show ?thesis using False args
      by (auto simp: is_likely_js_function_def Let_def idem starts_with_def)
  qed
qed

end
