(* ===== verification/Cdp_Page.thy ===== *)
theory Cdp_Page
  imports Cdp_Js Async
begin

text \<open>
  The page that a target's handle shares (\<open>handler/page.rs\<close>): mouse, keyboard, evaluation, screenshots
  and searches, each a program over the operations of the page. A page is known by its target, its
  session and its opener.
\<close>

section \<open>Commands\<close>

definition command :: "(page_answer \<Rightarrow> 'a option) \<Rightarrow> page_cmd \<Rightarrow> 'a pg" where
  "command d c = ask d (PoCommand c)"

definition run_command :: "page_cmd \<Rightarrow> unit pg" where
  "run_command c = command an_unit c"

definition page_find_element :: "string \<Rightarrow> int \<Rightarrow> int pg" where
  "page_find_element selector n = command an_node_id (PcQuerySelector n selector)"

definition activate :: "page_ref \<Rightarrow> unit pg" where
  "activate p = run_command (PcActivate (pr_target p))"

definition page_version :: "string pg" where
  "page_version = command an_version PcGetVersion"

definition page_find_elements :: "string \<Rightarrow> int \<Rightarrow> int list pg" where
  "page_find_elements selector n = command an_node_ids (PcQuerySelectorAll n selector)"

text \<open>The nodes that an XPath query finds; the results are discarded in the browser before they are used.\<close>

definition page_find_xpaths :: "string \<Rightarrow> int list pg" where
  "page_find_xpaths query =
     pg_bind (command an_search (PcPerformSearch query True)) (\<lambda>(search, found).
     pg_bind (command an_node_ids (PcSearchResults search 0 found)) (\<lambda>nodes.
     pg_then (run_command (PcDiscardSearch search)) (pg_return nodes)))"

section \<open>Mouse and keyboard\<close>

definition page_move_mouse :: "point \<Rightarrow> unit pg" where
  "page_move_mouse p =
     run_command (PcMouse \<lparr>me_kind = MouseMoved, me_at = p, me_left = False, me_clicks = None\<rparr>)"

definition page_click_with :: "point \<Rightarrow> int \<Rightarrow> unit pg" where
  "page_click_with p clicks =
     (let cmd = \<lparr>me_kind = MousePressed, me_at = p, me_left = True, me_clicks = Some clicks\<rparr> in
        pg_then (page_move_mouse p)
          (pg_then (run_command (PcMouse cmd))
            (run_command (PcMouse (cmd\<lparr>me_kind := MouseReleased\<rparr>)))))"

definition page_click :: "point \<Rightarrow> unit pg" where
  "page_click p = page_click_with p 1"

text \<open>A definition with a text, or with a name of one byte, types it; another key is a raw key.\<close>

definition press_definition :: "key_definition \<Rightarrow> unit pg" where
  "press_definition d =
     (let (txt, down) =
        (case kd_text d of
           Some t \<Rightarrow> (Some t, KeyDown)
         | None \<Rightarrow> if length (kd_key d) = 1 then (Some (kd_key d), KeyDown) else (None, RawKeyDown));
        cmd = \<lparr>ke_kind = KeyDown, ke_text = txt, ke_key = kd_key d, ke_code = kd_code d, ke_number = kd_code_number d\<rparr>
      in pg_then (run_command (PcKey (cmd\<lparr>ke_kind := down\<rparr>))) (run_command (PcKey (cmd\<lparr>ke_kind := KeyUp\<rparr>))))"

definition page_press_key :: "string \<Rightarrow> unit pg" where
  "page_press_key key =
     (case get_key_definition key of
        None \<Rightarrow> pg_fail (CeChromeMessage (''Key not found: '' @ key))
      | Some d \<Rightarrow> press_definition d)"

text \<open>\<open>split("")\<close> without the empty pieces: the characters of a text, each a lead byte and the bytes that continue it.\<close>

definition continues :: "char \<Rightarrow> bool" where
  "continues c = (let n = of_char c :: nat in 128 \<le> n \<and> n < 192)"

fun characters :: "string \<Rightarrow> string list" where
  "characters [] = []"
| "characters (c # s) =
     (case characters s of
        [] \<Rightarrow> [[c]]
      | p # ps \<Rightarrow> (if continues (hd p) then (c # p) # ps else [c] # p # ps))"

definition page_type_str :: "string \<Rightarrow> unit pg" where
  "page_type_str input = pg_each page_press_key (characters input)"

section \<open>Evaluation\<close>

definition page_call_js_fn :: "script \<Rightarrow> bool \<Rightarrow> string \<Rightarrow> (remote_object \<times> string option) pg" where
  "page_call_js_fn f await_promise object =
     command an_evaluation (PcCallFunction
       ((call_new f)\<lparr>cf_object := Some object, cf_preview := Some True, cf_await := Some await_promise\<rparr>))"

definition execution_context_for_world :: "string option \<Rightarrow> dom_world_kind \<Rightarrow> int option pg" where
  "execution_context_for_world frame w = ask an_context (PoContext frame w)"

definition execution_context :: "int option pg" where
  "execution_context = execution_context_for_world None WkMain"

definition secondary_execution_context :: "int option pg" where
  "secondary_execution_context = execution_context_for_world None WkSecondary"

definition frame_execution_context :: "string \<Rightarrow> int option pg" where
  "frame_execution_context frame = execution_context_for_world (Some frame) WkMain"

definition frame_secondary_execution_context :: "string \<Rightarrow> int option pg" where
  "frame_secondary_execution_context frame = execution_context_for_world (Some frame) WkSecondary"

text \<open>A context that the caller named is kept, another one is asked for.\<close>

definition context_or_default :: "int option \<Rightarrow> int option pg" where
  "context_or_default ctx = (case ctx of None \<Rightarrow> execution_context | Some c \<Rightarrow> pg_return (Some c))"

definition or_true :: "bool option \<Rightarrow> bool option" where
  "or_true b = (case b of None \<Rightarrow> Some True | Some x \<Rightarrow> Some x)"

definition evaluation_result :: "remote_object \<times> string option \<Rightarrow> remote_object pg" where
  "evaluation_result r =
     (case r of (x, Some e) \<Rightarrow> pg_fail (CeJavascriptException e) | (x, None) \<Rightarrow> pg_return x)"

definition page_evaluate_expression :: "evaluate_params \<Rightarrow> remote_object pg" where
  "page_evaluate_expression e =
     pg_bind (context_or_default (ep_context e)) (\<lambda>ctx.
     pg_bind (command an_evaluation (PcEvaluate
       (e\<lparr>ep_context := ctx, ep_await := or_true (ep_await e), ep_by_value := or_true (ep_by_value e)\<rparr>)))
       evaluation_result)"

definition page_evaluate_function :: "call_params \<Rightarrow> remote_object pg" where
  "page_evaluate_function e =
     pg_bind (context_or_default (cf_context e)) (\<lambda>ctx.
     pg_bind (command an_evaluation (PcCallFunction
       (e\<lparr>cf_context := ctx, cf_await := or_true (cf_await e), cf_by_value := or_true (cf_by_value e)\<rparr>)))
       evaluation_result)"

section \<open>Screenshots\<close>

record screenshot_params =
  sp_capture :: capture
  sp_full_page :: "bool option"
  sp_omit_background :: "bool option"

definition full_page :: "screenshot_params \<Rightarrow> bool" where
  "full_page s = (sp_full_page s = Some True)"

definition omit_background :: "screenshot_params \<Rightarrow> bool" where
  "omit_background s \<longleftrightarrow>
     sp_omit_background s = Some True \<and> (case ca_format (sp_capture s) of None \<Rightarrow> True | Some f \<Rightarrow> f = FmPng)"

definition page_layout_metrics :: "layout_metrics pg" where
  "page_layout_metrics = command an_metrics PcLayoutMetrics"

definition decoded :: "(string \<Rightarrow> string + bytes) \<Rightarrow> string \<Rightarrow> bytes pg" where
  "decoded b64 s = PgDone (map_err CeDecode (b64 s))"

definition when_do :: "bool \<Rightarrow> unit pg \<Rightarrow> unit pg" where
  "when_do b p = (if b then p else pg_return ())"

text \<open>A screenshot of the full page asks for the size of the contents, and gives the page that size.\<close>

definition page_size_clip :: "bool \<Rightarrow> capture \<Rightarrow> capture pg" where
  "page_size_clip full c =
     (if full
      then pg_bind page_layout_metrics (\<lambda>m.
        let w = lm_content_width m; h = lm_content_height m in
        pg_then (run_command (PcDeviceMetrics (f64_as_i64 (F64 w)) (f64_as_i64 (F64 h)) 1 False))
          (pg_return (c\<lparr>ca_clip := Some \<lparr>cv_x = 0, cv_y = 0, cv_width = w, cv_height = h, cv_scale = 1\<rparr>\<rparr>)))
      else pg_return c)"

definition page_screenshot :: "(string \<Rightarrow> string + bytes) \<Rightarrow> page_ref \<Rightarrow> screenshot_params \<Rightarrow> bytes pg" where
  "page_screenshot b64 p s =
     pg_then (activate p)
     (pg_bind (page_size_clip (full_page s) (sp_capture s)) (\<lambda>c.
      pg_then (when_do (omit_background s) (run_command (PcBackground (Some (0, 0, 0, 0)))))
      (pg_bind (command an_data (PcScreenshot c)) (\<lambda>res.
       pg_then (when_do (omit_background s) (run_command (PcBackground None)))
       (pg_then (when_do (full_page s) (run_command PcClearDeviceMetrics))
        (decoded b64 res))))))"

end
