(* ===== verification/Cdp_Element.thy ===== *)
theory Cdp_Element
  imports Cdp_Page
begin

text \<open>
  The elements of a page (\<open>element.rs\<close>). An element is made of a node by two commands; its methods
  find the point to click, scroll, type, read properties and take screenshots. \<open>err\<close> and \<open>dbg\<close> are
  the texts that \<open>serde_json\<close> and the generated \<open>Debug\<close> of a node identifier give.
\<close>

record element =
  el_object :: string
  el_backend :: int
  el_node :: int

definition element_new :: "(int \<Rightarrow> string) \<Rightarrow> int \<Rightarrow> element pg" where
  "element_new dbg n =
     pg_bind (command an_node (PcDescribeNode (Some n) None 100)) (\<lambda>d.
     pg_bind (command an_object (PcResolveNode (nd_backend d))) (\<lambda>obj.
       case ro_id obj of
         None \<Rightarrow> pg_fail (CeChromeMessage (''No object Id found for '' @ dbg n))
       | Some i \<Rightarrow> pg_return \<lparr>el_object = i, el_backend = nd_backend d, el_node = n\<rparr>))"

definition from_nodes :: "(int \<Rightarrow> string) \<Rightarrow> nat list \<Rightarrow> int list \<Rightarrow> element list pg" where
  "from_nodes dbg sched ns =
     pg_bind (join_all sched (map (element_new dbg) ns)) (\<lambda>rs. PgDone (collect_results rs))"

definition element_find_element :: "(int \<Rightarrow> string) \<Rightarrow> string \<Rightarrow> element \<Rightarrow> element pg" where
  "element_find_element dbg selector e = pg_bind (page_find_element selector (el_node e)) (element_new dbg)"

definition element_find_elements :: "(int \<Rightarrow> string) \<Rightarrow> nat list \<Rightarrow> string \<Rightarrow> element \<Rightarrow> element list pg" where
  "element_find_elements dbg sched selector e =
     pg_bind (page_find_elements selector (el_node e)) (from_nodes dbg sched)"

section \<open>Geometry\<close>

definition quad_or_panic :: "coord list \<Rightarrow> element_quad pg" where
  "quad_or_panic cs = (case from_quad cs of None \<Rightarrow> PgPanic | Some q \<Rightarrow> pg_return q)"

definition element_box_model :: "element \<Rightarrow> box_model pg" where
  "element_box_model e =
     pg_bind (command an_box (PcBoxModel (el_backend e))) (\<lambda>m.
     pg_bind (quad_or_panic (rb_content m)) (\<lambda>content.
     pg_bind (quad_or_panic (rb_padding m)) (\<lambda>padding.
     pg_bind (quad_or_panic (rb_border m)) (\<lambda>border.
     pg_bind (quad_or_panic (rb_margin m)) (\<lambda>margin.
       pg_return \<lparr>bm_content = content, bm_padding = padding, bm_border = border, bm_margin = margin,
         bm_width = word_of_int (rb_width m), bm_height = word_of_int (rb_height m)\<rparr>)))))"

definition box_of_quad :: "element_quad \<Rightarrow> bounding_box" where
  "box_of_quad q =
     (let x = most_left q; y = most_top q in
        \<lparr>bx_x = x, bx_y = y, bx_width = most_right q - x, bx_height = most_bottom q - y\<rparr>)"

definition element_bounding_box :: "element \<Rightarrow> bounding_box pg" where
  "element_bounding_box e = pg_map (\<lambda>b. box_of_quad (bm_border b)) (element_box_model e)"

text \<open>The centre of the first quad with an area of more than one pixel.\<close>

definition visible_quads :: "coord list list \<Rightarrow> element_quad list" where
  "visible_quads qs =
     filter (\<lambda>q. quad_area q > 1) (List.map_filter from_quad (filter (\<lambda>q. length q = 8) qs))"

definition clickable_point :: "element \<Rightarrow> point pg" where
  "clickable_point e =
     pg_bind (command an_quads (PcContentQuads (el_backend e))) (\<lambda>qs.
       case visible_quads qs of
         [] \<Rightarrow> pg_fail (CeChromeMessage ''Node is either not visible or not an HTMLElement'')
       | q # _ \<Rightarrow> pg_return (quad_center q))"

section \<open>Interaction\<close>

definition element_call_js_fn :: "script \<Rightarrow> bool \<Rightarrow> element \<Rightarrow> (remote_object \<times> string option) pg" where
  "element_call_js_fn f await_promise e = page_call_js_fn f await_promise (el_object e)"

definition json_value :: "element \<Rightarrow> js_value pg" where
  "json_value e =
     pg_bind (element_call_js_fn (ScText ''function() { return this; }'') False e) (\<lambda>(r, _).
       case ro_value r of None \<Rightarrow> pg_fail CeNotFound | Some v \<Rightarrow> pg_return v)"

definition focus :: "element \<Rightarrow> unit pg" where
  "focus e = pg_then (element_call_js_fn (ScText ''function() { this.focus(); }'') True e) (pg_return ())"

text \<open>The script answers with a text when the element cannot be scrolled to, and with \<open>false\<close> otherwise.\<close>

definition scroll_into_view :: "element \<Rightarrow> unit pg" where
  "scroll_into_view e =
     pg_bind (element_call_js_fn ScScrollIntoView True e) (\<lambda>(r, _).
       if ro_type r = RtString
       then (case ro_value r of Some (JText t) \<Rightarrow> pg_fail (CeScrollingFailed t) | _ \<Rightarrow> PgPanic)
       else pg_return ())"

definition hover :: "element \<Rightarrow> unit pg" where
  "hover e = pg_then (scroll_into_view e) (pg_bind (clickable_point e) page_move_mouse)"

definition element_click :: "element \<Rightarrow> unit pg" where
  "element_click e = pg_bind (pg_then (scroll_into_view e) (clickable_point e)) page_click"

definition element_click_with :: "int \<Rightarrow> element \<Rightarrow> unit pg" where
  "element_click_with clicks e =
     pg_bind (pg_then (scroll_into_view e) (clickable_point e)) (\<lambda>p. page_click_with p clicks)"

definition element_type_str :: "string \<Rightarrow> element \<Rightarrow> unit pg" where
  "element_type_str input e = page_type_str input"

definition element_press_key :: "string \<Rightarrow> element \<Rightarrow> unit pg" where
  "element_press_key key e = page_press_key key"

section \<open>Attributes and properties\<close>

definition description :: "element \<Rightarrow> node pg" where
  "description e = command an_node (PcDescribeNode None (Some (el_backend e)) 100)"

definition element_attributes :: "element \<Rightarrow> string list pg" where
  "element_attributes e =
     pg_map (\<lambda>n. case nd_attributes n of None \<Rightarrow> [] | Some as \<Rightarrow> as) (description e)"

definition attribute_script :: "string \<Rightarrow> string" where
  "attribute_script a =
     ''function() { return this.getAttribute('' @ [CHR 0x27] @ a @ [CHR 0x27] @ ''); }''"

definition element_attribute :: "(js_value \<Rightarrow> string) \<Rightarrow> string \<Rightarrow> element \<Rightarrow> string option pg" where
  "element_attribute err a e =
     pg_bind (element_call_js_fn (ScText (attribute_script a)) False e) (\<lambda>(r, _).
       case ro_value r of None \<Rightarrow> pg_return None | Some v \<Rightarrow> PgDone (maybe_string_of_value err v))"

text \<open>
  The stream of the attributes takes the names from the back of the list; \<open>attribute_next\<close> is its next
  item with the names that are left, and \<open>drain_attributes\<close> its items until it ends.
\<close>

definition attribute_next ::
    "(js_value \<Rightarrow> string) \<Rightarrow> element \<Rightarrow> string list \<Rightarrow> ((string \<times> (cdp_error + string option)) \<times> string list) option pg" where
  "attribute_next err e names =
     (if names = [] then pg_return None
      else pg_map (\<lambda>r. Some ((last names, r), butlast names)) (pg_attempt (element_attribute err (last names) e)))"

primrec drain_attributes ::
    "nat \<Rightarrow> (js_value \<Rightarrow> string) \<Rightarrow> element \<Rightarrow> string list \<Rightarrow> (string \<times> (cdp_error + string option)) list pg" where
  "drain_attributes 0 err e names = pg_return []"
| "drain_attributes (Suc n) err e names =
     pg_bind (attribute_next err e names) (\<lambda>x.
       case x of None \<Rightarrow> pg_return [] | Some (i, rest) \<Rightarrow> pg_map (\<lambda>is. i # is) (drain_attributes n err e rest))"

definition iter_attributes ::
    "(js_value \<Rightarrow> string) \<Rightarrow> element \<Rightarrow> (string \<times> (cdp_error + string option)) list pg" where
  "iter_attributes err e =
     pg_bind (element_attributes e) (\<lambda>as. drain_attributes (Suc (length as)) err e as)"

definition property_script :: "string \<Rightarrow> string" where
  "property_script p = ''function() { return this.'' @ p @ ''; }''"

definition element_property :: "string \<Rightarrow> element \<Rightarrow> js_value option pg" where
  "element_property p e =
     pg_map (\<lambda>(r, _). ro_value r) (element_call_js_fn (ScText (property_script p)) False e)"

definition string_property :: "(js_value \<Rightarrow> string) \<Rightarrow> string \<Rightarrow> element \<Rightarrow> string option pg" where
  "string_property err p e =
     pg_bind (element_property p e) (\<lambda>v.
       case v of
         None \<Rightarrow> pg_fail CeNotFound
       | Some v \<Rightarrow> pg_bind (PgDone (string_of_value err v)) (\<lambda>t. pg_return (if t \<noteq> [] then Some t else None)))"

definition inner_text :: "(js_value \<Rightarrow> string) \<Rightarrow> element \<Rightarrow> string option pg" where
  "inner_text err e = string_property err ''innerText'' e"

definition inner_html :: "(js_value \<Rightarrow> string) \<Rightarrow> element \<Rightarrow> string option pg" where
  "inner_html err e = string_property err ''innerHTML'' e"

definition outer_html :: "(js_value \<Rightarrow> string) \<Rightarrow> element \<Rightarrow> string option pg" where
  "outer_html err e = string_property err ''outerHTML'' e"

definition element_properties :: "element \<Rightarrow> (string \<rightharpoonup> js_value) pg" where
  "element_properties e = pg_map (\<lambda>ps. map_of (rev ps)) (command an_properties (PcGetProperties (el_object e) True))"

section \<open>Screenshots\<close>

definition element_clip :: "layout_metrics \<Rightarrow> bounding_box \<Rightarrow> clip_viewport" where
  "element_clip m b =
     (let x = bx_x b + of_int (lm_page_x m); y = bx_y b + of_int (lm_page_y m) in
        \<lparr>cv_x = of_int (lm_page_x m) + x, cv_y = of_int (lm_page_y m) + y,
         cv_width = bx_width b, cv_height = bx_height b, cv_scale = 1\<rparr>)"

definition element_screenshot ::
    "(string \<Rightarrow> string + bytes) \<Rightarrow> page_ref \<Rightarrow> image_format \<Rightarrow> element \<Rightarrow> bytes pg" where
  "element_screenshot b64 p format e =
     pg_bind (pg_then (scroll_into_view e) (element_bounding_box e)) (\<lambda>b.
     pg_bind page_layout_metrics (\<lambda>m.
       page_screenshot b64 p
         \<lparr>sp_capture = \<lparr>ca_format = Some format, ca_quality = None, ca_clip = Some (element_clip m b),
            ca_surface = None, ca_beyond = None\<rparr>,
          sp_full_page = None, sp_omit_background = None\<rparr>))"

definition write_file :: "string \<Rightarrow> bytes \<Rightarrow> unit pg" where
  "write_file path contents = ask an_unit (PoWrite path contents)"

definition element_save_screenshot ::
    "(string \<Rightarrow> string + bytes) \<Rightarrow> page_ref \<Rightarrow> image_format \<Rightarrow> string \<Rightarrow> element \<Rightarrow> bytes pg" where
  "element_save_screenshot b64 p format output e =
     pg_bind (element_screenshot b64 p format e) (\<lambda>img. pg_then (write_file output img) (pg_return img))"

end
