(* ===== verification/Cdp_Page_Api.thy ===== *)
theory Cdp_Page_Api
  imports Cdp_Element
begin

text \<open>
  The public methods of a page (\<open>page.rs\<close>): stealth scripts, navigation, questions to the target,
  searches, emulation, cookies and evaluation, over the operations of \<open>Cdp_Page\<close>. The parameters are
  the generated conversions of the protocol crate and the texts of \<open>serde_json\<close>.
\<close>

section \<open>Stealth\<close>

definition add_script_new :: "script \<Rightarrow> add_script" where
  "add_script_new s = \<lparr>as_source = s, as_world = None, as_command_line = None, as_run = None\<rparr>"

definition hide :: "script \<Rightarrow> unit pg" where
  "hide s = pg_then (command an_script (PcAddScript (add_script_new s))) (pg_return ())"

definition hide_chrome :: "unit pg" where
  "hide_chrome = hide ScHideChrome"

definition hide_webgl_vendor :: "unit pg" where
  "hide_webgl_vendor = hide ScHideWebglVendor"

definition hide_plugins :: "unit pg" where
  "hide_plugins = hide ScHidePlugins"

definition hide_permissions :: "unit pg" where
  "hide_permissions = hide ScHidePermissions"

definition hide_webdriver :: "unit pg" where
  "hide_webdriver = hide ScHideWebdriver"

definition stealth_scripts :: "unit pg" where
  "stealth_scripts =
     pg_then hide_webdriver (pg_then hide_permissions (pg_then hide_plugins
       (pg_then hide_webgl_vendor (pg_then hide_chrome (pg_return ())))))"

definition set_user_agent :: "string \<Rightarrow> unit pg" where
  "set_user_agent ua = run_command (PcSetUserAgent ua)"

definition stealth_agent :: string where
  "stealth_agent =
     ''Mozilla/5.0 (Windows NT 11.0; Win64; x64) AppleWebKit/537.36 (KHTML, like Gecko) Chrome/107.0.5296.0 Safari/537.36''"

definition enable_stealth_mode :: "unit pg" where
  "enable_stealth_mode = pg_then stealth_scripts (set_user_agent stealth_agent)"

definition enable_stealth_mode_with_agent :: "string \<Rightarrow> unit pg" where
  "enable_stealth_mode_with_agent ua =
     pg_then stealth_scripts (if ua \<noteq> [] then set_user_agent ua else pg_return ())"

section \<open>Listeners, functions and navigation\<close>

definition page_event_listener :: "string \<Rightarrow> unit pg" where
  "page_event_listener m = ask an_unit (PoAddListener m)"

definition expose_function :: "string \<Rightarrow> string \<Rightarrow> unit pg" where
  "expose_function name f =
     (let expression = evaluation_string f [''exposedFun'', name] in
        pg_then (run_command (PcAddBinding name))
          (pg_then (command an_script (PcAddScript (add_script_new (ScText expression)))) (pg_return ())))"

definition page_wait_for_navigation_response :: "http_request option pg" where
  "page_wait_for_navigation_response = ask an_request PoWaitForNavigation"

definition page_wait_for_navigation :: "unit pg" where
  "page_wait_for_navigation = pg_then page_wait_for_navigation_response (pg_return ())"

definition page_goto :: "string \<Rightarrow> unit pg" where
  "page_goto url =
     pg_bind (command an_navigated (PcNavigate url)) (\<lambda>e.
       case e of Some t \<Rightarrow> pg_fail (CeChromeMessage t) | None \<Rightarrow> pg_return ())"

section \<open>Questions to the target\<close>

definition page_frame_name :: "string \<Rightarrow> string option pg" where
  "page_frame_name frame = ask an_text (PoName (Some frame))"

definition page_authenticate :: "net_credentials \<Rightarrow> unit pg" where
  "page_authenticate c = ask an_unit (PoAuthenticate c)"

definition page_url :: "string option pg" where
  "page_url = ask an_text (PoUrl None)"

definition page_frame_url :: "string \<Rightarrow> string option pg" where
  "page_frame_url frame = ask an_text (PoUrl (Some frame))"

definition page_frame_parent :: "string \<Rightarrow> string option pg" where
  "page_frame_parent frame = ask an_text (PoParent frame)"

definition page_mainframe :: "string option pg" where
  "page_mainframe = ask an_text PoMainFrame"

definition page_frames :: "string list pg" where
  "page_frames = ask an_texts PoAllFrames"

definition user_agent :: "string pg" where
  "user_agent = page_version"

section \<open>Elements\<close>

definition get_document :: "node pg" where
  "get_document = command an_node PcGetDocument"

definition find_element :: "(int \<Rightarrow> string) \<Rightarrow> string \<Rightarrow> element pg" where
  "find_element dbg selector =
     pg_bind get_document (\<lambda>root. pg_bind (page_find_element selector (nd_id root)) (element_new dbg))"

definition find_elements :: "(int \<Rightarrow> string) \<Rightarrow> nat list \<Rightarrow> string \<Rightarrow> element list pg" where
  "find_elements dbg sched selector =
     pg_bind get_document (\<lambda>root. pg_bind (page_find_elements selector (nd_id root)) (from_nodes dbg sched))"

text \<open>The first node is indexed without a check.\<close>

definition find_xpath :: "(int \<Rightarrow> string) \<Rightarrow> string \<Rightarrow> element pg" where
  "find_xpath dbg selector =
     pg_then get_document (pg_bind (page_find_xpaths selector) (\<lambda>ns.
       case ns of [] \<Rightarrow> PgPanic | n # _ \<Rightarrow> element_new dbg n))"

definition find_xpaths :: "(int \<Rightarrow> string) \<Rightarrow> nat list \<Rightarrow> string \<Rightarrow> element list pg" where
  "find_xpaths dbg sched selector =
     pg_then get_document (pg_bind (page_find_xpaths selector) (from_nodes dbg sched))"

definition describe_node :: "int \<Rightarrow> node pg" where
  "describe_node n = command an_node (PcDescribeNode (Some n) None 100)"

definition page_close :: "unit pg" where
  "page_close = run_command PcClose"

section \<open>Pictures and emulation\<close>

definition page_save_screenshot ::
    "(string \<Rightarrow> string + bytes) \<Rightarrow> page_ref \<Rightarrow> screenshot_params \<Rightarrow> string \<Rightarrow> bytes pg" where
  "page_save_screenshot b64 p s output =
     pg_bind (page_screenshot b64 p s) (\<lambda>img. pg_then (write_file output img) (pg_return img))"

definition page_pdf :: "(string \<Rightarrow> string + bytes) \<Rightarrow> string \<Rightarrow> bytes pg" where
  "page_pdf b64 params = pg_bind (command an_data (PcPrintToPdf params)) (decoded b64)"

definition save_pdf :: "(string \<Rightarrow> string + bytes) \<Rightarrow> string \<Rightarrow> string \<Rightarrow> bytes pg" where
  "save_pdf b64 opts output =
     pg_bind (page_pdf b64 opts) (\<lambda>pdf. pg_then (write_file output pdf) (pg_return pdf))"

definition bring_to_front :: "unit pg" where
  "bring_to_front = run_command PcBringToFront"

definition emulate_media_features :: "(string \<times> string) list \<Rightarrow> unit pg" where
  "emulate_media_features features = run_command (PcEmulatedMedia None (Some features))"

datatype media_type = MtNull | MtScreen | MtPrint

fun media_text :: "media_type \<Rightarrow> string" where
  "media_text MtNull = ''null''"
| "media_text MtScreen = ''screen''"
| "media_text MtPrint = ''print''"

definition emulate_media_type :: "media_type \<Rightarrow> unit pg" where
  "emulate_media_type m = run_command (PcEmulatedMedia (Some (media_text m)) None)"

definition emulate_timezone :: "string \<Rightarrow> unit pg" where
  "emulate_timezone z = run_command (PcTimezone z)"

definition emulate_locale :: "string \<Rightarrow> unit pg" where
  "emulate_locale l = run_command (PcLocale l)"

definition emulate_geolocation :: "string \<Rightarrow> unit pg" where
  "emulate_geolocation g = run_command (PcGeolocation g)"

definition reload :: "unit pg" where
  "reload = pg_then (run_command PcReload) page_wait_for_navigation"

definition enable_domain :: "cdp_domain \<Rightarrow> unit pg" where
  "enable_domain d = run_command (PcEnable d)"

definition disable_domain :: "cdp_domain \<Rightarrow> unit pg" where
  "disable_domain d = run_command (PcDisable d)"

section \<open>Cookies\<close>

definition page_get_cookies :: "page_cookie list pg" where
  "page_get_cookies = command an_cookies PcGetCookies"

definition validate_cookie_url :: "string \<Rightarrow> cdp_error + unit" where
  "validate_cookie_url url =
     (if starts_with url ''data:'' then Inl (CeChromeMessage ''Data URL page can not have cookie'')
      else if url = ''about:blank'' then Inl (CeChromeMessage ''Blank page can not have cookie'')
      else Inr ())"

definition known_url :: "string pg" where
  "known_url =
     pg_bind page_url (\<lambda>u.
       case u of None \<Rightarrow> pg_fail (CeChromeMessage ''Page url not found'') | Some u \<Rightarrow> pg_return u)"

definition page_set_cookie :: "(cookie_param \<Rightarrow> delete_cookie) \<Rightarrow> cookie_param \<Rightarrow> unit pg" where
  "page_set_cookie del c =
     pg_bind
       (case cp_url c of
          Some u \<Rightarrow> pg_then (PgDone (validate_cookie_url u)) (pg_return c)
        | None \<Rightarrow>
            pg_bind known_url (\<lambda>u.
              pg_then (PgDone (validate_cookie_url u))
                (pg_return (if starts_with u ''http'' then c\<lparr>cp_url := Some u\<rparr> else c))))
       (\<lambda>c. pg_then (run_command (PcDeleteCookies (del c))) (run_command (PcSetCookies [c])))"

text \<open>The cookies with their URLs checked, or set to the URL of the page when that is an HTTP one.\<close>

fun fill_cookie_urls :: "string \<Rightarrow> cookie_param list \<Rightarrow> cdp_error + cookie_param list" where
  "fill_cookie_urls page [] = Inr []"
| "fill_cookie_urls page (c # cs) =
     res_bind
       (case cp_url c of
          Some u \<Rightarrow> res_bind (validate_cookie_url u) (\<lambda>_. Inr c)
        | None \<Rightarrow> Inr (if starts_with page ''http'' then c\<lparr>cp_url := Some page\<rparr> else c))
       (\<lambda>c. res_bind (fill_cookie_urls page cs) (\<lambda>cs. Inr (c # cs)))"

definition delete_cookies_unchecked :: "nat list \<Rightarrow> delete_cookie list \<Rightarrow> unit pg" where
  "delete_cookies_unchecked sched cs = buffer_unordered 5 sched [] (map PcDeleteCookies cs)"

definition page_set_cookies ::
    "(cookie_param \<Rightarrow> delete_cookie) \<Rightarrow> nat list \<Rightarrow> cookie_param list \<Rightarrow> unit pg" where
  "page_set_cookies del sched cs =
     pg_bind known_url (\<lambda>page.
     pg_then (PgDone (if starts_with page ''http'' then Inr () else validate_cookie_url page))
     (pg_bind (PgDone (fill_cookie_urls page cs)) (\<lambda>cs.
      pg_then (delete_cookies_unchecked sched (map del cs)) (run_command (PcSetCookies cs)))))"

definition page_delete_cookie :: "delete_cookie \<Rightarrow> unit pg" where
  "page_delete_cookie c =
     pg_bind
       (case dc_url c of
          Some u \<Rightarrow> pg_return c
        | None \<Rightarrow> pg_map (\<lambda>u. if starts_with u ''http'' then c\<lparr>dc_url := Some u\<rparr> else c) known_url)
       (\<lambda>c. run_command (PcDeleteCookies c))"

text \<open>The URL of the page is asked for once, and only when a cookie has none.\<close>

fun fill_delete_urls :: "string option \<Rightarrow> delete_cookie list \<Rightarrow> delete_cookie list pg" where
  "fill_delete_urls page [] = pg_return []"
| "fill_delete_urls page (c # cs) =
     (case dc_url c of
        Some u \<Rightarrow> pg_map (\<lambda>cs. c # cs) (fill_delete_urls page cs)
      | None \<Rightarrow>
          pg_bind (case page of Some u \<Rightarrow> pg_return u | None \<Rightarrow> known_url) (\<lambda>u.
            pg_map (\<lambda>cs. (if starts_with u ''http'' then c\<lparr>dc_url := Some u\<rparr> else c) # cs)
              (fill_delete_urls (Some u) cs)))"

definition page_delete_cookies :: "nat list \<Rightarrow> delete_cookie list \<Rightarrow> unit pg" where
  "page_delete_cookies sched cs = pg_bind (fill_delete_urls None cs) (delete_cookies_unchecked sched)"

section \<open>Evaluation\<close>

definition page_metrics :: "(string \<times> coord) list pg" where
  "page_metrics = command an_performance PcGetMetrics"

text \<open>An expression that turns out to be a function is evaluated again as one, when its caller asked for it.\<close>

definition evaluate :: "(evaluate_params \<Rightarrow> call_params) \<Rightarrow> evaluation \<Rightarrow> remote_object pg" where
  "evaluate to_function x =
     (case x of
        EvFunction f \<Rightarrow> page_evaluate_function f
      | EvExpression e \<Rightarrow>
          pg_bind (context_or_default (ep_context e)) (\<lambda>ctx.
            let e = e\<lparr>ep_context := ctx\<rparr> in
            pg_bind (page_evaluate_expression e) (\<lambda>res.
              if ro_type res = RtFunction \<and> ep_fallback e = Some True
              then page_evaluate_function (to_function e)
              else pg_return res)))"

definition get_title ::
    "(evaluate_params \<Rightarrow> call_params) \<Rightarrow> (js_value \<Rightarrow> string) \<Rightarrow> string option pg" where
  "get_title to_function err =
     pg_bind (evaluate to_function (evaluation_of_text ''document.title'')) (\<lambda>r.
     pg_bind (PgDone (into_value (string_of_value err) r)) (\<lambda>t.
       pg_return (if t = [] then None else Some t)))"

definition evaluate_on_new_document :: "add_script \<Rightarrow> string pg" where
  "evaluate_on_new_document s = command an_script (PcAddScript s)"

definition page_set_content :: "string \<Rightarrow> unit pg" where
  "page_set_content html =
     pg_bind (execution_context_for_world None WkSecondary) (\<lambda>ctx.
       pg_then
         (page_evaluate_function ((call_new ScSetContent)\<lparr>cf_arguments := [JText html], cf_context := ctx\<rparr>))
         page_wait_for_navigation)"

definition content_script :: string where
  "content_script =
     join [CHR 0x0A]
       [''{'',
        ''          let retVal = '' @ [CHR 0x27, CHR 0x27] @ '';'',
        ''          if (document.doctype) {'',
        ''            retVal = new XMLSerializer().serializeToString(document.doctype);'',
        ''          }'',
        ''          if (document.documentElement) {'',
        ''            retVal += document.documentElement.outerHTML;'',
        ''          }'',
        ''          retVal'',
        ''      }'',
        ''      '']"

definition page_content :: "(evaluate_params \<Rightarrow> call_params) \<Rightarrow> (js_value \<Rightarrow> string) \<Rightarrow> string pg" where
  "page_content to_function err =
     pg_bind (evaluate to_function (evaluation_of_text content_script)) (\<lambda>r.
       PgDone (into_value (string_of_value err) r))"

definition get_script_source :: "string \<Rightarrow> string pg" where
  "get_script_source i = command (\<lambda>a. case a of PaData s \<Rightarrow> Some s | _ \<Rightarrow> None) (PcScriptSource i)"

section \<open>Screenshot parameters\<close>

definition capture_default :: capture where
  "capture_default =
     \<lparr>ca_format = None, ca_quality = None, ca_clip = None, ca_surface = None, ca_beyond = None\<rparr>"

definition screenshot_default :: screenshot_params where
  "screenshot_default = \<lparr>sp_capture = capture_default, sp_full_page = None, sp_omit_background = None\<rparr>"

datatype screenshot_option =
    SoFormat image_format
  | SoQuality int
  | SoClip clip_viewport
  | SoSurface bool
  | SoBeyond bool
  | SoFullPage bool
  | SoOmitBackground bool

text \<open>The builder methods, and a chain of them from the default to \<open>build\<close>.\<close>

fun screenshot_set :: "screenshot_option \<Rightarrow> screenshot_params \<Rightarrow> screenshot_params" where
  "screenshot_set (SoFormat f) s = s\<lparr>sp_capture := (sp_capture s)\<lparr>ca_format := Some f\<rparr>\<rparr>"
| "screenshot_set (SoQuality q) s = s\<lparr>sp_capture := (sp_capture s)\<lparr>ca_quality := Some q\<rparr>\<rparr>"
| "screenshot_set (SoClip c) s = s\<lparr>sp_capture := (sp_capture s)\<lparr>ca_clip := Some c\<rparr>\<rparr>"
| "screenshot_set (SoSurface b) s = s\<lparr>sp_capture := (sp_capture s)\<lparr>ca_surface := Some b\<rparr>\<rparr>"
| "screenshot_set (SoBeyond b) s = s\<lparr>sp_capture := (sp_capture s)\<lparr>ca_beyond := Some b\<rparr>\<rparr>"
| "screenshot_set (SoFullPage b) s = s\<lparr>sp_full_page := Some b\<rparr>"
| "screenshot_set (SoOmitBackground b) s = s\<lparr>sp_omit_background := Some b\<rparr>"

definition screenshot_build :: "screenshot_option list \<Rightarrow> screenshot_params" where
  "screenshot_build os = fold screenshot_set os screenshot_default"

end
