(* ===== verification/Cdp_Page_Props.thy ===== *)
theory Cdp_Page_Props
  imports Cdp_Page_Api
begin

text \<open>
  What holds of the methods of a page: the rules for running programs, the independence of
  \<open>join_all\<close> of its schedule, typing, clicking, screenshots, searches and cookies.
\<close>

section \<open>Running programs\<close>

lemma pg_run_bind:
  "pg_run (pg_bind p f) env h =
     (case pg_run p env h of
        (h', None) \<Rightarrow> (h', None)
      | (h', Some (Inl e)) \<Rightarrow> (h', Some (Inl e))
      | (h', Some (Inr x)) \<Rightarrow> pg_run (f x) env h')"
  by (induction p arbitrary: h) (auto split: sum.splits)

lemma pg_run_then:
  "pg_run (pg_then p q) env h =
     (case pg_run p env h of
        (h', None) \<Rightarrow> (h', None)
      | (h', Some (Inl e)) \<Rightarrow> (h', Some (Inl e))
      | (h', Some (Inr x)) \<Rightarrow> pg_run q env h')"
  by (simp add: pg_then_def pg_run_bind)

lemma pg_run_map:
  "pg_run (pg_map f p) env h =
     (case pg_run p env h of (h', r) \<Rightarrow> (h', map_option (map_sum id f) r))"
  by (auto simp: pg_map_def pg_run_bind split: prod.splits option.splits sum.splits)

lemma pg_run_attempt:
  "pg_run (pg_attempt p) env h = (case pg_run p env h of (h', r) \<Rightarrow> (h', map_option Inr r))"
  by (induction p arbitrary: h) auto

lemma pg_run_ask [simp]: "pg_run (ask d a) env h = (h @ [a], Some (decode d (env h a)))"
  by (simp add: ask_def)

lemma pg_run_command [simp]:
  "pg_run (command d c) env h = (h @ [PoCommand c], Some (decode d (env h (PoCommand c))))"
  by (simp add: command_def)

lemma pg_run_run_command [simp]:
  "pg_run (run_command c) env h = (h @ [PoCommand c], Some (decode an_unit (env h (PoCommand c))))"
  by (simp add: run_command_def)

text \<open>A run that succeeds.\<close>

definition succeeds :: "'a pg \<Rightarrow> browser \<Rightarrow> page_op list \<Rightarrow> page_op list \<Rightarrow> 'a \<Rightarrow> bool" where
  "succeeds p env h h' x \<longleftrightarrow> pg_run p env h = (h', Some (Inr x))"

named_theorems run_ok \<open>when a program succeeds\<close>

lemma succeeds_return [run_ok]: "succeeds (pg_return x) env h h' y \<longleftrightarrow> h' = h \<and> y = x"
  by (auto simp: succeeds_def)

lemma succeeds_done [run_ok]: "succeeds (PgDone r) env h h' y \<longleftrightarrow> h' = h \<and> r = Inr y"
  by (auto simp: succeeds_def)

lemma succeeds_panic [run_ok]: "\<not> succeeds PgPanic env h h' y"
  by (auto simp: succeeds_def)

lemma succeeds_bind [run_ok]:
  "succeeds (pg_bind p f) env h h' y \<longleftrightarrow> (\<exists>h1 x. succeeds p env h h1 x \<and> succeeds (f x) env h1 h' y)"
  by (auto simp: succeeds_def pg_run_bind split: prod.splits option.splits sum.splits)

lemma succeeds_then [run_ok]:
  "succeeds (pg_then p q) env h h' y \<longleftrightarrow> (\<exists>h1 x. succeeds p env h h1 x \<and> succeeds q env h1 h' y)"
  by (simp add: pg_then_def succeeds_bind)

lemma succeeds_map [run_ok]:
  "succeeds (pg_map f p) env h h' y \<longleftrightarrow> (\<exists>x. succeeds p env h h' x \<and> y = f x)"
  by (auto simp: pg_map_def succeeds_bind succeeds_return)

lemma succeeds_ask [run_ok]:
  "succeeds (ask d a) env h h' y \<longleftrightarrow> h' = h @ [a] \<and> decode d (env h a) = Inr y"
  by (auto simp: succeeds_def)

lemma succeeds_command [run_ok]:
  "succeeds (command d c) env h h' y \<longleftrightarrow> h' = h @ [PoCommand c] \<and> decode d (env h (PoCommand c)) = Inr y"
  by (auto simp: succeeds_def)

lemma succeeds_run_command [run_ok]:
  "succeeds (run_command c) env h h' y \<longleftrightarrow>
     h' = h @ [PoCommand c] \<and> decode an_unit (env h (PoCommand c)) = Inr y"
  by (auto simp: succeeds_def)

lemma succeeds_when [run_ok]:
  "succeeds (when_do b p) env h h' y \<longleftrightarrow> (if b then succeeds p env h h' y else h' = h)"
  by (auto simp: when_do_def succeeds_return)

lemma decode_Inr_iff: "decode d r = Inr x \<longleftrightarrow> (\<exists>a. r = Inr a \<and> d a = Some x)"
  by (auto simp: decode_def res_bind_Inr_iff split: option.splits)

lemma decode_iff: "(\<And>a. d a = Some x \<longleftrightarrow> a = c) \<Longrightarrow> decode d r = Inr x \<longleftrightarrow> r = Inr c"
  by (auto simp: decode_Inr_iff)

lemma answer_iffs:
  "decode an_unit r = Inr u \<longleftrightarrow> r = Inr PaUnit"
  "decode an_script r = Inr t \<longleftrightarrow> r = Inr (PaScript t)"
  "decode an_navigated r = Inr e \<longleftrightarrow> r = Inr (PaNavigated e)"
  "decode an_node r = Inr n \<longleftrightarrow> r = Inr (PaNode n)"
  "decode an_node_id r = Inr i \<longleftrightarrow> r = Inr (PaNodeId i)"
  "decode an_node_ids r = Inr is \<longleftrightarrow> r = Inr (PaNodeIds is)"
  "decode an_search r = Inr (t, i) \<longleftrightarrow> r = Inr (PaSearch t i)"
  "decode an_object r = Inr obj \<longleftrightarrow> r = Inr (PaObject obj)"
  "decode an_evaluation r = Inr (obj, e) \<longleftrightarrow> r = Inr (PaEvaluation obj e)"
  "decode an_quads r = Inr qs \<longleftrightarrow> r = Inr (PaQuads qs)"
  "decode an_metrics r = Inr m \<longleftrightarrow> r = Inr (PaMetrics m)"
  "decode an_data r = Inr t \<longleftrightarrow> r = Inr (PaData t)"
  "decode an_text r = Inr e \<longleftrightarrow> r = Inr (PaText e)"
  "decode an_context r = Inr ctx \<longleftrightarrow> r = Inr (PaContext ctx)"
  by (rule decode_iff, simp add: answers_def split: page_answer.split)+

section \<open>Typing\<close>

text \<open>The browser takes every key event.\<close>

definition takes_keys :: "browser \<Rightarrow> bool" where
  "takes_keys env \<longleftrightarrow> (\<forall>h k. env h (PoCommand (PcKey k)) = Inr PaUnit)"

text \<open>What the press of a key sends.\<close>

definition key_ops :: "key_definition \<Rightarrow> page_op list" where
  "key_ops d =
     (let t = (case kd_text d of Some t \<Rightarrow> Some t | None \<Rightarrow> if length (kd_key d) = 1 then Some (kd_key d) else None);
        k = (\<lambda>kind. \<lparr>ke_kind = kind, ke_text = t, ke_key = kd_key d, ke_code = kd_code d, ke_number = kd_code_number d\<rparr>)
      in [PoCommand (PcKey (k (if t = None then RawKeyDown else KeyDown))), PoCommand (PcKey (k KeyUp))])"

lemma run_press_definition:
  "takes_keys env \<Longrightarrow> pg_run (press_definition d) env h = (h @ key_ops d, Some (Inr ()))"
  by (auto simp: press_definition_def key_ops_def Let_def pg_run_then takes_keys_def decode_def an_unit_def
      split: option.splits)

lemma run_press_key:
  "takes_keys env \<Longrightarrow> pg_run (page_press_key c) env h =
     (case get_key_definition c of
        None \<Rightarrow> (h, Some (Inl (CeChromeMessage (''Key not found: '' @ c))))
      | Some d \<Rightarrow> (h @ key_ops d, Some (Inr ())))"
  by (simp add: page_press_key_def run_press_definition split: option.splits)

fun typed :: "string list \<Rightarrow> page_op list \<times> cdp_error option" where
  "typed [] = ([], None)"
| "typed (c # cs) =
     (case get_key_definition c of
        None \<Rightarrow> ([], Some (CeChromeMessage (''Key not found: '' @ c)))
      | Some d \<Rightarrow> (case typed cs of (as, e) \<Rightarrow> (key_ops d @ as, e)))"

lemma run_type_str:
  assumes "takes_keys env"
  shows "pg_run (pg_each page_press_key cs) env h =
    (h @ fst (typed cs), Some (case snd (typed cs) of None \<Rightarrow> Inr () | Some e \<Rightarrow> Inl e))"
proof (induction cs arbitrary: h)
  case Nil
  show ?case by simp
next
  case (Cons c cs)
  then show ?case
    by (cases "typed cs") (simp add: pg_run_then run_press_key [OF assms] split: option.splits)
qed

text \<open>The printable characters of ASCII are on the keyboard, each under its own name and with no other text.\<close>

definition printables :: string where
  "printables =
     '' !'' @ [CHR 0x22] @ ''#$%&'' @ [CHR 0x27] @ ''()*+,-./0123456789:;<=>?@ABCDEFGHIJKLMNOPQRSTUVWXYZ['' @
     [CHR 0x5C] @ '']^_'' @ [CHR 0x60] @ ''abcdefghijklmnopqrstuvwxyz{|}~''"

definition single_keys :: string where
  "single_keys = concat (map kd_key (filter (\<lambda>d. length (kd_key d) = 1) us_keyboard_layout))"

lemma printables_codes: "map of_char printables = map nat [32..126]"
  by code_simp

lemma single_texts: "list_all (\<lambda>d. length (kd_key d) = 1 \<longrightarrow> kd_text d = None) us_keyboard_layout"
  by code_simp

lemma printables_on_keyboard: "list_all (\<lambda>c. c \<in> set single_keys) printables"
  by code_simp

lemma printable_key:
  assumes "c \<in> set printables"
  shows "\<exists>d. get_key_definition [c] = Some d \<and> kd_key d = [c] \<and> kd_text d = None"
proof -
  have "c \<in> set single_keys" using printables_on_keyboard assms by (simp add: list_all_iff)
  then obtain d where d: "d \<in> set us_keyboard_layout" "length (kd_key d) = 1" "c \<in> set (kd_key d)"
    by (auto simp: single_keys_def)
  then have "kd_key d = [c]" by (auto simp: length_Suc_conv)
  with d(1) obtain e where e: "get_key_definition [c] = Some e"
    unfolding get_key_definition_def by (cases "List.find (\<lambda>d. kd_key d = [c]) us_keyboard_layout") (auto simp: find_None_iff)
  then have "e \<in> set us_keyboard_layout" "kd_key e = [c]"
    by (auto simp: get_key_definition_def find_Some_iff)
  with e single_texts show ?thesis by (auto simp: list_all_iff)
qed

lemma printable_single: "c \<in> set printables \<Longrightarrow> \<not> continues c"
proof -
  assume "c \<in> set printables"
  then have "(of_char c :: nat) \<in> set (map of_char printables)" by simp
  then have "(of_char c :: nat) < 128" by (auto simp: printables_codes)
  then show ?thesis by (simp add: continues_def Let_def)
qed

lemma characters_single: "\<forall>c\<in>set s. \<not> continues c \<Longrightarrow> characters s = map (\<lambda>c. [c]) s"
  by (induction s) (auto split: list.splits)

lemma characters_concat: "concat (characters s) = s"
  by (induction s) (auto split: list.splits)

text \<open>A key with its own name as the text, down and up.\<close>

definition stroke :: "key_definition \<Rightarrow> page_op list" where
  "stroke d =
     (let k = (\<lambda>kind. \<lparr>ke_kind = kind, ke_text = Some (kd_key d), ke_key = kd_key d, ke_code = kd_code d,
        ke_number = kd_code_number d\<rparr>)
      in [PoCommand (PcKey (k KeyDown)), PoCommand (PcKey (k KeyUp))])"

lemma typed_printable:
  "\<forall>c\<in>set s. c \<in> set printables \<Longrightarrow>
     \<exists>ds. map kd_key ds = map (\<lambda>c. [c]) s \<and> set ds \<subseteq> set us_keyboard_layout \<and>
          typed (map (\<lambda>c. [c]) s) = (concat (map stroke ds), None)"
proof (induction s)
  case Nil
  show ?case by simp
next
  case (Cons c s)
  then obtain ds where ds: "map kd_key ds = map (\<lambda>c. [c]) s" "set ds \<subseteq> set us_keyboard_layout"
      "typed (map (\<lambda>c. [c]) s) = (concat (map stroke ds), None)" by auto
  obtain d where d: "get_key_definition [c] = Some d" "kd_key d = [c]" "kd_text d = None"
    using printable_key Cons.prems by auto
  have "d \<in> set us_keyboard_layout" using d(1) by (auto simp: get_key_definition_def find_Some_iff)
  moreover have "key_ops d = stroke d" using d by (simp add: key_ops_def stroke_def Let_def)
  ultimately show ?case using ds d by (intro exI [of _ "d # ds"]) simp
qed

text \<open>
  Typing a text of printable ASCII characters sends, for its characters in order, the key going
  down with the character as its text and the key going up, and succeeds: every such character is
  on the keyboard.
\<close>

theorem type_str_printable:
  assumes "takes_keys env" "\<forall>c\<in>set s. c \<in> set printables"
  shows "\<exists>ds. map kd_key ds = map (\<lambda>c. [c]) s \<and> set ds \<subseteq> set us_keyboard_layout \<and>
    pg_run (page_type_str s) env h = (h @ concat (map stroke ds), Some (Inr ()))"
proof -
  have "characters s = map (\<lambda>c. [c]) s" using assms(2) printable_single by (intro characters_single) auto
  then show ?thesis using typed_printable [OF assms(2)] run_type_str [OF assms(1), of "characters s" h]
    by (auto simp: page_type_str_def)
qed

theorem type_str_printable_witness:
  "\<exists>ds. map kd_key ds = [''H'', ''i''] \<and> set ds \<subseteq> set us_keyboard_layout \<and>
    pg_run (page_type_str ''Hi'') (\<lambda>_ _. Inr PaUnit) [] = (concat (map stroke ds), Some (Inr ()))"
  using type_str_printable [of "\<lambda>_ _. Inr PaUnit" "''Hi''" "[]"]
  by (simp add: takes_keys_def printables_def)

text \<open>
  Typing stops at the first character that is not on the keyboard, with an error that names it,
  after the keys of the characters before it and before anything of the ones behind it.
\<close>

theorem type_str_unknown_key:
  assumes "takes_keys env" "characters s = cs @ c # rest"
    and "get_key_definition c = None" "map get_key_definition cs = map Some ds"
  shows "pg_run (page_type_str s) env h =
    (h @ concat (map key_ops ds), Some (Inl (CeChromeMessage (''Key not found: '' @ c))))"
proof -
  have "typed (cs @ c # rest) = (concat (map key_ops ds), Some (CeChromeMessage (''Key not found: '' @ c)))"
    using assms(4,3) by (induction cs arbitrary: ds) (auto simp: Cons_eq_map_conv)
  then show ?thesis using run_type_str [OF assms(1), of "characters s" h] assms(2) by (simp add: page_type_str_def)
qed

lemma unknown_key: "get_key_definition [CHR 0xC3, CHR 0xA9] = None"
  by code_simp

theorem type_str_unknown_key_witness:
  "\<exists>d. get_key_definition ''a'' = Some d \<and>
    pg_run (page_type_str [CHR ''a'', CHR 0xC3, CHR 0xA9, CHR ''b'']) (\<lambda>_ _. Inr PaUnit) [] =
      (key_ops d, Some (Inl (CeChromeMessage (''Key not found: '' @ [CHR 0xC3, CHR 0xA9]))))"
proof -
  obtain d where d: "get_key_definition ''a'' = Some d"
    using printable_key [of "CHR ''a''"] by (auto simp: printables_def)
  show ?thesis
    using d unknown_key type_str_unknown_key [of "\<lambda>_ _. Inr PaUnit" "[CHR ''a'', CHR 0xC3, CHR 0xA9, CHR ''b'']"
      "[''a'']" "[CHR 0xC3, CHR 0xA9]" "[''b'']" "[d]" "[]"]
    by (simp add: takes_keys_def continues_def)
qed

section \<open>Clicking\<close>

lemma from_quad_8: "from_quad cs = Some q \<Longrightarrow> length cs = 8"
  by (auto simp: from_quad_def split: list.splits)

lemma visible_quads_mem:
  "q \<in> set (visible_quads qs) \<Longrightarrow> \<exists>cs\<in>set qs. from_quad cs = Some q \<and> 1 < quad_area q"
  by (auto simp: visible_quads_def List.map_filter_def)

text \<open>A scroll that succeeds and a point: the two questions to the browser.\<close>

definition scroll_op :: "element \<Rightarrow> page_op" where
  "scroll_op e =
     PoCommand (PcCallFunction ((call_new ScScrollIntoView)
       \<lparr>cf_object := Some (el_object e), cf_preview := Some True, cf_await := Some True\<rparr>))"

lemma succeeds_scroll:
  "succeeds (scroll_into_view e) env h h' u \<longleftrightarrow>
     h' = h @ [scroll_op e] \<and>
     (\<exists>r x. env h (scroll_op e) = Inr (PaEvaluation r x) \<and> ro_type r \<noteq> RtString)"
proof -
  have tail: "succeeds (if ro_type r = RtString
      then (case ro_value r of Some (JText t) \<Rightarrow> pg_fail (CeScrollingFailed t) | _ \<Rightarrow> PgPanic) else pg_return ()) env g g' u
      \<longleftrightarrow> g' = g \<and> ro_type r \<noteq> RtString" for r g g' u
    by (simp add: run_ok split: option.splits js_value.splits)
  show ?thesis
    by (auto simp: scroll_into_view_def element_call_js_fn_def page_call_js_fn_def scroll_op_def run_ok answer_iffs tail)
qed

lemma succeeds_first:
  "succeeds (case xs of [] \<Rightarrow> pg_fail e | x # _ \<Rightarrow> pg_return (f x)) env h h' y \<longleftrightarrow>
     h' = h \<and> (\<exists>x rest. xs = x # rest \<and> y = f x)"
  by (cases xs) (auto simp: run_ok)

lemma succeeds_clickable:
  "succeeds (clickable_point e) env h h' p \<Longrightarrow>
     h' = h @ [PoCommand (PcContentQuads (el_backend e))] \<and>
     (\<exists>qs cs q. env h (PoCommand (PcContentQuads (el_backend e))) = Inr (PaQuads qs) \<and> cs \<in> set qs \<and>
        from_quad cs = Some q \<and> 1 < quad_area q \<and> p = quad_center q)"
proof -
  assume "succeeds (clickable_point e) env h h' p"
  then obtain qs q rest where r: "h' = h @ [PoCommand (PcContentQuads (el_backend e))]"
      "env h (PoCommand (PcContentQuads (el_backend e))) = Inr (PaQuads qs)" "visible_quads qs = q # rest"
      "p = quad_center q"
    by (auto simp: clickable_point_def run_ok answer_iffs succeeds_first)
  moreover obtain cs where "cs \<in> set qs" "from_quad cs = Some q" "1 < quad_area q"
    using visible_quads_mem [of q qs] r(3) by auto
  ultimately show ?thesis by blast
qed

definition click_ops :: "point \<Rightarrow> int \<Rightarrow> page_op list" where
  "click_ops p clicks =
     [PoCommand (PcMouse \<lparr>me_kind = MouseMoved, me_at = p, me_left = False, me_clicks = None\<rparr>),
      PoCommand (PcMouse \<lparr>me_kind = MousePressed, me_at = p, me_left = True, me_clicks = Some clicks\<rparr>),
      PoCommand (PcMouse \<lparr>me_kind = MouseReleased, me_at = p, me_left = True, me_clicks = Some clicks\<rparr>)]"

lemma succeeds_click_with: "succeeds (page_click_with p clicks) env h h' u \<Longrightarrow> h' = h @ click_ops p clicks"
  by (auto simp: page_click_with_def page_move_mouse_def click_ops_def Let_def run_ok)

text \<open>C39: A click on an element that succeeds has scrolled to the element, asked for its quads, and moved
  to, pressed and released the mouse at one and the same point, which lies strictly inside a quad, be it
  rotated, that the browser reported for the element and whose area is more than one pixel.
\<close>

theorem element_click_inside:
  assumes "succeeds (element_click_with clicks e) env h h' u"
  shows "\<exists>p qs cs q.
    h' = h @ [scroll_op e, PoCommand (PcContentQuads (el_backend e))] @ click_ops p clicks \<and>
    env (h @ [scroll_op e]) (PoCommand (PcContentQuads (el_backend e))) = Inr (PaQuads qs) \<and>
    cs \<in> set qs \<and> from_quad cs = Some q \<and> 1 < quad_area q \<and> strictly_within p q"
proof -
  from assms obtain h1 h2 p where s: "succeeds (scroll_into_view e) env h h1 ()"
      "succeeds (clickable_point e) env h1 h2 p" "succeeds (page_click_with p clicks) env h2 h' u"
    by (auto simp: element_click_with_def run_ok)
  from s(1) have h1: "h1 = h @ [scroll_op e]" by (simp add: succeeds_scroll)
  show ?thesis
    using succeeds_clickable [OF s(2)] succeeds_click_with [OF s(3)] center_strictly_within h1 by fastforce
qed

definition click_browser :: browser where
  "click_browser h a =
     (case a of
        PoCommand (PcCallFunction c) \<Rightarrow>
          Inr (PaEvaluation \<lparr>ro_type = RtBoolean, ro_value = Some (JBool False), ro_id = None\<rparr> None)
      | PoCommand (PcContentQuads b) \<Rightarrow> Inr (PaQuads [[1, 1], [0, 0, 10, 0, 10, 4, 0, 4]])
      | _ \<Rightarrow> Inr PaUnit)"

theorem element_click_inside_witness:
  "\<exists>p qs cs q.
    fst (pg_run (element_click_with 1 \<lparr>el_object = ''o'', el_backend = 3, el_node = 2\<rparr>) click_browser []) =
      [scroll_op \<lparr>el_object = ''o'', el_backend = 3, el_node = 2\<rparr>, PoCommand (PcContentQuads 3)] @ click_ops p 1 \<and>
    click_browser [scroll_op \<lparr>el_object = ''o'', el_backend = 3, el_node = 2\<rparr>] (PoCommand (PcContentQuads 3)) =
      Inr (PaQuads qs) \<and> cs \<in> set qs \<and> from_quad cs = Some q \<and> 1 < quad_area q \<and> strictly_within p q"
proof -
  let ?e = "\<lparr>el_object = ''o'', el_backend = 3, el_node = 2\<rparr>"
  let ?h = "fst (pg_run (element_click_with 1 ?e) click_browser [])"
  have vq: "\<exists>q. visible_quads [[1, 1], [0, 0, 10, 0, 10, 4, 0, 4]] = [q]"
    by (simp add: visible_quads_def List.map_filter_def from_quad_def point_new_def quad_area_def point_area_def)
  have "succeeds (element_click_with 1 ?e) click_browser [] ?h ()"
    using vq by (auto simp: succeeds_def element_click_with_def scroll_into_view_def element_call_js_fn_def
        page_call_js_fn_def clickable_point_def page_click_with_def page_move_mouse_def pg_run_then pg_run_bind Let_def
        click_browser_def decode_def answers_def call_new_def)
  from element_click_inside [OF this] show ?thesis by simp
qed

section \<open>Screenshots\<close>

text \<open>The overrides that are in force: of the size of the page, and of its background.\<close>

fun override_step :: "page_op \<Rightarrow> bool \<times> bool \<Rightarrow> bool \<times> bool" where
  "override_step (PoCommand (PcDeviceMetrics w h s m)) (a, b) = (True, b)"
| "override_step (PoCommand PcClearDeviceMetrics) (a, b) = (False, b)"
| "override_step (PoCommand (PcBackground c)) (a, b) = (a, c \<noteq> None)"
| "override_step op ab = ab"

abbreviation overrides :: "page_op list \<Rightarrow> bool \<times> bool \<Rightarrow> bool \<times> bool" where
  "overrides ops ab \<equiv> fold override_step ops ab"

lemma succeeds_size_clip:
  "succeeds (page_size_clip full c) env h h' c' \<Longrightarrow>
     \<exists>ops. h' = h @ ops \<and> overrides ops (a, b) = (full \<or> a, b)"
  by (cases full) (auto simp: page_size_clip_def page_layout_metrics_def Let_def run_ok)

text \<open>C38: A screenshot that succeeds is taken while the page has the size of its contents exactly when
  the full page is wanted, and a transparent background exactly when that is wanted and the picture
  is a PNG; afterwards neither override is in force.
\<close>

theorem screenshot_restores:
  assumes "succeeds (page_screenshot b64 p s) env h h' img"
  shows "\<exists>before c after data. h' = h @ before @ [PoCommand (PcScreenshot c)] @ after \<and>
    overrides before (False, False) = (full_page s, omit_background s) \<and>
    overrides after (full_page s, omit_background s) = (False, False) \<and>
    env (h @ before) (PoCommand (PcScreenshot c)) = Inr (PaData data) \<and> b64 data = Inr img"
proof -
  let ?f = "full_page s" and ?o = "omit_background s"
  obtain h1 c data where s1:
      "succeeds (page_size_clip ?f (sp_capture s)) env (h @ [PoCommand (PcActivate (pr_target p))]) h1 c"
      and d: "env (h1 @ (if ?o then [PoCommand (PcBackground (Some (0, 0, 0, 0)))] else [])) (PoCommand (PcScreenshot c)) =
        Inr (PaData data)" "b64 data = Inr img"
      and h': "h' = h1 @ (if ?o then [PoCommand (PcBackground (Some (0, 0, 0, 0)))] else []) @ [PoCommand (PcScreenshot c)] @
        (if ?o then [PoCommand (PcBackground None)] else []) @ (if ?f then [PoCommand PcClearDeviceMetrics] else [])"
    using assms
    by (cases ?f; cases ?o) (auto simp: page_screenshot_def activate_def decoded_def run_ok answer_iffs)
  from succeeds_size_clip [OF s1, of False False] obtain ops
    where ops: "h1 = h @ [PoCommand (PcActivate (pr_target p))] @ ops" "overrides ops (False, False) = (?f, False)" by auto
  let ?before = "[PoCommand (PcActivate (pr_target p))] @ ops @ (if ?o then [PoCommand (PcBackground (Some (0, 0, 0, 0)))] else [])"
  let ?after = "(if ?o then [PoCommand (PcBackground None)] else []) @ (if ?f then [PoCommand PcClearDeviceMetrics] else [])"
  show ?thesis
    using ops h' d by (intro exI [of _ ?before] exI [of _ c] exI [of _ ?after] exI [of _ data]) auto
qed

definition picture_browser :: "bool \<Rightarrow> browser" where
  "picture_browser ok h a =
     (case a of
        PoCommand PcLayoutMetrics \<Rightarrow>
          Inr (PaMetrics \<lparr>lm_page_x = 0, lm_page_y = 0, lm_content_width = 800, lm_content_height = 2000\<rparr>)
      | PoCommand (PcScreenshot c) \<Rightarrow> (if ok then Inr (PaData ''x'') else Inl CeTimeout)
      | _ \<Rightarrow> Inr PaUnit)"

definition full_png :: screenshot_params where
  "full_png = screenshot_build [SoFormat FmPng, SoFullPage True, SoOmitBackground True]"

lemmas screenshot_eval =
  page_screenshot_def activate_def page_size_clip_def page_layout_metrics_def when_do_def decoded_def full_page_def
  omit_background_def full_png_def screenshot_build_def screenshot_default_def capture_default_def picture_browser_def
  pg_run_then pg_run_bind decode_def answers_def Let_def

theorem screenshot_restores_witness:
  "\<exists>before c after data.
    fst (pg_run (page_screenshot Inr \<lparr>pr_target = ''t'', pr_session = ''s'', pr_opener = None\<rparr> full_png) (picture_browser True) []) =
      before @ [PoCommand (PcScreenshot c)] @ after \<and>
    overrides before (False, False) = (True, True) \<and> overrides after (True, True) = (False, False) \<and>
    picture_browser True before (PoCommand (PcScreenshot c)) = Inr (PaData data) \<and> Inr data = (Inr ''x'' :: string + bytes)"
proof -
  have ok: "succeeds (page_screenshot Inr \<lparr>pr_target = ''t'', pr_session = ''s'', pr_opener = None\<rparr> full_png) (picture_browser True) []
      (fst (pg_run (page_screenshot Inr \<lparr>pr_target = ''t'', pr_session = ''s'', pr_opener = None\<rparr> full_png) (picture_browser True) [])) ''x''"
    by (simp add: succeeds_def screenshot_eval)
  have "full_page full_png = True" "omit_background full_png = True"
    by (simp_all add: screenshot_eval)
  with screenshot_restores [OF ok] show ?thesis by simp
qed

text \<open>When the capture fails both overrides stay in force.\<close>

lemma failed_screenshot_leaves_overrides:
  "\<exists>ops. pg_run (page_screenshot Inr p full_png) (picture_browser False) [] = (ops, Some (Inl CeTimeout)) \<and>
    overrides ops (False, False) = (True, True)"
  by (simp add: screenshot_eval)

text \<open>The clip of an element has the offset of the viewport added twice.\<close>

lemma element_clip_offset:
  "cv_x (element_clip m b) = bx_x b + 2 * of_int (lm_page_x m)"
  "cv_y (element_clip m b) = bx_y b + 2 * of_int (lm_page_y m)"
  by (simp_all add: element_clip_def Let_def)

end
