(* ===== verification/Cdp_Search_Props.thy ===== *)
theory Cdp_Search_Props
  imports Cdp_Page_Props
begin

text \<open>
  What holds of searches, of the concurrent combinators, of the cookie methods, of the guess whether a
  text is a function, and of the geometry of quads.
\<close>

section \<open>\<open>join_all\<close>\<close>

text \<open>Against any browser every result of \<open>join_all\<close> is one that its program can have.\<close>

primrec outcomes :: "'a pg \<Rightarrow> (cdp_error + 'a) set" where
  "outcomes (PgDone r) = {r}"
| "outcomes PgPanic = {}"
| "outcomes (PgDo a k) = (\<Union>r. outcomes (k r))"

lemma run_outcome: "pg_run p env h = (h', Some r) \<Longrightarrow> r \<in> outcomes p"
proof (induction p arbitrary: h)
  case (PgDo a k)
  then have "r \<in> outcomes (k (env h a))" using PgDo.IH [OF rangeI] by simp
  then show ?case by auto
qed auto

lemma outcomes_bind:
  "Inr y \<in> outcomes (pg_bind p f) \<longleftrightarrow> (\<exists>x. Inr x \<in> outcomes p \<and> Inr y \<in> outcomes (f x))"
  by (induction p) (auto split: sum.splits)

lemma results_outcomes:
  "succeeds (pg_results ps) env h h' rs \<Longrightarrow> list_all2 (\<lambda>r p. r \<in> outcomes p) rs ps"
proof (induction ps arbitrary: h rs)
  case Nil
  then show ?case by (simp add: run_ok)
next
  case (Cons p ps)
  then obtain h1 r rs' where r: "succeeds (pg_attempt p) env h h1 r" "succeeds (pg_results ps) env h1 h' rs'" "rs = r # rs'"
    by (auto simp: run_ok)
  from r(1) have "pg_run p env h = (h1, Some r)"
    by (auto simp: succeeds_def pg_run_attempt split: prod.splits)
  then show ?case using Cons.IH r run_outcome by fastforce
qed

lemma join_all_outcomes:
  "succeeds (join_all sched ps) env h h' rs \<Longrightarrow> list_all2 (\<lambda>r p. r \<in> outcomes p) rs ps"
proof (induction sched ps arbitrary: h rule: join_all.induct)
  case (1 ps)
  then show ?case by (simp add: results_outcomes)
next
  case (2 i sched ps)
  show ?case
  proof (cases "i < length ps")
    case False
    then show ?thesis using "2.IH"(3) "2.prems" by simp
  next
    case True
    show ?thesis
    proof (cases "ps ! i")
      case (PgDone r)
      then show ?thesis using "2.IH"(1) [OF True PgDone] "2.prems" True by simp
    next
      case PgPanic
      then show ?thesis using "2.prems" True by (simp add: run_ok)
    next
      case (PgDo a k)
      then have "succeeds (join_all sched (ps[i := k (env h a)])) env (h @ [a]) h' rs"
        using "2.prems" True by (simp add: succeeds_def)
      from "2.IH"(2) [OF True PgDo this] have l: "length rs = length ps"
          "\<And>j. j < length ps \<Longrightarrow> rs ! j \<in> outcomes (ps[i := k (env h a)] ! j)"
        by (auto simp: list_all2_conv_all_nth)
      have "rs ! j \<in> outcomes (ps ! j)" if "j < length ps" for j
        using l(2) [OF that] PgDo True by (cases "j = i") (auto simp: that)
      then show ?thesis using l(1) by (simp add: list_all2_conv_all_nth)
    qed
  qed
qed

lemma collect_results_Inr: "collect_results rs = Inr xs \<longleftrightarrow> rs = map Inr xs"
  by (induction rs arbitrary: xs) (auto simp: res_bind_Inr_iff)

lemma never_panics_bind: "never_panics p \<Longrightarrow> (\<And>x. never_panics (f x)) \<Longrightarrow> never_panics (pg_bind p f)"
  by (induction p) (auto split: sum.splits)

lemma never_panics_command [simp]: "never_panics (command d c)"
  by (simp add: command_def ask_def)

lemma element_new_never_panics: "never_panics (element_new dbg n)"
  by (auto simp: element_new_def intro!: never_panics_bind split: option.splits)

lemma element_new_node: "Inr e \<in> outcomes (element_new dbg n) \<Longrightarrow> el_node e = n"
  by (auto simp: element_new_def outcomes_bind split: option.splits)

text \<open>
  The elements of a search come in the order of the nodes, whatever the browser answers and in
  whatever order the answers arrive.
\<close>

theorem from_nodes_in_order:
  assumes "succeeds (from_nodes dbg sched ns) env h h' es"
  shows "map el_node es = ns"
proof -
  from assms obtain rs where rs: "succeeds (join_all sched (map (element_new dbg) ns)) env h h' rs"
      "collect_results rs = Inr es" by (auto simp: from_nodes_def run_ok)
  then have "list_all2 (\<lambda>r p. r \<in> outcomes p) (map Inr es) (map (element_new dbg) ns)"
    using join_all_outcomes by (simp add: collect_results_Inr)
  then have "list_all2 (\<lambda>e n. el_node e = n) es ns"
    by (auto simp: list_all2_map1 list_all2_map2 elim!: list_all2_mono dest: element_new_node)
  then show ?thesis by (induction rule: list_all2_induct) auto
qed

lemma decode_answer: "decode d (Inr a) = (case d a of None \<Rightarrow> Inl (CeSerde '''') | Some x \<Rightarrow> Inr x)"
  by (simp add: decode_def)

text \<open>
  What one program of several sees: the questions it puts, each with its answer, and its result; and a
  browser that answers every question after what was asked before it, whoever asked.
\<close>

primrec follows :: "'a pg \<Rightarrow> (page_op \<times> reply_of) list \<Rightarrow> cdp_error + 'a \<Rightarrow> bool" where
  "follows (PgDone r) t y \<longleftrightarrow> t = [] \<and> y = r"
| "follows PgPanic t y \<longleftrightarrow> False"
| "follows (PgDo a k) t y \<longleftrightarrow> (case t of [] \<Rightarrow> False | q # t' \<Rightarrow> fst q = a \<and> follows (k (snd q)) t' y)"

primrec answered :: "browser \<Rightarrow> page_op list \<Rightarrow> (page_op \<times> reply_of) list \<Rightarrow> bool" where
  "answered env h [] \<longleftrightarrow> True"
| "answered env h (q # t) \<longleftrightarrow> snd q = env h (fst q) \<and> answered env (h @ [fst q]) t"

text \<open>The part of a transcript that belongs to program number \<open>i\<close>.\<close>

definition part :: "nat \<Rightarrow> (nat \<times> 'b) list \<Rightarrow> 'b list" where
  "part i tr = map snd (filter (\<lambda>q. fst q = i) tr)"

lemma part_simps [simp]:
  "part i [] = []" "part i ((j, q) # tr) = (if j = i then q # part i tr else part i tr)"
  "part i (s @ t) = part i s @ part i t"
  by (simp_all add: part_def)

lemma part_tagged [simp]: "part i (map (Pair j) t) = (if j = i then t else [])"
  by (induction t) auto

lemma part_shift [simp]: "part 0 (map (apfst Suc) tr) = []" "part (Suc i) (map (apfst Suc) tr) = part i tr"
  by (induction tr) auto

lemma answered_append [simp]:
  "answered env h (s @ t) \<longleftrightarrow> answered env h s \<and> answered env (h @ map fst s) t"
  by (induction s arbitrary: h) auto

lemma run_follows:
  "never_panics p \<Longrightarrow> \<exists>t r. pg_run p env h = (h @ map fst t, Some r) \<and> answered env h t \<and> follows p t r"
proof (induction p arbitrary: h)
  case (PgDone r)
  then show ?case by (intro exI [of _ "[]"]) auto
next
  case (PgDo a k)
  then obtain t r where "pg_run (k (env h a)) env (h @ [a]) = (h @ [a] @ map fst t, Some r)" "answered env (h @ [a]) t"
      "follows (k (env h a)) t r"
    by (metis append.assoc never_panics.simps(3) rangeI)
  then show ?case by (intro exI [of _ "(a, env h a) # t"] exI [of _ r]) simp
qed simp

text \<open>The run of several programs at once, as one transcript that each of them follows in its part.\<close>

definition joint_run ::
    "browser \<Rightarrow> page_op list \<Rightarrow> 'a pg list \<Rightarrow> page_op list \<times> (cdp_error + (cdp_error + 'a) list) option \<Rightarrow> bool" where
  "joint_run env h ps run \<longleftrightarrow>
     (\<exists>tr rs. run = (h @ map (fst \<circ> snd) tr, Some (Inr rs)) \<and> answered env h (map snd tr) \<and>
        length rs = length ps \<and> (\<forall>q\<in>set tr. fst q < length ps) \<and>
        (\<forall>i<length ps. follows (ps ! i) (part i tr) (rs ! i)))"

lemma results_joint:
  "\<forall>p\<in>set ps. never_panics p \<Longrightarrow> joint_run env h ps (pg_run (pg_results ps) env h)"
proof (induction ps arbitrary: h)
  case Nil
  show ?case by (simp add: joint_run_def)
next
  case (Cons p ps)
  obtain t r where t: "pg_run p env h = (h @ map fst t, Some r)" "answered env h t" "follows p t r"
    using run_follows Cons.prems by (metis list.set_intros(1))
  have "joint_run env (h @ map fst t) ps (pg_run (pg_results ps) env (h @ map fst t))"
    using Cons by simp
  then obtain tr rs where tr: "pg_run (pg_results ps) env (h @ map fst t) = ((h @ map fst t) @ map (fst \<circ> snd) tr, Some (Inr rs))"
      "answered env (h @ map fst t) (map snd tr)" "length rs = length ps" "\<forall>q\<in>set tr. fst q < length ps"
      "\<forall>i<length ps. follows (ps ! i) (part i tr) (rs ! i)"
    unfolding joint_run_def by blast
  have run: "pg_run (pg_results (p # ps)) env h = (h @ map fst t @ map (fst \<circ> snd) tr, Some (Inr (r # rs)))"
    using t(1) tr(1) by (simp add: pg_run_bind pg_run_attempt pg_run_map)
  show ?case unfolding joint_run_def run
    by (intro exI [of _ "map (Pair 0) t @ map (apfst Suc) tr"] exI [of _ "r # rs"])
      (use t tr in \<open>auto simp: comp_def nth_Cons' gr0_conv_Suc\<close>)
qed

lemma join_all_joint:
  "\<forall>p\<in>set ps. never_panics p \<Longrightarrow> joint_run env h ps (pg_run (join_all sched ps) env h)"
proof (induction sched ps arbitrary: h rule: join_all.induct)
  case (1 ps)
  then show ?case by (simp add: results_joint)
next
  case (2 i sched ps)
  show ?case
  proof (cases "i < length ps")
    case False
    then show ?thesis using "2.IH"(3) "2.prems" by simp
  next
    case True
    then have np: "never_panics (ps ! i)" using "2.prems" by simp
    show ?thesis
    proof (cases "ps ! i")
      case (PgDone r)
      then show ?thesis using "2.IH"(1) [OF True PgDone] "2.prems" True by simp
    next
      case PgPanic
      then show ?thesis using np by simp
    next
      case (PgDo a k)
      let ?x = "env h a"
      let ?qs = "ps[i := k ?x]"
      have "never_panics (k ?x)" using np PgDo by simp
      then have "\<forall>p\<in>set ?qs. never_panics p"
        using "2.prems" set_update_subset_insert [of ps i "k ?x"] by auto
      from "2.IH"(2) [OF True PgDo this, of "h @ [a]"] obtain tr rs where
        tr: "pg_run (join_all sched ?qs) env (h @ [a]) = ((h @ [a]) @ map (fst \<circ> snd) tr, Some (Inr rs))"
          "answered env (h @ [a]) (map snd tr)" "length rs = length ps" "\<forall>q\<in>set tr. fst q < length ps"
          "\<forall>j<length ps. follows (?qs ! j) (part j tr) (rs ! j)"
        unfolding joint_run_def by auto
      have run: "pg_run (join_all (i # sched) ps) env h = (h @ [a] @ map (fst \<circ> snd) tr, Some (Inr rs))"
        using tr(1) PgDo True by simp
      have "follows (ps ! j) (part j ((i, a, ?x) # tr)) (rs ! j)" if "j < length ps" for j
        using tr(5) that PgDo by (cases "j = i") auto
      then show ?thesis unfolding joint_run_def run
        by (intro exI [of _ "(i, a, ?x) # tr"] exI [of _ rs]) (use tr True in auto)
    qed
  qed
qed

text \<open>C40: A search over several nodes, under every interleaving of its commands and against every browser,
  whatever its answers depend on: the commands sent are those of one transcript in which every command
  belongs to one node; every answer in it is the answer of the browser after all that was sent before;
  each node has seen exactly the questions and answers of its own part, in order, as if it were alone;
  and the elements, in the order of the nodes, or the first error among them are the result.
\<close>

theorem from_nodes_any_schedule:
  "\<exists>tr rs. pg_run (from_nodes dbg sched ns) env h = (h @ map (fst \<circ> snd) tr, Some (collect_results rs)) \<and>
     answered env h (map snd tr) \<and> fst ` set tr \<subseteq> {..<length ns} \<and>
     list_all2 (\<lambda>i r. follows (element_new dbg (ns ! i)) (part i tr) r) [0..<length ns] rs"
proof -
  have "\<forall>p\<in>set (map (element_new dbg) ns). never_panics p" by (auto simp: element_new_never_panics)
  from join_all_joint [OF this, of env h sched] obtain tr rs where
    "pg_run (join_all sched (map (element_new dbg) ns)) env h = (h @ map (fst \<circ> snd) tr, Some (Inr rs))"
    "answered env h (map snd tr)" "length rs = length ns" "\<forall>q\<in>set tr. fst q < length ns"
    "\<forall>i<length ns. follows (element_new dbg (ns ! i)) (part i tr) (rs ! i)"
    unfolding joint_run_def by auto
  then show ?thesis
    by (intro exI [of _ tr] exI [of _ rs]) (auto simp: from_nodes_def pg_run_bind list_all2_conv_all_nth)
qed

section \<open>XPath\<close>

text \<open>
  Looking for one element by XPath panics, instead of failing, exactly when the search goes
  through and finds nothing.
\<close>

theorem find_xpath_panics_iff:
  "snd (pg_run (find_xpath dbg q) env h) = None \<longleftrightarrow>
     (\<exists>h'. succeeds (pg_then get_document (page_find_xpaths q)) env h h' [])"
proof -
  let ?g = "pg_then get_document (page_find_xpaths q)"
  have np: "snd (pg_run p env g) \<noteq> None" if "never_panics p" for p :: "'a pg" and g
    using that by (induction p arbitrary: g) auto
  have new: "snd (pg_run (element_new dbg n) env g) \<noteq> None" for n g
    by (rule np [OF element_new_never_panics])
  have "never_panics ?g"
    by (auto simp: page_find_xpaths_def pg_then_def run_command_def get_document_def intro!: never_panics_bind)
  then have g: "snd (pg_run ?g env h) \<noteq> None" by (rule np)
  have "pg_run (find_xpath dbg q) env h =
      pg_run (pg_bind ?g (\<lambda>ns. case ns of [] \<Rightarrow> PgPanic | n # _ \<Rightarrow> element_new dbg n)) env h"
    by (simp add: find_xpath_def pg_run_then pg_run_bind split: prod.split option.split sum.split)
  then show ?thesis using g new
    by (auto simp: pg_run_bind succeeds_def split: prod.splits option.splits sum.splits list.splits)
qed

section \<open>Cookies\<close>

lemma buffer_unordered_run:
  assumes "0 < n" "pg_run (buffer_unordered n sched flight cmds) env h = (h', r)"
  shows "\<exists>k. k \<le> length cmds \<and> h' = h @ map PoCommand (take k cmds) \<and> r \<noteq> None \<and> (r = Some (Inr ()) \<longrightarrow> k = length cmds)"
  using assms
proof (induction n sched flight cmds arbitrary: h rule: buffer_unordered.induct)
  case (1 n sched flight cmds)
  consider (fill) "length flight < n" "cmds \<noteq> []"
    | (empty) "\<not> (length flight < n \<and> cmds \<noteq> [])" "flight = []"
    | (wait) "\<not> (length flight < n \<and> cmds \<noteq> [])" "flight \<noteq> []" by blast
  then show ?case
  proof cases
    case fill
    let ?a = "PoCommand (hd cmds)"
    have "pg_run (buffer_unordered n sched (flight @ [decode an_unit (env h ?a)]) (tl cmds)) env (h @ [?a]) = (h', r)"
      using "1.prems"(2) fill by (subst (asm) buffer_unordered.simps) simp
    from "1.IH"(1) [OF conjI [OF fill] "1.prems"(1) this] obtain k where
      k: "k \<le> length (tl cmds)" "h' = (h @ [?a]) @ map PoCommand (take k (tl cmds))" "r \<noteq> None"
        "r = Some (Inr ()) \<longrightarrow> k = length (tl cmds)" by blast
    then show ?thesis using fill(2) by (intro exI [of _ "Suc k"]) (cases cmds; auto)
  next
    case empty
    then have "cmds = []" using "1.prems"(1) by auto
    then show ?thesis using "1.prems"(2) empty by (subst (asm) buffer_unordered.simps) auto
  next
    case wait
    let ?i = "case sched of [] \<Rightarrow> 0 | s # _ \<Rightarrow> s mod length flight"
    show ?thesis
    proof (cases "flight ! ?i")
      case (Inl e)
      then have "h' = h" "r = Some (Inl e)"
        using "1.prems"(2) wait by (subst (asm) buffer_unordered.simps, simp add: Let_def)+
      then show ?thesis by (intro exI [of _ 0]) simp
    next
      case (Inr u)
      then have "pg_run (buffer_unordered n (tl sched) (take ?i flight @ drop (Suc ?i) flight) cmds) env h = (h', r)"
        using "1.prems"(2) wait by (subst (asm) buffer_unordered.simps) (simp add: Let_def)
      from "1.IH"(2) [OF wait refl Inr "1.prems"(1) this] show ?thesis .
    qed
  qed
qed

lemma succeeds_delete_unchecked:
  "succeeds (delete_cookies_unchecked sched cs) env h h' u \<Longrightarrow> h' = h @ map (\<lambda>c. PoCommand (PcDeleteCookies c)) cs"
  using buffer_unordered_run [of 5 sched "[]" "map PcDeleteCookies cs" env h h' "Some (Inr u)"]
  by (auto simp: succeeds_def delete_cookies_unchecked_def comp_def)

definition refused_url :: "string \<Rightarrow> bool" where
  "refused_url u \<longleftrightarrow> starts_with u ''data:'' \<or> u = ''about:blank''"

lemma validate_iff: "validate_cookie_url u = Inr x \<longleftrightarrow> \<not> refused_url u"
  by (auto simp: validate_cookie_url_def refused_url_def)

lemma http_not_refused: "starts_with u ''http'' \<Longrightarrow> \<not> refused_url u"
  by (auto simp: refused_url_def starts_with_iff)

lemma filled_urls:
  "fill_cookie_urls page cs = Inr cs' \<Longrightarrow>
     map cp_name cs' = map cp_name cs \<and> map cp_value cs' = map cp_value cs \<and>
     map cp_url cs' = map (\<lambda>c. case cp_url c of Some u \<Rightarrow> Some u
       | None \<Rightarrow> if starts_with page ''http'' then Some page else None) cs \<and>
     (\<forall>c\<in>set cs'. \<forall>u. cp_url c = Some u \<longrightarrow> \<not> refused_url u)"
  by (induction page cs arbitrary: cs' rule: fill_cookie_urls.induct)
    (auto simp: res_bind_Inr_iff validate_iff http_not_refused split: option.splits if_splits)

text \<open>C37: Setting cookies, when it succeeds, asks for the URL of the page, which is neither a \<open>data:\<close> URL nor
  that of the blank page, deletes every cookie and then sets them with one command, with names and values
  unchanged and with the URL of the page for those that had none when that is an HTTP one; no cookie that
  is set has a \<open>data:\<close> URL or that of the blank page. On a page with such a URL it fails without having
  sent a command.
\<close>

theorem set_cookies_order:
  assumes "pg_run (page_set_cookies del sched cs) env h = (h', r)" "env h (PoUrl None) = Inr (PaText (Some page))"
  shows "(refused_url page \<longrightarrow> h' = h @ [PoUrl None] \<and> (\<exists>e. r = Some (Inl e))) \<and>
    (r = Some (Inr u) \<longrightarrow> \<not> refused_url page \<and>
      (\<exists>cs'. h' = h @ [PoUrl None] @ map (\<lambda>c. PoCommand (PcDeleteCookies (del c))) cs' @ [PoCommand (PcSetCookies cs')] \<and>
         map cp_name cs' = map cp_name cs \<and> map cp_value cs' = map cp_value cs \<and>
         map cp_url cs' = map (\<lambda>c. case cp_url c of Some u \<Rightarrow> Some u
           | None \<Rightarrow> if starts_with page ''http'' then Some page else None) cs \<and>
         (\<forall>c\<in>set cs'. \<forall>u. cp_url c = Some u \<longrightarrow> \<not> refused_url u)))"
proof -
  have url: "pg_run known_url env h = (h @ [PoUrl None], Some (Inr page))"
    using assms(2) by (simp add: known_url_def page_url_def pg_run_bind ask_def decode_answer an_text_def)
  have result: "succeeds (case r of Inl e \<Rightarrow> pg_fail e | Inr x \<Rightarrow> f x) env g g' t \<longleftrightarrow>
      (\<exists>x. r = Inr x \<and> succeeds (f x) env g g' t)" for r :: "cdp_error + 'b" and f :: "'b \<Rightarrow> 'c pg" and g g' t
    by (cases r) (auto simp: run_ok)
  have refused: "h' = h @ [PoUrl None] \<and> (\<exists>e. r = Some (Inl e))" if "refused_url page"
  proof -
    have n: "\<not> starts_with page ''http''" using that http_not_refused by blast
    have "validate_cookie_url page \<noteq> Inr ()" using that validate_iff [of page "()"] by simp
    then obtain e where "validate_cookie_url page = Inl e" by (cases "validate_cookie_url page") auto
    with assms(1) url n show ?thesis by (auto simp: page_set_cookies_def pg_run_bind pg_run_then)
  qed
  moreover have "\<exists>cs'. h' = h @ [PoUrl None] @ map (\<lambda>c. PoCommand (PcDeleteCookies (del c))) cs' @ [PoCommand (PcSetCookies cs')] \<and>
      map cp_name cs' = map cp_name cs \<and> map cp_value cs' = map cp_value cs \<and>
      map cp_url cs' = map (\<lambda>c. case cp_url c of Some u \<Rightarrow> Some u
        | None \<Rightarrow> if starts_with page ''http'' then Some page else None) cs \<and>
      (\<forall>c\<in>set cs'. \<forall>u. cp_url c = Some u \<longrightarrow> \<not> refused_url u)" if "r = Some (Inr u)"
  proof -
    have "succeeds (page_set_cookies del sched cs) env h h' u" using assms(1) that by (simp add: succeeds_def)
    moreover have "succeeds known_url env h g v \<longleftrightarrow> g = h @ [PoUrl None] \<and> v = page" for g v
      using url by (auto simp: succeeds_def)
    ultimately obtain cs' h1 where s: "fill_cookie_urls page cs = Inr cs'"
        "succeeds (delete_cookies_unchecked sched (map del cs')) env (h @ [PoUrl None]) h1 ()"
        "h' = h1 @ [PoCommand (PcSetCookies cs')]"
      by (auto simp: page_set_cookies_def run_ok answer_iffs result)
    with succeeds_delete_unchecked [OF s(2)] filled_urls [OF s(1)] show ?thesis by (auto simp: comp_def)
  qed
  ultimately show ?thesis by auto
qed

definition jar_cookie :: "string option \<Rightarrow> cookie_param" where
  "jar_cookie u = \<lparr>cp_name = ''n'', cp_value = ''v'', cp_url = u, cp_domain = None, cp_path = None\<rparr>"

definition same_cookie :: "cookie_param \<Rightarrow> delete_cookie" where
  "same_cookie c = \<lparr>dc_name = cp_name c, dc_url = cp_url c, dc_domain = cp_domain c, dc_path = cp_path c\<rparr>"

definition url_browser :: browser where
  "url_browser h a = (case a of PoUrl f \<Rightarrow> Inr (PaText (Some ''https://a.b/'')) | _ \<Rightarrow> Inr PaUnit)"

theorem set_cookies_order_witness:
  "\<exists>cs'. fst (pg_run (page_set_cookies same_cookie [] [jar_cookie None]) url_browser []) =
      [PoUrl None] @ map (\<lambda>c. PoCommand (PcDeleteCookies (same_cookie c))) cs' @ [PoCommand (PcSetCookies cs')] \<and>
    map cp_url cs' = [Some ''https://a.b/'']"
proof -
  have "\<exists>h'. pg_run (page_set_cookies same_cookie [] [jar_cookie None]) url_browser [] = (h', Some (Inr ()))"
    by (auto simp: page_set_cookies_def known_url_def page_url_def pg_run_then pg_run_bind ask_def
        url_browser_def decode_answer an_text_def an_unit_def starts_with_def jar_cookie_def delete_cookies_unchecked_def
        run_command_def command_def buffer_unordered.simps)
  then obtain h' where s: "pg_run (page_set_cookies same_cookie [] [jar_cookie None]) url_browser [] = (h', Some (Inr ()))"
    by blast
  from set_cookies_order [OF s, of "''https://a.b/''" "()"] s show ?thesis
    by (auto simp: url_browser_def starts_with_def jar_cookie_def)
qed

text \<open>
  Deleting cookies asks for the URL of the page at most once, and only when one of the cookies
  has no URL of its own, however the rest goes.
\<close>

theorem delete_cookies_asks_once:
  assumes "pg_run (page_delete_cookies sched cs) env h = (h', r)"
  shows "\<exists>ops. h' = h @ ops \<and> length (filter (\<lambda>a. a = PoUrl None) ops) = (if \<exists>c\<in>set cs. dc_url c = None then 1 else 0)"
proof -
  have known: "fst (pg_run known_url env g) = g @ [PoUrl None]" for g
    by (auto simp: known_url_def page_url_def pg_run_bind decode_def split: sum.splits option.splits)
  have some: "pg_run (fill_delete_urls (Some u) cs) env g = (g, Some (Inr (map (\<lambda>c. case dc_url c of Some v \<Rightarrow> c
      | None \<Rightarrow> if starts_with u ''http'' then c\<lparr>dc_url := Some u\<rparr> else c) cs)))" for u g cs
    by (induction cs arbitrary: g) (auto simp: pg_run_map split: option.splits)
  have fill: "fst (pg_run (fill_delete_urls None cs) env g) = g @ (if \<exists>c\<in>set cs. dc_url c = None then [PoUrl None] else [])"
    for g
  proof (induction cs arbitrary: g)
    case (Cons c cs)
    obtain g1 x1 g2 x2 where "pg_run known_url env g = (g1, x1)" "pg_run (fill_delete_urls None cs) env g = (g2, x2)"
      by fastforce
    then show ?case using known [of g] Cons.IH [of g]
      by (cases "dc_url c") (auto simp: pg_run_map pg_run_bind some split: option.split sum.split)
  qed simp
  obtain g x where g: "pg_run (fill_delete_urls None cs) env h = (g, x)" by fastforce
  show ?thesis
  proof (cases "\<exists>cs'. x = Some (Inr cs')")
    case True
    then obtain cs' where "pg_run (buffer_unordered 5 sched [] (map PcDeleteCookies cs')) env g = (h', r)"
      using assms g by (auto simp: page_delete_cookies_def pg_run_bind delete_cookies_unchecked_def)
    from buffer_unordered_run [OF _ this] obtain k where "h' = g @ map PoCommand (take k (map PcDeleteCookies cs'))" by auto
    then show ?thesis using fill [of h] g by (auto simp: filter_empty_conv split: if_splits)
  next
    case False
    then have "h' = g" using assms g
      by (auto simp: page_delete_cookies_def pg_run_bind split: option.splits sum.splits)
    then show ?thesis using fill [of h] g by auto
  qed
qed

theorem delete_cookies_asks_once_witness:
  "\<exists>ops. fst (pg_run (page_delete_cookies [] [\<lparr>dc_name = ''a'', dc_url = None, dc_domain = None, dc_path = None\<rparr>,
      \<lparr>dc_name = ''b'', dc_url = None, dc_domain = None, dc_path = None\<rparr>]) url_browser []) = ops \<and>
    length (filter (\<lambda>a. a = PoUrl None) ops) = 1"
  using delete_cookies_asks_once [of "[]" "[\<lparr>dc_name = ''a'', dc_url = None, dc_domain = None, dc_path = None\<rparr>,
      \<lparr>dc_name = ''b'', dc_url = None, dc_domain = None, dc_path = None\<rparr>]" url_browser "[]"]
  by (metis (no_types, lifting) append_Nil list.set_intros(1) prod.collapse delete_cookie.select_convs(2))

section \<open>Functions and quads\<close>

text \<open>
  A text is taken for a JavaScript function exactly when, white space at its front apart, it
  begins with the keyword, or with \<open>async\<close> and the keyword, or with parentheses that close and an
  arrow behind them.
\<close>

theorem js_function_guess:
  "is_likely_js_function s \<longleftrightarrow>
     starts_with (trim_start s) ''function '' \<or>
     (\<exists>r. trim_start s = ''async '' @ r \<and> starts_with (trim_start r) ''function '') \<or>
     (\<exists>p r. trim_start s = CHR ''('' # p @ r \<and> depth_after 1 p = Some 0 \<and> starts_with (trim_start r) ''=>'')"
  by (rule is_likely_js_function_iff)

text \<open>Asynchronous arrow functions and keywords with no space behind them are taken for expressions.\<close>

lemma unrecognised_functions:
  "\<not> is_likely_js_function ''async () => 1''" "\<not> is_likely_js_function ''function(){}''" "\<not> is_likely_js_function ''x => x''"
  by code_simp+

text \<open>
  The boxes around two quads have a point in common exactly when neither quad is strictly above,
  below, left or right of the other one.
\<close>

theorem quads_meet_iff:
  "(\<exists>p. inside p a \<and> inside p b) \<longleftrightarrow>
     \<not> strictly_above a b \<and> \<not> strictly_below a b \<and> \<not> strictly_left_of a b \<and> \<not> strictly_right_of a b"
proof
  assume "\<exists>p. inside p a \<and> inside p b"
  then show "\<not> strictly_above a b \<and> \<not> strictly_below a b \<and> \<not> strictly_left_of a b \<and> \<not> strictly_right_of a b"
    by (auto simp: inside_def strictly_above_def strictly_below_def strictly_left_of_def strictly_right_of_def)
next
  assume r: "\<not> strictly_above a b \<and> \<not> strictly_below a b \<and> \<not> strictly_left_of a b \<and> \<not> strictly_right_of a b"
  have own: "most_left q \<le> most_right q \<and> most_top q \<le> most_bottom q" for q
    using extents_le(1,5) [of q] extents_ge(1,5) [of q] by linarith
  let ?p = "point_new (max (most_left a) (most_left b)) (max (most_top a) (most_top b))"
  have "inside ?p a \<and> inside ?p b"
    using r own [of a] own [of b]
    by (simp add: inside_def point_new_def strictly_above_def strictly_below_def strictly_left_of_def strictly_right_of_def)
  then show "\<exists>p. inside p a \<and> inside p b" by blast
qed

end
