(* ===== verification/Cdp_Launch.thy ===== *)
theory Cdp_Launch
  imports Cdp_Handler Config
begin

text \<open>
  The start of a browser (\<open>browser/argument.rs\<close>, \<open>browser/config.rs\<close>, \<open>detection.rs\<close> and the launching
  part of \<open>browser/mod.rs\<close>): command-line switches, the configuration builder, the search for an
  executable, and the DevTools address, read from the output of the process or asked from a running
  browser. The file system, the environment and the process are parameters.
\<close>

section \<open>Switches\<close>

record arg =
  ag_key :: string
  ag_values :: "string list"

definition arg_key :: "string \<Rightarrow> arg" where
  "arg_key k = \<lparr>ag_key = k, ag_values = []\<rparr>"

definition arg_value :: "string \<Rightarrow> string \<Rightarrow> arg" where
  "arg_value k v = \<lparr>ag_key = k, ag_values = [v]\<rparr>"

definition arg_many :: "string \<Rightarrow> string list \<Rightarrow> arg" where
  "arg_many k vs = \<lparr>ag_key = k, ag_values = vs\<rparr>"

text \<open>What is converted into an argument: a key, a key with its value or values, or a built-in constant.\<close>

datatype arg_source =
    AsKey string
  | AsPair string string
  | AsPairs string "string list"
  | AsConst string "string list"

fun arg_from :: "arg_source \<Rightarrow> arg" where
  "arg_from (AsKey k) = arg_key k"
| "arg_from (AsPair k v) = arg_value k v"
| "arg_from (AsPairs k vs) = arg_many k vs"
| "arg_from (AsConst k vs) = arg_many k vs"

text \<open>The hash map of the builder, as an association list; its order stands for the one of the iteration.\<close>

type_synonym args_builder = "(string \<times> string list) list"

definition args_has :: "args_builder \<Rightarrow> string \<Rightarrow> bool" where
  "args_has b k \<longleftrightarrow> map_of b k \<noteq> None"

definition args_arg :: "arg \<Rightarrow> args_builder \<Rightarrow> args_builder" where
  "args_arg a b =
     (case map_of b (ag_key a) of
        Some vs \<Rightarrow> AList.update (ag_key a) (vs @ ag_values a) b
      | None \<Rightarrow> AList.update (ag_key a) (ag_values a) b)"

definition args_args :: "arg list \<Rightarrow> args_builder \<Rightarrow> args_builder" where
  "args_args as b = fold args_arg as b"

definition switch :: "string \<Rightarrow> string list \<Rightarrow> string" where
  "switch k vs = (if vs = [] then ''--'' @ k else ''--'' @ k @ ''='' @ join '','' vs)"

definition args_into_iter :: "args_builder \<Rightarrow> string list" where
  "args_into_iter b = map (\<lambda>(k, vs). switch k vs) b"

section \<open>Detection\<close>

record detection_options =
  do_msedge :: bool
  do_unstable :: bool

definition detection_default :: detection_options where
  "detection_default = \<lparr>do_msedge = True, do_unstable = False\<rparr>"

definition get_by_env_var :: "(string \<rightharpoonup> string) \<Rightarrow> (string \<Rightarrow> bool) \<Rightarrow> string option" where
  "get_by_env_var env present =
     (case env ''CHROME'' of Some p \<Rightarrow> if present p then Some p else None | None \<Rightarrow> None)"

definition default_apps :: "detection_options \<Rightarrow> (string \<times> bool) list" where
  "default_apps d =
     [(''chrome'', True), (''chrome-browser'', True), (''google-chrome-stable'', True),
      (''google-chrome-beta'', do_unstable d), (''google-chrome-dev'', do_unstable d),
      (''google-chrome-unstable'', do_unstable d), (''chromium'', True), (''chromium-browser'', True),
      (''msedge'', do_msedge d), (''microsoft-edge'', do_msedge d), (''microsoft-edge-stable'', do_msedge d),
      (''microsoft-edge-beta'', do_msedge d \<and> do_unstable d), (''microsoft-edge-dev'', do_msedge d \<and> do_unstable d)]"

fun first_found :: "(string \<rightharpoonup> string) \<Rightarrow> (string \<times> bool) list \<Rightarrow> string option" where
  "first_found lookup [] = None"
| "first_found lookup ((app, allowed) # apps) =
     (if \<not> allowed then first_found lookup apps
      else (case lookup app of Some p \<Rightarrow> Some p | None \<Rightarrow> first_found lookup apps))"

definition get_by_name :: "(string \<rightharpoonup> string) \<Rightarrow> detection_options \<Rightarrow> string option" where
  "get_by_name which d = first_found which (default_apps d)"

text \<open>The usual installation paths, by system.\<close>

datatype detect_os = OsUnix | OsMacos | OsWindows

definition win_path :: "string list \<Rightarrow> string" where
  "win_path ps = join [CHR 0x5C] ps"

definition default_paths :: "detect_os \<Rightarrow> detection_options \<Rightarrow> (string \<times> bool) list" where
  "default_paths os d =
     (case os of
        OsUnix \<Rightarrow> [(''/opt/chromium.org/chromium'', True), (''/opt/google/chrome'', True), (''/tmp/aws/lib'', True)]
      | OsWindows \<Rightarrow>
          [(win_path [''C:'', ''Program Files (x86)'', ''Microsoft'', ''Edge'', ''Application'', ''msedge.exe''], do_msedge d)]
      | OsMacos \<Rightarrow>
          [(''/Applications/Google Chrome.app/Contents/MacOS/Google Chrome'', True),
           (''/Applications/Google Chrome Beta.app/Contents/MacOS/Google Chrome Beta'', do_unstable d),
           (''/Applications/Google Chrome Dev.app/Contents/MacOS/Google Chrome Dev'', do_unstable d),
           (''/Applications/Google Chrome Canary.app/Contents/MacOS/Google Chrome Canary'', do_unstable d),
           (''/Applications/Chromium.app/Contents/MacOS/Chromium'', True),
           (''/Applications/Microsoft Edge.app/Contents/MacOS/Microsoft Edge'', do_msedge d),
           (''/Applications/Microsoft Edge Beta.app/Contents/MacOS/Microsoft Edge Beta'', do_msedge d \<and> do_unstable d),
           (''/Applications/Microsoft Edge Dev.app/Contents/MacOS/Microsoft Edge Dev'', do_msedge d \<and> do_unstable d),
           (''/Applications/Microsoft Edge Canary.app/Contents/MacOS/Microsoft Edge Canary'', do_msedge d \<and> do_unstable d)])"

definition get_by_path :: "detect_os \<Rightarrow> (string \<Rightarrow> bool) \<Rightarrow> detection_options \<Rightarrow> string option" where
  "get_by_path os present d = first_found (\<lambda>p. if present p then Some p else None) (default_paths os d)"

text \<open>\<open>open_key\<close> opens a key below the machine's hive or the user's, and gives its default value, if it has one.\<close>

definition get_by_registry :: "(bool \<Rightarrow> string \<Rightarrow> string option option) \<Rightarrow> string option" where
  "get_by_registry open_key =
     (let key = (\<lambda>software. win_path [software, ''Microsoft'', ''Windows'', ''CurrentVersion'', ''App Paths'', ''chrome.exe'']) in
      case open_key True (key ''SOFTWARE'') of
        Some value \<Rightarrow> value
      | None \<Rightarrow> (case open_key False (key ''Software'') of Some value \<Rightarrow> value | None \<Rightarrow> None))"

definition default_executable ::
    "detect_os \<Rightarrow> (bool \<Rightarrow> string \<Rightarrow> string option option) \<Rightarrow> (string \<rightharpoonup> string) \<Rightarrow> (string \<Rightarrow> bool) \<Rightarrow>
     (string \<rightharpoonup> string) \<Rightarrow> detection_options \<Rightarrow> string + string" where
  "default_executable os open_key env present which d =
     (case get_by_env_var env present of
        Some p \<Rightarrow> Inr p
      | None \<Rightarrow>
          (case get_by_name which d of
             Some p \<Rightarrow> Inr p
           | None \<Rightarrow>
               (case (if os = OsWindows then get_by_registry open_key else None) of
                  Some p \<Rightarrow> Inr p
                | None \<Rightarrow>
                    (case get_by_path os present d of
                       Some p \<Rightarrow> Inr p
                     | None \<Rightarrow> Inl ''Could not auto detect a chrome executable''))))"

section \<open>Configuration\<close>

datatype headless_mode = HeadlessFalse | HeadlessTrue | HeadlessNew

record launch_config =
  lc_headless :: headless_mode
  lc_sandbox :: bool
  lc_window_size :: "(32 word \<times> 32 word) option"
  lc_port :: "16 word"
  lc_executable :: "string option"
  lc_detection :: detection_options
  lc_extensions :: "string list"
  lc_envs :: "(string \<rightharpoonup> string) option"
  lc_user_data_dir :: "string option"
  lc_incognito :: bool
  lc_launch_timeout :: duration
  lc_ignore_https_errors :: bool
  lc_ignore_invalid :: bool
  lc_disable_https_first :: bool
  lc_viewport :: "viewport option"
  lc_request_timeout :: duration
  lc_args :: "arg list"
  lc_disable_default_args :: bool
  lc_request_intercept :: bool
  lc_cache_enabled :: bool
  lc_hidden :: bool

definition launch_timeout_default :: duration where
  "launch_timeout_default = from_millis 20000"

definition launch_config_default :: launch_config where
  "launch_config_default =
     \<lparr>lc_headless = HeadlessTrue, lc_sandbox = True, lc_window_size = None, lc_port = 0, lc_executable = None,
      lc_detection = detection_default, lc_extensions = [], lc_envs = None, lc_user_data_dir = None,
      lc_incognito = False, lc_launch_timeout = launch_timeout_default, lc_ignore_https_errors = True,
      lc_ignore_invalid = True, lc_disable_https_first = False, lc_viewport = Some viewport_default,
      lc_request_timeout = request_timeout, lc_args = [], lc_disable_default_args = False,
      lc_request_intercept = False, lc_cache_enabled = True, lc_hidden = False\<rparr>"

text \<open>The methods of the builder.\<close>

datatype launch_option =
    LoWindowSize "32 word" "32 word"
  | LoNoSandbox
  | LoHeadless headless_mode
  | LoIncognito
  | LoRespectHttpsErrors
  | LoSurfaceInvalid
  | LoPort "16 word"
  | LoLaunchTimeout duration
  | LoRequestTimeout duration
  | LoViewport "viewport option"
  | LoUserDataDir string
  | LoExecutable string
  | LoDetection detection_options
  | LoExtensions "string list"
  | LoEnvs "(string \<times> string) list"
  | LoArgs "arg list"
  | LoDisableDefaultArgs
  | LoDisableHttpsFirst
  | LoIntercept bool
  | LoCache bool
  | LoHide

fun launch_set :: "launch_option \<Rightarrow> launch_config \<Rightarrow> launch_config" where
  "launch_set (LoWindowSize w h) c = c\<lparr>lc_window_size := Some (w, h)\<rparr>"
| "launch_set LoNoSandbox c = c\<lparr>lc_sandbox := False\<rparr>"
| "launch_set (LoHeadless m) c = c\<lparr>lc_headless := m\<rparr>"
| "launch_set LoIncognito c = c\<lparr>lc_incognito := True\<rparr>"
| "launch_set LoRespectHttpsErrors c = c\<lparr>lc_ignore_https_errors := False\<rparr>"
| "launch_set LoSurfaceInvalid c = c\<lparr>lc_ignore_invalid := False\<rparr>"
| "launch_set (LoPort p) c = c\<lparr>lc_port := p\<rparr>"
| "launch_set (LoLaunchTimeout t) c = c\<lparr>lc_launch_timeout := t\<rparr>"
| "launch_set (LoRequestTimeout t) c = c\<lparr>lc_request_timeout := t\<rparr>"
| "launch_set (LoViewport v) c = c\<lparr>lc_viewport := v\<rparr>"
| "launch_set (LoUserDataDir d) c = c\<lparr>lc_user_data_dir := Some d\<rparr>"
| "launch_set (LoExecutable e) c = c\<lparr>lc_executable := Some e\<rparr>"
| "launch_set (LoDetection d) c = c\<lparr>lc_detection := d\<rparr>"
| "launch_set (LoExtensions es) c = c\<lparr>lc_extensions := lc_extensions c @ es\<rparr>"
| "launch_set (LoEnvs kvs) c =
     c\<lparr>lc_envs := Some ((case lc_envs c of None \<Rightarrow> Map.empty | Some m \<Rightarrow> m) ++ map_of (rev kvs))\<rparr>"
| "launch_set (LoArgs as) c = c\<lparr>lc_args := lc_args c @ as\<rparr>"
| "launch_set LoDisableDefaultArgs c = c\<lparr>lc_disable_default_args := True\<rparr>"
| "launch_set LoDisableHttpsFirst c = c\<lparr>lc_disable_https_first := True\<rparr>"
| "launch_set (LoIntercept b) c = c\<lparr>lc_request_intercept := b\<rparr>"
| "launch_set (LoCache b) c = c\<lparr>lc_cache_enabled := b\<rparr>"
| "launch_set LoHide c =
     c\<lparr>lc_hidden := True, lc_viewport := (if lc_viewport c = Some viewport_default then None else lc_viewport c)\<rparr>"

text \<open>\<open>build\<close> fails when it has to look for an executable and finds none; it keeps everything else.\<close>

definition launch_build :: "(detection_options \<Rightarrow> string + string) \<Rightarrow> launch_config \<Rightarrow> string + launch_config" where
  "launch_build detect c =
     (case lc_executable c of
        Some e \<Rightarrow> Inr c
      | None \<Rightarrow> res_bind (detect (lc_detection c)) (\<lambda>e. Inr (c\<lparr>lc_executable := Some e\<rparr>)))"

definition default_args :: "arg list" where
  "default_args =
     [arg_key ''disable-background-networking'',
      arg_many ''enable-features'' [''NetworkService'', ''NetworkServiceInProcess''],
      arg_key ''disable-background-timer-throttling'', arg_key ''disable-backgrounding-occluded-windows'',
      arg_key ''disable-breakpad'', arg_key ''disable-client-side-phishing-detection'',
      arg_key ''disable-component-extensions-with-background-pages'', arg_key ''disable-default-apps'',
      arg_key ''disable-dev-shm-usage'', arg_many ''disable-features'' [''TranslateUI''],
      arg_key ''disable-hang-monitor'', arg_key ''disable-ipc-flooding-protection'',
      arg_key ''disable-popup-blocking'', arg_key ''disable-prompt-on-repost'',
      arg_key ''disable-renderer-backgrounding'', arg_key ''disable-sync'',
      arg_many ''force-color-profile'' [''srgb''], arg_key ''metrics-recording-only'', arg_key ''no-first-run'',
      arg_key ''enable-automation'', arg_many ''password-store'' [''basic''], arg_key ''use-mock-keychain'',
      arg_many ''enable-blink-features'' [''IdleDetection''], arg_many ''lang'' [''en_US'']]"

text \<open>The switches that \<open>launch\<close> adds behind the ones of the configuration, in its order.\<close>

definition added_args :: "string \<Rightarrow> launch_config \<Rightarrow> arg list" where
  "added_args tmp c =
     (if lc_extensions c = [] then [arg_key ''disable-extensions'']
      else map (arg_value ''load-extension'') (lc_extensions c)) @
     [arg_value ''user-data-dir''
        (case lc_user_data_dir c of Some d \<Rightarrow> d | None \<Rightarrow> path_join tmp ''chromiumoxide-runner'')] @
     (case lc_window_size c of
        Some (w, h) \<Rightarrow> [arg_many ''window-size'' [show_nat (unat w), show_nat (unat h)]]
      | None \<Rightarrow> []) @
     (if lc_sandbox c then [] else [arg_key ''no-sandbox'', arg_key ''disable-setuid-sandbox'']) @
     (case lc_headless c of
        HeadlessFalse \<Rightarrow> []
      | HeadlessTrue \<Rightarrow> [arg_key ''headless'', arg_key ''hide-scrollbars'', arg_key ''mute-audio'']
      | HeadlessNew \<Rightarrow> [arg_value ''headless'' ''new'', arg_key ''hide-scrollbars'', arg_key ''mute-audio'']) @
     (if lc_incognito c then [arg_key ''incognito''] else []) @
     (if lc_hidden c then [arg_value ''disable-blink-features'' ''AutomationControlled''] else []) @
     (if lc_disable_https_first c
      then [arg_many ''disable-features'' [''HttpsUpgrades'', ''HttpsFirstBalancedModeAutoEnable'']] else [])"

definition given_args :: "launch_config \<Rightarrow> arg list" where
  "given_args c = (if lc_disable_default_args c then lc_args c else default_args @ lc_args c)"

definition launch_builder :: "string \<Rightarrow> launch_config \<Rightarrow> args_builder" where
  "launch_builder tmp c =
     (let b = args_args (given_args c) [];
          b = (if args_has b ''remote-debugging-port'' then b
               else args_arg (arg_value ''remote-debugging-port'' (show_nat (unat (lc_port c)))) b)
      in args_args (added_args tmp c) b)"

definition launch_switches :: "string \<Rightarrow> launch_config \<Rightarrow> string list" where
  "launch_switches tmp c = args_into_iter (launch_builder tmp c)"

definition handler_config_of :: "launch_config \<Rightarrow> handler_config" where
  "handler_config_of c =
     \<lparr>hc_ignore_https_errors = lc_ignore_https_errors c, hc_ignore_invalid_messages = lc_ignore_invalid c,
      hc_viewport = lc_viewport c, hc_context_ids = [], hc_request_timeout = lc_request_timeout c,
      hc_request_intercept = lc_request_intercept c, hc_cache_enabled = lc_cache_enabled c\<rparr>"

section \<open>Paths\<close>

definition absolute_path :: "string \<Rightarrow> string \<Rightarrow> string" where
  "absolute_path cwd p = (if starts_with p ''/'' then p else path_join cwd p)"

text \<open>A path that a snap provides is only made absolute.\<close>

definition canonicalize_except_snap :: "(string \<Rightarrow> string + string) \<Rightarrow> string \<Rightarrow> string \<Rightarrow> string + string" where
  "canonicalize_except_snap canonical cwd p =
     res_bind (canonical p) (\<lambda>q. Inr (if ends_with q ''/snap'' then absolute_path cwd p else q))"

section \<open>The DevTools address\<close>

text \<open>\<open>rsplit_once\<close>: what stands behind the last occurrence.\<close>

fun after_last :: "string \<Rightarrow> string \<Rightarrow> string option" where
  "after_last pat [] = (if pat = [] then Some [] else None)"
| "after_last pat (c # s) =
     (case after_last pat s of
        Some r \<Rightarrow> Some r
      | None \<Rightarrow> strip_prefix (c # s) pat)"

fun contains :: "string \<Rightarrow> string \<Rightarrow> bool" where
  "contains [] pat = (pat = [])"
| "contains (c # s) pat = (starts_with (c # s) pat \<or> contains s pat)"

definition announced :: "string \<Rightarrow> string option" where
  "announced line =
     (case after_last ''listening on '' line of
        Some ws \<Rightarrow> if starts_with ws ''ws'' \<and> contains ws ''devtools/browser'' then Some (trim ws) else None
      | None \<Rightarrow> None)"

text \<open>
  What the \<open>select!\<close> sees, in the order in which it happens: the timeout, the end of the process, or a
  read of its output up to a line end.
\<close>

datatype child_event =
    ChTimeout
  | ChExit "string + string"
  | ChRead "string + bytes"

fun ws_url_from_output :: "bytes \<Rightarrow> child_event list \<Rightarrow> (cdp_error + string) option" where
  "ws_url_from_output sofar [] = None"
| "ws_url_from_output sofar (ChTimeout # es) = Some (Inl (CeLaunchTimeout sofar))"
| "ws_url_from_output sofar (ChExit (Inl e) # es) = Some (Inl (CeLaunchIo sofar))"
| "ws_url_from_output sofar (ChExit (Inr status) # es) = Some (Inl (CeLaunchExit sofar))"
| "ws_url_from_output sofar (ChRead (Inl e) # es) = Some (Inl (CeLaunchIo sofar))"
| "ws_url_from_output sofar (ChRead (Inr bs) # es) =
     (if bs = [] then Some (Inl (CeLaunchIo sofar))
      else if \<not> utf8_valid bs then Some (Inl (CeLaunchIo (sofar @ bs)))
      else (case announced bs of
              Some ws \<Rightarrow> Some (Inr ws)
            | None \<Rightarrow> ws_url_from_output (sofar @ bs) es))"

text \<open>The page of a running browser that tells its address.\<close>

definition version_url :: "string \<Rightarrow> string" where
  "version_url url =
     (if ends_with url ''/json/version'' \<or> ends_with url ''/json/version/'' then url
      else url @ (if ends_with url ''/'' then '''' else ''/'') @ ''json/version'')"

function replace_all :: "string \<Rightarrow> string \<Rightarrow> string \<Rightarrow> string" where
  "replace_all pat new s =
     (case s of
        [] \<Rightarrow> []
      | c # t \<Rightarrow> if pat \<noteq> [] \<and> starts_with s pat then new @ replace_all pat new (drop (length pat) s)
                else c # replace_all pat new t)"
  by pat_completeness auto
termination by (relation "measure (\<lambda>(p, n, s). length s)") auto

declare replace_all.simps [simp del]

text \<open>
  An HTTP answer: the address of the peer and the DevTools address that its body names (empty when the
  body cannot be read). \<open>None\<close> is a panic.
\<close>

definition debug_address :: "(string \<Rightarrow> string + (string option \<times> string)) \<Rightarrow> string \<Rightarrow> (cdp_error + string) option" where
  "debug_address http url =
     (if starts_with url ''http''
      then (case http (version_url url) of
              Inl e \<Rightarrow> Some (Inl CeNoResponse)
            | Inr (None, ws) \<Rightarrow> None
            | Inr (Some ip, ws) \<Rightarrow> Some (Inr (if ws \<noteq> [] then replace_all ''127.0.0.1'' ip ws else url)))
      else Some (Inr url))"

section \<open>Launching\<close>

text \<open>
  The outcomes of the steps of \<open>launch\<close>, of which the later ones only happen when the earlier ones
  went well, and the actions on the child process.
\<close>

record launch_world =
  lw_canonical :: "string \<Rightarrow> string + string"
  lw_cwd :: string
  lw_spawned :: "string \<Rightarrow> string list \<Rightarrow> string + unit"
  lw_output :: "child_event list"
  lw_connected :: "string \<Rightarrow> cdp_error + unit"
  lw_exited :: bool
  lw_killed :: bool
  lw_waited :: bool

datatype child_action = CaSpawn | CaKill | CaWait

datatype launch_outcome = LaOk string handler_config | LaFail cdp_error | LaPanic | LaPending

text \<open>A child that is still there is killed and waited for; a failure of that is a panic.\<close>

definition clean_up :: "launch_world \<Rightarrow> cdp_error \<Rightarrow> child_action list \<times> launch_outcome" where
  "clean_up w e =
     (if lw_exited w then ([], LaFail e)
      else if \<not> lw_killed w then ([CaKill], LaPanic)
      else if \<not> lw_waited w then ([CaKill, CaWait], LaPanic)
      else ([CaKill, CaWait], LaFail e))"

definition launch :: "string \<Rightarrow> launch_world \<Rightarrow> string \<Rightarrow> launch_config \<Rightarrow> child_action list \<times> launch_outcome" where
  "launch tmp w executable c =
     (case canonicalize_except_snap (lw_canonical w) (lw_cwd w) executable of
        Inl e \<Rightarrow> ([], LaFail (CeIo e))
      | Inr exe \<Rightarrow>
          (case lw_spawned w exe (launch_switches tmp c) of
             Inl e \<Rightarrow> ([], LaFail (CeIo e))
           | Inr _ \<Rightarrow>
               (case ws_url_from_output [] (lw_output w) of
                  None \<Rightarrow> ([CaSpawn], LaPending)
                | Some r \<Rightarrow>
                    (case res_bind r (\<lambda>ws. map_sum id (\<lambda>_. ws) (lw_connected w ws)) of
                       Inr ws \<Rightarrow> ([CaSpawn], LaOk ws (handler_config_of c))
                     | Inl e \<Rightarrow> (case clean_up w e of (as, r) \<Rightarrow> (CaSpawn # as, r))))))"

end
