(* ===== verification/Cdp_Launch_Props.thy ===== *)
theory Cdp_Launch_Props
  imports Cdp_Launch
begin

text \<open>
  What holds of the start of a browser: one switch per key with the values of all its arguments in order,
  the debugging port, the address found in the output of the process, and that no launch that fails
  leaves its child process behind.
\<close>

section \<open>Switches\<close>

text \<open>The specification: the values of the arguments with a key, in order, or nothing when there is none.\<close>

definition grouped :: "arg list \<Rightarrow> string \<Rightarrow> string list option" where
  "grouped as k = (if k \<in> ag_key ` set as then Some (concat (map ag_values (filter (\<lambda>a. ag_key a = k) as))) else None)"

definition represents :: "args_builder \<Rightarrow> arg list \<Rightarrow> bool" where
  "represents b as \<longleftrightarrow> distinct (map fst b) \<and> map_of b = grouped as"

lemma no_key: "k \<notin> ag_key ` set as \<Longrightarrow> filter (\<lambda>a. ag_key a = k) as = []"
  by (auto simp: filter_empty_conv)

lemma represents_nil: "represents [] []"
  by (auto simp: represents_def grouped_def)

lemma represents_arg: "represents b as \<Longrightarrow> represents (args_arg a b) (as @ [a])"
proof -
  assume r: "represents b as"
  then have m: "map_of b = grouped as" and d: "distinct (map fst b)" by (simp_all add: represents_def)
  have "distinct (map fst (args_arg a b))"
    using d by (auto simp: args_arg_def distinct_update split: option.splits)
  moreover have "map_of (args_arg a b) = grouped (as @ [a])"
  proof
    fix k
    show "map_of (args_arg a b) k = grouped (as @ [a]) k"
    proof (cases "k = ag_key a")
      case True
      then show ?thesis unfolding args_arg_def m
        by (cases "ag_key a \<in> ag_key ` set as") (simp_all add: update_conv' grouped_def no_key)
    next
      case False
      then have "map_of (args_arg a b) k = map_of b k"
        by (auto simp: args_arg_def update_conv' split: option.splits)
      then show ?thesis using False m by (simp add: grouped_def)
    qed
  qed
  ultimately show ?thesis by (simp add: represents_def)
qed

lemma represents_args: "represents b as \<Longrightarrow> represents (args_args bs b) (as @ bs)"
proof (induction bs arbitrary: b as)
  case Nil
  then show ?case by (simp add: args_args_def)
next
  case (Cons x bs)
  from Cons.IH [OF represents_arg [OF Cons.prems]] show ?case by (simp add: args_args_def)
qed

text \<open>All the arguments of a launch in the order in which they are given to the builder.\<close>

definition launch_args :: "string \<Rightarrow> launch_config \<Rightarrow> arg list" where
  "launch_args tmp c =
     given_args c @
     (if ''remote-debugging-port'' \<in> ag_key ` set (given_args c) then []
      else [arg_value ''remote-debugging-port'' (show_nat (unat (lc_port c)))]) @
     added_args tmp c"

lemma launch_builder_represents: "represents (launch_builder tmp c) (launch_args tmp c)"
proof -
  have r: "represents (args_args (given_args c) []) (given_args c)"
    using represents_args [OF represents_nil, of "given_args c"] by simp
  then have "args_has (args_args (given_args c) []) k \<longleftrightarrow> k \<in> ag_key ` set (given_args c)" for k
    by (auto simp: args_has_def represents_def grouped_def)
  then show ?thesis
    using represents_args [OF r, of "added_args tmp c"] represents_args [OF represents_arg [OF r], of "added_args tmp c"]
    by (auto simp: launch_builder_def launch_args_def Let_def)
qed

text \<open>C36: The browser gets exactly one switch for every key among the built-in, the configured and the
  added arguments, and its values are those of all the arguments with that key, in their order.
\<close>

theorem launch_switches_grouped:
  "distinct (map fst (launch_builder tmp c)) \<and>
   set (launch_switches tmp c) = {switch k vs | k vs. grouped (launch_args tmp c) k = Some vs}"
proof -
  have d: "distinct (map fst (launch_builder tmp c))" and m: "map_of (launch_builder tmp c) = grouped (launch_args tmp c)"
    using launch_builder_represents by (simp_all add: represents_def)
  have "(k, vs) \<in> set (launch_builder tmp c) \<longleftrightarrow> grouped (launch_args tmp c) k = Some vs" for k vs
    using d m by (metis map_of_eq_Some_iff)
  then show ?thesis using d by (auto simp: launch_switches_def args_into_iter_def)
qed

lemma keys_apart:
  "''remote-debugging-port'' \<notin> ag_key ` set (added_args tmp c)"
  by (auto simp: added_args_def arg_key_def arg_value_def arg_many_def split: option.splits headless_mode.splits)

text \<open>
  The debugging port is the one of the configuration unless the configured arguments name it; then
  it is what they say, and the port of the configuration is not passed.
\<close>

theorem launch_debugging_port:
  "map_of (launch_builder tmp c) ''remote-debugging-port'' =
     (if ''remote-debugging-port'' \<in> ag_key ` set (given_args c)
      then grouped (given_args c) ''remote-debugging-port''
      else Some [show_nat (unat (lc_port c))])"
proof -
  let ?k = "''remote-debugging-port''"
  have none: "filter (\<lambda>a. ag_key a = ?k) (added_args tmp c) = []"
    by (rule no_key [OF keys_apart])
  have empty: "?k \<notin> ag_key ` set (given_args c) \<Longrightarrow> filter (\<lambda>a. ag_key a = ?k) (given_args c) = []"
    by (rule no_key)
  have "map_of (launch_builder tmp c) ?k = grouped (launch_args tmp c) ?k"
    using launch_builder_represents by (simp add: represents_def)
  then show ?thesis using none empty keys_apart [of tmp c]
    by (auto simp: grouped_def launch_args_def arg_value_def)
qed

text \<open>A data directory among the configured arguments is joined with the built-in one.\<close>

lemma data_dirs_joined:
  "lc_args c = [arg_value ''user-data-dir'' ''/mine''] \<Longrightarrow> lc_disable_default_args c \<Longrightarrow> lc_user_data_dir c = None \<Longrightarrow>
     switch ''user-data-dir'' [''/mine'', path_join tmp ''chromiumoxide-runner''] \<in> set (launch_switches tmp c)"
proof -
  assume a: "lc_args c = [arg_value ''user-data-dir'' ''/mine'']" "lc_disable_default_args c" "lc_user_data_dir c = None"
  have "filter (\<lambda>a. ag_key a = ''user-data-dir'') (added_args tmp c) =
      [arg_value ''user-data-dir'' (path_join tmp ''chromiumoxide-runner'')]"
    using a(3) by (auto simp: added_args_def arg_key_def arg_value_def arg_many_def filter_empty_conv
        split: option.splits headless_mode.splits)
  then have "grouped (launch_args tmp c) ''user-data-dir'' = Some [''/mine'', path_join tmp ''chromiumoxide-runner'']"
    using a by (simp add: grouped_def launch_args_def given_args_def arg_value_def)
  then show ?thesis using launch_switches_grouped [of tmp c] by blast
qed

section \<open>The address in the output\<close>

lemma ws_url_prefix:
  "\<forall>l\<in>set pre. l \<noteq> [] \<and> utf8_valid l \<and> announced l = None \<Longrightarrow>
     ws_url_from_output sofar (map (\<lambda>l. ChRead (Inr l)) pre @ es) = ws_url_from_output (sofar @ concat pre) es"
  by (induction pre arbitrary: sofar) auto

text \<open>
  The address of a launched browser is what the first announcing line of its output says, provided
  that only well-formed lines came before it, and neither the timeout nor the end of the process.
\<close>

theorem ws_url_first_announcement:
  "ws_url_from_output [] es = Some (Inr ws) \<longleftrightarrow>
     (\<exists>pre line rest. es = map (\<lambda>l. ChRead (Inr l)) pre @ ChRead (Inr line) # rest \<and>
        (\<forall>l\<in>set pre. l \<noteq> [] \<and> utf8_valid l \<and> announced l = None) \<and>
        line \<noteq> [] \<and> utf8_valid line \<and> announced line = Some ws)"
proof
  have "ws_url_from_output sofar es = Some (Inr ws) \<Longrightarrow>
     \<exists>pre line rest. es = map (\<lambda>l. ChRead (Inr l)) pre @ ChRead (Inr line) # rest \<and>
        (\<forall>l\<in>set pre. l \<noteq> [] \<and> utf8_valid l \<and> announced l = None) \<and>
        line \<noteq> [] \<and> utf8_valid line \<and> announced line = Some ws" for sofar
  proof (induction sofar es rule: ws_url_from_output.induct)
    case (6 sofar bs es)
    have ok: "bs \<noteq> []" "utf8_valid bs" using "6.prems" by (auto split: if_splits)
    show ?case
    proof (cases "announced bs")
      case None
      then obtain pre line rest where "es = map (\<lambda>l. ChRead (Inr l)) pre @ ChRead (Inr line) # rest"
          "\<forall>l\<in>set pre. l \<noteq> [] \<and> utf8_valid l \<and> announced l = None"
          "line \<noteq> []" "utf8_valid line" "announced line = Some ws"
        using "6.IH" "6.prems" ok by auto
      then show ?thesis using None ok by (intro exI [of _ "bs # pre"] exI [of _ line] exI [of _ rest]) simp
    next
      case (Some w)
      then show ?thesis using "6.prems" ok by (intro exI [of _ "[]"] exI [of _ bs] exI [of _ es]) simp
    qed
  qed auto
  then show "ws_url_from_output [] es = Some (Inr ws) \<Longrightarrow>
     \<exists>pre line rest. es = map (\<lambda>l. ChRead (Inr l)) pre @ ChRead (Inr line) # rest \<and>
        (\<forall>l\<in>set pre. l \<noteq> [] \<and> utf8_valid l \<and> announced l = None) \<and>
        line \<noteq> [] \<and> utf8_valid line \<and> announced line = Some ws" .
next
  assume "\<exists>pre line rest. es = map (\<lambda>l. ChRead (Inr l)) pre @ ChRead (Inr line) # rest \<and>
        (\<forall>l\<in>set pre. l \<noteq> [] \<and> utf8_valid l \<and> announced l = None) \<and>
        line \<noteq> [] \<and> utf8_valid line \<and> announced line = Some ws"
  then show "ws_url_from_output [] es = Some (Inr ws)"
    by (auto simp: ws_url_prefix)
qed

text \<open>An error that is about the process carries what it has written so far.\<close>

lemma ws_url_timeout:
  "\<forall>l\<in>set pre. l \<noteq> [] \<and> utf8_valid l \<and> announced l = None \<Longrightarrow>
     ws_url_from_output [] (map (\<lambda>l. ChRead (Inr l)) pre @ ChTimeout # es) = Some (Inl (CeLaunchTimeout (concat pre)))"
  by (simp add: ws_url_prefix)

lemma announced_example:
  "announced (''DevTools listening on ws://127.0.0.1:9/devtools/browser/a'' @ [CHR 0x0A]) =
     Some ''ws://127.0.0.1:9/devtools/browser/a''"
  by code_simp

section \<open>The child process\<close>

text \<open>C35: A launch that spawned a browser and fails has found it gone, or has killed it and waited for it;
  a launch that succeeds has done nothing else to it, and connected to the address that it announced.
\<close>

theorem launch_leaves_no_child:
  "case launch tmp w executable c of
     (acts, LaFail e) \<Rightarrow> acts = [] \<or> (acts = [CaSpawn] \<and> lw_exited w) \<or> acts = [CaSpawn, CaKill, CaWait]
   | (acts, LaOk ws cfg) \<Rightarrow> acts = [CaSpawn] \<and> ws_url_from_output [] (lw_output w) = Some (Inr ws) \<and>
       lw_connected w ws = Inr () \<and> cfg = handler_config_of c
   | (acts, LaPanic) \<Rightarrow> \<not> lw_killed w \<or> \<not> lw_waited w
   | (acts, LaPending) \<Rightarrow> ws_url_from_output [] (lw_output w) = None"
proof -
  have sum: "map_sum id f x = Inr y \<longleftrightarrow> (\<exists>z. x = Inr z \<and> y = f z)" for f :: "unit \<Rightarrow> string" and x :: "cdp_error + unit" and y
    by (cases x) auto
  show ?thesis
    by (auto simp: launch_def clean_up_def res_bind_Inr_iff sum split: sum.split option.split)
qed

definition slow_world :: launch_world where
  "slow_world =
     \<lparr>lw_canonical = Inr, lw_cwd = ''/'', lw_spawned = (\<lambda>_ _. Inr ()), lw_output = [ChRead (Inr ''starting''), ChTimeout],
      lw_connected = (\<lambda>_. Inr ()), lw_exited = False, lw_killed = True, lw_waited = True\<rparr>"

lemma launch_slow:
  "launch ''/tmp'' slow_world ''/opt/chrome'' launch_config_default =
     ([CaSpawn, CaKill, CaWait], LaFail (CeLaunchTimeout ''starting''))"
proof -
  have "utf8_valid ''starting''" "announced ''starting'' = None" by code_simp+
  then show ?thesis
    by (simp add: launch_def slow_world_def canonicalize_except_snap_def ends_with_def clean_up_def)
qed

theorem launch_leaves_no_child_witness:
  "\<exists>acts. fst (launch ''/tmp'' slow_world ''/opt/chrome'' launch_config_default) = acts \<and> \<not> lw_exited slow_world \<and>
     acts = [CaSpawn, CaKill, CaWait]"
  using launch_leaves_no_child [where tmp = "''/tmp''" and w = slow_world and executable = "''/opt/chrome''" and c = launch_config_default]
  by (simp add: launch_slow) (simp add: slow_world_def)

section \<open>The version page\<close>

text \<open>An executable that is detected was found, and Edge only when it is wanted.\<close>

lemma first_found_Some:
  "first_found lookup apps = Some p \<Longrightarrow> \<exists>a. (a, True) \<in> set apps \<and> lookup a = Some p"
  by (induction apps) (auto split: if_splits option.splits)

theorem detected_executable:
  assumes "default_executable os open_key env present which d = Inr p"
  shows "(env ''CHROME'' = Some p \<and> present p) \<or>
    (\<exists>a. (a, True) \<in> set (default_apps d) \<and> which a = Some p) \<or>
    (os = OsWindows \<and> get_by_registry open_key = Some p) \<or>
    ((p, True) \<in> set (default_paths os d) \<and> present p)"
proof -
  consider "get_by_env_var env present = Some p" | "get_by_name which d = Some p"
    | "os = OsWindows" "get_by_registry open_key = Some p" | "get_by_path os present d = Some p"
    using assms by (auto simp: default_executable_def split: option.splits if_splits)
  then show ?thesis
  proof cases
    case 1
    then show ?thesis by (auto simp: get_by_env_var_def split: option.splits if_splits)
  next
    case 2
    then show ?thesis using first_found_Some by (fastforce simp: get_by_name_def)
  next
    case 4
    then show ?thesis using first_found_Some by (fastforce simp: get_by_path_def split: if_splits)
  qed simp
qed

theorem detected_executable_witness:
  "default_executable OsUnix (\<lambda>m k. None) Map.empty (\<lambda>p. p = ''/opt/google/chrome'') Map.empty detection_default =
     Inr ''/opt/google/chrome'' \<and> (''/opt/google/chrome'', True) \<in> set (default_paths OsUnix detection_default)"
proof -
  have d: "default_executable OsUnix (\<lambda>m k. None) Map.empty (\<lambda>p. p = ''/opt/google/chrome'') Map.empty detection_default =
      Inr ''/opt/google/chrome''" by code_simp
  from detected_executable [OF d] d show ?thesis by auto
qed

lemma no_edge_unless_wanted:
  assumes "\<not> do_msedge d" "(a, True) \<in> set (default_apps d)"
  shows "\<not> starts_with a ''ms'' \<and> \<not> starts_with a ''microsoft''"
  using assms by (auto simp: default_apps_def starts_with_def)

lemma version_url_ends: "ends_with (version_url url) ''/json/version'' \<or> ends_with (version_url url) ''/json/version/''"
  by (auto simp: version_url_def ends_with_iff)

lemma version_url_idem: "version_url (version_url url) = version_url url"
  using version_url_ends [of url] by (simp add: version_url_def [of "version_url url"])

end
