(* ===== verification/Cdp_Browser.thy ===== *)
theory Cdp_Browser
  imports Cdp_Search_Props Cdp_Launch_Props
begin

text \<open>
  The handle of a browser (\<open>browser/mod.rs\<close>, \<open>handler/browser.rs\<close>): browser contexts, pages and cookies of
  the whole browser, as programs over messages to the handler. A method that changes the handle gives
  the changed handle also when it fails.
\<close>

record browser_handle =
  br_config :: "launch_config option"
  br_ws_url :: string
  br_context :: "string option"

definition fetch_targets :: "target_info list pg" where
  "fetch_targets = ask an_targets PoFetchTargets"

definition browser_close :: "unit pg" where
  "browser_close = ask an_unit PoCloseBrowser"

definition is_incognito_configured :: "browser_handle \<Rightarrow> bool" where
  "is_incognito_configured b = (case br_config b of None \<Rightarrow> False | Some c \<Rightarrow> lc_incognito c)"

definition is_incognito :: "browser_handle \<Rightarrow> bool" where
  "is_incognito b \<longleftrightarrow> is_incognito_configured b \<or> br_context b \<noteq> None"

definition create_browser_context :: "string pg" where
  "create_browser_context = command an_script PcCreateContext"

definition dispose_browser_context :: "string \<Rightarrow> unit pg" where
  "dispose_browser_context i = run_command (PcDisposeContext i)"

definition start_incognito_context :: "browser_handle \<Rightarrow> ((cdp_error + unit) \<times> browser_handle) pg" where
  "start_incognito_context b =
     (if is_incognito_configured b then pg_return (Inr (), b)
      else pg_bind (pg_attempt create_browser_context) (\<lambda>r.
        case r of
          Inl e \<Rightarrow> pg_return (Inl e, b)
        | Inr i \<Rightarrow>
            pg_map (\<lambda>s. (s, b\<lparr>br_context := Some i\<rparr>)) (pg_attempt (ask an_unit (PoInsertContext (Some i))))))"

text \<open>The context is taken out of the handle before it is disposed of.\<close>

definition quit_incognito_context :: "browser_handle \<Rightarrow> ((cdp_error + unit) \<times> browser_handle) pg" where
  "quit_incognito_context b =
     (case br_context b of
        None \<Rightarrow> pg_return (Inr (), b)
      | Some i \<Rightarrow>
          pg_map (\<lambda>s. (s, b\<lparr>br_context := None\<rparr>))
            (pg_attempt (pg_then (dispose_browser_context i) (ask an_unit (PoDisposeContext (Some i))))))"

text \<open>A page without a context of its own is made in the one of the handle.\<close>

definition new_page :: "string \<Rightarrow> string option \<Rightarrow> browser_handle \<Rightarrow> page_ref pg" where
  "new_page url ctx b =
     ask an_page (PoCreatePage url (case ctx of None \<Rightarrow> br_context b | Some c \<Rightarrow> Some c))"

definition browser_version :: "string pg" where
  "browser_version = command an_version PcGetVersion"

definition browser_user_agent :: "string pg" where
  "browser_user_agent = browser_version"

definition browser_pages :: "page_ref list pg" where
  "browser_pages = ask an_pages PoGetPages"

definition browser_get_page :: "string \<Rightarrow> page_ref pg" where
  "browser_get_page t =
     pg_bind (ask an_maybe_page (PoGetPage t)) (\<lambda>p.
       case p of None \<Rightarrow> pg_fail CeNotFound | Some p \<Rightarrow> pg_return p)"

definition browser_event_listener :: "string \<Rightarrow> unit pg" where
  "browser_event_listener m = ask an_unit (PoAddListener m)"

definition clear_cookies :: "unit pg" where
  "clear_cookies = run_command PcClearCookies"

definition browser_get_cookies :: "page_cookie list pg" where
  "browser_get_cookies = command an_cookies PcStorageCookies"

fun validate_cookies :: "cookie_param list \<Rightarrow> cdp_error + unit" where
  "validate_cookies [] = Inr ()"
| "validate_cookies (c # cs) =
     (case cp_url c of
        None \<Rightarrow> validate_cookies cs
      | Some u \<Rightarrow> res_bind (validate_cookie_url u) (\<lambda>_. validate_cookies cs))"

definition browser_set_cookies :: "cookie_param list \<Rightarrow> unit pg" where
  "browser_set_cookies cs = pg_then (PgDone (validate_cookies cs)) (run_command (PcStorageSetCookies cs))"

section \<open>Contexts\<close>

text \<open>
  The contexts that exist in the browser and the ones that the handler knows, changed by the
  operations that go through.
\<close>

definition context_step :: "browser \<Rightarrow> page_op list \<Rightarrow> page_op \<Rightarrow> string set \<times> string set \<Rightarrow> string set \<times> string set" where
  "context_step env h a st =
     (case (a, env h a, st) of
        (PoCommand PcCreateContext, Inr (PaScript i), (made, known)) \<Rightarrow> (insert i made, known)
      | (PoCommand (PcDisposeContext i), Inr PaUnit, (made, known)) \<Rightarrow> (made - {i}, known)
      | (PoInsertContext (Some i), Inr PaUnit, (made, known)) \<Rightarrow> (made, insert i known)
      | (PoDisposeContext (Some i), Inr PaUnit, (made, known)) \<Rightarrow> (made, known - {i})
      | (_, _, st) \<Rightarrow> st)"

fun contexts_after :: "browser \<Rightarrow> page_op list \<Rightarrow> page_op list \<Rightarrow> string set \<times> string set \<Rightarrow> string set \<times> string set" where
  "contexts_after env h [] st = st"
| "contexts_after env h (a # as) st = contexts_after env (h @ [a]) as (context_step env h a st)"

lemma contexts_after_append:
  "contexts_after env h (as @ bs) st = contexts_after env (h @ as) bs (contexts_after env h as st)"
  by (induction as arbitrary: h st) auto

text \<open>
  An incognito context that is started and quit, both with success, is again neither in the browser
  nor known to the handler, and the handle is as it was before; in between, new pages are made in it.
\<close>

theorem incognito_round_trip:
  assumes "succeeds (start_incognito_context b) env h h1 (Inr (), b1)"
    and "succeeds (quit_incognito_context b1) env h1 h2 (Inr (), b2)"
    and "\<not> is_incognito_configured b" "br_context b = None"
  shows "b2 = b \<and> is_incognito b1 \<and> \<not> is_incognito b2 \<and>
    (\<exists>ops i. h2 = h @ ops \<and> br_context b1 = Some i \<and>
      (i \<notin> made \<and> i \<notin> known \<longrightarrow> contexts_after env h ops (made, known) = (made, known)) \<and>
      new_page url None b1 = ask an_page (PoCreatePage url (Some i)))"
proof -
  obtain i where i: "h1 = h @ [PoCommand PcCreateContext, PoInsertContext (Some i)]" "b1 = b\<lparr>br_context := Some i\<rparr>"
      "env h (PoCommand PcCreateContext) = Inr (PaScript i)"
      "env (h @ [PoCommand PcCreateContext]) (PoInsertContext (Some i)) = Inr PaUnit"
    using assms(1,3)
    by (auto simp: start_incognito_context_def create_browser_context_def succeeds_def pg_run_bind pg_run_attempt pg_run_map
        answer_iffs split: sum.splits)
  have q: "h2 = h1 @ [PoCommand (PcDisposeContext i), PoDisposeContext (Some i)]" "b2 = b1\<lparr>br_context := None\<rparr>"
      "env h1 (PoCommand (PcDisposeContext i)) = Inr PaUnit"
      "env (h1 @ [PoCommand (PcDisposeContext i)]) (PoDisposeContext (Some i)) = Inr PaUnit"
    using assms(2) i(2)
    by (auto simp: quit_incognito_context_def dispose_browser_context_def succeeds_def pg_run_then pg_run_attempt pg_run_map
        answer_iffs split: sum.splits)
  have "contexts_after env h ([PoCommand PcCreateContext, PoInsertContext (Some i)] @
      [PoCommand (PcDisposeContext i), PoDisposeContext (Some i)]) (made, known) = (made, known)"
    if "i \<notin> made \<and> i \<notin> known"
    using that i(1,3,4) q(3,4) by (simp add: context_step_def)
  then show ?thesis
    using i q assms(3,4) by (auto simp: is_incognito_def is_incognito_configured_def new_page_def)
qed

definition context_browser :: browser where
  "context_browser h a = (if a = PoCommand PcCreateContext then Inr (PaScript ''c'') else Inr PaUnit)"

lemmas context_eval =
  start_incognito_context_def quit_incognito_context_def create_browser_context_def dispose_browser_context_def
  succeeds_def pg_run_bind pg_run_then pg_run_attempt pg_run_map is_incognito_configured_def context_browser_def
  decode_answer an_script_def an_unit_def

theorem incognito_round_trip_witness:
  "\<exists>h1 h2 b1. succeeds (start_incognito_context \<lparr>br_config = None, br_ws_url = ''ws'', br_context = None\<rparr>) context_browser [] h1 (Inr (), b1) \<and>
    succeeds (quit_incognito_context b1) context_browser h1 h2 (Inr (), \<lparr>br_config = None, br_ws_url = ''ws'', br_context = None\<rparr>) \<and>
    is_incognito b1 \<and> contexts_after context_browser [] h2 ({}, {}) = ({}, {})"
proof -
  let ?b = "\<lparr>br_config = None, br_ws_url = ''ws'', br_context = None\<rparr>"
  let ?b1 = "\<lparr>br_config = None, br_ws_url = ''ws'', br_context = Some ''c''\<rparr>"
  obtain h1 where s: "succeeds (start_incognito_context ?b) context_browser [] h1 (Inr (), ?b1)"
    by (auto simp: context_eval)
  obtain h2 where q: "succeeds (quit_incognito_context ?b1) context_browser h1 h2 (Inr (), ?b)"
    by (auto simp: context_eval)
  have "is_incognito ?b1 \<and> (\<exists>ops i. h2 = [] @ ops \<and> br_context ?b1 = Some i \<and>
      (i \<notin> {} \<and> i \<notin> {} \<longrightarrow> contexts_after context_browser [] ops ({}, {}) = ({}, {})) \<and>
      new_page ''u'' None ?b1 = ask an_page (PoCreatePage ''u'' (Some i)))"
    using incognito_round_trip [OF s q, of "{}" "{}" "''u''"] by (simp add: is_incognito_configured_def)
  then show ?thesis using s q by auto
qed

text \<open>When the browser refuses to dispose of the context, the handle has forgotten it all the same.\<close>

lemma failed_quit_forgets_context:
  "\<exists>h'. pg_run (quit_incognito_context \<lparr>br_config = None, br_ws_url = ''ws'', br_context = Some ''c''\<rparr>) (\<lambda>h a. Inl CeTimeout) [] =
     (h', Some (Inr (Inl CeTimeout, \<lparr>br_config = None, br_ws_url = ''ws'', br_context = None\<rparr>)))"
  by (simp add: context_eval decode_def)

end
