(* ===== verification/Cdp_Protocol.thy ===== *)
theory Cdp_Protocol
  imports Cdp_Handler
begin

text \<open>
  The messages of the protocol as JSON (\<open>chromiumoxide_types/src/lib.rs\<close>): how a value read from the
  socket becomes a response, an event or an ignored message, how a call is written, and the names of
  methods. The parser of JSON texts, the text of a value and the decoder of the generated event type
  are parameters; fields that are not known are skipped, as \<open>serde\<close> does.
\<close>

datatype json =
    JsNull
  | JsBool bool
  | JsInt int
  | JsFloat string
  | JsStr string
  | JsArr "json list"
  | JsObj "(string \<times> json) list"

definition json_get :: "json \<Rightarrow> string \<Rightarrow> json option" where
  "json_get v k = (case v of JsObj fs \<Rightarrow> map_of fs k | _ \<Rightarrow> None)"

definition json_u64 :: "json \<Rightarrow> 64 word option" where
  "json_u64 v = (case v of JsInt i \<Rightarrow> if 0 \<le> i \<and> i < 2 ^ 64 then Some (word_of_int i) else None | _ \<Rightarrow> None)"

definition json_i64 :: "json \<Rightarrow> int option" where
  "json_i64 v = (case v of JsInt i \<Rightarrow> if - (2 ^ 63) \<le> i \<and> i < 2 ^ 63 then Some i else None | _ \<Rightarrow> None)"

definition json_str :: "json \<Rightarrow> string option" where
  "json_str v = (case v of JsStr s \<Rightarrow> Some s | _ \<Rightarrow> None)"

definition pair_option :: "'a option \<Rightarrow> 'b option \<Rightarrow> ('a \<times> 'b) option" where
  "pair_option a b = Option.bind a (\<lambda>x. map_option (\<lambda>y. (x, y)) b)"

text \<open>An error: an object with both fields, or the sequence of the two.\<close>

definition error_of_json :: "json \<Rightarrow> (int \<times> string) option" where
  "error_of_json v =
     (case v of
        JsObj fs \<Rightarrow>
          pair_option (Option.bind (map_of fs ''code'') json_i64) (Option.bind (map_of fs ''message'') json_str)
      | JsArr [c, m] \<Rightarrow> pair_option (json_i64 c) (json_str m)
      | _ \<Rightarrow> None)"

text \<open>An optional field: absent and \<open>null\<close> are \<open>None\<close>.\<close>

definition optional_field :: "(json \<Rightarrow> 'a option) \<Rightarrow> json option \<Rightarrow> 'a option option" where
  "optional_field d v =
     (case v of None \<Rightarrow> Some None | Some JsNull \<Rightarrow> Some None | Some x \<Rightarrow> map_option Some (d x))"

definition response_of_json :: "(json \<Rightarrow> string) \<Rightarrow> json \<Rightarrow> response option" where
  "response_of_json show v =
     (case Option.bind (json_get v ''id'') json_u64 of
        None \<Rightarrow> None
      | Some i \<Rightarrow>
          (case optional_field (\<lambda>x. Some (show x)) (json_get v ''result'') of
             None \<Rightarrow> None
           | Some r \<Rightarrow>
               map_option (\<lambda>e. \<lparr>rs_id = i, rs_result = r, rs_error = e\<rparr>)
                 (optional_field error_of_json (json_get v ''error''))))"

definition message_of_json ::
    "(json \<Rightarrow> string) \<Rightarrow> (json \<Rightarrow> event_message option) \<Rightarrow> json \<Rightarrow> message" where
  "message_of_json show event v =
     (if json_get v ''id'' \<noteq> None
      then (case response_of_json show v of Some r \<Rightarrow> MsgResponse r | None \<Rightarrow> MsgIgnored)
      else if json_get v ''method'' \<noteq> None
      then (case event v of Some e \<Rightarrow> MsgEvent e | None \<Rightarrow> MsgIgnored)
      else MsgIgnored)"

text \<open>A text from the socket with its parse, as the connection gets it.\<close>

definition ws_text ::
    "(string \<Rightarrow> string + json) \<Rightarrow> (json \<Rightarrow> string) \<Rightarrow> (json \<Rightarrow> event_message option) \<Rightarrow> string \<Rightarrow> ws_item" where
  "ws_text parse show event s = WsText s (map_sum id (message_of_json show event) (parse s))"

text \<open>The JSON of a call; the session is left out when there is none.\<close>

definition call_json :: "(Cdp_Handler.call_params \<Rightarrow> json) \<Rightarrow> method_call \<Rightarrow> json" where
  "call_json params c =
     JsObj ([(''id'', JsInt (uint (mc_id c))), (''method'', JsStr (mc_method c))] @
       (case mc_session c of None \<Rightarrow> [] | Some s \<Rightarrow> [(''sessionId'', JsStr s)]) @
       [(''params'', params (mc_params c))])"

text \<open>The domain and the name of a method; \<open>None\<close> is the panic on an identifier without a dot.\<close>

definition method_split :: "string \<Rightarrow> (string \<times> string) option" where
  "method_split i = (case split_on (CHR ''.'') i of d # m # _ \<Rightarrow> Some (d, m) | _ \<Rightarrow> None)"

definition domain_name :: "string \<Rightarrow> string option" where
  "domain_name i = map_option fst (method_split i)"

definition method_name :: "string \<Rightarrow> string option" where
  "method_name i = map_option snd (method_split i)"

section \<open>Requests, responses and options\<close>

definition call_id_text :: "64 word \<Rightarrow> string" where
  "call_id_text i = ''CallId('' @ show_nat (unat i) @ '')''"

definition chrome_error_text :: "int \<Rightarrow> string \<Rightarrow> string" where
  "chrome_error_text code msg =
     ''Error '' @ (if code < 0 then ''-'' @ show_nat (nat (- code)) else show_nat (nat code)) @ '': '' @ msg"

record 'v cdp_request =
  rq_method :: string
  rq_session :: "string option"
  rq_params :: 'v

definition request_new :: "string \<Rightarrow> 'v \<Rightarrow> 'v cdp_request" where
  "request_new m v = \<lparr>rq_method = m, rq_session = None, rq_params = v\<rparr>"

definition request_with_session :: "string \<Rightarrow> 'v \<Rightarrow> string \<Rightarrow> 'v cdp_request" where
  "request_with_session m v s = \<lparr>rq_method = m, rq_session = Some s, rq_params = v\<rparr>"

text \<open>The decoded response of a command, with the error of decoding it.\<close>

record 'r command_response =
  cr_id :: "64 word"
  cr_result :: 'r
  cr_method :: string

definition decoded_command_response :: "(string \<Rightarrow> string + 'r) \<Rightarrow> response \<Rightarrow> string \<Rightarrow> cdp_error + 'r command_response" where
  "decoded_command_response decode resp m =
     map_sum id (\<lambda>r. \<lparr>cr_id = rs_id resp, cr_result = r, cr_method = m\<rparr>) (to_command_response decode resp)"

text \<open>A message to a target or to the handler; \<open>encode\<close> writes the parameters of the command.\<close>

definition command_message_with_session ::
    "('c \<Rightarrow> string) \<Rightarrow> ('c \<Rightarrow> string + (string \<rightharpoonup> string) option) \<Rightarrow> 'c \<Rightarrow> nat \<Rightarrow> string option \<Rightarrow> string + command_message" where
  "command_message_with_session ident encode c tx s =
     res_bind (encode c) (\<lambda>v. Inr \<lparr>cm_method = ident c, cm_session = s, cm_params = v, cm_sender = tx\<rparr>)"

definition command_message_new ::
    "('c \<Rightarrow> string) \<Rightarrow> ('c \<Rightarrow> string + (string \<rightharpoonup> string) option) \<Rightarrow> 'c \<Rightarrow> nat \<Rightarrow> string + command_message" where
  "command_message_new ident encode c tx =
     res_bind (encode c) (\<lambda>v. Inr \<lparr>cm_method = ident c, cm_session = None, cm_params = v, cm_sender = tx\<rparr>)"

definition command_message_split :: "command_message \<Rightarrow> (string \<rightharpoonup> string) option cdp_request \<times> nat" where
  "command_message_split m =
     (\<lparr>rq_method = cm_method m, rq_session = cm_session m, rq_params = cm_params m\<rparr>, cm_sender m)"

record click_options =
  clk_count :: int

definition click_options_default :: click_options where
  "click_options_default = \<lparr>clk_count = 1\<rparr>"

record click_options_builder =
  cbl_count :: int

definition click_builder_default :: click_options_builder where
  "click_builder_default = \<lparr>cbl_count = 1\<rparr>"

definition click_builder_count :: "int \<Rightarrow> click_options_builder \<Rightarrow> click_options_builder" where
  "click_builder_count n b = b\<lparr>cbl_count := n\<rparr>"

definition click_builder_build :: "click_options_builder \<Rightarrow> click_options" where
  "click_builder_build b = \<lparr>clk_count = cbl_count b\<rparr>"

section \<open>Facts\<close>

text \<open>A message is split into the request and the sender that it was made of.\<close>

lemma split_of_message:
  assumes "command_message_with_session ident encode c tx s = Inr m"
  shows "\<exists>v. encode c = Inr v \<and> command_message_split m = (\<lparr>rq_method = ident c, rq_session = s, rq_params = v\<rparr>, tx)"
  using assms by (cases "encode c") (auto simp: command_message_with_session_def command_message_split_def)

text \<open>The response of a command bears the identifier of the response and the method of the command.\<close>

lemma decoded_response_of:
  "decoded_command_response decode resp m = Inr r \<Longrightarrow>
   cr_id r = rs_id resp \<and> cr_method r = m \<and> to_command_response decode resp = Inr (cr_result r)"
  by (cases "to_command_response decode resp") (auto simp: decoded_command_response_def)

text \<open>The session of a JSON event is looked for among its parameters.\<close>

definition json_event_session :: "json \<Rightarrow> string option" where
  "json_event_session params = Option.bind (json_get params ''sessionId'') json_str"

text \<open>A response as the browser writes it, with any further fields.\<close>

definition response_json :: "64 word \<Rightarrow> json option \<Rightarrow> (int \<times> string) option \<Rightarrow> (string \<times> json) list \<Rightarrow> json" where
  "response_json i r e extra =
     JsObj ((''id'', JsInt (uint i)) #
       (case r of None \<Rightarrow> [] | Some x \<Rightarrow> [(''result'', x)]) @
       (case e of None \<Rightarrow> [] | Some (c, m) \<Rightarrow> [(''error'', JsObj [(''code'', JsInt c), (''message'', JsStr m)])]) @ extra)"

text \<open>
  A response of the browser is read back as what it says, for every identifier, result other than
  \<open>null\<close> and error, whatever else the message holds.
\<close>

theorem response_read_back:
  assumes "r \<noteq> Some JsNull" "\<forall>c m. e = Some (c, m) \<longrightarrow> - (2 ^ 63) \<le> c \<and> c < 2 ^ 63"
    and "''result'' \<notin> fst ` set extra" "''error'' \<notin> fst ` set extra"
  shows "message_of_json show event (response_json i r e extra) =
    MsgResponse \<lparr>rs_id = i, rs_result = map_option show r, rs_error = e\<rparr>"
proof -
  have none: "map_of extra ''result'' = None" "map_of extra ''error'' = None"
    using assms(3,4) by (simp_all add: map_of_eq_None_iff)
  have i: "0 \<le> uint i" "uint i < 2 ^ 64" by (simp_all add: uint_lt2p [of i, simplified])
  have "json_get (response_json i r e extra) ''id'' = Some (JsInt (uint i))"
    by (simp add: response_json_def json_get_def)
  moreover have "json_get (response_json i r e extra) ''result'' = r"
    using none by (cases r; cases e) (auto simp: response_json_def json_get_def map_add_def)
  moreover have "optional_field error_of_json (json_get (response_json i r e extra) ''error'') = Some e"
    using none assms(2) by (cases r; cases e)
      (auto simp: response_json_def json_get_def optional_field_def error_of_json_def json_i64_def json_str_def pair_option_def)
  ultimately show ?thesis using i assms(1)
    by (cases r) (auto simp: message_of_json_def response_of_json_def json_u64_def optional_field_def split: json.splits)
qed

theorem response_read_back_witness:
  "message_of_json (\<lambda>_. ''{}'') (\<lambda>_. None) (response_json 7 (Some (JsObj [])) None [(''sessionId'', JsStr ''s'')]) =
     MsgResponse \<lparr>rs_id = 7, rs_result = Some ''{}'', rs_error = None\<rparr>"
  using response_read_back [of "Some (JsObj [])" None "[(''sessionId'', JsStr ''s'')]" "\<lambda>_. ''{}''" "\<lambda>_. None" 7] by simp

text \<open>A message with an identifier is never taken for an event, and one that is no response is dropped.\<close>

lemma identified_is_no_event:
  "json_get v ''id'' \<noteq> None \<Longrightarrow> message_of_json show event v \<noteq> MsgEvent e"
  by (auto simp: message_of_json_def split: option.splits)

lemma broken_response_ignored:
  "json_get v ''id'' \<noteq> None \<Longrightarrow> Option.bind (json_get v ''id'') json_u64 = None \<Longrightarrow> message_of_json show event v = MsgIgnored"
  by (simp add: message_of_json_def response_of_json_def)

text \<open>Only a text that is no JSON at all is an invalid message; every other one is read or ignored.\<close>

lemma invalid_iff_no_json:
  "conn_read (ws_text parse show event s) = CiReady (Inl (CeInvalidMessage s e)) \<longleftrightarrow> parse s = Inl e"
  by (cases "parse s") (auto simp: ws_text_def)

lemma method_parts: "method_split i = Some (d, m) \<Longrightarrow> CHR ''.'' \<notin> set d \<and> CHR ''.'' \<notin> set m \<and> starts_with i (d @ ''.'' @ m)"
proof -
  assume "method_split i = Some (d, m)"
  then obtain rest where r: "split_on (CHR ''.'') i = d # m # rest"
    by (auto simp: method_split_def split: list.splits)
  have "join ''.'' (split_on (CHR ''.'') i) = i" by (rule join_split_on)
  then have "starts_with i (d @ ''.'' @ m)" using r by (cases rest) (auto simp: starts_with_iff)
  then show ?thesis using split_on_pieces [of _ "CHR ''.''" i] r by auto
qed

end
