(* ===== verification/Cdp_Process.thy ===== *)
theory Cdp_Process
  imports Cdp_Launch_Props
begin

text \<open>
  The child process of a launched browser (\<open>async_process.rs\<close>, the end of \<open>BrowserConfig::launch\<close> in
  \<open>browser/config.rs\<close>, and waiting, killing and dropping in \<open>browser/mod.rs\<close>). The processes of \<open>tokio\<close> are
  a parameter: a record of functions on their state, with what its documentation promises as a predicate.
\<close>

section \<open>Commands\<close>

datatype stdio = StInherit | StNull | StPiped

record process_command =
  pc_program :: string
  pc_args :: "string list"
  pc_envs :: "(string \<times> string) list"
  pc_stdout :: stdio
  pc_stderr :: stdio
  pc_kill_on_drop :: bool

definition command_new :: "string \<Rightarrow> process_command" where
  "command_new p =
     \<lparr>pc_program = p, pc_args = [], pc_envs = [], pc_stdout = StInherit, pc_stderr = StInherit, pc_kill_on_drop = True\<rparr>"

definition command_arg :: "string \<Rightarrow> process_command \<Rightarrow> process_command" where
  "command_arg a c = c\<lparr>pc_args := pc_args c @ [a]\<rparr>"

definition command_args :: "string list \<Rightarrow> process_command \<Rightarrow> process_command" where
  "command_args as c = c\<lparr>pc_args := pc_args c @ as\<rparr>"

definition command_envs :: "(string \<times> string) list \<Rightarrow> process_command \<Rightarrow> process_command" where
  "command_envs kvs c = c\<lparr>pc_envs := pc_envs c @ kvs\<rparr>"

definition command_stdout :: "stdio \<Rightarrow> process_command \<Rightarrow> process_command" where
  "command_stdout s c = c\<lparr>pc_stdout := s\<rparr>"

definition command_stderr :: "stdio \<Rightarrow> process_command \<Rightarrow> process_command" where
  "command_stderr s c = c\<lparr>pc_stderr := s\<rparr>"

text \<open>\<open>pairs\<close> are the entries of the environment map of the configuration in the order of its iteration.\<close>

definition launch_command :: "string \<Rightarrow> string \<Rightarrow> (string \<times> string) list \<Rightarrow> launch_config \<Rightarrow> process_command" where
  "launch_command tmp executable pairs c =
     (let cmd = command_args (launch_switches tmp c) (command_new executable);
          cmd = (if lc_envs c = None then cmd else command_envs pairs cmd)
      in command_stderr StPiped (command_stdout StNull cmd))"

section \<open>Children\<close>

text \<open>
  What the code uses of a process of \<open>tokio\<close>: spawning, taking and putting back its error output, killing
  (which also waits), waiting, asking whether it is gone, and dropping it.
\<close>

record 'p process_ops =
  po_spawn :: "process_command \<Rightarrow> string + 'p"
  po_take_stderr :: "'p \<Rightarrow> nat option \<times> 'p"
  po_put_stderr :: "nat option \<Rightarrow> 'p \<Rightarrow> 'p"
  po_kill :: "'p \<Rightarrow> (string + unit) \<times> 'p"
  po_wait :: "'p \<Rightarrow> (string + string) \<times> 'p"
  po_try_wait :: "'p \<Rightarrow> (string + string option) \<times> 'p"
  po_drop :: "'p \<Rightarrow> 'p"

record 'p child =
  cl_stderr :: "nat option"
  cl_inner :: 'p

definition child_new :: "'p process_ops \<Rightarrow> 'p \<Rightarrow> 'p child" where
  "child_new os p = (case po_take_stderr os p of (e, p') \<Rightarrow> \<lparr>cl_stderr = e, cl_inner = p'\<rparr>)"

definition command_spawn :: "'p process_ops \<Rightarrow> process_command \<Rightarrow> string + 'p child" where
  "command_spawn os c = map_sum id (child_new os) (po_spawn os c)"

definition on_inner :: "('p \<Rightarrow> 'r \<times> 'p) \<Rightarrow> 'p child \<Rightarrow> 'r \<times> 'p child" where
  "on_inner f ch = (case f (cl_inner ch) of (r, p) \<Rightarrow> (r, ch\<lparr>cl_inner := p\<rparr>))"

definition child_kill :: "'p process_ops \<Rightarrow> 'p child \<Rightarrow> (string + unit) \<times> 'p child" where
  "child_kill os = on_inner (po_kill os)"

definition child_wait :: "'p process_ops \<Rightarrow> 'p child \<Rightarrow> (string + string) \<times> 'p child" where
  "child_wait os = on_inner (po_wait os)"

definition child_try_wait :: "'p process_ops \<Rightarrow> 'p child \<Rightarrow> (string + string option) \<times> 'p child" where
  "child_try_wait os = on_inner (po_try_wait os)"

definition into_inner :: "'p process_ops \<Rightarrow> 'p child \<Rightarrow> 'p" where
  "into_inner os ch = po_put_stderr os (cl_stderr ch) (cl_inner ch)"

text \<open>The clean-up of a failed launch on a child; \<open>None\<close> is the panic when it fails.\<close>

definition clean_up_child :: "'p process_ops \<Rightarrow> 'p child \<Rightarrow> child_action list \<times> 'p child option" where
  "clean_up_child os ch =
     (case child_try_wait os ch of
        (Inr (Some status), ch1) \<Rightarrow> ([], Some ch1)
      | (_, ch1) \<Rightarrow>
          (case child_kill os ch1 of
             (Inl e, ch2) \<Rightarrow> ([CaKill], None)
           | (Inr _, ch2) \<Rightarrow>
               (case child_wait os ch2 of
                  (Inl e, ch3) \<Rightarrow> ([CaKill, CaWait], None)
                | (Inr status, ch3) \<Rightarrow> ([CaKill, CaWait], Some ch3))))"

section \<open>The child of a browser handle\<close>

definition browser_wait :: "'p process_ops \<Rightarrow> 'p child option \<Rightarrow> (string + string option) \<times> 'p child option" where
  "browser_wait os b =
     (case b of
        Some ch \<Rightarrow> (case child_wait os ch of (r, ch') \<Rightarrow> (map_sum id Some r, Some ch'))
      | None \<Rightarrow> (Inr None, None))"

definition browser_try_wait :: "'p process_ops \<Rightarrow> 'p child option \<Rightarrow> (string + string option) \<times> 'p child option" where
  "browser_try_wait os b =
     (case b of
        Some ch \<Rightarrow> (case child_try_wait os ch of (r, ch') \<Rightarrow> (r, Some ch'))
      | None \<Rightarrow> (Inr None, None))"

definition browser_kill :: "'p process_ops \<Rightarrow> 'p child option \<Rightarrow> (string + unit) option \<times> 'p child option" where
  "browser_kill os b =
     (case b of
        Some ch \<Rightarrow> (case child_kill os ch of (r, ch') \<Rightarrow> (Some r, Some ch'))
      | None \<Rightarrow> (None, None))"

text \<open>Dropping the handle: whether it warns, and what becomes of the process, which is dropped with it.\<close>

definition browser_drop :: "'p process_ops \<Rightarrow> 'p child option \<Rightarrow> bool \<times> 'p option" where
  "browser_drop os b =
     (case b of
        None \<Rightarrow> (False, None)
      | Some ch \<Rightarrow>
          (case child_try_wait os ch of
             (Inr (Some status), ch') \<Rightarrow> (False, Some (po_drop os (cl_inner ch')))
           | (_, ch') \<Rightarrow> (True, Some (po_drop os (cl_inner ch')))))"

datatype process_call = PrWait | PrTryWait | PrKill

fun call_process :: "'p process_ops \<Rightarrow> process_call \<Rightarrow> 'p child option \<Rightarrow> 'p child option" where
  "call_process os PrWait b = snd (browser_wait os b)"
| "call_process os PrTryWait b = snd (browser_try_wait os b)"
| "call_process os PrKill b = snd (browser_kill os b)"

text \<open>A call that told its caller that the process is gone.\<close>

fun call_reaps :: "'p process_ops \<Rightarrow> process_call \<Rightarrow> 'p child option \<Rightarrow> bool" where
  "call_reaps os PrWait b = (\<exists>s. fst (browser_wait os b) = Inr (Some s))"
| "call_reaps os PrTryWait b = (\<exists>s. fst (browser_try_wait os b) = Inr (Some s))"
| "call_reaps os PrKill b = (fst (browser_kill os b) = Some (Inr ()))"

fun process_calls :: "'p process_ops \<Rightarrow> process_call list \<Rightarrow> 'p child option \<Rightarrow> 'p child option" where
  "process_calls os [] b = b"
| "process_calls os (c # cs) b = process_calls os cs (call_process os c b)"

section \<open>What \<open>tokio\<close> promises\<close>

text \<open>
  A process that was reaped keeps its status: it is reaped by a successful kill or wait, or by an inquiry
  that finds it gone; an inquiry then always gives the status, and killing or dropping changes nothing. A
  process spawned with \<open>kill_on_drop\<close> keeps that flag and does not run once it was dropped.
\<close>

definition process_laws :: "'p process_ops \<Rightarrow> ('p \<Rightarrow> bool) \<Rightarrow> ('p \<Rightarrow> bool) \<Rightarrow> ('p \<Rightarrow> bool) \<Rightarrow> bool" where
  "process_laws os reaped tied running \<longleftrightarrow>
     (\<forall>p q. po_kill os p = (Inr (), q) \<longrightarrow> reaped q) \<and>
     (\<forall>p q s. po_wait os p = (Inr s, q) \<longrightarrow> reaped q) \<and>
     (\<forall>p q s. po_try_wait os p = (Inr (Some s), q) \<longrightarrow> reaped q) \<and>
     (\<forall>p. reaped p \<longrightarrow> (\<exists>s q. po_try_wait os p = (Inr (Some s), q)) \<and> reaped (snd (po_try_wait os p)) \<and>
        reaped (snd (po_wait os p)) \<and> reaped (snd (po_kill os p)) \<and> \<not> running p) \<and>
     (\<forall>c p. po_spawn os c = Inr p \<and> pc_kill_on_drop c \<longrightarrow> tied p) \<and>
     (\<forall>p. tied p \<longrightarrow> tied (snd (po_take_stderr os p)) \<and> tied (snd (po_try_wait os p)) \<and> tied (snd (po_wait os p)) \<and>
        tied (snd (po_kill os p)) \<and> \<not> running (po_drop os p))"

lemma reaping:
  assumes "process_laws os reaped tied running"
  shows "po_kill os p = (Inr u, q) \<Longrightarrow> reaped q" "po_wait os p = (Inr s, q) \<Longrightarrow> reaped q"
    and "po_try_wait os p = (Inr (Some s), q) \<Longrightarrow> reaped q"
  using assms unfolding process_laws_def by (cases u; blast)+

lemma staying_reaped:
  assumes "process_laws os reaped tied running" "reaped p"
  shows "\<exists>s q. po_try_wait os p = (Inr (Some s), q)" "po_try_wait os p = (a, q) \<Longrightarrow> reaped q"
    and "po_wait os p = (b, q) \<Longrightarrow> reaped q" "po_kill os p = (c, q) \<Longrightarrow> reaped q"
  using assms unfolding process_laws_def by (blast, metis snd_conv, metis snd_conv, metis snd_conv)

lemma staying_tied:
  assumes "process_laws os reaped tied running" "tied p"
  shows "po_take_stderr os p = (d, q) \<Longrightarrow> tied q" "po_try_wait os p = (a, q) \<Longrightarrow> tied q"
    and "po_wait os p = (b, q) \<Longrightarrow> tied q" "po_kill os p = (c, q) \<Longrightarrow> tied q" "\<not> running (po_drop os p)"
  using assms unfolding process_laws_def by (metis snd_conv, metis snd_conv, metis snd_conv, metis snd_conv, blast)

lemma spawning_ties:
  "process_laws os reaped tied running \<Longrightarrow> po_spawn os c = Inr p \<Longrightarrow> pc_kill_on_drop c \<Longrightarrow> tied p"
  unfolding process_laws_def by blast

lemmas calls_unfold =
  browser_wait_def browser_try_wait_def browser_kill_def child_wait_def child_try_wait_def child_kill_def on_inner_def

lemma launch_command_keeps_order:
  "pc_args (launch_command tmp e pairs c) = launch_switches tmp c \<and> pc_program (launch_command tmp e pairs c) = e \<and>
   pc_stderr (launch_command tmp e pairs c) = StPiped \<and> pc_kill_on_drop (launch_command tmp e pairs c)"
  by (simp add: launch_command_def Let_def command_args_def command_new_def command_envs_def command_stdout_def command_stderr_def)

lemma call_process_tied:
  assumes "process_laws os reaped tied running" "tied (cl_inner ch)"
  shows "\<exists>ch'. call_process os c (Some ch) = Some ch' \<and> tied (cl_inner ch')"
  using staying_tied [OF assms] by (cases c) (auto simp: calls_unfold split: prod.split)

lemma call_process_reaped:
  assumes "process_laws os reaped tied running"
    and "(\<exists>ch. b = Some ch \<and> reaped (cl_inner ch)) \<or> call_reaps os c b"
  shows "\<exists>ch. call_process os c b = Some ch \<and> reaped (cl_inner ch)"
proof (cases b)
  case None
  with assms(2) show ?thesis by (cases c) (simp_all add: calls_unfold)
next
  case (Some ch)
  show ?thesis
  proof (cases "reaped (cl_inner ch)")
    case True
    with Some staying_reaped [OF assms(1) True] show ?thesis
      by (cases c) (auto simp: calls_unfold split: prod.split)
  next
    case False
    with assms(2) Some have "call_reaps os c (Some ch)" by simp
    with Some reaping [OF assms(1)] show ?thesis
      by (cases c) (auto simp: calls_unfold map_sum_def split: prod.splits sum.splits)
  qed
qed

fun calls_reap :: "'p process_ops \<Rightarrow> process_call list \<Rightarrow> 'p child option \<Rightarrow> bool" where
  "calls_reap os [] b = False"
| "calls_reap os (c # cs) b = (call_reaps os c b \<or> calls_reap os cs (call_process os c b))"

lemma process_calls_tied:
  "process_laws os reaped tied running \<Longrightarrow> tied (cl_inner ch) \<Longrightarrow>
   \<exists>ch'. process_calls os cs (Some ch) = Some ch' \<and> tied (cl_inner ch')"
proof (induction cs arbitrary: ch)
  case (Cons c cs)
  obtain ch1 where c: "call_process os c (Some ch) = Some ch1" "tied (cl_inner ch1)"
    using call_process_tied [OF Cons.prems] by blast
  with Cons.IH [OF Cons.prems(1)] c show ?case by simp
qed simp

lemma process_calls_reaped:
  "process_laws os reaped tied running \<Longrightarrow> (\<exists>ch. b = Some ch \<and> reaped (cl_inner ch)) \<or> calls_reap os cs b \<Longrightarrow>
   \<exists>ch. process_calls os cs b = Some ch \<and> reaped (cl_inner ch)"
proof (induction cs arbitrary: b)
  case (Cons c cs)
  from Cons.prems(2) have "(\<exists>ch. call_process os c b = Some ch \<and> reaped (cl_inner ch)) \<or> calls_reap os cs (call_process os c b)"
    using call_process_reaped [OF Cons.prems(1)] by auto
  from Cons.IH [OF Cons.prems(1) this] show ?case by simp
qed simp

text \<open>
  No process outlives the handle of a browser that was launched, whatever the handle was asked before it
  is dropped, and the drop warns only when no call reaped the process before.
\<close>

theorem dropped_browser_leaves_no_process:
  assumes laws: "process_laws os reaped tied running"
    and spawn: "command_spawn os (launch_command tmp e pairs c) = Inr ch"
  shows "\<exists>warned p. browser_drop os (process_calls os cs (Some ch)) = (warned, Some p) \<and> \<not> running p \<and>
    (calls_reap os cs (Some ch) \<longrightarrow> \<not> warned)"
proof -
  obtain p where "po_spawn os (launch_command tmp e pairs c) = Inr p" "ch = child_new os p"
    using spawn by (auto simp: command_spawn_def map_sum_def split: sum.splits)
  moreover from this have "tied p" using spawning_ties [OF laws] launch_command_keeps_order by blast
  ultimately have "tied (cl_inner ch)"
    using staying_tied(1) [OF laws, of p] by (simp add: child_new_def split: prod.split)
  then obtain ch' where ch': "process_calls os cs (Some ch) = Some ch'" "tied (cl_inner ch')"
    using process_calls_tied [OF laws] by blast
  obtain r q where t: "po_try_wait os (cl_inner ch') = (r, q)" by fastforce
  have "tied q" by (rule staying_tied(2) [OF laws ch'(2) t])
  then have gone: "\<not> running (po_drop os q)" by (rule staying_tied(5) [OF laws])
  have "\<exists>s. r = Inr (Some s)" if "calls_reap os cs (Some ch)"
  proof -
    have "reaped (cl_inner ch')" using process_calls_reaped [OF laws, of "Some ch" cs] that ch'(1) by auto
    from staying_reaped(1) [OF laws this] t show ?thesis by auto
  qed
  then show ?thesis using ch'(1) t gone
    by (auto simp: browser_drop_def child_try_wait_def on_inner_def split: sum.split option.split)
qed

text \<open>A handle of a browser that was not launched has no process: every call and the drop leave everything alone.\<close>

lemma connected_browser_has_no_process:
  "process_calls os cs None = None \<and> browser_drop os None = (False, None) \<and>
   fst (browser_wait os None) = Inr None \<and> fst (browser_kill os None) = None"
proof -
  have "process_calls os cs None = None"
  proof (induction cs)
    case (Cons c cs)
    then show ?case by (cases c) (simp_all add: browser_wait_def browser_try_wait_def browser_kill_def)
  qed simp
  then show ?thesis by (simp add: browser_drop_def browser_wait_def browser_kill_def)
qed

text \<open>The clean-up of a failed launch is the one of \<open>launch\<close>, and the child that it leaves was reaped.\<close>

definition world_of_child :: "'p process_ops \<Rightarrow> 'p child \<Rightarrow> launch_world \<Rightarrow> launch_world" where
  "world_of_child os ch w =
     (let ch1 = snd (child_try_wait os ch); ch2 = snd (child_kill os ch1)
      in w\<lparr>lw_exited := (case fst (child_try_wait os ch) of Inr (Some s) \<Rightarrow> True | _ \<Rightarrow> False),
           lw_killed := (case fst (child_kill os ch1) of Inr u \<Rightarrow> True | Inl e \<Rightarrow> False),
           lw_waited := (case fst (child_wait os ch2) of Inr s \<Rightarrow> True | Inl e \<Rightarrow> False)\<rparr>)"

theorem clean_up_child_refines:
  "clean_up (world_of_child os ch w) e =
     (fst (clean_up_child os ch), if snd (clean_up_child os ch) = None then LaPanic else LaFail e)"
  by (auto simp: clean_up_def clean_up_child_def world_of_child_def Let_def split: prod.splits sum.splits option.splits)

lemma clean_up_reaps:
  assumes "process_laws os reaped tied running" "snd (clean_up_child os ch) = Some ch'"
  shows "reaped (cl_inner ch')"
proof -
  have w: "reaped (cl_inner b)" if "child_wait os a = (Inr s, b)" for a b s
    using that reaping(2) [OF assms(1)] by (auto simp: child_wait_def on_inner_def split: prod.splits)
  have t: "reaped (cl_inner b)" if "child_try_wait os a = (Inr (Some s), b)" for a b s
    using that reaping(3) [OF assms(1)] by (auto simp: child_try_wait_def on_inner_def split: prod.splits)
  show ?thesis using assms(2) w t by (auto simp: clean_up_child_def split: prod.splits sum.splits option.splits)
qed

section \<open>An example\<close>

text \<open>A process that runs until it is killed: its state is whether it still runs and whether it is reaped.\<close>

definition example_os :: "(bool \<times> bool) process_ops" where
  "example_os =
     \<lparr>po_spawn = \<lambda>c. if pc_kill_on_drop c then Inr (True, False) else Inl ''no'',
      po_take_stderr = \<lambda>p. (Some 2, p), po_put_stderr = \<lambda>e p. p,
      po_kill = \<lambda>p. (Inr (), (False, True)),
      po_wait = \<lambda>(r, g). if r then (Inl ''would block'', (r, g)) else (Inr ''exit'', (r, True)),
      po_try_wait = \<lambda>(r, g). if r then (Inr None, (r, g)) else (Inr (Some ''exit''), (r, True)),
      po_drop = \<lambda>(r, g). (False, g)\<rparr>"

lemma example_os_laws: "process_laws example_os (\<lambda>(r, g). \<not> r \<and> g) (\<lambda>p. True) fst"
  by (auto simp: process_laws_def example_os_def split: if_splits)

theorem dropped_browser_leaves_no_process_witness:
  "\<exists>ch p. command_spawn example_os (launch_command ''/tmp'' ''chrome'' [] launch_config_default) = Inr ch \<and>
     browser_drop example_os (process_calls example_os [PrTryWait, PrKill] (Some ch)) = (False, Some p) \<and> \<not> fst p"
proof -
  let ?c = "launch_command ''/tmp'' ''chrome'' [] launch_config_default"
  have k: "pc_kill_on_drop ?c" using launch_command_keeps_order by blast
  have s: "command_spawn example_os ?c = Inr \<lparr>cl_stderr = Some 2, cl_inner = (True, False)\<rparr>"
    using k by (simp add: command_spawn_def child_new_def example_os_def)
  have r: "calls_reap example_os [PrTryWait, PrKill] (Some \<lparr>cl_stderr = Some 2, cl_inner = (True, False)\<rparr>)"
    by (simp add: browser_try_wait_def browser_kill_def child_try_wait_def child_kill_def on_inner_def example_os_def)
  from dropped_browser_leaves_no_process [OF example_os_laws s, of "[PrTryWait, PrKill]"] s r show ?thesis by auto
qed

end
