(* ===== verification/Cdp_Progress.thy ===== *)
theory Cdp_Progress
  imports Cdp_Handler_Props
begin

text \<open>
  Progress of the handler: a request is followed from the table of waiting commands through every step of a
  round. An entry only leaves the table together with a reply, call ids in use are not handed out again, and a
  round that evicts leaves nothing behind that is overdue.
\<close>

section \<open>Replies are never taken back\<close>

lemma handle_message_sends: "set (snd st) \<subseteq> set (snd (handle_message m st))"
  by (cases "(m, st)" rule: handle_message.cases) (auto simp: send_def split: option.split)

lemma drain_page_sends: "set (snd st) \<subseteq> set (snd (drain_page st))"
proof -
  have f: "set (snd st) \<subseteq> set (snd (fold handle_message ms st))" for ms and st :: target_state
  proof (induction ms arbitrary: st)
    case (Cons m ms)
    then show ?case using handle_message_sends [of st m] Cons.IH [of "handle_message m st"] by (simp add: subset_trans)
  qed simp
  obtain tg out where st: "st = (tg, out)" by fastforce
  show ?thesis
  proof (cases "tg_page tg")
    case (Some p)
    with f [of "(tg\<lparr>tg_page := Some (p\<lparr>ph_rx := []\<rparr>)\<rparr>, out)" "ph_rx p"] st show ?thesis
      by (simp add: drain_page_def)
  qed (simp add: drain_page_def st)
qed

lemma notify_waiting_sends: "set (snd st) \<subseteq> set (snd (notify_waiting st))"
  by (cases st) (auto simp: notify_waiting_def split: option.split)

lemma init_step_sends: "init_step now st = (r, st') \<Longrightarrow> set (snd st) \<subseteq> set (snd st')"
  by (cases st)
    (auto simp: init_step_def advance_state_def on_initialization_failed_def answer_initiator_def
      split: target_init.splits next_command.splits prod.splits if_splits option.splits)

lemma poll_loop_sends: "poll_loop now clock st = Some (r, st') \<Longrightarrow> set (snd st) \<subseteq> set (snd st')"
proof (induction now clock st rule: poll_loop.induct)
  case (1 now clock st)
  obtain tg out where n: "notify_waiting st = (tg, out)" by fastforce
  have s: "set (snd st) \<subseteq> set out" using notify_waiting_sends [of st] n by simp
  obtain tg1 out1 where d: "drain_page (tg, out) = (tg1, out1)" by fastforce
  have s1: "set out \<subseteq> set out1" using drain_page_sends [of "(tg, out)"] d by simp
  show ?case
  proof (cases "tg_queued tg")
    case (Cons e es)
    with 1(2) n s show ?thesis by (auto simp: poll_loop.simps [of now clock st])
  next
    case Nil
    obtain tg2 where f: "drain_frames now clock (drain_network tg1) = Some tg2"
      using 1(2) n Nil d by (auto simp: poll_loop.simps [of now clock st] split: option.splits)
    show ?thesis
    proof (cases "tg_queued tg2 = []")
      case True
      with 1(2) n Nil d f s s1 show ?thesis by (auto simp: poll_loop.simps [of now clock st])
    next
      case False
      then have "poll_loop now clock (tg2, out1) = Some (r, st')"
        using 1(2) n Nil d f by (simp add: poll_loop.simps [of now clock st])
      from 1(1) [OF n [symmetric] Nil d [symmetric] f False this] s s1 show ?thesis by auto
    qed
  qed
qed

lemma target_poll_sends: "target_poll now clock st = Some (r, st') \<Longrightarrow> set (snd st) \<subseteq> set (snd st')"
proof (induction now clock st rule: target_poll.induct)
  case (1 now clock st)
  obtain res st1 where i: "init_step now st = (res, st1)" by (rule prod.exhaust)
  note s = init_step_sends [OF i]
  show ?case
  proof (cases "is_page (fst st)")
    case False
    then show ?thesis using 1(2) by (simp add: target_poll.simps [of now clock st])
  next
    case True
    then show ?thesis using 1(2) i s 1(1) [of res st1] poll_loop_sends [of now clock st1 r st']
      by (cases res) (auto simp: target_poll.simps [of now clock st] dest: subsetD)
  qed
qed

section \<open>Progress\<close>

fun awaited :: "pending_request \<Rightarrow> nat option" where
  "awaited (PqExternalCommand tx) = Some tx"
| "awaited (PqGetTargets tx) = Some tx"
| "awaited (PqCloseBrowser tx) = Some tx"
| "awaited _ = None"

definition waits :: "handler \<Rightarrow> 64 word \<Rightarrow> nat \<Rightarrow> duration \<Rightarrow> bool" where
  "waits h i tx t \<longleftrightarrow> (\<exists>req m. map_of (hd_pending h) i = Some (req, m, t) \<and> awaited req = Some tx)"

definition has_reply :: "handler \<Rightarrow> nat \<Rightarrow> bool" where
  "has_reply h tx \<longleftrightarrow> tx \<in> fst ` set (hd_out h)"

text \<open>The commands that were handed to the connection, as far as it did not lose them on a failure.\<close>

definition calls :: "handler \<Rightarrow> nat" where
  "calls h = length (cn_written (hd_conn h)) + length (cn_pending (hd_conn h))"

text \<open>The call ids in use are below the next one, which has not run ahead of the calls by more than \<open>k\<close>.\<close>

definition ids_ok :: "nat \<Rightarrow> handler \<Rightarrow> bool" where
  "ids_ok k h \<longleftrightarrow>
     (\<exists>n \<le> calls h + k. cn_next_id (hd_conn h) = of_nat n \<and> (\<forall>i \<in> fst ` set (hd_pending h). unat i < n))"

lemma ids_okE:
  assumes "ids_ok k h"
  obtains n where "n \<le> calls h + k" "cn_next_id (hd_conn h) = of_nat n" "\<forall>i \<in> fst ` set (hd_pending h). unat i < n"
  using assms unfolding ids_ok_def by (elim exE conjE) (rule that)

lemma ids_okI:
  "n \<le> calls h + k \<Longrightarrow> cn_next_id (hd_conn h) = of_nat n \<Longrightarrow>
   (\<And>i. i \<in> fst ` set (hd_pending h) \<Longrightarrow> unat i < n) \<Longrightarrow> ids_ok k h"
  unfolding ids_ok_def by (intro exI [of _ n] conjI ballI)

text \<open>
  From one state to a later one, between which the connection loses at most \<open>k\<close> calls: replies stay, and
  who waits either still waits or has a reply, while the call ids do not wrap around.
\<close>

definition progress :: "nat \<Rightarrow> handler \<Rightarrow> handler \<Rightarrow> bool" where
  "progress k h h' \<longleftrightarrow>
     hd_config h' = hd_config h \<and> set (hd_out h) \<subseteq> set (hd_out h') \<and> calls h \<le> calls h' + k \<and>
     (\<forall>j. ids_ok j h \<and> calls h' + k + j \<le> 2 ^ 64 \<longrightarrow>
        ids_ok (j + k) h' \<and> (\<forall>i tx t. waits h i tx t \<longrightarrow> waits h' i tx t \<or> has_reply h' tx))"

lemma has_reply_mono: "has_reply h tx \<Longrightarrow> set (hd_out h) \<subseteq> set (hd_out h') \<Longrightarrow> has_reply h' tx"
  by (auto simp: has_reply_def)

lemma progress_trans:
  assumes "progress k h1 h2" "progress l h2 h3"
  shows "progress (k + l) h1 h3"
proof -
  have "ids_ok (j + (k + l)) h3 \<and> (\<forall>i tx t. waits h1 i tx t \<longrightarrow> waits h3 i tx t \<or> has_reply h3 tx)"
    if j: "ids_ok j h1" "calls h3 + (k + l) + j \<le> 2 ^ 64" for j
  proof -
    have "calls h2 + k + j \<le> 2 ^ 64" using j(2) assms(2) by (auto simp: progress_def)
    then have a: "ids_ok (j + k) h2" "\<And>i tx t. waits h1 i tx t \<Longrightarrow> waits h2 i tx t \<or> has_reply h2 tx"
      using assms(1) j(1) unfolding progress_def by blast+
    have "calls h3 + l + (j + k) \<le> 2 ^ 64" using j(2) by simp
    then have "ids_ok (j + k + l) h3" "\<And>i tx t. waits h2 i tx t \<Longrightarrow> waits h3 i tx t \<or> has_reply h3 tx"
      using assms(2) a(1) unfolding progress_def by blast+
    with a(2) has_reply_mono [of h2 _ h3] assms(2) show ?thesis by (metis add.assoc progress_def)
  qed
  with assms show ?thesis by (auto simp: progress_def)
qed

lemma ids_ok_mono: "j \<le> k \<Longrightarrow> ids_ok j h \<Longrightarrow> ids_ok k h"
  by (erule ids_okE, rule ids_okI) auto

lemma progress_mono:
  assumes "k \<le> l" "progress k h h'"
  shows "progress l h h'"
proof -
  have "ids_ok (j + l) h' \<and> (\<forall>i tx t. waits h i tx t \<longrightarrow> waits h' i tx t \<or> has_reply h' tx)"
    if "ids_ok j h" "calls h' + l + j \<le> 2 ^ 64" for j
  proof -
    have "calls h' + k + j \<le> 2 ^ 64" using that(2) assms(1) by linarith
    with assms(2) that(1) have "ids_ok (j + k) h'" "\<forall>i tx t. waits h i tx t \<longrightarrow> waits h' i tx t \<or> has_reply h' tx"
      unfolding progress_def by blast+
    with ids_ok_mono [of "j + k" "j + l" h'] assms(1) show ?thesis by simp
  qed
  with assms show ?thesis by (auto simp: progress_def)
qed

lemma progress_still:
  assumes "hd_config h' = hd_config h" "set (hd_out h) \<subseteq> set (hd_out h')" "hd_conn h' = hd_conn h"
    "hd_pending h' = hd_pending h"
  shows "progress 0 h h'"
  using assms by (auto simp: progress_def calls_def ids_ok_def waits_def)

lemma progress_refl [simp]: "progress 0 h h"
  by (rule progress_still) simp_all

lemma progress0_trans: "progress 0 h1 h2 \<Longrightarrow> progress 0 h2 h3 \<Longrightarrow> progress 0 h1 h3"
  using progress_trans [of 0 h1 h2 0 h3] by simp

lemma progress_call:
  "progress 0 h (h\<lparr>hd_conn := snd (submit_command m s p (hd_conn h))\<rparr>)"
proof -
  let ?h = "h\<lparr>hd_conn := snd (submit_command m s p (hd_conn h))\<rparr>"
  have p: "calls ?h = calls h + 1" "cn_next_id (hd_conn ?h) = cn_next_id (hd_conn h) + 1"
    by (simp_all add: submit_command_def next_call_id_def calls_def)
  have "ids_ok j ?h" if "ids_ok j h" for j
  proof -
    obtain n where n: "n \<le> calls h + j" "cn_next_id (hd_conn h) = of_nat n" "\<forall>i \<in> fst ` set (hd_pending h). unat i < n"
      using \<open>ids_ok j h\<close> by (rule ids_okE)
    show ?thesis
    proof (rule ids_okI)
      show "Suc n \<le> calls ?h + j" using n(1) p(1) by simp
      show "cn_next_id (hd_conn ?h) = of_nat (Suc n)" using n(2) p(2) by simp
      show "unat i < Suc n" if "i \<in> fst ` set (hd_pending ?h)" for i
        using bspec [OF n(3)] that by (simp add: less_SucI)
    qed
  qed
  with p show ?thesis by (simp add: progress_def waits_def)
qed

lemma progress_submit:
  "progress 0 h (submit m s p req now h)"
  "ids_ok j h \<Longrightarrow> calls h + 1 + j \<le> 2 ^ 64 \<Longrightarrow> awaited req = Some tx \<Longrightarrow> \<exists>i. waits (submit m s p req now h) i tx now"
proof -
  let ?i = "cn_next_id (hd_conn h)"
  let ?h = "submit m s p req now h"
  have p: "hd_pending ?h = AList.update ?i (req, m, now) (hd_pending h)" "calls ?h = calls h + 1"
    "cn_next_id (hd_conn ?h) = ?i + 1" "hd_config ?h = hd_config h" "hd_out ?h = hd_out h"
    by (simp_all add: submit_def submit_command_def next_call_id_def calls_def)
  have "ids_ok j ?h \<and> (waits h i tx t \<longrightarrow> waits ?h i tx t)" if j: "ids_ok j h" "calls ?h + j \<le> 2 ^ 64" for i j tx t
  proof -
    obtain n where n: "n \<le> calls h + j" "?i = of_nat n" "\<forall>i \<in> fst ` set (hd_pending h). unat i < n"
      using j(1) by (rule ids_okE)
    have u: "unat ?i = n" using n(1,2) j(2) p(2) by (simp add: unat_of_nat take_bit_nat_eq_self)
    have "ids_ok j ?h"
    proof (rule ids_okI)
      show "Suc n \<le> calls ?h + j" using n(1) p(2) by simp
      show "cn_next_id (hd_conn ?h) = of_nat (Suc n)" using n(2) p(3) by simp
      show "unat i < Suc n" if "i \<in> fst ` set (hd_pending ?h)" for i
        using bspec [OF n(3), of i] u that p(1) by (cases "i = ?i") (auto simp: dom_update intro: less_SucI)
    qed
    moreover have "?i \<notin> fst ` set (hd_pending h)" using n(3) u by auto
    then have "waits ?h i tx t" if "waits h i tx t"
      using that p(1) map_of_SomeD [of "hd_pending h" i] by (force simp: waits_def update_conv')
    ultimately show ?thesis by simp
  qed
  then show "progress 0 h ?h" using p by (auto simp: progress_def)
  show "\<exists>i. waits ?h i tx now" if "awaited req = Some tx"
    using that p(1) by (auto simp: waits_def update_conv')
qed


section \<open>The steps of a round\<close>

lemma progress_reply: "progress 0 h h1 \<Longrightarrow> progress 0 h (reply_to tx r h1)"
  by (erule progress0_trans, rule progress_still) (auto simp: reply_to_def)

lemma progress_navigation:
  "progress 0 h (on_navigation_response i resp h)"
  "progress 0 h (on_navigation_lifecycle_completed res h)"
  by (rule progress_still;
      auto simp: on_navigation_response_def on_navigation_lifecycle_completed_def reply_to_def
        split: option.split sum.split)+

lemma handler_message_progress: "progress 0 h (handle_handler_message url_error now clock m h)"
proof (cases m)
  case (HmCreatePage u tx)
  then show ?thesis by (simp add: handler_create_page_def progress_submit(1) progress_reply split: option.split)
next
  case (HmGetPages tx)
  then show ?thesis by (auto intro!: progress_still simp: reply_to_def split: prod.split)
next
  case (HmGetPage i tx)
  then show ?thesis by (auto intro!: progress_still simp: reply_to_def split: prod.split option.split)
qed (auto intro!: progress_still simp: submissions progress_submit(1))

lemma handler_messages_progress: "progress 0 h (fold (handle_handler_message url_error now clock) ms h)"
proof (induction ms arbitrary: h)
  case (Cons m ms)
  show ?case using progress0_trans [OF handler_message_progress Cons.IH] by simp
qed simp

lemma deliver_progress: "progress 0 h (fold deliver_message ms h)"
proof (induction ms arbitrary: h)
  case (Cons m ms)
  have "progress 0 h (deliver_message m h)"
    by (rule progress_still) (simp_all add: deliver_message_def split: prod.split)
  then show ?case using progress0_trans [OF _ Cons.IH] by simp
qed simp

lemma handle_target_event_progress:
  assumes "handle_target_event now e tg h = (tg', h')"
  shows "progress 0 h h'"
proof (cases e)
  case (TeCommand msg)
  show ?thesis
  proof (cases "is_navigation msg")
    case True
    with assms TeCommand show ?thesis
      by (auto simp: handle_target_event_def on_target_message_def next_navigation_id_def intro!: progress_still)
  next
    case False
    with assms TeCommand show ?thesis
      by (auto simp: handle_target_event_def on_target_message_def submissions progress_submit(1))
  qed
qed (use assms in \<open>auto simp: handle_target_event_def submissions progress_submit(1) progress_navigation(2)\<close>)

lemma drain_target_progress: "drain_target now clock tg h = Some (tg', h') \<Longrightarrow> progress 0 h h'"
proof (induction now clock tg h rule: drain_target.induct)
  case (1 now clock tg h)
  obtain e tg1 out where p: "target_poll now clock (tg, hd_out h) = Some (e, (tg1, out))"
    using 1(2) by (auto simp: drain_target.simps [of now clock tg h] split: option.splits)
  have o: "progress 0 h (h\<lparr>hd_out := out\<rparr>)"
    using target_poll_sends [OF p] by (intro progress_still) simp_all
  show ?case
  proof (cases e)
    case None
    with 1(2) p o show ?thesis by (auto simp: drain_target.simps [of now clock tg h])
  next
    case (Some ev)
    obtain tg2 h2 where e: "handle_target_event now ev tg1 (h\<lparr>hd_out := out\<rparr>) = (tg2, h2)" by fastforce
    have d: "drain_target now clock tg2 h2 = Some (tg', h')"
      using 1(2) p Some e by (simp add: drain_target.simps [of now clock tg h])
    show ?thesis
      using progress0_trans [OF progress0_trans [OF o handle_target_event_progress [OF e]]
          1(1) [OF p refl Some refl e [symmetric] d]] .
  qed
qed

lemma poll_target_progress:
  assumes "poll_target now clock i (Some h) = (r, Some h')"
  shows "progress 0 h h'"
proof (cases "map_of (hd_targets h) i")
  case (Some tg)
  let ?h = "h\<lparr>hd_targets := AList.delete i (hd_targets h)\<rparr>"
  obtain tg1 h1 where d: "drain_target now clock tg ?h = Some (tg1, h1)"
    using Some assms by (auto simp: poll_target_def split: option.splits)
  have "progress 0 ?h h1" using d by (rule drain_target_progress)
  moreover have "progress 0 h ?h" by (rule progress_still) simp_all
  moreover have "progress 0 h1 h'"
    using Some assms d by (auto simp: poll_target_def intro!: progress_still split: prod.splits)
  ultimately show ?thesis by (blast intro: progress0_trans)
qed (use assms in \<open>simp add: poll_target_def\<close>)

lemma visit_gone: "visit (poll_target now clock) ids None = (ids', s) \<Longrightarrow> s = None"
  by (induction ids arbitrary: ids') (auto simp: poll_target_def split: prod.splits)

lemma visit_progress:
  "visit (poll_target now clock) ids (Some h) = (ids', Some h') \<Longrightarrow> progress 0 h h'"
proof (induction ids arbitrary: h ids')
  case (Cons i ids)
  obtain r s where p: "poll_target now clock i (Some h) = (r, s)" by fastforce
  obtain ids1 s' where v: "visit (poll_target now clock) ids s = (ids1, s')" by fastforce
  have s': "s' = Some h'" using Cons.prems p v by simp
  then obtain h1 where h1: "s = Some h1" using visit_gone [of now clock ids ids1 s'] v by (cases s) simp_all
  have "progress 0 h1 h'" using Cons.IH v h1 s' by simp
  moreover have "progress 0 h h1" using p h1 by (simp add: poll_target_progress)
  ultimately show ?case by (blast intro: progress0_trans)
qed simp

lemma poll_targets_progress:
  assumes "poll_targets now clock h = Some h'"
  shows "progress 0 h h'"
proof -
  obtain ids s where w: "sweep (poll_target now clock) (length (hd_target_ids h)) (hd_target_ids h) (Some h) = (ids, s)"
    by fastforce
  then obtain h1 where h1: "s = Some h1" "h' = h1\<lparr>hd_target_ids := ids\<rparr>"
    using assms by (auto simp: poll_targets_def)
  obtain ids1 s1 where v: "visit (poll_target now clock) (rev (hd_target_ids h)) (Some h) = (ids1, s1)" by fastforce
  have "s1 = s"
    using sweep_visit [of "length (hd_target_ids h)" "hd_target_ids h" "poll_target now clock" "Some h"] w v by simp
  then have "progress 0 h h1" using visit_progress v h1 by simp
  moreover have "progress 0 h1 h'" using h1 by (intro progress_still) simp_all
  ultimately show ?thesis by (rule progress0_trans)
qed

text \<open>A poll of the connection loses a call only when it fails.\<close>

definition lost :: "conn_item \<Rightarrow> nat" where
  "lost c = (case c of CiReady (Inl (CeWs e)) \<Rightarrow> 1 | _ \<Rightarrow> 0)"

lemma progress_conn:
  assumes "conn_poll so w (hd_conn h) = (c, cn)"
  shows "progress (lost c) h (h\<lparr>hd_conn := cn\<rparr>)"
proof -
  obtain e where w: "conn_write so 0 (hd_conn h) = (e, cn)"
    using assms by (auto simp: conn_poll_def split: prod.splits option.splits)
  have i: "cn_next_id cn = cn_next_id (hd_conn h)" using conn_write_order [OF w] by blast
  have l: "calls h \<le> calls (h\<lparr>hd_conn := cn\<rparr>) + lost c"
  proof (cases e)
    case None
    then have "cn_written cn @ cn_pending cn = cn_written (hd_conn h) @ cn_pending (hd_conn h)"
      using conn_write_order [OF w] by simp
    then have "length (cn_written cn @ cn_pending cn) = length (cn_written (hd_conn h) @ cn_pending (hd_conn h))" by simp
    then show ?thesis by (simp add: calls_def)
  next
    case (Some err)
    then obtain d where "cn_written cn @ d # cn_pending cn = cn_written (hd_conn h) @ cn_pending (hd_conn h)"
      using conn_write_order [OF w] by auto
    then have "length (cn_written cn @ d # cn_pending cn) = length (cn_written (hd_conn h) @ cn_pending (hd_conn h))"
      by simp
    moreover have "lost c = 1" using assms w Some by (auto simp: conn_poll_def lost_def)
    ultimately show ?thesis by (simp add: calls_def)
  qed
  have "ids_ok (j + lost c) (h\<lparr>hd_conn := cn\<rparr>)" if "ids_ok j h" for j
  proof -
    obtain n where n: "n \<le> calls h + j" "cn_next_id (hd_conn h) = of_nat n" "\<forall>i \<in> fst ` set (hd_pending h). unat i < n"
      using \<open>ids_ok j h\<close> by (rule ids_okE)
    with l i show ?thesis unfolding ids_ok_def by (intro exI [of _ n]) simp
  qed
  with l show ?thesis by (simp add: progress_def waits_def)
qed

lemma fetched_targets_progress: "progress 0 h (fold fetched_target infos h)"
proof (induction infos arbitrary: h)
  case (Cons info infos)
  have "progress 0 h (on_target_created info h)" by (rule progress_still) (simp_all add: on_target_created_def Let_def)
  then have "progress 0 h (fetched_target info h)"
    unfolding fetched_target_def Let_def by (rule progress0_trans [OF _ progress_call])
  then show ?case using progress0_trans [OF _ Cons.IH] by simp
qed simp

lemma progress_forget:
  assumes "map_of (hd_pending h) i = Some (req, m, t)"
    and "progress 0 (h\<lparr>hd_pending := AList.delete i (hd_pending h)\<rparr>) h'"
    and "\<And>tx. awaited req = Some tx \<Longrightarrow> has_reply h' tx"
  shows "progress 0 h h'"
proof -
  let ?h = "h\<lparr>hd_pending := AList.delete i (hd_pending h)\<rparr>"
  have "ids_ok j ?h" if "ids_ok j h" for j
  proof -
    obtain n where n: "n \<le> calls h + j" "cn_next_id (hd_conn h) = of_nat n" "\<forall>i \<in> fst ` set (hd_pending h). unat i < n"
      using \<open>ids_ok j h\<close> by (rule ids_okE)
    show ?thesis
    proof (rule ids_okI)
      show "n \<le> calls ?h + j" "cn_next_id (hd_conn ?h) = of_nat n" using n(1,2) by (simp_all add: calls_def)
      fix x assume "x \<in> fst ` set (hd_pending ?h)"
      then have "x \<in> fst ` set (hd_pending h)" using dom_delete_subset [of i "hd_pending h"] by auto
      then show "unat x < n" by (rule bspec [OF n(3)])
    qed
  qed
  moreover have "waits h j tx u \<Longrightarrow> waits ?h j tx u \<or> has_reply h' tx" for j tx u
    using assms(1,3) by (cases "j = i") (auto simp: waits_def delete_conv')
  moreover have "calls ?h = calls h" by (simp add: calls_def)
  ultimately show ?thesis using assms(2) by (fastforce simp: progress_def)
qed

lemma has_reply_reply [simp]: "has_reply (reply_to tx r h) u \<longleftrightarrow> u = tx \<or> has_reply h u"
  by (auto simp: has_reply_def reply_to_def)

lemma on_response_progress:
  assumes "handler_on_response cd resp h = Some h'"
  shows "progress 0 h h'"
proof (cases "map_of (hd_pending h) (rs_id resp)")
  case (Some e)
  obtain req m t where e: "e = (req, m, t)" by (metis prod.exhaust)
  let ?h = "h\<lparr>hd_pending := AList.delete (rs_id resp) (hd_pending h)\<rparr>"
  have a: "answer_request cd resp m req ?h = Some h'"
    using assms Some e by (simp add: handler_on_response_def)
  have "progress 0 ?h h'"
  proof (cases req)
    case (PqCreateTarget tx)
    with a show ?thesis
      by (auto intro!: progress_still simp: reply_to_def split: sum.splits option.splits)
  next
    case (PqGetTargets tx)
    with a fetched_targets_progress progress_reply show ?thesis by (auto split: sum.splits)
  next
    case (PqNavigate i)
    with a show ?thesis using progress_navigation(1) by auto
  next
    case (PqInternalCommand i)
    with a show ?thesis by (auto intro!: progress_still split: option.splits)
  qed (use a in \<open>auto intro!: progress_still simp: reply_to_def\<close>)
  moreover have "has_reply h' tx" if "awaited req = Some tx" for tx
    using a that by (cases req) (auto split: sum.splits)
  ultimately show ?thesis using progress_forget Some e by blast
qed (use assms in \<open>simp add: handler_on_response_def\<close>)

lemma on_event_progress:
  assumes "handler_on_event ev h = Some h'"
  shows "progress 0 h h'"
  by (rule progress_still;
      use assms in \<open>auto simp: handler_on_event_def Let_def on_target_created_def on_attached_to_target_def
        on_target_destroyed_def on_detached_from_target_def split: option.splits cdp_event.splits\<close>)

lemma on_item_progress: "on_item cd item h = Some (r, h') \<Longrightarrow> progress 0 h h'"
  by (auto simp: on_item_def on_response_progress on_event_progress
      split: sum.splits message.splits cdp_error.splits)

lemma on_item_lost: "on_item cd item h = Some (r, h') \<Longrightarrow> lost (CiReady item) = 1 \<Longrightarrow> \<exists>err. r = Some (ReFailed err)"
  by (auto simp: on_item_def lost_def split: sum.splits cdp_error.splits)

lemma read_conn_progress:
  "read_conn cd so ws idle h = Some (r, h') \<Longrightarrow> \<exists>k \<le> 1. progress k h h' \<and> ((\<exists>b. r = ReDrained b) \<longrightarrow> k = 0)"
proof (induction ws arbitrary: idle h)
  case Nil
  obtain c cn where c: "conn_poll (so 0) WsPending (hd_conn h) = (c, cn)" by fastforce
  have "progress (lost c) h (h\<lparr>hd_conn := cn\<rparr>)" by (rule progress_conn [OF c])
  moreover have "lost c \<le> 1" by (simp add: lost_def split: conn_item.split sum.split cdp_error.split)
  ultimately show ?case using Nil c
    by (intro exI [of _ "lost c"]) (auto simp: lost_def split: conn_item.splits sum.splits)
next
  case (Cons w ws)
  obtain c cn where c: "conn_poll (so (length (w # ws))) w (hd_conn h) = (c, cn)" by fastforce
  have p: "progress (lost c) h (h\<lparr>hd_conn := cn\<rparr>)" by (rule progress_conn [OF c])
  have l: "lost c \<le> 1" by (simp add: lost_def split: conn_item.split sum.split cdp_error.split)
  show ?case
  proof (cases c)
    case (CiReady item)
    obtain r1 h1 where i: "on_item cd item (h\<lparr>hd_conn := cn\<rparr>) = Some (r1, h1)"
      using Cons.prems c CiReady by (auto split: option.splits)
    have p1: "progress (lost c) h h1" using progress_trans [OF p on_item_progress [OF i]] by simp
    show ?thesis
    proof (cases r1)
      case None
      then have "lost c = 0" using on_item_lost [OF i] l CiReady by (cases "lost c") auto
      moreover obtain k where "k \<le> 1" "progress k h1 h'" "(\<exists>b. r = ReDrained b) \<longrightarrow> k = 0"
        using Cons.IH [of False h1] Cons.prems c CiReady i None by auto
      ultimately show ?thesis using p1 progress_trans [of 0 h h1 k h'] by auto
    next
      case (Some r')
      then have "r' = r" "h1 = h'" using Cons.prems c CiReady i by auto
      with p1 l Some i show ?thesis
        by (intro exI [of _ "lost c"]) (auto simp: on_item_def split: sum.splits message.splits cdp_error.splits if_splits)
    qed
  qed (use Cons.prems c p in \<open>auto simp: lost_def intro!: exI [of _ 0]\<close>)
qed

lemma evict_progress: "progress 0 h (evict_timed_out_commands now h)"
proof -
  have one: "progress 0 h (evict_one i h)" for i h
  proof (cases "map_of (hd_pending h) i")
    case (Some e)
    obtain req m t where e: "e = (req, m, t)" by (metis prod.exhaust)
    let ?h = "h\<lparr>hd_pending := AList.delete i (hd_pending h)\<rparr>"
    have "progress 0 ?h (time_out_request req ?h)"
      by (cases req) (auto intro!: progress_still simp: reply_to_def split: option.split)
    moreover have "has_reply (time_out_request req ?h) tx" if "awaited req = Some tx" for tx
      using that by (cases req) auto
    ultimately show ?thesis using progress_forget Some e by (simp add: evict_one_def)
  qed (simp add: evict_one_def)
  have "progress 0 h (fold evict_one is h)" for "is" h
  proof (induction "is" arbitrary: h)
    case (Cons i "is")
    show ?case using progress0_trans [OF one Cons.IH] by simp
  qed simp
  then show ?thesis by (simp add: evict_fold)
qed


section \<open>Rounds\<close>

lemma handler_roundE:
  assumes "handler_round cd url_error ri h = Some (e, h')"
  obtains h1 r h2 where "poll_targets (ri_now ri) (ri_clock ri) (round_messages url_error ri h) = Some h1"
    and "read_conn cd (ri_socket ri) (ri_items ri) True h1 = Some (r, h2)"
    and "(\<exists>idle. r = ReDrained idle \<and> e = (if idle then RePending else ReAgain) \<and>
           h' = (if ri_evict ri then evict_timed_out_commands (ri_now ri) h2 else h2)) \<or>
         (e \<noteq> RePending \<and> e \<noteq> ReAgain \<and> h' = h2)"
  using assms that by (auto simp: handler_round_def split: option.splits read_end.splits)

text \<open>What follows the polls of a round, what follows its messages, and then a whole round.\<close>

lemma round_messages_progress: "progress 0 h (round_messages url_error ri h)"
  unfolding round_messages_def by (rule progress0_trans [OF handler_messages_progress deliver_progress])

lemma after_polls_progress:
  assumes "handler_round cd url_error ri h = Some (e, h')"
  shows "\<exists>h1. poll_targets (ri_now ri) (ri_clock ri) (round_messages url_error ri h) = Some h1 \<and> progress 1 h1 h'"
proof -
  obtain h1 r h2 where p: "poll_targets (ri_now ri) (ri_clock ri) (round_messages url_error ri h) = Some h1"
    and c: "read_conn cd (ri_socket ri) (ri_items ri) True h1 = Some (r, h2)"
    and e: "h' = h2 \<or> h' = evict_timed_out_commands (ri_now ri) h2"
    using assms by (rule handler_roundE) (auto split: if_splits)
  obtain k where k: "k \<le> 1" "progress k h1 h2" using read_conn_progress [OF c] by blast
  have "progress 0 h2 h'" using e evict_progress by auto
  then have "progress k h1 h'" using progress_trans [OF k(2)] by fastforce
  with p progress_mono [OF k(1)] show ?thesis by blast
qed

lemma after_messages_progress:
  assumes "handler_round cd url_error ri h = Some (e, h')"
  shows "progress 1 (fold (handle_handler_message url_error (ri_now ri) (ri_clock ri)) (ri_messages ri) h) h'"
    (is "progress 1 ?h h'")
proof -
  obtain h1 where p: "poll_targets (ri_now ri) (ri_clock ri) (round_messages url_error ri h) = Some h1" "progress 1 h1 h'"
    using after_polls_progress [OF assms] by blast
  have "progress 0 ?h (round_messages url_error ri h)"
    unfolding round_messages_def by (rule deliver_progress)
  from progress_trans [OF progress0_trans [OF this poll_targets_progress [OF p(1)]] p(2)] show ?thesis by simp
qed

lemma round_progress:
  assumes "handler_round cd url_error ri h = Some (e, h')"
  shows "progress 1 h h'"
  using progress_trans [OF handler_messages_progress after_messages_progress [OF assms]] by simp

lemma rounds_progress: "handler_rounds cd url_error ris h = Some (es, h') \<Longrightarrow> progress (length ris) h h'"
proof (induction ris arbitrary: h es)
  case (Cons ri ris)
  then obtain e h1 es1 where r: "handler_round cd url_error ri h = Some (e, h1)"
      "handler_rounds cd url_error ris h1 = Some (es1, h')"
    by (auto split: option.splits)
  from progress_trans [OF round_progress [OF r(1)] Cons.IH [OF r(2)]] show ?case by simp
qed simp

lemma rounds_length: "handler_rounds cd url_error ris h = Some (es, h') \<Longrightarrow> length es = length ris"
  by (induction ris arbitrary: h es) (auto split: option.splits)

lemma rounds_append:
  "handler_rounds cd url_error (ris @ rjs) h = Some (es, h') \<Longrightarrow>
   \<exists>es1 es2 h1. handler_rounds cd url_error ris h = Some (es1, h1) \<and>
      handler_rounds cd url_error rjs h1 = Some (es2, h') \<and> es = es1 @ es2"
proof (induction ris arbitrary: h es)
  case (Cons ri ris)
  then obtain e h1 es1 where r: "handler_round cd url_error ri h = Some (e, h1)"
      "handler_rounds cd url_error (ris @ rjs) h1 = Some (es1, h')" "es = e # es1"
    by (auto split: option.splits)
  from Cons.IH [OF r(2)] r(1,3) show ?case by auto
qed simp

text \<open>After a round that evicts, nothing waits beyond its time.\<close>

lemma evicting_round:
  assumes "handler_round cd url_error ri h = Some (e, h')" "e = RePending \<or> e = ReAgain" "ri_evict ri"
    and "handler_ok h" "waits h' i tx t"
  shows "ri_now ri \<le> t + hc_request_timeout (hd_config h')"
proof -
  obtain h1 r h2 where p: "poll_targets (ri_now ri) (ri_clock ri) (round_messages url_error ri h) = Some h1"
    and c: "read_conn cd (ri_socket ri) (ri_items ri) True h1 = Some (r, h2)"
    and e: "h' = evict_timed_out_commands (ri_now ri) h2"
    using assms(1) by (rule handler_roundE) (use assms(2,3) in auto)
  have "handler_ok h1" using poll_targets_keeps [OF round_messages_ok [OF assms(4)] p] by blast
  then have ok: "handler_ok h2" using c by (rule read_conn_ok)
  have "hd_config h' = hd_config h2" using evict_progress [of h2 "ri_now ri"] e by (simp add: progress_def)
  moreover have "hd_pending h' = filter (\<lambda>(i, e). \<not> timed_out (ri_now ri) (hc_request_timeout (hd_config h2)) e) (hd_pending h2)"
    using evicted(2) [of h2] ok e by (simp add: handler_ok_def)
  ultimately show ?thesis using assms(5)
    by (auto simp: waits_def timed_out_def dest!: map_of_SomeD)
qed

end
