(* ===== verification/Cdp_Liveness.thy ===== *)
theory Cdp_Liveness
  imports Cdp_Progress
begin

text \<open>
  Liveness of the handler: who asks it for something that it can answer by a time-out has a reply in the end,
  whether the request comes over the channel of the browser or from a page whose target is initialised.
\<close>

section \<open>Requests of a page\<close>

text \<open>Whom a message of a page makes wait for an answer that the handler can force, which excludes navigations.\<close>

fun page_requester :: "target_message \<Rightarrow> nat option" where
  "page_requester (TmCommand cmd) = (if is_navigation cmd then None else Some (cm_sender cmd))"
| "page_requester (TmMainFrame tx) = Some tx"
| "page_requester (TmAllFrames tx) = Some tx"
| "page_requester (TmUrl i tx) = Some tx"
| "page_requester (TmName i tx) = Some tx"
| "page_requester (TmParent i tx) = Some tx"
| "page_requester (TmGetExecutionContext w i tx) = Some tx"
| "page_requester _ = None"

fun event_requester :: "target_event \<Rightarrow> nat option" where
  "event_requester (TeCommand cmd) = page_requester (TmCommand cmd)"
| "event_requester _ = None"

definition queued :: "nat \<Rightarrow> target \<Rightarrow> bool" where
  "queued tx tg \<longleftrightarrow> (\<exists>e \<in> set (tg_queued tg). event_requester e = Some tx)"

definition mailbox :: "target \<Rightarrow> target_message list" where
  "mailbox tg = (case tg_page tg of None \<Rightarrow> [] | Some p \<Rightarrow> ph_rx p)"

definition held :: "nat \<Rightarrow> target \<Rightarrow> bool" where
  "held tx tg \<longleftrightarrow> (\<exists>m \<in> set (mailbox tg). page_requester m = Some tx) \<or> queued tx tg"

definition sent :: "nat \<Rightarrow> sends \<Rightarrow> bool" where
  "sent tx out \<longleftrightarrow> tx \<in> fst ` set out"

definition ready :: "target \<Rightarrow> bool" where
  "ready tg \<longleftrightarrow> is_page tg \<and> is_initialized tg"

lemma mailbox_kept [simp]:
  "mailbox (tg\<lparr>tg_queued := es\<rparr>) = mailbox tg" "mailbox (tg\<lparr>tg_frames := fm\<rparr>) = mailbox tg"
  by (simp_all add: mailbox_def)

lemma queued_mono: "queued tx tg \<Longrightarrow> set (tg_queued tg) \<subseteq> set (tg_queued tg') \<Longrightarrow> queued tx tg'"
  by (auto simp: queued_def)

lemma sent_mono: "sent tx out \<Longrightarrow> set out \<subseteq> set out' \<Longrightarrow> sent tx out'"
  by (auto simp: sent_def)

lemma handle_message_queues: "set (tg_queued (fst st)) \<subseteq> set (tg_queued (fst (handle_message m st)))"
  by (cases "(m, st)" rule: handle_message.cases) (auto simp: send_def queue_target_event_def split: option.split)

lemma handle_message_serves:
  "page_requester m = Some tx \<Longrightarrow> queued tx (fst (handle_message m st)) \<or> sent tx (snd (handle_message m st))"
  by (cases "(m, st)" rule: handle_message.cases)
    (auto simp: send_def queue_target_event_def queued_def sent_def split: if_splits)

lemma handle_messages_serve:
  "queued tx (fst st) \<or> sent tx (snd st) \<or> (\<exists>m \<in> set ms. page_requester m = Some tx) \<Longrightarrow>
   queued tx (fst (fold handle_message ms st)) \<or> sent tx (snd (fold handle_message ms st))"
proof (induction ms arbitrary: st)
  case (Cons m ms)
  have "queued tx (fst (handle_message m st)) \<or> sent tx (snd (handle_message m st)) \<or> (\<exists>m \<in> set ms. page_requester m = Some tx)"
    using Cons.prems handle_message_serves [of m tx st] queued_mono [OF _ handle_message_queues [of st m], of tx]
      sent_mono [OF _ handle_message_sends [of st m], of tx] by auto
  then show ?case using Cons.IH by simp
qed simp

lemma drain_page_serves:
  "held tx (fst st) \<Longrightarrow> queued tx (fst (drain_page st)) \<or> sent tx (snd (drain_page st))"
proof (cases st)
  case (Pair tg out)
  assume h: "held tx (fst st)"
  show ?thesis
  proof (cases "tg_page tg")
    case (Some p)
    have "queued tx (tg\<lparr>tg_page := Some (p\<lparr>ph_rx := []\<rparr>)\<rparr>) \<or> (\<exists>m \<in> set (ph_rx p). page_requester m = Some tx)"
      using h Pair Some by (auto simp: held_def mailbox_def queued_def)
    then show ?thesis
      using handle_messages_serve [of tx "(tg\<lparr>tg_page := Some (p\<lparr>ph_rx := []\<rparr>)\<rparr>, out)" "ph_rx p"] Pair Some
      by (auto simp: drain_page_def)
  qed (use h Pair in \<open>auto simp: held_def mailbox_def drain_page_def\<close>)
qed

lemma drain_network_queues: "set (tg_queued tg) \<subseteq> set (tg_queued (drain_network tg))"
proof (induction tg rule: drain_network.induct)
  case (1 tg)
  have q: "set (tg_queued tg) \<subseteq> set (tg_queued (handle_network_event e (tg\<lparr>tg_network := nm\<rparr>)))" for e nm
    by (cases e) (auto simp: queue_target_event_def)
  show ?case
  proof (cases "net_poll (tg_network tg)")
    case (Pair e nm)
    with 1 q [of _ nm] show ?thesis by (cases e) (auto simp: drain_network.simps [of tg] dest: subsetD)
  qed
qed

lemma drain_frames_queues: "drain_frames now clock tg = Some tg' \<Longrightarrow> set (tg_queued tg) \<subseteq> set (tg_queued tg')"
proof (induction now clock tg rule: drain_frames.induct)
  case (1 now clock tg)
  obtain e fm where p: "frame_poll now clock (tg_frames tg) = Some (e, fm)"
    using 1(2) by (auto simp: drain_frames.simps [of now clock tg] split: option.splits)
  show ?case
  proof (cases e)
    case (Some ev)
    have d: "drain_frames now clock (queue_target_event (event_of_frame ev) (tg\<lparr>tg_frames := fm\<rparr>)) = Some tg'"
      using 1(2) p Some by (simp add: drain_frames.simps [of now clock tg])
    from 1(1) [OF p refl Some d] show ?thesis by (auto simp: queue_target_event_def)
  qed (use 1(2) p in \<open>auto simp: drain_frames.simps [of now clock tg]\<close>)
qed

text \<open>
  What a poll does with a request: it returns its command, keeps it and has something else to return, or has
  answered it.
\<close>

definition served :: "nat \<Rightarrow> target_event option \<Rightarrow> target_state \<Rightarrow> bool" where
  "served tx r st \<longleftrightarrow>
     (\<exists>e. r = Some e \<and> (event_requester e = Some tx \<or> held tx (fst st))) \<or> sent tx (snd st)"

lemma notify_waiting_holds: "held tx (fst st) \<Longrightarrow> held tx (fst (notify_waiting st))"
  by (cases st) (auto simp: notify_waiting_def held_def mailbox_def queued_def split: option.split)

lemma poll_loop_serves: "poll_loop now clock st = Some (r, st') \<Longrightarrow> held tx (fst st) \<Longrightarrow> served tx r st'"
proof (induction now clock st rule: poll_loop.induct)
  case (1 now clock st)
  obtain tg out where n: "notify_waiting st = (tg, out)" by fastforce
  have h: "held tx tg" using notify_waiting_holds [OF 1(3)] n by simp
  obtain tg1 out1 where d: "drain_page (tg, out) = (tg1, out1)" by fastforce
  show ?case
  proof (cases "tg_queued tg")
    case (Cons e es)
    with 1(2) n h show ?thesis
      by (auto simp: poll_loop.simps [of now clock st] served_def held_def queued_def)
  next
    case Nil
    obtain tg2 where f: "drain_frames now clock (drain_network tg1) = Some tg2"
      using 1(2) n Nil d by (auto simp: poll_loop.simps [of now clock st] split: option.splits)
    have q: "queued tx tg2 \<or> sent tx out1"
      using drain_page_serves [of tx "(tg, out)"] h d
        queued_mono [OF _ subset_trans [OF drain_network_queues drain_frames_queues [OF f]]] by auto
    show ?thesis
    proof (cases "tg_queued tg2 = []")
      case True
      with 1(2) n Nil d f q show ?thesis by (auto simp: poll_loop.simps [of now clock st] served_def queued_def)
    next
      case False
      then have p: "poll_loop now clock (tg2, out1) = Some (r, st')"
        using 1(2) n Nil d f by (simp add: poll_loop.simps [of now clock st])
      show ?thesis
      proof (cases "sent tx out1")
        case True
        with poll_loop_sends [OF p] show ?thesis by (auto simp: served_def dest: sent_mono)
      next
        case False
        then have "held tx tg2" using q by (simp add: held_def)
        with 1(1) [OF n [symmetric] Nil d [symmetric] f \<open>tg_queued tg2 \<noteq> []\<close> p] show ?thesis by simp
      qed
    qed
  qed
qed

lemma answer_initiator_holds: "held tx (fst st) \<Longrightarrow> held tx (fst (answer_initiator st))"
  by (cases st)
    (auto simp: answer_initiator_def held_def mailbox_def queued_def get_or_create_page_def create_page_def
      page_handle_new_def Let_def split: option.splits)

lemma ready_poll:
  assumes "ready (fst st)" "target_poll now clock st = Some (r, st')"
  shows "poll_loop now clock (answer_initiator st) = Some (r, st')"
proof -
  have "init_step now st = (IrFall, answer_initiator st)"
    using assms(1) by (cases st) (simp add: init_step_def ready_def is_initialized_iff)
  with assms show ?thesis by (simp add: target_poll.simps [of now clock st] ready_def)
qed

lemma target_poll_serves:
  assumes "ready (fst st)" "target_poll now clock st = Some (r, st')" "held tx (fst st)"
  shows "served tx r st'"
  using poll_loop_serves [OF ready_poll [OF assms(1,2)] answer_initiator_holds [OF assms(3)]] .


lemma same_setup_ready: "same_setup tg tg' \<Longrightarrow> ready tg \<Longrightarrow> ready tg'"
  by (simp add: same_setup_def ready_def is_page_def is_initialized_def)

lemma target_poll_ready:
  assumes "ready (fst st)" "target_poll now clock st = Some (r, st')"
  shows "ready (fst st')"
proof -
  have p: "poll_loop now clock (answer_initiator st) = Some (r, st')"
    by (rule ready_poll [OF assms])
  have "same_setup (fst st) (fst (answer_initiator st))"
    by (cases st) (auto simp: answer_initiator_def same_setup_def get_or_create_page_def create_page_def Let_def
      split: option.split)
  with same_setup_poll_loop [OF p] assms(1) show ?thesis by (blast intro: same_setup_ready)
qed


section \<open>Requests in a round\<close>

text \<open>A request is pledged a reply: it has one, or waits since \<open>t\<close> in the table that the evictions clear.\<close>

definition pledged :: "handler \<Rightarrow> nat \<Rightarrow> duration \<Rightarrow> bool" where
  "pledged h tx t \<longleftrightarrow> has_reply h tx \<or> (\<exists>i. waits h i tx t)"

lemma pledged_progress:
  assumes "progress k h h'" "ids_ok j h" "calls h' + k + j \<le> 2 ^ 64" "pledged h tx t"
  shows "pledged h' tx t"
  using assms has_reply_mono [of h tx h'] unfolding pledged_def progress_def by blast

lemma progress_ids: "progress 0 h h' \<Longrightarrow> ids_ok j h \<Longrightarrow> calls h' + j \<le> 2 ^ 64 \<Longrightarrow> ids_ok j h'"
  unfolding progress_def by fastforce

lemma handle_target_event_keeps:
  assumes "handle_target_event now e tg h = (tg', h')"
  shows "held tx tg \<Longrightarrow> held tx tg'" "ready tg \<Longrightarrow> ready tg'"
  using assms
  by (auto simp: handle_target_event_def on_target_message_def held_def queued_def ready_def is_page_def
      is_initialized_def next_navigation_id_def split: target_event.splits if_splits)

lemma calls_submit [simp]: "calls (submit m s p req now h) = calls h + 1"
  by (simp add: submit_def submit_command_def next_call_id_def calls_def)

lemma target_command_pledged:
  assumes "handle_target_event now e tg h = (tg', h')" "event_requester e = Some tx" "ids_ok j h" "calls h' + j \<le> 2 ^ 64"
  shows "pledged h' tx now"
  using assms progress_submit(2) [of j h]
  by (cases e) (auto simp: handle_target_event_def on_target_message_def submissions pledged_def split: if_splits)

lemma drain_target_pledges:
  "drain_target now clock tg h = Some (tg', h') \<Longrightarrow> ready tg \<Longrightarrow> held tx tg \<Longrightarrow> ids_ok j h \<Longrightarrow> calls h' + j \<le> 2 ^ 64 \<Longrightarrow>
   pledged h' tx now"
proof (induction now clock tg h rule: drain_target.induct)
  case (1 now clock tg h)
  obtain e tg1 out where p: "target_poll now clock (tg, hd_out h) = Some (e, (tg1, out))"
    using 1(2) by (auto simp: drain_target.simps [of now clock tg h] split: option.splits)
  let ?h = "h\<lparr>hd_out := out\<rparr>"
  have o: "progress 0 h ?h" using target_poll_sends [OF p] by (intro progress_still) simp_all
  have s: "served tx e (tg1, out)" using target_poll_serves [OF _ p, of tx] 1(3,4) by simp
  show ?case
  proof (cases e)
    case None
    with 1(2) p s show ?thesis
      by (auto simp: drain_target.simps [of now clock tg h] served_def sent_def pledged_def has_reply_def)
  next
    case (Some ev)
    obtain tg2 h2 where e: "handle_target_event now ev tg1 ?h = (tg2, h2)" by fastforce
    have d: "drain_target now clock tg2 h2 = Some (tg', h')"
      using 1(2) p Some e by (simp add: drain_target.simps [of now clock tg h])
    note p2 = handle_target_event_progress [OF e] and p3 = drain_target_progress [OF d]
    have c: "calls h2 + j \<le> 2 ^ 64" using p3 1(6) by (simp add: progress_def)
    then have c': "calls ?h + j \<le> 2 ^ 64" using p2 by (simp add: progress_def)
    note i = progress_ids [OF o 1(5) c'] progress_ids [OF p2 progress_ids [OF o 1(5) c'] c]
    have b: "calls h' + 0 + j \<le> 2 ^ 64" using 1(6) by simp
    consider "event_requester ev = Some tx" | "held tx tg1" | "sent tx out"
      using s Some by (auto simp: served_def)
    then show ?thesis
    proof cases
      case 1
      show ?thesis by (rule pledged_progress [OF p3 i(2) b target_command_pledged [OF e 1 i(1) c]])
    next
      case 2
      have "ready tg2" using handle_target_event_keeps(2) [OF e] target_poll_ready [OF _ p] 1(3) by simp
      then show ?thesis
        using 1(1) [OF p refl Some refl e [symmetric] d] handle_target_event_keeps(1) [OF e 2] i(2) 1(6) by blast
    next
      case 3
      then have "pledged ?h tx now" by (simp add: pledged_def has_reply_def sent_def)
      from pledged_progress [OF progress0_trans [OF p2 p3] i(1) b this] show ?thesis .
    qed
  qed
qed

lemma poll_target_pledges:
  assumes "poll_target now clock i (Some h) = (r, Some h')" "map_of (hd_targets h) i = Some tg" "ready tg" "held tx tg"
    and "ids_ok j h" "calls h' + j \<le> 2 ^ 64"
  shows "pledged h' tx now"
proof -
  let ?h = "h\<lparr>hd_targets := AList.delete i (hd_targets h)\<rparr>"
  obtain tg1 h1 where d: "drain_target now clock tg ?h = Some (tg1, h1)"
    using assms(1,2) by (auto simp: poll_target_def split: option.splits)
  have i: "ids_ok j ?h" using assms(5) by (simp add: ids_ok_def calls_def)
  have e: "hd_out h' = hd_out h1" "hd_pending h' = hd_pending h1" "calls h' = calls h1"
    using assms(1,2) d by (auto simp: poll_target_def calls_def split: prod.splits)
  have "pledged h1 tx now" using drain_target_pledges [OF d assms(3,4) i] assms(6) e by simp
  with e show ?thesis by (simp add: pledged_def has_reply_def waits_def)
qed

lemma poll_target_others:
  assumes "poll_target now clock i (Some h) = (r, Some h')" "j \<noteq> i"
  shows "map_of (hd_targets h') j = map_of (hd_targets h) j"
proof (cases "map_of (hd_targets h) i")
  case (Some tg)
  obtain tg1 h1 where d: "drain_target now clock tg (h\<lparr>hd_targets := AList.delete i (hd_targets h)\<rparr>) = Some (tg1, h1)"
    using Some assms by (auto simp: poll_target_def split: option.splits)
  have "hd_targets h1 = AList.delete i (hd_targets h)"
    using drain_target_same [OF d] by (simp add: same_tables_def)
  with Some assms d show ?thesis
    by (auto simp: poll_target_def update_conv' delete_conv' split: prod.splits)
qed (use assms in \<open>simp add: poll_target_def\<close>)

lemma visit_pledges:
  "visit (poll_target now clock) ids (Some h) = (ids', Some h') \<Longrightarrow> i \<in> set ids \<Longrightarrow> map_of (hd_targets h) i = Some tg \<Longrightarrow>
   ready tg \<Longrightarrow> held tx tg \<Longrightarrow> ids_ok j h \<Longrightarrow> calls h' + j \<le> 2 ^ 64 \<Longrightarrow> pledged h' tx now"
proof (induction ids arbitrary: h ids')
  case (Cons k ids)
  obtain r s where p: "poll_target now clock k (Some h) = (r, s)" by fastforce
  obtain ids1 s' where v: "visit (poll_target now clock) ids s = (ids1, s')" by fastforce
  have s': "s' = Some h'" using Cons.prems(1) p v by simp
  then obtain h1 where h1: "s = Some h1" using visit_gone [of now clock ids ids1 s'] v by (cases s) simp_all
  have v': "visit (poll_target now clock) ids (Some h1) = (ids1, Some h')" using v h1 s' by simp
  have p1: "progress 0 h h1" using p h1 by (simp add: poll_target_progress)
  have p2: "progress 0 h1 h'" by (rule visit_progress [OF v'])
  have c: "calls h1 + j \<le> 2 ^ 64" using p2 Cons.prems(7) by (simp add: progress_def)
  have i1: "ids_ok j h1" by (rule progress_ids [OF p1 Cons.prems(6) c])
  show ?case
  proof (cases "k = i")
    case True
    have "pledged h1 tx now" by (rule poll_target_pledges [OF p [unfolded h1 True] Cons.prems(3-6) c])
    then show ?thesis using pledged_progress [OF p2 i1, of tx now] Cons.prems(7) by simp
  next
    case False
    then have "map_of (hd_targets h1) i = Some tg"
      using poll_target_others [OF p [unfolded h1], of i] Cons.prems(3) by simp
    then show ?thesis using Cons.IH [OF v' _ _ Cons.prems(4,5) i1 Cons.prems(7)] Cons.prems(2) False by simp
  qed
qed simp

lemma poll_targets_pledges:
  assumes "poll_targets now clock h = Some h'" "handler_ok h" "map_of (hd_targets h) i = Some tg" "ready tg" "held tx tg"
    and "ids_ok j h" "calls h' + j \<le> 2 ^ 64"
  shows "pledged h' tx now"
proof -
  obtain ids s where w: "sweep (poll_target now clock) (length (hd_target_ids h)) (hd_target_ids h) (Some h) = (ids, s)"
    by fastforce
  then obtain h1 where h1: "s = Some h1" "h' = h1\<lparr>hd_target_ids := ids\<rparr>"
    using assms(1) by (auto simp: poll_targets_def)
  obtain ids1 s1 where v: "visit (poll_target now clock) (rev (hd_target_ids h)) (Some h) = (ids1, s1)" by fastforce
  have "s1 = Some h1"
    using sweep_visit [of "length (hd_target_ids h)" "hd_target_ids h" "poll_target now clock" "Some h"] w v h1 by simp
  moreover have "i \<in> set (rev (hd_target_ids h))"
    using assms(2) map_of_SomeD [OF assms(3)] by (auto simp: handler_ok_def)
  moreover have "calls h1 + j \<le> 2 ^ 64" using assms(7) h1(2) by (simp add: calls_def)
  ultimately have "pledged h1 tx now"
    using visit_pledges [OF _ _ assms(3-6)] v by blast
  with h1(2) show ?thesis by (simp add: pledged_def has_reply_def waits_def)
qed


section \<open>Who asks in a round\<close>

fun requester :: "handler_message \<Rightarrow> nat option" where
  "requester (HmCommand cmd) = Some (cm_sender cmd)"
| "requester (HmFetchTargets tx) = Some tx"
| "requester (HmCloseBrowser tx) = Some tx"
| "requester (HmGetPages tx) = Some tx"
| "requester (HmGetPage i tx) = Some tx"
| "requester _ = None"

text \<open>A target serves its page when it is initialised and the page has been handed out.\<close>

definition serving :: "target \<Rightarrow> bool" where
  "serving tg \<longleftrightarrow> ready tg \<and> tg_page tg \<noteq> None"

definition asks :: "round_input \<Rightarrow> handler \<Rightarrow> nat \<Rightarrow> bool" where
  "asks ri h tx \<longleftrightarrow>
     (\<exists>m \<in> set (ri_messages ri). requester m = Some tx) \<or>
     (\<exists>(i, m) \<in> set (ri_page_messages ri). page_requester m = Some tx \<and>
        (case map_of (hd_targets h) i of None \<Rightarrow> False | Some tg \<Rightarrow> serving tg))"

lemma request_booked:
  assumes "requester m = Some tx" "ids_ok j h" "calls (handle_handler_message url_error now clock m h) + j \<le> 2 ^ 64"
  shows "pledged (handle_handler_message url_error now clock m h) tx now"
  using assms progress_submit(2) [of j h]
  by (cases m) (auto simp: submissions pledged_def split: prod.splits option.splits)

text \<open>The messages of a round leave the targets that serve a page as they are.\<close>

lemma collect_pages_serving:
  "collect_pages tgs = (ps, tgs') \<Longrightarrow> map_of tgs i = Some tg \<Longrightarrow> tg_page tg \<noteq> None \<Longrightarrow> map_of tgs' i = Some tg"
proof (induction tgs arbitrary: ps tgs' rule: collect_pages.induct)
  case (2 k tgk tgs)
  obtain qs tgs1 where c: "collect_pages tgs = (qs, tgs1)" by fastforce
  obtain p tg1 where g: "get_or_create_page tgk = (p, tg1)" by fastforce
  have "tg_page tgk \<noteq> None \<Longrightarrow> tg1 = tgk" using g by (auto simp: get_or_create_page_def create_page_def Let_def)
  with 2(1) [OF c] 2(2-4) c g show ?case by (auto split: if_splits option.splits)
qed simp

lemma handler_messages_serving:
  "map_of (hd_targets h) i = Some tg \<Longrightarrow> tg_page tg \<noteq> None \<Longrightarrow>
   map_of (hd_targets (fold (handle_handler_message url_error now clock) ms h)) i = Some tg"
proof (induction ms arbitrary: h)
  case (Cons m ms)
  have "map_of (hd_targets (handle_handler_message url_error now clock m h)) i = Some tg"
    using Cons.prems
    by (cases m)
      (auto simp: submissions submit_def handler_create_page_def reply_to_def update_conv' get_or_create_page_def
        create_page_def Let_def collect_pages_serving split: prod.split option.split)
  then show ?case using Cons.IH Cons.prems(2) by simp
qed simp

lemma receive_serving: "serving tg \<Longrightarrow> serving (receive_message m tg)"
  by (auto simp: serving_def ready_def receive_message_def is_page_def is_initialized_def)

lemma receive_held:
  "held tx tg \<Longrightarrow> held tx (receive_message m tg)"
  "serving tg \<Longrightarrow> page_requester m = Some tx \<Longrightarrow> held tx (receive_message m tg)"
  by (auto simp: held_def mailbox_def queued_def receive_message_def serving_def split: option.splits)

lemma deliver_serving:
  "map_of (hd_targets h) i = Some tg \<Longrightarrow> serving tg \<Longrightarrow>
   held tx tg \<or> (\<exists>m. (i, m) \<in> set ms \<and> page_requester m = Some tx) \<Longrightarrow>
   \<exists>tg'. map_of (hd_targets (fold deliver_message ms h)) i = Some tg' \<and> serving tg' \<and> held tx tg'"
proof (induction ms arbitrary: h tg)
  case (Cons im ms)
  obtain k m where im: "im = (k, m)" by fastforce
  let ?tg = "if k = i then receive_message m tg else tg"
  have "map_of (hd_targets (deliver_message im h)) i = Some ?tg"
    using Cons.prems(1) im by (auto simp: deliver_message_def map_of_map_entry)
  moreover have "serving ?tg" using Cons.prems(2) receive_serving by simp
  moreover have "held tx ?tg \<or> (\<exists>m. (i, m) \<in> set ms \<and> page_requester m = Some tx)"
    using Cons.prems(2,3) im receive_held by auto
  ultimately show ?case using Cons.IH by simp
qed auto

lemma page_asks_held:
  assumes "(i, m) \<in> set (ri_page_messages ri)" "page_requester m = Some tx"
    "map_of (hd_targets h) i = Some tg" "serving tg"
  shows "\<exists>tg'. map_of (hd_targets (round_messages url_error ri h)) i = Some tg' \<and> ready tg' \<and> held tx tg'"
proof -
  have "map_of (hd_targets (fold (handle_handler_message url_error (ri_now ri) (ri_clock ri)) (ri_messages ri) h)) i = Some tg"
    using handler_messages_serving assms(3,4) by (simp add: serving_def)
  from deliver_serving [OF this assms(4), of tx "ri_page_messages ri"] assms(1,2) show ?thesis
    by (auto simp: round_messages_def serving_def)
qed

lemma round_pledges:
  assumes round: "handler_round cd url_error ri h = Some (e, h')" and asks: "asks ri h tx"
    and ok: "handler_ok h" "ids_ok j h" "calls h' + 1 + j \<le> 2 ^ 64"
  shows "pledged h' tx (ri_now ri)"
proof -
  let ?f = "handle_handler_message url_error (ri_now ri) (ri_clock ri)"
  consider m where "m \<in> set (ri_messages ri)" "requester m = Some tx"
    | i m tg where "(i, m) \<in> set (ri_page_messages ri)" "page_requester m = Some tx"
        "map_of (hd_targets h) i = Some tg" "serving tg"
    using asks by (auto simp: asks_def split: option.splits)
  then show ?thesis
  proof cases
    case 1
    then obtain ms ms' where ms: "ri_messages ri = ms @ m # ms'" by (meson split_list)
    let ?h1 = "fold ?f ms h" and ?h2 = "?f m (fold ?f ms h)"
    have "progress 1 (fold ?f ms' ?h2) h'" using after_messages_progress [OF round] ms by simp
    from progress_trans [OF handler_messages_progress this] have p2: "progress 1 ?h2 h'" by simp
    have c2: "calls ?h2 + j \<le> 2 ^ 64" using p2 ok(3) by (auto simp: progress_def)
    then have "calls ?h1 + j \<le> 2 ^ 64"
      using handler_message_progress [of ?h1 url_error "ri_now ri" "ri_clock ri" m] by (auto simp: progress_def)
    then have i1: "ids_ok j ?h1" by (rule progress_ids [OF handler_messages_progress ok(2)])
    show ?thesis
      by (rule pledged_progress [OF p2 progress_ids [OF handler_message_progress i1 c2] ok(3)
            request_booked [OF 1(2) i1 c2]])
  next
    case 2
    obtain h1 where p: "poll_targets (ri_now ri) (ri_clock ri) (round_messages url_error ri h) = Some h1" "progress 1 h1 h'"
      using after_polls_progress [OF round] by blast
    obtain tg' where tg': "map_of (hd_targets (round_messages url_error ri h)) i = Some tg'" "ready tg'" "held tx tg'"
      using page_asks_held [OF 2] by blast
    have p1: "progress 0 h (round_messages url_error ri h)" by (rule round_messages_progress)
    have c1: "calls h1 + j \<le> 2 ^ 64" using p(2) ok(3) by (auto simp: progress_def)
    then have "calls (round_messages url_error ri h) + j \<le> 2 ^ 64"
      using poll_targets_progress [OF p(1)] by (auto simp: progress_def)
    then have i0: "ids_ok j (round_messages url_error ri h)" by (rule progress_ids [OF p1 ok(2)])
    have "pledged h1 tx (ri_now ri)"
      by (rule poll_targets_pledges [OF p(1) round_messages_ok [OF ok(1)] tg' i0 c1])
    then show ?thesis
      by (rule pledged_progress [OF p(2) progress_ids [OF poll_targets_progress [OF p(1)] i0 c1] ok(3)])
  qed
qed

section \<open>Requests are answered\<close>

lemma rounds_ok: "handler_rounds cd url_error ris h = Some (es, h') \<Longrightarrow> handler_ok h \<Longrightarrow> handler_ok h'"
proof (induction ris arbitrary: h es)
  case (Cons ri ris)
  then show ?case using handler_round_ok by (fastforce split: option.splits)
qed simp

lemma new_ids_ok: "ids_ok 0 (handler_new cfg connection_new)"
  by (rule ids_okI [of 1]) (simp_all add: handler_new_def submit_command_def next_call_id_def connection_new_def calls_def)

lemma rounds_split:
  assumes "handler_rounds cd url_error (ris @ ri # rjs @ [rl]) h0 = Some (es @ [e], h)"
  shows "\<exists>ha hb hc es1 e1 es2. handler_rounds cd url_error ris h0 = Some (es1, ha) \<and>
    handler_round cd url_error ri ha = Some (e1, hb) \<and> handler_rounds cd url_error rjs hb = Some (es2, hc) \<and>
    handler_round cd url_error rl hc = Some (e, h)"
proof -
  obtain es1 es' ha where a: "handler_rounds cd url_error ris h0 = Some (es1, ha)"
      "handler_rounds cd url_error (ri # rjs @ [rl]) ha = Some (es', h)" "es @ [e] = es1 @ es'"
    using rounds_append [OF assms] by blast
  obtain e1 hb es2 where b: "handler_round cd url_error ri ha = Some (e1, hb)"
      "handler_rounds cd url_error (rjs @ [rl]) hb = Some (es2, h)" "es' = e1 # es2"
    using a(2) by (auto split: option.splits)
  obtain es3 hc es4 where c: "handler_rounds cd url_error rjs hb = Some (es3, hc)"
      "handler_rounds cd url_error [rl] hc = Some (es4, h)" "es2 = es3 @ es4"
    using rounds_append [OF b(2)] by blast
  have "\<exists>d. handler_round cd url_error rl hc = Some (d, h) \<and> es4 = [d]" using c(2) by (auto split: option.splits)
  with a b c show ?thesis by (metis append.assoc append_Cons last_snoc)
qed

lemma requests_replied:
  assumes run: "handler_rounds cd url_error (ris @ ri # rjs @ [rl]) (handler_new cfg connection_new) = Some (es @ [e], h)"
    and before: "handler_rounds cd url_error ris (handler_new cfg connection_new) = Some (es0, ha)"
    and request: "asks ri ha tx"
    and late: "ri_evict rl" "ri_now rl > ri_now ri + hc_request_timeout cfg" "e = RePending \<or> e = ReAgain"
    and bound: "length (cn_written (hd_conn h)) + length (cn_pending (hd_conn h)) + length (ris @ ri # rjs @ [rl]) \<le> 2 ^ 64"
  shows "\<exists>r. (tx, r) \<in> set (hd_out h)"
proof -
  let ?h0 = "handler_new cfg connection_new"
  obtain hb hc e1 es2 where hb: "handler_round cd url_error ri ha = Some (e1, hb)"
    and hc: "handler_rounds cd url_error rjs hb = Some (es2, hc)"
    and h: "handler_round cd url_error rl hc = Some (e, h)"
    using rounds_split [OF run] before by auto
  have ok: "handler_ok ha" "handler_ok hc"
    using rounds_ok [OF before handler_new_ok] handler_round_ok [OF _ hb] rounds_ok [OF hc] by blast+
  have rest: "progress (length rjs + 1) hb h"
    by (rule progress_trans [OF rounds_progress [OF hc] round_progress [OF h]])
  have bh: "calls h + (length rjs + 1) + (length ris + 1) \<le> 2 ^ 64" using bound by (simp add: calls_def)
  then have bb: "calls hb + 1 + length ris \<le> 2 ^ 64" using rest by (auto simp: progress_def)
  then have "calls ha + length ris \<le> 2 ^ 64" using round_progress [OF hb] by (auto simp: progress_def)
  then have ia: "ids_ok (length ris) ha"
    using rounds_progress [OF before] new_ids_ok [of cfg] unfolding progress_def by fastforce
  then have ib: "ids_ok (length ris + 1) hb"
    using round_progress [OF hb] bb unfolding progress_def by blast
  have "pledged h tx (ri_now ri)"
    by (rule pledged_progress [OF rest ib bh round_pledges [OF hb request ok(1) ia bb]])
  moreover have "\<not> waits h i tx (ri_now ri)" for i
  proof
    assume w: "waits h i tx (ri_now ri)"
    have "hd_config h = cfg" using rounds_progress [OF run] by (simp add: progress_def handler_new_def)
    with evicting_round [OF h late(3,1) ok(2) w] late(2) show False by simp
  qed
  ultimately show ?thesis by (auto simp: pledged_def has_reply_def)
qed

text \<open>C16: What the handler can answer by a time-out, it answers. A command, a request for the targets or the
  pages and a close that reach the handler in some round, and every question and every command but a
  navigation that a page sends to its initialised target, have a reply after any round that evicts and starts
  later than the request timeout after it, whether the browser answers, answers with garbage or stays silent,
  and whatever fails in between, provided that no round up to then has panicked, that the last one has not
  ended the handler, and that fewer than $2^{64}$ calls were made. Not covered, because the handler can leave
  them waiting, are the creation of a page, a navigation, a wait for a navigation, and what a page asks of a
  target that is not initialised yet.
\<close>

theorem requests_answered_in_time:
  assumes run: "handler_rounds cd url_error (ris @ ri # rjs @ [rl]) (handler_new cfg connection_new) = Some (es @ [e], h)"
    and before: "handler_rounds cd url_error ris (handler_new cfg connection_new) = Some (es0, ha)"
    and request: "asks ri ha tx"
    and late: "ri_evict rl" "ri_now rl > ri_now ri + hc_request_timeout cfg" "e = RePending \<or> e = ReAgain"
    and bound: "length (cn_written (hd_conn h)) + length (cn_pending (hd_conn h)) + length (ris @ ri # rjs @ [rl]) \<le> 2 ^ 64"
  shows "\<exists>r. (tx, r) \<in> set (hd_out h)"
  by (rule requests_replied [OF assms])

text \<open>
  A target that is set up by the answers of the browser and hands out its page, a command of that page, which
  the browser does not answer, and the round in which it times out.
\<close>

definition answer :: "64 word \<Rightarrow> ws_item" where
  "answer i = WsText ''r'' (Inr (MsgResponse \<lparr>rs_id = i, rs_result = None, rs_error = None\<rparr>))"

definition setup_rounds :: "round_input list" where
  "setup_rounds =
     [example_round 0 [] [handler_event (EvTargetCreated example_info)] False,
      example_round 0 [] [handler_event (EvAttachedToTarget ''S'' example_info False), answer 1] False] @
     map (\<lambda>i. example_round 0 [] [answer i] False) [2, 3, 4, 5, 6, 7, 8, 9, 10, 11] @
     [example_round 0 [HmGetPages 5] [] False]"

definition page_command :: round_input where
  "page_command = (example_round 1 [] [] False)\<lparr>ri_page_messages :=
     [(''T'', TmCommand \<lparr>cm_method = ''Page.reload'', cm_session = Some ''S'', cm_params = None, cm_sender = 6\<rparr>)]\<rparr>"

definition last_round :: round_input where
  "last_round = example_round 9 [] [] True"

lemma setup_asks:
  "map_option (\<lambda>(es, h). asks page_command h 6)
     (handler_rounds example_codec (\<lambda>u. None) setup_rounds (handler_new example_handler_config connection_new)) = Some True"
  by code_simp

lemma page_rounds_run:
  "map_option (\<lambda>(es, h). (butlast es @ [last es] = es, last es, length (cn_written (hd_conn h)) + length (cn_pending (hd_conn h))))
     (handler_rounds example_codec (\<lambda>u. None) (setup_rounds @ [page_command, last_round])
        (handler_new example_handler_config connection_new)) = Some (True, RePending, 14)"
  by code_simp

theorem requests_answered_in_time_witness:
  "\<exists>es h r. handler_rounds example_codec (\<lambda>u. None) (setup_rounds @ [page_command, last_round])
     (handler_new example_handler_config connection_new) = Some (es, h) \<and> (6, r) \<in> set (hd_out h)"
proof -
  let ?h0 = "handler_new example_handler_config connection_new"
  obtain es h where r: "handler_rounds example_codec (\<lambda>u. None) (setup_rounds @ [page_command, last_round]) ?h0 = Some (es, h)"
    and es: "butlast es @ [RePending] = es" and n: "length (cn_written (hd_conn h)) + length (cn_pending (hd_conn h)) = 14"
    using page_rounds_run by fastforce
  obtain es0 ha where ha: "handler_rounds example_codec (\<lambda>u. None) setup_rounds ?h0 = Some (es0, ha)" "asks page_command ha 6"
    using setup_asks by fastforce
  have run: "handler_rounds example_codec (\<lambda>u. None) (setup_rounds @ page_command # [] @ [last_round]) ?h0 =
      Some (butlast es @ [RePending], h)"
    using r es by simp
  have "\<exists>r. (6, r) \<in> set (hd_out h)"
    by (rule requests_answered_in_time [OF run ha])
      (simp_all add: page_command_def last_round_def setup_rounds_def example_round_def example_handler_config_def n)
  with r show ?thesis by blast
qed

text \<open>Without a round that evicts, a silent browser leaves the caller waiting.\<close>

lemma no_eviction_no_reply:
  "map_option (\<lambda>(es, h). map fst (hd_out h))
     (handler_rounds example_codec (\<lambda>u. None) [example_round 0 [HmFetchTargets 7] [] False, example_round 9 [] [] False]
        (handler_new example_handler_config connection_new)) = Some []"
  by code_simp

text \<open>
  The creation of a page is not answered when its target turns out to be no page: the response of the browser
  comes, the target is known, and no eviction ends the wait, because no command is pending any more.
\<close>

lemma created_other_target_unanswered:
  "map_option (\<lambda>(es, h). (es, map fst (hd_out h), length (hd_pending h)))
     (handler_rounds example_codec (\<lambda>u. None)
        [example_round 0 [HmCreatePage ''u'' 7] [handler_event (EvTargetCreated (example_info\<lparr>ti_type := ''other''\<rparr>))] False,
         example_round 1 [] [WsText ''r'' (Inr (MsgResponse \<lparr>rs_id = 1, rs_result = Some ''T'', rs_error = None\<rparr>))] False,
         example_round 900 [] [] True, example_round 9000 [] [] True]
        (handler_new example_handler_config connection_new)) = Some ([ReAgain, ReAgain, RePending, RePending], [], 0)"
  by code_simp

section \<open>The periodic job\<close>

text \<open>
  The job that decides in which rounds the handler evicts (\<open>handler/job.rs\<close>): it is ready when its delay has
  passed, which then starts again.
\<close>

record periodic_job =
  pj_interval :: duration
  pj_deadline :: duration

definition job_new :: "duration \<Rightarrow> duration \<Rightarrow> periodic_job" where
  "job_new interval now = \<lparr>pj_interval = interval, pj_deadline = now + interval\<rparr>"

definition job_default :: "duration \<Rightarrow> periodic_job" where
  "job_default now = job_new request_timeout now"

definition job_poll_ready :: "duration \<Rightarrow> periodic_job \<Rightarrow> bool \<times> periodic_job" where
  "job_poll_ready now j =
     (if pj_deadline j \<le> now then (True, j\<lparr>pj_deadline := now + pj_interval j\<rparr>) else (False, j))"

text \<open>The job polls at the end of each round, at the instant that is given with the round.\<close>

fun with_job :: "periodic_job \<Rightarrow> (round_input \<times> duration) list \<Rightarrow> round_input list" where
  "with_job j [] = []"
| "with_job j ((r, u) # rs) = (case job_poll_ready u j of (b, j') \<Rightarrow> r\<lparr>ri_evict := b\<rparr> # with_job j' rs)"

fun job_after :: "periodic_job \<Rightarrow> (round_input \<times> duration) list \<Rightarrow> periodic_job" where
  "job_after j [] = j"
| "job_after j ((r, u) # rs) = job_after (snd (job_poll_ready u j)) rs"

text \<open>The rounds follow one another from the instant \<open>t\<close> on, each polling the job at most \<open>d\<close> after its start.\<close>

fun timed :: "duration \<Rightarrow> duration \<Rightarrow> (round_input \<times> duration) list \<Rightarrow> bool" where
  "timed d t [] = True"
| "timed d t ((r, u) # rs) = (t \<le> ri_now r \<and> ri_now r \<le> u \<and> u \<le> ri_now r + d \<and> timed d u rs)"

lemma length_with_job [simp]: "length (with_job j rs) = length rs"
  by (induction rs arbitrary: j rule: list.induct) (auto split: prod.split)

lemma with_job_append: "with_job j (rs @ qs) = with_job j rs @ with_job (job_after j rs) qs"
  by (induction j rs rule: with_job.induct) (auto split: prod.splits)

lemma job_keeps_interval: "pj_interval (snd (job_poll_ready u j)) = pj_interval j"
  by (simp add: job_poll_ready_def)

text \<open>The next eviction is never further away than the interval.\<close>

lemma job_after_deadline:
  "timed d t (rs @ qs) \<Longrightarrow> pj_deadline j \<le> t + pj_interval j \<Longrightarrow>
   \<exists>t'. timed d t' qs \<and> pj_deadline (job_after j rs) \<le> t' + pj_interval j \<and> pj_interval (job_after j rs) = pj_interval j"
proof (induction rs arbitrary: t j)
  case (Cons p rs)
  obtain r u where p: "p = (r, u)" by fastforce
  let ?j = "snd (job_poll_ready u j)"
  have "timed d u (rs @ qs)" using Cons.prems(1) p by simp
  moreover have "pj_deadline ?j \<le> u + pj_interval ?j"
    using Cons.prems p by (auto simp: job_poll_ready_def)
  ultimately show ?case using Cons.IH [of u ?j] p by (simp add: job_keeps_interval)
qed auto

lemma job_fires:
  "timed d t rs \<Longrightarrow> rs \<noteq> [] \<Longrightarrow> pj_deadline j \<le> b + d + pj_interval j \<Longrightarrow>
   ri_now (fst (last rs)) > b + d + pj_interval j \<Longrightarrow>
   \<exists>xs r ys. with_job j rs = xs @ r # ys \<and> ri_evict r \<and> ri_now r > b"
proof (induction rs arbitrary: t j)
  case (Cons p rs)
  obtain r u where p: "p = (r, u)" by fastforce
  have u: "ri_now r \<le> u" "u \<le> ri_now r + d" "timed d u rs" using Cons.prems(1) p by auto
  show ?case
  proof (cases "pj_deadline j \<le> u \<and> b < ri_now r")
    case True
    then have "with_job j (p # rs) = [] @ r\<lparr>ri_evict := True\<rparr> # with_job (j\<lparr>pj_deadline := u + pj_interval j\<rparr>) rs"
      using p by (simp add: job_poll_ready_def)
    moreover have "ri_evict (r\<lparr>ri_evict := True\<rparr>)" "ri_now (r\<lparr>ri_evict := True\<rparr>) > b" using True by simp_all
    ultimately show ?thesis by blast
  next
    case False
    let ?j = "snd (job_poll_ready u j)"
    have rs: "rs \<noteq> []" using False Cons.prems(3,4) u p by auto
    have "pj_deadline ?j \<le> b + d + pj_interval ?j"
      using False Cons.prems(3) u by (auto simp: job_poll_ready_def)
    moreover have "ri_now (fst (last rs)) > b + d + pj_interval ?j"
      using Cons.prems(4) rs by (simp add: job_keeps_interval)
    ultimately obtain xs q ys where "with_job ?j rs = xs @ q # ys" "ri_evict q" "ri_now q > b"
      using Cons.IH [OF u(3) rs, of ?j] by blast
    moreover have "with_job j (p # rs) = r\<lparr>ri_evict := fst (job_poll_ready u j)\<rparr> # with_job ?j rs"
      using p by (simp split: prod.split)
    ultimately show ?thesis by (metis append_Cons)
  qed
qed simp

end
