(* ===== verification/Browser_Connection.thy ===== *)
theory Browser_Connection
  imports Browser_Pool Cdp_Liveness
begin

text \<open>
  The connection of a browser session to its browser (\<open>BrowserConnection\<close> and \<open>HandlerTask\<close> of
  \<open>adapters/chromiumoxide/browser_factory.rs\<close>): the task that drives the handler of the browser driver until
  it fails, the signal that it has stopped, and what ends the task. It brings the driver and the pool
  together: no request that the handler can answer by a time-out is left waiting on a connection that looks alive.
\<close>

section \<open>The handler task\<close>

datatype task_action = TkAbort nat | TkAwait nat

text \<open>The task as long as nobody took it.\<close>

type_synonym handler_task = "nat option"

definition handler_task_new :: "nat \<Rightarrow> handler_task" where
  "handler_task_new t = Some t"

definition handler_task_shutdown :: "handler_task \<Rightarrow> task_action list \<times> handler_task" where
  "handler_task_shutdown ht = (case ht of Some t \<Rightarrow> ([TkAbort t, TkAwait t], None) | None \<Rightarrow> ([], None))"

definition handler_task_drop :: "handler_task \<Rightarrow> task_action list" where
  "handler_task_drop ht = (case ht of Some t \<Rightarrow> [TkAbort t] | None \<Rightarrow> [])"

text \<open>The shutdown consumes the connection, so the task is dropped after it.\<close>

definition connection_shutdown :: "handler_task \<Rightarrow> task_action list" where
  "connection_shutdown ht = (case handler_task_shutdown ht of (as, ht') \<Rightarrow> as @ handler_task_drop ht')"

text \<open>The watch channel of the connection: its value, and whether its sender still exists.\<close>

record watch =
  wt_value :: bool
  wt_open :: bool

datatype drive_end = DrRunning | DrStopped | DrPanicked

text \<open>The body of the task: it drives the handler until that ends or reports an error.\<close>

fun drive_handler ::
  "cdp_codec \<Rightarrow> (string \<Rightarrow> string option) \<Rightarrow> round_input list \<Rightarrow> handler \<Rightarrow> drive_end \<times> handler" where
  "drive_handler cd url_error [] h = (DrRunning, h)"
| "drive_handler cd url_error (ri # ris) h =
     (case handler_round cd url_error ri h of
        None \<Rightarrow> (DrPanicked, h)
      | Some (ReEnd, h1) \<Rightarrow> (DrStopped, h1)
      | Some (ReError e, h1) \<Rightarrow> (DrStopped, h1)
      | Some (_, h1) \<Rightarrow> drive_handler cd url_error ris h1)"

text \<open>A task that stops sends the signal; one that panics only drops the sender.\<close>

definition watch_after :: "drive_end \<Rightarrow> watch" where
  "watch_after d =
     (case d of
        DrRunning \<Rightarrow> \<lparr>wt_value = False, wt_open = True\<rparr>
      | DrStopped \<Rightarrow> \<lparr>wt_value = True, wt_open = False\<rparr>
      | DrPanicked \<Rightarrow> \<lparr>wt_value = False, wt_open = False\<rparr>)"

text \<open>Whether \<open>wait_disconnected\<close> returns; without a connection it returns at once.\<close>

definition wait_disconnected :: "watch option \<Rightarrow> bool" where
  "wait_disconnected w =
     (case w of None \<Rightarrow> True | Some w \<Rightarrow> if wt_value w then True else \<not> wt_open w)"

section \<open>Other operations of the session\<close>

definition session_connection :: "browser_session \<Rightarrow> unit result" where
  "session_connection s =
     (if bs_connected s then Inr () else Inl (EBrowser ''browser session already released''))"

definition existing_pages :: "(string + 'p list) \<Rightarrow> browser_session \<Rightarrow> 'p list result" where
  "existing_pages listed s =
     res_bind (session_connection s) (\<lambda>_. map_err (\<lambda>e. EBrowser (''Failed to list pages: '' @ e)) listed)"

section \<open>Properties\<close>

text \<open>A task is aborted once, awaited after that, and an end of the connection never forgets it.\<close>

lemma connection_ends_task:
  "connection_shutdown (handler_task_new t) = [TkAbort t, TkAwait t]"
  "handler_task_drop (handler_task_new t) = [TkAbort t]"
  "handler_task_shutdown (snd (handler_task_shutdown ht)) = ([], None)"
  "handler_task_drop (snd (handler_task_shutdown ht)) = []"
  by (simp_all add: connection_shutdown_def handler_task_shutdown_def handler_task_drop_def handler_task_new_def
      split: option.split)

lemma disconnected_iff_not_running: "wait_disconnected (Some (watch_after d)) \<longleftrightarrow> d \<noteq> DrRunning"
  by (cases d) (simp_all add: wait_disconnected_def watch_after_def)

lemma running_rounds:
  "drive_handler cd url_error ris h = (DrRunning, h') \<Longrightarrow>
   \<exists>es. handler_rounds cd url_error ris h = Some (es, h') \<and> set es \<subseteq> {RePending, ReAgain} \<and> length es = length ris"
proof (induction ris arbitrary: h)
  case (Cons ri ris)
  obtain e h1 where r: "handler_round cd url_error ri h = Some (e, h1)" "e = RePending \<or> e = ReAgain"
      "drive_handler cd url_error ris h1 = (DrRunning, h')"
    using Cons.prems by (auto split: option.splits round_end.splits)
  from Cons.IH [OF r(3)] r(1,2) show ?case by auto
qed simp

lemma evicting_prefix:
  assumes run: "handler_rounds cd url_error (qs @ ri # xs @ rl # ys) (handler_new cfg connection_new) = Some (es, h)"
    and pending: "set es \<subseteq> {RePending, ReAgain}"
    and before: "handler_rounds cd url_error qs (handler_new cfg connection_new) = Some (es0, ha)" "asks ri ha tx"
    and late: "ri_evict rl" "ri_now rl > ri_now ri + hc_request_timeout cfg"
    and bound: "length (cn_written (hd_conn h)) + length (cn_pending (hd_conn h)) + length (qs @ ri # xs @ rl # ys) \<le> 2 ^ 64"
  shows "\<exists>r. (tx, r) \<in> set (hd_out h)"
proof -
  obtain es1 es2 h1 where h1: "handler_rounds cd url_error (qs @ ri # xs @ [rl]) (handler_new cfg connection_new) = Some (es1, h1)"
      "handler_rounds cd url_error ys h1 = Some (es2, h)" "es = es1 @ es2"
    using rounds_append [of cd url_error "qs @ ri # xs @ [rl]" ys "handler_new cfg connection_new" es h] run
    by (elim meta_impE exE conjE) simp_all
  have p: "progress (length ys) h1 h" using rounds_progress [OF h1(2)] .
  have "length es1 = length (qs @ ri # xs @ [rl])" using rounds_length [OF h1(1)] .
  then obtain fs e where e: "es1 = fs @ [e]" "e = RePending \<or> e = ReAgain"
    using pending h1(3) by (cases es1 rule: rev_cases) auto
  have "length (cn_written (hd_conn h1)) + length (cn_pending (hd_conn h1)) + length (qs @ ri # xs @ [rl]) \<le> 2 ^ 64"
    using p bound by (simp add: progress_def calls_def)
  from requests_replied [OF h1(1) [unfolded e(1)] before late e(2) this] p show ?thesis
    by (auto simp: progress_def)
qed

text \<open>C17: Of the requests that the handler can answer by a time-out, none hangs behind a connection that
  looks alive: a command, a listing of the targets or the pages and a close at the handler, and a question or a
  command but a navigation of an initialised page (not the creation of a page, a navigation, a wait for a
  navigation or a page that is not initialised yet). With the configuration that the pool connects with and the
  eviction job as it runs, once a round begins more than sixty seconds (the request timeout and the interval of
  the job) and the duration of a round after the one in which the request arrived, the requester has a reply, or
  the task that drives the handler has ended, by an error, the end of the browser or a panic, and then waiting
  for the disconnection returns.
\<close>

theorem connection_requests_settle:
  assumes run: "drive_handler cd url_error (with_job (job_new (hc_request_timeout handler_config_default) t0) (rs @ (ri, u) # qs))
      (handler_new handler_config_default connection_new) = (d, h)"
    and timed: "timed slack t0 (rs @ (ri, u) # qs)"
    and before: "drive_handler cd url_error (with_job (job_new (hc_request_timeout handler_config_default) t0) rs)
      (handler_new handler_config_default connection_new) = (DrRunning, ha)"
    and request: "asks ri ha tx"
    and late: "qs \<noteq> []" "ri_now (fst (last qs)) > ri_now ri + from_secs 60 + slack"
    and bound: "length (cn_written (hd_conn h)) + length (cn_pending (hd_conn h)) + length (rs @ (ri, u) # qs) \<le> 2 ^ 64"
  shows "(\<exists>r. (tx, r) \<in> set (hd_out h)) \<or> wait_disconnected (Some (watch_after d))"
proof (cases "d = DrRunning")
  case True
  let ?i = "hc_request_timeout handler_config_default"
  let ?j0 = "job_new ?i t0"
  have i: "?i + ?i = from_secs 60"
    by (simp add: handler_config_default_def request_timeout_def from_secs_def from_millis_def)
  define j where "j = job_after ?j0 rs"
  define k where "k = snd (job_poll_ready u j)"
  obtain t where j: "timed slack t ((ri, u) # qs)" "pj_deadline j \<le> t + ?i" "pj_interval j = ?i"
    using job_after_deadline [OF timed, of ?j0] by (auto simp: job_new_def j_def)
  have k: "timed slack u qs" "pj_interval k = ?i" "pj_deadline k \<le> (ri_now ri + ?i) + slack + ?i"
    using j by (auto simp: k_def job_poll_ready_def)
  obtain xs rl ys where e: "with_job k qs = xs @ rl # ys" "ri_evict rl" "ri_now rl > ri_now ri + ?i"
    using job_fires [OF k(1) late(1), of k "ri_now ri + ?i"] k(2,3) late(2) i by auto
  let ?ri = "ri\<lparr>ri_evict := fst (job_poll_ready u j)\<rparr>"
  have w: "with_job ?j0 (rs @ (ri, u) # qs) = with_job ?j0 rs @ ?ri # xs @ rl # ys"
    using e(1) by (simp add: with_job_append j_def [symmetric] k_def case_prod_beta)
  obtain es where es: "handler_rounds cd url_error (with_job ?j0 rs @ ?ri # xs @ rl # ys)
        (handler_new handler_config_default connection_new) = Some (es, h)"
      "set es \<subseteq> {RePending, ReAgain}"
    using running_rounds [OF run [unfolded True w]] by blast
  obtain es0 where before': "handler_rounds cd url_error (with_job ?j0 rs) (handler_new handler_config_default connection_new) = Some (es0, ha)"
    using running_rounds [OF before] by blast
  have ask: "asks ?ri ha tx" using request by (simp add: asks_def)
  have "length (with_job ?j0 rs @ ?ri # xs @ rl # ys) = length (rs @ (ri, u) # qs)"
    using w by (metis length_with_job)
  then have "\<exists>r. (tx, r) \<in> set (hd_out h)"
    using evicting_prefix [OF es before', of tx] ask e(2,3) bound by simp
  then show ?thesis ..
next
  case False
  then show ?thesis by (simp add: disconnected_iff_not_running)
qed

lemmas drive_eval =
  handler_round_def poll_targets_def handler_new_def connection_new_def submit_fetch_targets_def submit_def
  submit_command_def next_call_id_def conn_poll_def conn_write.simps start_send_next_def on_item_def
  evict_timed_out_commands_def timed_out_def reply_to_def handler_config_default_def request_timeout_def from_millis_def
  example_round_def round_messages_def

definition driven_rounds :: "(round_input \<times> duration) list" where
  "driven_rounds =
     [(example_round 0 [HmFetchTargets 7] [] False, 0), (example_round 60000000001 [] [] False, 60000000001)]"

lemma driven_rounds_run:
  "(case drive_handler example_codec (\<lambda>u. None) (with_job (job_new (hc_request_timeout handler_config_default) 0) driven_rounds)
        (handler_new handler_config_default connection_new) of
      (d, h) \<Rightarrow> (d, length (cn_written (hd_conn h)) + length (cn_pending (hd_conn h)))) = (DrRunning, 2)"
  by (simp add: driven_rounds_def job_new_def job_poll_ready_def drive_eval)

theorem connection_requests_settle_witness:
  "\<exists>h r. drive_handler example_codec (\<lambda>u. None) (with_job (job_new (hc_request_timeout handler_config_default) 0) driven_rounds)
     (handler_new handler_config_default connection_new) = (DrRunning, h) \<and> (7, r) \<in> set (hd_out h)"
proof -
  obtain h where r: "drive_handler example_codec (\<lambda>u. None)
      (with_job (job_new (hc_request_timeout handler_config_default) 0) driven_rounds)
      (handler_new handler_config_default connection_new) = (DrRunning, h)"
    and n: "length (cn_written (hd_conn h)) + length (cn_pending (hd_conn h)) = 2"
    using driven_rounds_run by (auto split: prod.splits)
  have run: "drive_handler example_codec (\<lambda>u. None) (with_job (job_new (hc_request_timeout handler_config_default) 0)
        ([] @ (example_round 0 [HmFetchTargets 7] [] False, 0) # [(example_round 60000000001 [] [] False, 60000000001)]))
      (handler_new handler_config_default connection_new) = (DrRunning, h)"
    using r by (simp add: driven_rounds_def)
  have "(\<exists>r. (7, r) \<in> set (hd_out h)) \<or> wait_disconnected (Some (watch_after DrRunning))"
    by (rule connection_requests_settle [OF run, of 0 "handler_new handler_config_default connection_new"])
      (simp_all add: example_round_def from_secs_def asks_def n)
  with r show ?thesis by (auto simp: disconnected_iff_not_running)
qed

text \<open>A task that is stopped by an error of the socket tells so, with the request still unanswered.\<close>

lemma broken_connection_is_noticed:
  "(case drive_handler example_codec (\<lambda>u. None) [example_round 0 [HmFetchTargets 7] [WsError ''reset''] False]
      (handler_new handler_config_default connection_new) of
      (d, h) \<Rightarrow> (d, hd_out h = [], wait_disconnected (Some (watch_after d)))) = (DrStopped, True, True)"
  by (simp add: drive_eval wait_disconnected_def watch_after_def)

text \<open>
  A browser that closes the connection in an orderly way is not noticed: the end of the socket is taken for
  having nothing to read, and the task goes on until a command fails to be written or times out.
\<close>

lemma orderly_close_is_not_noticed:
  assumes "w \<in> {WsClose, WsEnd}"
  shows "(case drive_handler example_codec (\<lambda>u. None) [example_round 0 [] [w] False]
      (handler_new handler_config_default connection_new) of
      (d, h) \<Rightarrow> (d, wait_disconnected (Some (watch_after d)))) = (DrRunning, False)"
  using assms by (auto simp: drive_eval wait_disconnected_def watch_after_def)

end
