(* ===== verification/Db_Init.thy ===== *)
theory Db_Init
  imports Config
begin

text \<open>
  \<open>init_pool\<close> of \<open>adapters/sqlite/mod.rs\<close>: the directory of the database, the connection pool, and the
  permissions that keep other users of the machine away from both. The file system is a map from paths to
  modes; making directories, changing modes and connecting are parameters.
\<close>

type_synonym file_modes = "string \<rightharpoonup> nat"

datatype journal_mode = JournalWal
datatype synchronous_mode = SyncNormal

record connect_options =
  co_filename :: string
  co_create_if_missing :: bool
  co_journal_mode :: journal_mode
  co_synchronous :: synchronous_mode
  co_busy_timeout :: duration
  co_max_connections :: nat

definition pool_options :: "string \<Rightarrow> connect_options" where
  "pool_options p =
     \<lparr>co_filename = p, co_create_if_missing = True, co_journal_mode = JournalWal, co_synchronous = SyncNormal,
      co_busy_timeout = from_secs 5, co_max_connections = 5\<rparr>"

record 'p pool_env =
  pe_mkdir :: "string \<Rightarrow> file_modes \<Rightarrow> string option \<times> file_modes"
  pe_chmod_ok :: "string \<Rightarrow> bool"
  pe_connect :: "connect_options \<Rightarrow> file_modes \<Rightarrow> (string + 'p) \<times> file_modes"

text \<open>\<open>Path::parent\<close>, for a path whose last component is a file name.\<close>

definition path_parent :: "string \<Rightarrow> string option" where
  "path_parent p =
     (if p = [] then None
      else
        (let rest = dropWhile (\<lambda>c. c \<noteq> CHR ''/'') (rev p) in
         if rest = [] then Some []
         else
           (let dir = rev (dropWhile (\<lambda>c. c = CHR ''/'') rest) in
            Some (if dir = [] then ''/'' else dir))))"

text \<open>A mode that cannot be changed is left as it is; the failure is ignored.\<close>

definition set_permissions :: "'p pool_env \<Rightarrow> string \<Rightarrow> nat \<Rightarrow> file_modes \<Rightarrow> file_modes" where
  "set_permissions env p mode fs = (if fs p \<noteq> None \<and> pe_chmod_ok env p then fs(p \<mapsto> mode) else fs)"

text \<open>\<open>0o700\<close> and \<open>0o600\<close>.\<close>

definition dir_mode :: nat where "dir_mode = 7 * 64"
definition file_mode :: nat where "file_mode = 6 * 64"

definition db_suffixes :: "string list" where
  "db_suffixes = [[], ''-wal'', ''-shm'']"

definition tighten_files :: "'p pool_env \<Rightarrow> string \<Rightarrow> file_modes \<Rightarrow> file_modes" where
  "tighten_files env path fs = fold (\<lambda>suffix. set_permissions env (path @ suffix) file_mode) db_suffixes fs"

definition init_pool :: "'p pool_env \<Rightarrow> config \<Rightarrow> file_modes \<Rightarrow> 'p result \<times> file_modes" where
  "init_pool env cfg fs =
     (let path = db_path cfg in
      case path_parent path of
        None \<Rightarrow> (Inl (EConfig (''db_path '' @ path @ '' has no parent directory'')), fs)
      | Some dir \<Rightarrow>
          (case pe_mkdir env dir fs of
             (Some e, fs1) \<Rightarrow> (Inl (EIo e), fs1)
           | (None, fs1) \<Rightarrow>
               (case pe_connect env (pool_options path) (set_permissions env dir dir_mode fs1) of
                  (Inl e, fs2) \<Rightarrow> (Inl (EDatabase e), fs2)
                | (Inr pool, fs2) \<Rightarrow> (Inr pool, tighten_files env path fs2))))"

section \<open>Permissions\<close>

text \<open>Whether a mode lets only the owner in: no bits of the group and of the others.\<close>

definition owner_only :: "nat \<Rightarrow> bool" where
  "owner_only m \<longleftrightarrow> m mod 64 = 0"

lemma owner_only_modes [simp]: "owner_only dir_mode" "owner_only file_mode"
  by (simp_all add: owner_only_def dir_mode_def file_mode_def)

lemma tighten_files_modes:
  "tighten_files env path fs q =
     (if q \<in> (\<lambda>s. path @ s) ` set db_suffixes \<and> fs q \<noteq> None \<and> pe_chmod_ok env q then Some file_mode else fs q)"
  by (auto simp: tighten_files_def db_suffixes_def set_permissions_def)

text \<open>The path of the database always has a parent, so that error is never returned.\<close>

lemma db_path_parent: "\<exists>dir. path_parent (db_path cfg) = Some dir"
proof -
  have "db_path cfg \<noteq> []" by (simp add: db_path_def path_join_def starts_with_def)
  then show ?thesis by (simp add: path_parent_def Let_def)
qed

lemma db_path_parent_data_dir:
  assumes "cf_data_dir cfg = d @ [c]" "c \<noteq> CHR ''/''"
  shows "path_parent (db_path cfg) = Some (cf_data_dir cfg)"
proof -
  have "db_path cfg = d @ [c] @ ''/'' @ ''imauth.db''"
    using assms by (auto simp: db_path_def path_join_def starts_with_def ends_with_iff)
  then show ?thesis using assms by (simp add: path_parent_def Let_def)
qed

text \<open>
  After a pool was opened, every file of the database that exists is closed to other users, and so is its
  directory, where the system lets the modes be changed and connecting leaves the one of the directory.
  When something fails, the error says so, and the files stay as they were made.
\<close>

theorem database_files_private:
  assumes "init_pool env cfg fs = (r, fs')" "path_parent (db_path cfg) = Some dir"
    and connect: "\<And>opts g x g'. pe_connect env opts g = (x, g') \<Longrightarrow> g' dir = g dir"
    and mkdir: "\<And>g g'. pe_mkdir env dir g = (None, g') \<Longrightarrow> g' dir \<noteq> None"
  shows "case r of
      Inr pool \<Rightarrow>
        (\<forall>s \<in> set db_suffixes. \<forall>m. fs' (db_path cfg @ s) = Some m \<and> pe_chmod_ok env (db_path cfg @ s) \<longrightarrow> owner_only m) \<and>
        (pe_chmod_ok env dir \<longrightarrow> (\<exists>m. fs' dir = Some m \<and> owner_only m))
    | Inl e \<Rightarrow> (\<exists>s. e = EIo s) \<or> (\<exists>s. e = EDatabase s)"
proof -
  obtain me fs1 where mk: "pe_mkdir env dir fs = (me, fs1)" by fastforce
  obtain x fs2 where co: "pe_connect env (pool_options (db_path cfg)) (set_permissions env dir dir_mode fs1) = (x, fs2)"
    by fastforce
  show ?thesis
  proof (cases "me = None \<and> (\<exists>pool. x = Inr pool)")
    case True
    then obtain pool where r: "me = None" "x = Inr pool" by auto
    have fs': "r = Inr pool" "fs' = tighten_files env (db_path cfg) fs2"
      using assms(1,2) mk co r by (simp_all add: init_pool_def Let_def)
    have "fs2 dir = (if pe_chmod_ok env dir then Some dir_mode else fs1 dir)"
      using connect [OF co] mkdir [of fs fs1] mk r(1) by (auto simp: set_permissions_def)
    then have "pe_chmod_ok env dir \<longrightarrow> (\<exists>m. fs' dir = Some m \<and> owner_only m)"
      using fs'(2) by (simp add: tighten_files_modes)
    moreover have "owner_only m"
      if "s \<in> set db_suffixes" "fs' (db_path cfg @ s) = Some m" "pe_chmod_ok env (db_path cfg @ s)" for s m
      using that fs'(2) by (auto simp: tighten_files_modes split: if_splits)
    ultimately show ?thesis using fs'(1) by auto
  next
    case False
    with assms(1,2) mk co show ?thesis
      by (auto simp: init_pool_def Let_def split: option.splits sum.splits)
  qed
qed

text \<open>The modes of all other files are the ones that connecting left.\<close>

lemma other_files_untouched:
  assumes "\<And>s. s \<in> set db_suffixes \<Longrightarrow> q \<noteq> path @ s"
  shows "tighten_files env path fs q = fs q"
  using assms by (auto simp: tighten_files_modes)

definition example_pool_env :: "unit pool_env" where
  "example_pool_env =
     \<lparr>pe_mkdir = \<lambda>d fs. (None, if fs d = None then fs(d \<mapsto> 493) else fs), pe_chmod_ok = \<lambda>p. True,
      pe_connect = \<lambda>co fs. (Inr (), if co_filename co = ''/data'' then fs else fs(co_filename co \<mapsto> 420))\<rparr>"

definition example_db_config :: config where
  "example_db_config = (config_default None)\<lparr>cf_data_dir := ''/data''\<rparr>"

lemma example_db_path: "db_path example_db_config = ''/data/imauth.db''" "path_parent ''/data/imauth.db'' = Some ''/data''"
  by (simp_all add: db_path_def example_db_config_def path_join_def starts_with_def ends_with_iff path_parent_def Let_def)

theorem database_files_private_witness:
  "\<exists>fs'. init_pool example_pool_env example_db_config Map.empty = (Inr (), fs') \<and> fs' ''/data/imauth.db'' = Some file_mode \<and>
     (\<exists>m. fs' ''/data'' = Some m \<and> owner_only m)"
proof -
  obtain r fs' where i: "init_pool example_pool_env example_db_config Map.empty = (r, fs')" by fastforce
  have r: "r = Inr () \<and> fs' ''/data/imauth.db'' = Some file_mode"
    using i by (auto simp: Let_def init_pool_def example_db_path example_pool_env_def set_permissions_def pool_options_def
        tighten_files_modes db_suffixes_def)
  have d: "path_parent (db_path example_db_config) = Some ''/data''" by (simp add: example_db_path)
  have "\<exists>m. fs' ''/data'' = Some m \<and> owner_only m"
    using database_files_private [OF i d] r
    by (auto simp: example_pool_env_def split: if_splits)
  with i r show ?thesis by blast
qed

end
