(* ===== verification/Spec2Isabelle.thy ===== *)
theory Spec2Isabelle
  imports Cli Pool_Props Grpc_Props Cdp_Network_Props Cdp_Frame_Props Cdp_Handler_Props Cdp_Listeners_Props
    Cdp_Futures Cdp_Browser Cdp_Protocol Cdp_Process Browser_Connection Db_Init
begin

text \<open>
  imauth logs a user into a web platform through a real browser: a gRPC server starts a login, a
  pooled browser shows the platform's login page to the user, and when the platform's session
  cookie appears in the browser the cookies are stored, encrypted, in SQLite. This development
  models the workspace crates under \<open>crates/\<close> and the patched browser driver under
  \<open>patches/chromiumoxide\<close>, and proves what makes them correct.

  \<^bold>\<open>The program and its theories.\<close> A client (\<open>imauth-cli\<close>) calls the gRPC services of the server
  (\<open>imauth-server\<close>), which run the use cases of \<open>imauth-core\<close>; these reach the database through
  the repository ports and the browser through the pool, whose page driver sits on the patched
  chromiumoxide.

  \<^item> \<open>Prelude\<close>: results as sums, ASCII and UTF-8 strings, splitting and trimming, numbers in decimal,
    durations in nanoseconds with the panicking and the saturating operations of the source.
  \<^item> \<open>Domain\<close>, \<open>Platform\<close> (\<open>imauth-core/src/domain\<close>, \<open>error.rs\<close>): sessions and their states, cookies,
    the platforms, the cookie rules and the decision whether a login has succeeded.
  \<^item> \<open>Ports\<close> (\<open>ports/\<close>): the repository and encryption interfaces as records of operations over a
    database state, with the contracts the use cases rely on as locales.
  \<^item> \<open>Session_Repo\<close>, \<open>Cookie_Repo\<close>, \<open>Cookie_Jar\<close>, \<open>Cookie_Props\<close>, \<open>Credential_Repo\<close>, \<open>Encryption\<close>
    (\<open>adapters/sqlite\<close>, \<open>adapters/aes_gcm\<close>): tables as lists of rows, each statement with the error it
    may return as an argument; the cookie table refines a map from keys to cookies.
  \<^item> \<open>Db_Init\<close> (\<open>init_pool\<close> of \<open>adapters/sqlite/mod.rs\<close>): the directory and the files of the database and
    their permissions.
  \<^item> \<open>Use_Cases\<close>, \<open>Config\<close> (\<open>application/\<close>, \<open>config.rs\<close>): use cases, configuration from file and
    environment, and the container that computes the timeouts.
  \<^item> \<open>Async\<close> (\<open>login/control.rs\<close>, \<open>page_driver.rs\<close>): a future is the time at which it is ready and its
    value; the race of an operation with the closed stream, the deadline and the cancellation.
  \<^item> \<open>Login\<close>, \<open>Login_Trans\<close>, \<open>Login_Inv\<close>, \<open>Login_Props\<close> (\<open>login.rs\<close>): the login as a step relation over
    a program counter, the database and the events sent, with every await as one step that the
    environment (browser, database, client, other requests) may answer in any way.
  \<^item> \<open>Browser_Pool\<close>, \<open>Pool_Props\<close> (\<open>browser_factory.rs\<close>): connections to the browsers, the scan for a
    free one, permits, and the cleanup of a browser session.
  \<^item> \<open>Browser_Connection\<close> (\<open>browser_factory.rs\<close>): the task that drives the handler of the browser driver
    for a session, the signal that it has stopped, and that no request with a time-out hangs on it.
  \<^item> \<open>Grpc\<close>, \<open>Grpc_Props\<close>, \<open>Server_Auth\<close> (\<open>imauth-server\<close>): conversions to and from the wire, the
    services with the limit of concurrent logins, the API key interceptor and the start of the server.
  \<^item> \<open>Cli\<close> (\<open>imauth-cli\<close>): requests, output and exit of each command, the provider recorder.
  \<^item> \<open>Cdp_Command\<close>, \<open>Cdp_Network\<close>, \<open>Cdp_Network_Props\<close> (\<open>cmd.rs\<close>, \<open>handler/network.rs\<close>,
    \<open>handler/http.rs\<close>): command chains and the network manager of a target.
  \<^item> \<open>Cdp_Frame\<close>, \<open>Cdp_Frame_Tree\<close>, \<open>Cdp_Frame_Props\<close> (\<open>handler/frame.rs\<close>, \<open>handler/domworld.rs\<close>): the
    frame manager of a target and its navigations.
  \<^item> \<open>Cdp_Listeners\<close>, \<open>Cdp_Listeners_Props\<close> (\<open>listeners.rs\<close>): subscriptions to events and their delivery.
  \<^item> \<open>Cdp_Target\<close>, \<open>Cdp_Target_Props\<close> (\<open>handler/target.rs\<close>, \<open>handler/emulation.rs\<close>): a target with its
    initialisation, its managers and its poll.
  \<^item> \<open>Cdp_Handler\<close>, \<open>Cdp_Handler_Props\<close> (\<open>handler/mod.rs\<close>, \<open>conn.rs\<close>): the connection to the browser and
    the handler that routes commands, responses and events, one round of its poll at a time.
  \<^item> \<open>Cdp_Progress\<close>, \<open>Cdp_Liveness\<close> (\<open>handler/job.rs\<close> and the rounds of \<open>Cdp_Handler\<close>): what every
    step of a round keeps of the requests in flight, from the channel of the browser and from the pages alike, the
    periodic eviction, and that who asks the handler or an initialised page for something with a time-out is
    answered in time.
  \<^item> \<open>Cdp_Protocol\<close> (\<open>chromiumoxide_types\<close>): the JSON of calls, responses and events.
  \<^item> \<open>Cdp_Futures\<close> (\<open>handler/commandfuture.rs\<close>, \<open>handler/target_message_future.rs\<close>, \<open>handler/httpfuture.rs\<close>):
    the futures behind a command, a message to the target and a navigation, by their polls.
  \<^item> \<open>Cdp_Keys\<close>, \<open>Cdp_Layout\<close> (\<open>keys.rs\<close>, \<open>layout.rs\<close>): the keyboard table; points, quads and boxes.
  \<^item> \<open>Cdp_Ops\<close>, \<open>Cdp_Js\<close>, \<open>Cdp_Page\<close>, \<open>Cdp_Element\<close>, \<open>Cdp_Page_Api\<close>, \<open>Cdp_Page_Props\<close>, \<open>Cdp_Search_Props\<close>
    (\<open>handler/page.rs\<close>, \<open>page.rs\<close>, \<open>element.rs\<close>, \<open>js.rs\<close>, \<open>utils.rs\<close>): the methods of pages and elements as
    programs that send one operation at a time and go on with its answer, run against a browser that
    may answer anything; \<open>join_all\<close> and \<open>buffer_unordered\<close> with every schedule.
  \<^item> \<open>Cdp_Launch\<close>, \<open>Cdp_Launch_Props\<close>, \<open>Cdp_Browser\<close> (\<open>browser/\<close>, \<open>detection.rs\<close>): command-line switches,
    configuration, the address of a browser, its launch and clean-up, and the handle with its contexts.
  \<^item> \<open>Cdp_Process\<close> (\<open>async_process.rs\<close>, \<open>browser/mod.rs\<close>): the child process of a launched browser, how the
    handle waits for it, kills it and drops it, and that none outlives its handle.

  \<^bold>\<open>What is proved.\<close> A login reports success exactly for what it committed, never after its
  cancellation, sends its events in order and always ends; a commit is atomic, happens once and
  only for an open session; permits of browsers are neither shared nor lost and are released last;
  stored cookies, credentials and sessions are read back, whichever spelling of base64 they have;
  the error statuses of the handlers tell a client nothing of what failed inside (the message of a failed
  session does), the API key guards every service and the capacity for logins is exact; the client prints success only for a committed login. For the
  browser driver: commands go out in order and one at a time, credentials are offered once,
  requests are reported once, the frames of a page are a tree as long as its main frame is not
  detached, the navigations that find a main frame are taken up in order and answered once, a target sets up its page in order and never gets stuck, subscribers get their
  events, and the handler keeps its tables consistent, answers exactly the overdue callers and does
  not panic while the browser's messages respect what it relies on. Who asks it, or an
  initialised page, for something that it can answer by a time-out (not the creation of a page, a navigation or
  a wait for one, which it can leave waiting) has a reply by the first eviction beyond the request timeout, and
  on a pooled connection within twice that timeout and the length of a round, unless the connection is seen to
  be gone. The database
  is closed to other users of the machine once its pool is open. A launch that fails leaves no
  child process, every switch is passed once with all its values, cookies are deleted before they
  are set and never for a page without cookies, screenshots restore the page, clicks go strictly inside a
  visible quad, printable text is typed key by key, and concurrent searches give their elements in order,
  each as if it were alone, whatever the interleaving and whatever the answers depend on. A panic is the value \<open>None\<close> or \<open>PgPanic\<close>, so that these
  theorems also say where the code does not panic.

  \<^bold>\<open>Bounds and fuel.\<close> \<open>remove_frame\<close> and \<open>check_lifecycle\<close> recurse with \<open>frame_depth\<close>, one more than
  the number of frames, which \<open>remove_frame_pruned\<close> and \<open>check_lifecycle_total\<close> prove to be enough in
  every reachable state; the loops of a target and of the handler are total functions, whose
  measures (\<open>target_weight\<close>, \<open>conn_work\<close>) count the work that is left; \<open>run_timers\<close> of a login is bounded by the sum of its stages. Durations are
  natural numbers of nanoseconds, bounded where the source's arithmetic panics or saturates; the
  words of the source keep their width.

  \<^bold>\<open>Not modelled.\<close> The crates the workspace depends on (sqlx, tonic, aes_gcm, base64, chrono, url,
  figment, serde_json, futures) are parameters with the behaviour the code relies on as named
  hypotheses, or opaque values. Left out are the generated protocol types of the browser driver,
  of which only the fields that the sources use are kept, tracing output, and the build scripts. The scripts
  that are sent to the browser to hide the automation, to scroll and to set a page's contents go by
  their names. Coordinates are rational numbers and arithmetic on them is exact.
\<close>

end
